(* ===== verification/Prelude.thy ===== *)
theory Prelude
  imports "HOL-Library.Word"
begin

text \<open>
  Shared vocabulary of the development: the fixed-width integers of the C++ code, the
  errors a C++ operation can end in (exceptions, failed assertions and undefined
  behaviour alike), sequencing of operations that may fail, \<open>size_t\<close> subtraction with
  its wrap-around, and the list lemmas about overwriting a stretch of a buffer that the
  byte-array component uses throughout.
\<close>

section \<open>Integers\<close>

type_synonym u8 = "8 word"
type_synonym u16 = "16 word"
type_synonym u32 = "32 word"
type_synonym u64 = "64 word"

text \<open>
  A \<open>size_t\<close> is a natural number here; every subtraction of the code is written with
  \<open>ssub\<close>, which wraps modulo \<open>2 ^ 64\<close> as the C++ subtraction does.
\<close>

definition ssub :: "nat \<Rightarrow> nat \<Rightarrow> nat" where
  "ssub a b = (if b \<le> a then a - b else 2 ^ 64 - (b - a))"

lemma ssub_le [simp]: "b \<le> a \<Longrightarrow> ssub a b = a - b"
  by (simp add: ssub_def)

lemma unat_less: "unat (w :: 'a::len word) < 2 ^ LENGTH('a)"
  by (rule unsigned_less)

lemma unat_u8_less: "unat (b :: u8) < 256"
  using unat_less [of b] by simp

section \<open>Errors and sequencing\<close>

datatype error =
    Out_of_range        \<comment> \<open>\<open>std::out_of_range\<close>\<close>
  | Invalid_argument    \<comment> \<open>\<open>std::invalid_argument\<close>\<close>
  | Logic_error         \<comment> \<open>\<open>std::logic_error\<close>\<close>
  | Assert_failed       \<comment> \<open>\<open>assert\<close> aborts the process\<close>
  | Null_deref          \<comment> \<open>use of a null pointer\<close>
  | Heap_overflow       \<comment> \<open>access outside an allocated block\<close>
  | Uninit_read         \<comment> \<open>use of an indeterminate value\<close>
  | Div_by_zero         \<comment> \<open>integer division or remainder by zero\<close>
  | Undefined           \<comment> \<open>any other undefined behaviour\<close>

type_synonym 'a res = "error + 'a"

definition bindR :: "'a res \<Rightarrow> ('a \<Rightarrow> 'b res) \<Rightarrow> 'b res" where
  "bindR m f = (case m of Inl e \<Rightarrow> Inl e | Inr x \<Rightarrow> f x)"

definition ensureR :: "bool \<Rightarrow> error \<Rightarrow> 'a res \<Rightarrow> 'a res" where
  "ensureR b e m = (if b then m else Inl e)"

lemma bindR_simps [simp]:
  "bindR (Inl e) f = Inl e"
  "bindR (Inr x) f = f x"
  by (simp_all add: bindR_def)

lemma bindR_Inr_iff: "bindR m f = Inr y \<longleftrightarrow> (\<exists>x. m = Inr x \<and> f x = Inr y)"
  by (cases m) simp_all

lemma bindR_assoc: "bindR (bindR m f) g = bindR m (\<lambda>x. bindR (f x) g)"
  by (cases m) simp_all

lemma bindR_cong [fundef_cong]:
  "m = m' \<Longrightarrow> (\<And>x. m' = Inr x \<Longrightarrow> f x = f' x) \<Longrightarrow> bindR m f = bindR m' f'"
  by (cases m') simp_all

lemma ensureR_simps [simp]:
  "ensureR True e m = m"
  "ensureR False e m = Inl e"
  by (simp_all add: ensureR_def)

lemma ensureR_Inr_iff: "ensureR b e m = Inr y \<longleftrightarrow> b \<and> m = Inr y"
  by (simp add: ensureR_def)

lemmas res_simps = bindR_Inr_iff ensureR_Inr_iff bindR_assoc

definition is_ok :: "'a res \<Rightarrow> bool" where
  "is_ok m = (case m of Inl _ \<Rightarrow> False | Inr _ \<Rightarrow> True)"

lemma is_ok_simps [simp]: "\<not> is_ok (Inl e)" "is_ok (Inr x)"
  by (simp_all add: is_ok_def)

section \<open>Overwriting a stretch of a list\<close>

definition splice_at :: "'a list \<Rightarrow> nat \<Rightarrow> 'a list \<Rightarrow> 'a list" where
  "splice_at xs p ys = take p xs @ ys @ drop (p + length ys) xs"

lemma splice_at_Nil [simp]: "splice_at xs p [] = xs"
  by (simp add: splice_at_def)

lemma length_splice_at [simp]:
  "p + length ys \<le> length xs \<Longrightarrow> length (splice_at xs p ys) = length xs"
  by (simp add: splice_at_def)

lemma splice_at_append:
  "p + length ys + length zs \<le> length xs \<Longrightarrow>
   splice_at (splice_at xs p ys) (p + length ys) zs = splice_at xs p (ys @ zs)"
  by (simp add: splice_at_def ac_simps)

lemma splice_at_left:
  "p + length zs \<le> length xs \<Longrightarrow> splice_at (xs @ ys) p zs = splice_at xs p zs @ ys"
  by (simp add: splice_at_def)

lemma splice_at_right:
  "splice_at (xs @ ys) (length xs + p) zs = xs @ splice_at ys p zs"
  by (simp add: splice_at_def add.assoc)

lemma take_splice_at: "p \<le> length xs \<Longrightarrow> take p (splice_at xs p ys) = take p xs"
  by (simp add: splice_at_def)

lemma splice_at_append_grow:
  "p \<le> length xs \<Longrightarrow> take (p + length ys) (splice_at xs p ys) = take p xs @ ys"
  by (simp add: splice_at_def)

lemma take_splice_at_max:
  assumes "p \<le> n" and "n \<le> length xs" and "p + length ys \<le> length xs"
  shows "take (max n (p + length ys)) (splice_at xs p ys) = splice_at (take n xs) p ys"
proof (cases "ys = []")
  case True
  with assms show ?thesis by (simp add: max_absorb1)
next
  case False
  then have "p < p + length ys" by simp
  with assms show ?thesis
    by (cases "p + length ys \<le> n")
       (simp_all add: splice_at_def max_absorb1 max_absorb2 min_absorb2 take_drop)
qed

lemma map_splice_at: "map f (splice_at xs p ys) = splice_at (map f xs) p (map f ys)"
  by (simp add: splice_at_def take_map drop_map)

end
