(* ===== verification/Codec.thy ===== *)
theory Codec
  imports Prelude
begin

text \<open>
  Byte images of integers (\<open>acid/common/util.h\<close>) and the integer compressions of
  \<open>acid/common/byte_array.cpp\<close>: the zigzag transform of signed numbers and the base-128
  varint loops, as functions on words and byte lists. The lemmas are the round trips, the
  size bounds of the stack buffers \<open>tmp[5]\<close> and \<open>tmp[10]\<close>, and the arithmetic meaning
  of zigzag.
\<close>

unbundle bit_operations_syntax

section \<open>Memory images\<close>

fun le_bytes :: "nat \<Rightarrow> nat \<Rightarrow> u8 list" where
  "le_bytes 0 x = []"
| "le_bytes (Suc n) x = of_nat x # le_bytes n (x div 256)"

fun le_nat :: "u8 list \<Rightarrow> nat" where
  "le_nat [] = 0"
| "le_nat (b # bs) = unat b + 256 * le_nat bs"

text \<open>The host is little-endian (x86-64): \<open>std::endian::native\<close>.\<close>

datatype endian = Little | Big

definition native :: endian where
  "native = Little"

definition mem_bytes :: "'a::len word \<Rightarrow> u8 list" where
  "mem_bytes w = le_bytes (LENGTH('a) div 8) (unat w)"

definition word_of_mem :: "u8 list \<Rightarrow> 'a::len word" where
  "word_of_mem bs = of_nat (le_nat bs)"

definition byte_swap :: "'a::len word \<Rightarrow> 'a word res" where
  "byte_swap v =
     (if LENGTH('a) = 16 \<or> LENGTH('a) = 32 \<or> LENGTH('a) = 64
      then Inr (word_of_mem (rev (mem_bytes v))) else Inl Undefined)"

definition endian_cast :: "'a::len word \<Rightarrow> 'a word res" where
  "endian_cast v = (if LENGTH('a) = 8 \<or> native = Big then Inr v else byte_swap v)"

lemma length_le_bytes [simp]: "length (le_bytes n x) = n"
  by (induction n arbitrary: x) simp_all

lemma le_nat_bound: "le_nat bs < 256 ^ length bs"
proof (induction bs)
  case (Cons b bs)
  have "unat b < 256" by (rule unat_u8_less)
  with Cons show ?case by simp
qed simp

lemma le_nat_le_bytes: "le_nat (le_bytes n x) = x mod 256 ^ n"
proof (induction n arbitrary: x)
  case (Suc n)
  have "x mod 256 + 256 * (x div 256 mod 256 ^ n) = x mod (256 * 256 ^ n)"
    by (simp add: mod_mult2_eq)
  with Suc show ?case by (simp add: unat_of_nat)
qed simp

lemma le_bytes_le_nat: "le_bytes (length bs) (le_nat bs) = bs"
proof (induction bs)
  case (Cons b bs)
  have b: "unat b < 256" by (rule unat_u8_less)
  have z: "(256 :: u8) = 0" by simp
  have "(of_nat (unat b + 256 * le_nat bs) :: u8) = b"
    by (simp add: z)
  moreover have "(unat b + 256 * le_nat bs) div 256 = le_nat bs"
    using b by simp
  ultimately show ?case using Cons by simp
qed simp

lemma length_mem_bytes [simp]: "length (mem_bytes (w :: 'a::len word)) = LENGTH('a) div 8"
  by (simp add: mem_bytes_def)

lemma pow256: "8 dvd n \<Longrightarrow> (256::nat) ^ (n div 8) = 2 ^ n"
proof -
  assume "8 dvd n"
  then obtain k where "n = 8 * k" by (elim dvdE)
  then show ?thesis by (simp add: power_mult)
qed

lemma word_of_mem_bytes:
  "8 dvd LENGTH('a) \<Longrightarrow> word_of_mem (mem_bytes (w :: 'a::len word)) = w"
  using unat_less [of w]
  by (simp add: word_of_mem_def mem_bytes_def le_nat_le_bytes pow256)

lemma mem_bytes_of_mem:
  assumes "8 dvd LENGTH('a)" and "length bs = LENGTH('a) div 8"
  shows "mem_bytes (word_of_mem bs :: 'a::len word) = bs"
proof -
  have "le_nat bs < 2 ^ LENGTH('a)"
    using le_nat_bound [of bs] assms by (simp add: pow256)
  then have "unat (word_of_mem bs :: 'a word) = le_nat bs"
    by (simp add: word_of_mem_def unat_of_nat)
  then show ?thesis
    using le_bytes_le_nat [of bs] assms(2) by (simp add: mem_bytes_def)
qed

abbreviation swappable :: "'a::len itself \<Rightarrow> bool" where
  "swappable t \<equiv> LENGTH('a) = 16 \<or> LENGTH('a) = 32 \<or> LENGTH('a) = 64"

lemma byte_swap_Inr:
  "swappable TYPE('a::len) \<Longrightarrow>
   byte_swap (v :: 'a word) = Inr (word_of_mem (rev (mem_bytes v)))"
  by (auto simp: byte_swap_def)

lemma mem_bytes_swap:
  assumes "swappable TYPE('a::len)"
  shows "mem_bytes (word_of_mem (rev (mem_bytes (v :: 'a word))) :: 'a word) = rev (mem_bytes v)"
  using assms by (intro mem_bytes_of_mem) auto

theorem byte_swap_twice:
  assumes "swappable TYPE('a::len)"
  shows "bindR (byte_swap (v :: 'a word)) byte_swap = Inr v"
  using assms by (auto simp: byte_swap_Inr mem_bytes_swap word_of_mem_bytes)

section \<open>Zigzag\<close>

definition encode_zigzag32 :: "u32 \<Rightarrow> u32" where
  "encode_zigzag32 value = (push_bit 1 value) XOR (signed_drop_bit 31 value)"

definition encode_zigzag64 :: "u64 \<Rightarrow> u64" where
  "encode_zigzag64 value = (push_bit 1 value) XOR (signed_drop_bit 63 value)"

definition decode_zigzag32 :: "u32 \<Rightarrow> u32" where
  "decode_zigzag32 value = (drop_bit 1 value) XOR (- (value AND 1))"

definition decode_zigzag64 :: "u64 \<Rightarrow> u64" where
  "decode_zigzag64 value = (drop_bit 1 value) XOR (- (value AND 1))"

lemma neg_and_1: "- (x AND 1 :: 'a::len word) = (if bit x 0 then - 1 else 0)"
  by (simp add: and_one_eq bit_0 odd_iff_mod_2_eq_one even_iff_mod_2_eq_zero)

lemma zigzag_generic:
  fixes v :: "'a::len word"
  assumes "LENGTH('a) = Suc n"
  shows "(drop_bit 1 (push_bit 1 v XOR signed_drop_bit n v)) XOR
         (- ((push_bit 1 v XOR signed_drop_bit n v) AND 1)) = v"
proof (rule bit_word_eqI)
  fix i assume i: "i < LENGTH('a)"
  define p where "p = push_bit 1 v"
  have p: "bit p k \<longleftrightarrow> 0 < k \<and> k < LENGTH('a) \<and> bit v (k - 1)" for k
    unfolding p_def bit_push_bit_iff by (auto simp: Suc_le_eq)
  have sgn: "bit (p XOR signed_drop_bit n v) 0 = bit v n"
    using assms by (simp add: bit_xor_iff bit_signed_drop_bit_iff p)
  show "bit ((drop_bit 1 (push_bit 1 v XOR signed_drop_bit n v)) XOR
         (- ((push_bit 1 v XOR signed_drop_bit n v) AND 1))) i = bit v i"
    using i assms unfolding p_def [symmetric] neg_and_1 sgn
    by (auto simp: bit_simps p less_Suc_eq dest: bit_imp_le_length)
qed

lemma decode_encode_zigzag32: "decode_zigzag32 (encode_zigzag32 v) = v"
  unfolding decode_zigzag32_def encode_zigzag32_def
  by (rule zigzag_generic) simp

lemma decode_encode_zigzag64: "decode_zigzag64 (encode_zigzag64 v) = v"
  unfolding decode_zigzag64_def encode_zigzag64_def
  by (rule zigzag_generic) simp

text \<open>
  What the transform computes: the sign moves to the lowest bit, so numbers of small
  magnitude of either sign get small codes.
\<close>

lemma zigzag_word:
  fixes v :: "'a::len word"
  assumes "LENGTH('a) = Suc n"
  shows "push_bit 1 v XOR signed_drop_bit n v = (if bit v n then - (2 * v) - 1 else 2 * v)"
proof -
  have "signed_drop_bit n v = (if bit v n then - 1 else 0)"
    by (rule bit_word_eqI) (use assms in \<open>auto simp: bit_simps less_Suc_eq Suc_le_eq dest: bit_imp_le_length\<close>)
  then show ?thesis
    by (simp add: not_eq_complement mult.commute)
qed

lemma sint_bit_neg: "LENGTH('a) = Suc n \<Longrightarrow> bit (v :: 'a::len word) n \<longleftrightarrow> sint v < 0"
  by (simp add: bit_last_iff [symmetric])

lemma encode_zigzag32_value:
  "int (unat (encode_zigzag32 v)) = (if sint v < 0 then - 2 * sint v - 1 else 2 * sint v)"
proof -
  have neg: "bit v 31 \<longleftrightarrow> sint v < 0" by (rule sint_bit_neg) simp
  have rng: "- (2 ^ 31) \<le> sint v" "sint v < 2 ^ 31"
    using sint_ge [of v] sint_lt [of v] by simp_all
  have v: "v = word_of_int (sint v)" by simp
  have "encode_zigzag32 v =
      word_of_int (if sint v < 0 then - 2 * sint v - 1 else 2 * sint v)"
    unfolding encode_zigzag32_def using zigzag_word [of 31 v] neg by (subst v) simp
  moreover have "uint (word_of_int k :: u32) = k" if "0 \<le> k" "k < 2 ^ 32" for k
    using that by (simp add: uint_word_of_int)
  ultimately show ?thesis using rng by (simp add: unsigned_of_int)
qed

section \<open>Varint\<close>

text \<open>
  The loop \<open>while (value >= 0x80) { tmp[i++] = (value & 0x7F) | 0x80; value >>= 7; }\<close>
  and the final \<open>tmp[i++] = value\<close>, shared by the 32- and the 64-bit writer: the bytes
  it leaves in \<open>tmp\<close>.
\<close>

lemma unat_drop7: "unat (drop_bit 7 v) = unat v div 128"
  by (subst unat_drop_bit_eq) (simp add: drop_bit_eq_div)

function var_bytes :: "'a::len word \<Rightarrow> u8 list" where
  "var_bytes v =
     (if 0x80 \<le> unat v then ucast ((v AND 0x7F) OR 0x80) # var_bytes (drop_bit 7 v)
      else [ucast v])"
  by pat_completeness auto
termination
proof (relation "measure unat")
  fix v :: "'a word"
  assume "0x80 \<le> unat v"
  then show "(drop_bit 7 v, v) \<in> measure unat"
    unfolding in_measure unat_drop7 by linarith
qed simp

declare var_bytes.simps [simp del]

lemma length_var_bytes: "unat v < 128 ^ Suc k \<Longrightarrow> length (var_bytes v) \<le> Suc k"
proof (induction k arbitrary: v)
  case 0
  then show ?case by (simp add: var_bytes.simps [of v])
next
  case (Suc k)
  have "unat (drop_bit 7 v) < 128 ^ Suc k"
    using Suc.prems unfolding unat_drop7 by (simp add: less_mult_imp_div_less)
  from Suc.IH [OF this] show ?case by (simp add: var_bytes.simps [of v])
qed

lemma var_bytes_nonempty: "var_bytes v \<noteq> []"
  by (simp add: var_bytes.simps [of v])

text \<open>The stack buffers of the two writers are large enough.\<close>

lemma length_var_bytes32: "length (var_bytes (v :: u32)) \<le> 5"
  using length_var_bytes [of v 4] unat_less [of v] by simp

lemma length_var_bytes64: "length (var_bytes (v :: u64)) \<le> 10"
  using length_var_bytes [of v 9] unat_less [of v] by simp

text \<open>Small magnitudes have short codes.\<close>

lemma zigzag_small:
  assumes "- 64 \<le> sint v" "sint v < 64"
  shows "length (var_bytes (encode_zigzag32 v)) = 1"
proof -
  have "int (unat (encode_zigzag32 v)) < 128"
    unfolding encode_zigzag32_value using assms by simp
  then have "\<not> 0x80 \<le> unat (encode_zigzag32 v)" by linarith
  then show ?thesis by (subst var_bytes.simps) simp
qed

end
