(* ===== verification/ByteArray.thy ===== *)
theory ByteArray
  imports Codec
begin

text \<open>
  The byte array of \<open>acid/common/byte_array.h\<close> and \<open>acid/common/byte_array.cpp\<close>: a linked
  list of equally sized blocks with one cursor, into which integers, floats and strings are
  serialised and from which they are read back. The blocks reachable from \<open>m_root\<close> by
  \<open>next\<close> are the list \<open>m_nodes\<close>; \<open>m_cur\<close> is an index into it, \<open>None\<close> for the null
  pointer. A byte of a block that was allocated but never written is \<open>None\<close>. An iovec is
  the triple (block, offset, length). The theory holds the operations; what they guarantee
  is in \<open>ByteArray_Spec\<close>.
\<close>

section \<open>State\<close>

datatype node = Node (n_data: "u8 option list")

definition n_size :: "node \<Rightarrow> nat" where
  "n_size nd = length (n_data nd)"

definition new_node :: "nat \<Rightarrow> node" where
  "new_node sz = Node (replicate sz None)"

record byte_array =
  m_base_size :: nat
  m_position :: nat
  m_capacity :: nat
  m_size :: nat
  m_endian :: endian
  m_nodes :: "node list"
  m_cur :: "nat option"

definition byte_array_new :: "nat \<Rightarrow> endian \<Rightarrow> byte_array" where
  "byte_array_new base_size en =
     \<lparr>m_base_size = base_size, m_position = 0, m_capacity = base_size, m_size = 0,
      m_endian = en, m_nodes = [new_node base_size], m_cur = Some 0\<rparr>"

text \<open>The default arguments of the constructor.\<close>

definition byte_array_default :: byte_array where
  "byte_array_default = byte_array_new 4096 Big"

definition next_node :: "node list \<Rightarrow> nat \<Rightarrow> nat option" where
  "next_node nodes c = (if Suc c < length nodes then Some (Suc c) else None)"

definition deref :: "node list \<Rightarrow> nat option \<Rightarrow> (nat \<times> node) res" where
  "deref nodes cur =
     (case cur of None \<Rightarrow> Inl Null_deref
      | Some c \<Rightarrow> if c < length nodes then Inr (c, nodes ! c) else Inl Undefined)"

definition node_store :: "node \<Rightarrow> nat \<Rightarrow> u8 list \<Rightarrow> node res" where
  "node_store nd off bs =
     (if off + length bs \<le> n_size nd
      then Inr (Node (splice_at (n_data nd) off (map Some bs))) else Inl Heap_overflow)"

definition node_load :: "node \<Rightarrow> nat \<Rightarrow> nat \<Rightarrow> u8 option list res" where
  "node_load nd off n =
     (if off + n \<le> n_size nd then Inr (take n (drop off (n_data nd))) else Inl Heap_overflow)"

definition get_capacity :: "byte_array \<Rightarrow> nat" where
  "get_capacity ba = ssub (m_capacity ba) (m_position ba)"

definition get_read_size :: "byte_array \<Rightarrow> nat" where
  "get_read_size ba = ssub (m_size ba) (m_position ba)"

definition is_little_endian :: "byte_array \<Rightarrow> bool" where
  "is_little_endian ba \<longleftrightarrow> m_endian ba = Little"

definition set_is_little_endian :: "byte_array \<Rightarrow> bool \<Rightarrow> byte_array" where
  "set_is_little_endian ba is_little =
     (if is_little then ba\<lparr>m_endian := Little\<rparr> else ba\<lparr>m_endian := Big\<rparr>)"

section \<open>Capacity, writing, reading, seeking\<close>

definition add_capacity :: "byte_array \<Rightarrow> nat \<Rightarrow> byte_array res" where
  "add_capacity ba sz =
     (if sz = 0 then Inr ba
      else let old_capacity = get_capacity ba in
        if old_capacity > sz then Inr ba
        else ensureR (m_base_size ba \<noteq> 0) Div_by_zero (
          let size' = sz - old_capacity;
              count = (size' + m_base_size ba - 1) div m_base_size ba;
              first = (if count = 0 then None else Some (length (m_nodes ba)));
              ba' = ba\<lparr>m_nodes := m_nodes ba @ replicate count (new_node (m_base_size ba)),
                       m_capacity := m_capacity ba + count * m_base_size ba\<rparr>
          in Inr (if old_capacity = 0 then ba'\<lparr>m_cur := first\<rparr> else ba')))"

text \<open>The copy loop of \<open>write\<close>: state is (blocks, cursor, position), the arguments the
  locals \<open>npos\<close>, \<open>ncap\<close> and the part of the buffer still to be copied.\<close>

function write_loop ::
  "node list \<Rightarrow> nat option \<Rightarrow> nat \<Rightarrow> nat \<Rightarrow> u8 list \<Rightarrow> nat \<Rightarrow>
   (node list \<times> nat option \<times> nat) res" where
  "write_loop nodes cur npos ncap buf pos =
     (if buf = [] then Inr (nodes, cur, pos)
      else bindR (deref nodes cur) (\<lambda>(c, nd).
        if length buf \<le> ncap then
          bindR (node_store nd npos buf) (\<lambda>nd'.
            Inr (nodes[c := nd'],
                 (if ncap = length buf then next_node nodes c else Some c),
                 pos + length buf))
        else
          bindR (node_store nd npos (take ncap buf)) (\<lambda>nd'.
            bindR (deref (nodes[c := nd']) (next_node nodes c)) (\<lambda>(c', nx).
              write_loop (nodes[c := nd']) (Some c') 0 (n_size nx) (drop ncap buf)
                (pos + ncap)))))"
  by pat_completeness auto
termination
  by (relation "measure (\<lambda>(nodes, cur, _). case cur of None \<Rightarrow> 0 | Some c \<Rightarrow> length nodes - c)")
     (auto simp: deref_def next_node_def split: option.splits if_splits)

declare write_loop.simps [simp del]

definition ba_write :: "byte_array \<Rightarrow> u8 list \<Rightarrow> byte_array res" where
  "ba_write ba buf =
     (if buf = [] then Inr ba
      else bindR (add_capacity ba (length buf)) (\<lambda>ba.
        ensureR (m_base_size ba \<noteq> 0) Div_by_zero (
          let npos = m_position ba mod m_base_size ba in
          bindR (deref (m_nodes ba) (m_cur ba)) (\<lambda>(c, nd).
            bindR (write_loop (m_nodes ba) (m_cur ba) npos (ssub (n_size nd) npos) buf
                     (m_position ba)) (\<lambda>(nodes, cur, pos).
              Inr (ba\<lparr>m_nodes := nodes, m_cur := cur, m_position := pos,
                      m_size := (if pos > m_size ba then pos else m_size ba)\<rparr>))))))"

text \<open>The copy loop shared by the two \<open>read\<close> functions; the cursor and the position it
  ends at are used by the first only.\<close>

function read_loop ::
  "node list \<Rightarrow> nat option \<Rightarrow> nat \<Rightarrow> nat \<Rightarrow> nat \<Rightarrow> nat \<Rightarrow> u8 option list \<Rightarrow>
   (u8 option list \<times> nat option \<times> nat) res" where
  "read_loop nodes cur npos ncap sz pos out =
     (if sz = 0 then Inr (out, cur, pos)
      else bindR (deref nodes cur) (\<lambda>(c, nd).
        if sz \<le> ncap then
          bindR (node_load nd npos sz) (\<lambda>cs.
            Inr (out @ cs, (if ncap = sz then next_node nodes c else Some c), pos + sz))
        else
          bindR (node_load nd npos ncap) (\<lambda>cs.
            bindR (deref nodes (next_node nodes c)) (\<lambda>(c', nx).
              read_loop nodes (Some c') 0 (n_size nx) (sz - ncap) (pos + ncap)
                (out @ cs)))))"
  by pat_completeness auto
termination
  by (relation "measure (\<lambda>(nodes, cur, _). case cur of None \<Rightarrow> 0 | Some c \<Rightarrow> length nodes - c)")
     (auto simp: deref_def next_node_def split: option.splits if_splits)

declare read_loop.simps [simp del]

text \<open>
  \<open>read(buffer, size)\<close>. The first \<open>ncap\<close> is computed from \<open>m_position\<close>, not from the
  offset in the block.
\<close>

definition ba_read :: "byte_array \<Rightarrow> nat \<Rightarrow> (u8 option list \<times> byte_array) res" where
  "ba_read ba sz =
     ensureR (sz \<le> get_read_size ba) Out_of_range (
     ensureR (m_base_size ba \<noteq> 0) Div_by_zero (
       let npos = m_position ba mod m_base_size ba in
       bindR (deref (m_nodes ba) (m_cur ba)) (\<lambda>(c, nd).
         bindR (read_loop (m_nodes ba) (m_cur ba) npos (ssub (n_size nd) (m_position ba)) sz
                  (m_position ba) []) (\<lambda>(cs, cur, pos).
           Inr (cs, ba\<lparr>m_cur := cur, m_position := pos\<rparr>)))))"

text \<open>\<open>read(buffer, size, position) const\<close>, which starts at \<open>m_cur\<close> whatever \<open>position\<close> is.\<close>

definition ba_read_at :: "byte_array \<Rightarrow> nat \<Rightarrow> nat \<Rightarrow> u8 option list res" where
  "ba_read_at ba sz position =
     ensureR (sz \<le> ssub (m_size ba) position) Out_of_range (
     ensureR (m_base_size ba \<noteq> 0) Div_by_zero (
       let npos = position mod m_base_size ba in
       bindR (deref (m_nodes ba) (m_cur ba)) (\<lambda>(c, nd).
         bindR (read_loop (m_nodes ba) (m_cur ba) npos (ssub (n_size nd) npos) sz position [])
           (\<lambda>(cs, cur, pos). Inr cs))))"

function seek_loop :: "node list \<Rightarrow> nat option \<Rightarrow> nat \<Rightarrow> nat option res" where
  "seek_loop nodes cur pos =
     bindR (deref nodes cur) (\<lambda>(c, nd).
       if n_size nd < pos then seek_loop nodes (next_node nodes c) (pos - n_size nd)
       else Inr (if pos = n_size nd then next_node nodes c else Some c))"
  by pat_completeness auto
termination
  by (relation "measure (\<lambda>(nodes, cur, _). case cur of None \<Rightarrow> 0 | Some c \<Rightarrow> length nodes - c)")
     (auto simp: deref_def next_node_def split: option.splits if_splits)

declare seek_loop.simps [simp del]

definition set_position :: "byte_array \<Rightarrow> nat \<Rightarrow> byte_array res" where
  "set_position ba pos =
     ensureR (pos \<le> m_capacity ba) Out_of_range (
       bindR (seek_loop (m_nodes ba) (Some 0) pos) (\<lambda>cur.
         Inr (ba\<lparr>m_position := pos, m_size := (if pos > m_size ba then pos else m_size ba),
                 m_cur := cur\<rparr>)))"

definition clear :: "byte_array \<Rightarrow> byte_array" where
  "clear ba = ba\<lparr>m_position := 0, m_size := 0, m_capacity := m_base_size ba,
                 m_nodes := take 1 (m_nodes ba), m_cur := Some 0\<rparr>"

section \<open>Fixed-width integers and floats\<close>

definition write_fix_int :: "byte_array \<Rightarrow> 'a::len word \<Rightarrow> byte_array res" where
  "write_fix_int ba value =
     bindR (if m_endian ba \<noteq> native then byte_swap value else Inr value) (\<lambda>value.
       ba_write ba (mem_bytes value))"

definition write_fix_int8 :: "byte_array \<Rightarrow> u8 \<Rightarrow> byte_array res" where
  "write_fix_int8 ba value = ba_write ba (mem_bytes value)"

definition write_fix_uint8 :: "byte_array \<Rightarrow> u8 \<Rightarrow> byte_array res" where
  "write_fix_uint8 ba value = ba_write ba (mem_bytes value)"

definition write_fix_int16 :: "byte_array \<Rightarrow> u16 \<Rightarrow> byte_array res" where
  "write_fix_int16 ba value = write_fix_int ba value"

definition write_fix_uint16 :: "byte_array \<Rightarrow> u16 \<Rightarrow> byte_array res" where
  "write_fix_uint16 ba value = write_fix_int ba value"

definition write_fix_int32 :: "byte_array \<Rightarrow> u32 \<Rightarrow> byte_array res" where
  "write_fix_int32 ba value = write_fix_int ba value"

definition write_fix_uint32 :: "byte_array \<Rightarrow> u32 \<Rightarrow> byte_array res" where
  "write_fix_uint32 ba value = write_fix_int ba value"

definition write_fix_int64 :: "byte_array \<Rightarrow> u64 \<Rightarrow> byte_array res" where
  "write_fix_int64 ba value = write_fix_int ba value"

definition write_fix_uint64 :: "byte_array \<Rightarrow> u64 \<Rightarrow> byte_array res" where
  "write_fix_uint64 ba value = write_fix_int ba value"

text \<open>Using bytes that were never written is an error of its own.\<close>

definition definite :: "u8 option list \<Rightarrow> u8 list res" where
  "definite cs = (if None \<in> set cs then Inl Uninit_read else Inr (map the cs))"

definition read_raw :: "byte_array \<Rightarrow> nat \<Rightarrow> (u8 list \<times> byte_array) res" where
  "read_raw ba n = bindR (ba_read ba n) (\<lambda>(cs, ba). bindR (definite cs) (\<lambda>bs. Inr (bs, ba)))"

definition read_fix_uint8 :: "byte_array \<Rightarrow> (u8 \<times> byte_array) res" where
  "read_fix_uint8 ba = bindR (read_raw ba 1) (\<lambda>(bs, ba). Inr (word_of_mem bs, ba))"

definition read_fix_int8 :: "byte_array \<Rightarrow> (u8 \<times> byte_array) res" where
  "read_fix_int8 ba = bindR (read_raw ba 1) (\<lambda>(bs, ba). Inr (word_of_mem bs, ba))"

text \<open>The macro \<open>XX(type)\<close>.\<close>

definition read_fix_xx :: "byte_array \<Rightarrow> ('a::len word \<times> byte_array) res" where
  "read_fix_xx ba =
     bindR (read_raw ba (LENGTH('a) div 8)) (\<lambda>(bs, ba).
       if m_endian ba = native then Inr (word_of_mem bs, ba)
       else bindR (byte_swap (word_of_mem bs)) (\<lambda>v. Inr (v, ba)))"

definition read_fix_int16 :: "byte_array \<Rightarrow> (u16 \<times> byte_array) res" where
  "read_fix_int16 ba = read_fix_xx ba"

definition read_fix_uint16 :: "byte_array \<Rightarrow> (u16 \<times> byte_array) res" where
  "read_fix_uint16 ba = read_fix_xx ba"

definition read_fix_int32 :: "byte_array \<Rightarrow> (u32 \<times> byte_array) res" where
  "read_fix_int32 ba = read_fix_xx ba"

definition read_fix_uint32 :: "byte_array \<Rightarrow> (u32 \<times> byte_array) res" where
  "read_fix_uint32 ba = read_fix_xx ba"

definition read_fix_int64 :: "byte_array \<Rightarrow> (u64 \<times> byte_array) res" where
  "read_fix_int64 ba = read_fix_xx ba"

definition read_fix_uint64 :: "byte_array \<Rightarrow> (u64 \<times> byte_array) res" where
  "read_fix_uint64 ba = read_fix_xx ba"

text \<open>Floats travel as their IEEE bit patterns (\<open>memcpy\<close> into an integer and back).\<close>

definition write_float :: "byte_array \<Rightarrow> u32 \<Rightarrow> byte_array res" where
  "write_float ba bits = write_fix_uint32 ba bits"

definition write_double :: "byte_array \<Rightarrow> u64 \<Rightarrow> byte_array res" where
  "write_double ba bits = write_fix_uint64 ba bits"

definition read_float :: "byte_array \<Rightarrow> (u32 \<times> byte_array) res" where
  "read_float ba = read_fix_uint32 ba"

definition read_double :: "byte_array \<Rightarrow> (u64 \<times> byte_array) res" where
  "read_double ba = read_fix_uint64 ba"

section \<open>Compressed integers\<close>

definition write_var_uint32 :: "byte_array \<Rightarrow> u32 \<Rightarrow> byte_array res" where
  "write_var_uint32 ba value = ba_write ba (var_bytes value)"

definition write_var_int32 :: "byte_array \<Rightarrow> u32 \<Rightarrow> byte_array res" where
  "write_var_int32 ba value = write_var_uint32 ba (encode_zigzag32 value)"

definition write_var_uint64 :: "byte_array \<Rightarrow> u64 \<Rightarrow> byte_array res" where
  "write_var_uint64 ba value = ba_write ba (var_bytes value)"

definition write_var_int64 :: "byte_array \<Rightarrow> u64 \<Rightarrow> byte_array res" where
  "write_var_int64 ba value = write_var_uint64 ba (encode_zigzag64 value)"

text \<open>The loop \<open>for (int i = 0; i < width; i += 7)\<close> of the two unsigned readers.\<close>

function read_var_loop ::
  "nat \<Rightarrow> 'a::len word \<Rightarrow> byte_array \<Rightarrow> ('a word \<times> byte_array) res" where
  "read_var_loop i result ba =
     (if i < LENGTH('a) then
        bindR (read_fix_uint8 ba) (\<lambda>(tmp, ba).
          if tmp < 0x80 then Inr (result OR push_bit i (ucast tmp), ba)
          else read_var_loop (i + 7) (result OR push_bit i (ucast (tmp AND 0x7F))) ba)
      else Inr (result, ba))"
  by pat_completeness auto
termination
  by (relation "measure (\<lambda>(i, result :: 'a word, ba). LENGTH('a) - i)") auto

declare read_var_loop.simps [simp del]

definition read_var_uint32 :: "byte_array \<Rightarrow> (u32 \<times> byte_array) res" where
  "read_var_uint32 ba = read_var_loop 0 0 ba"

definition read_var_int32 :: "byte_array \<Rightarrow> (u32 \<times> byte_array) res" where
  "read_var_int32 ba = bindR (read_var_uint32 ba) (\<lambda>(v, ba). Inr (decode_zigzag32 v, ba))"

definition read_var_uint64 :: "byte_array \<Rightarrow> (u64 \<times> byte_array) res" where
  "read_var_uint64 ba = read_var_loop 0 0 ba"

definition read_var_int64 :: "byte_array \<Rightarrow> (u64 \<times> byte_array) res" where
  "read_var_int64 ba = bindR (read_var_uint64 ba) (\<lambda>(v, ba). Inr (decode_zigzag64 v, ba))"

section \<open>Strings\<close>

type_synonym bytes = "u8 list"

definition write_string_f16 :: "byte_array \<Rightarrow> bytes \<Rightarrow> byte_array res" where
  "write_string_f16 ba value =
     bindR (write_fix_uint16 ba (of_nat (length value))) (\<lambda>ba. ba_write ba value)"

definition write_string_f32 :: "byte_array \<Rightarrow> bytes \<Rightarrow> byte_array res" where
  "write_string_f32 ba value =
     bindR (write_fix_uint32 ba (of_nat (length value))) (\<lambda>ba. ba_write ba value)"

definition write_string_f64 :: "byte_array \<Rightarrow> bytes \<Rightarrow> byte_array res" where
  "write_string_f64 ba value =
     bindR (write_fix_uint64 ba (of_nat (length value))) (\<lambda>ba. ba_write ba value)"

definition write_string_vint :: "byte_array \<Rightarrow> bytes \<Rightarrow> byte_array res" where
  "write_string_vint ba value =
     bindR (write_var_uint64 ba (of_nat (length value))) (\<lambda>ba. ba_write ba value)"

definition write_string_without_length :: "byte_array \<Rightarrow> bytes \<Rightarrow> byte_array res" where
  "write_string_without_length ba value = ba_write ba value"

definition read_string_f16 :: "byte_array \<Rightarrow> (bytes \<times> byte_array) res" where
  "read_string_f16 ba = bindR (read_fix_uint16 ba) (\<lambda>(len, ba). read_raw ba (unat len))"

definition read_string_f32 :: "byte_array \<Rightarrow> (bytes \<times> byte_array) res" where
  "read_string_f32 ba = bindR (read_fix_uint32 ba) (\<lambda>(len, ba). read_raw ba (unat len))"

definition read_string_f64 :: "byte_array \<Rightarrow> (bytes \<times> byte_array) res" where
  "read_string_f64 ba = bindR (read_fix_uint64 ba) (\<lambda>(len, ba). read_raw ba (unat len))"

definition read_string_vint :: "byte_array \<Rightarrow> (bytes \<times> byte_array) res" where
  "read_string_vint ba = bindR (read_var_uint64 ba) (\<lambda>(len, ba). read_raw ba (unat len))"

definition to_string :: "byte_array \<Rightarrow> u8 option list res" where
  "to_string ba =
     (if get_read_size ba = 0 then Inr [] else ba_read_at ba (get_read_size ba) (m_position ba))"

section \<open>Scatter/gather views\<close>

type_synonym iovec = "nat \<times> nat \<times> nat"

text \<open>
  The loop shared by the three functions. The branch \<open>ncap >= len\<close> fills \<open>iov\<close> and then
  breaks before the \<open>push_back\<close>, so the last piece is not recorded.
\<close>

function iov_loop ::
  "node list \<Rightarrow> nat option \<Rightarrow> nat \<Rightarrow> nat \<Rightarrow> nat \<Rightarrow> iovec list \<Rightarrow> iovec list res" where
  "iov_loop nodes cur npos ncap len buffers =
     (if len = 0 then Inr buffers
      else if len \<le> ncap then bindR (deref nodes cur) (\<lambda>_. Inr buffers)
      else bindR (deref nodes cur) (\<lambda>(c, nd).
        bindR (deref nodes (next_node nodes c)) (\<lambda>(c', nx).
          iov_loop nodes (Some c') 0 (n_size nx) (len - ncap) (buffers @ [(c, npos, ncap)]))))"
  by pat_completeness auto
termination
  by (relation "measure (\<lambda>(nodes, cur, _). case cur of None \<Rightarrow> 0 | Some c \<Rightarrow> length nodes - c)")
     (auto simp: deref_def next_node_def split: option.splits if_splits)

declare iov_loop.simps [simp del]

definition get_read_buffers :: "byte_array \<Rightarrow> nat \<Rightarrow> (nat \<times> iovec list) res" where
  "get_read_buffers ba len =
     (let len = (if len > get_read_size ba then get_read_size ba else len) in
      if len = 0 then Inr (0, [])
      else ensureR (m_base_size ba \<noteq> 0) Div_by_zero (
        let npos = m_position ba mod m_base_size ba in
        bindR (deref (m_nodes ba) (m_cur ba)) (\<lambda>(c, nd).
          bindR (iov_loop (m_nodes ba) (m_cur ba) npos (ssub (n_size nd) npos) len [])
            (\<lambda>bufs. Inr (len, bufs)))))"

fun skip_nodes :: "node list \<Rightarrow> nat option \<Rightarrow> nat \<Rightarrow> nat option res" where
  "skip_nodes nodes cur 0 = Inr cur"
| "skip_nodes nodes cur (Suc count) =
     bindR (deref nodes cur) (\<lambda>(c, nd). skip_nodes nodes (next_node nodes c) count)"

definition get_read_buffers_at :: "byte_array \<Rightarrow> nat \<Rightarrow> nat \<Rightarrow> (nat \<times> iovec list) res" where
  "get_read_buffers_at ba len position =
     (let len = (if len > get_read_size ba then get_read_size ba else len) in
      if len = 0 then Inr (0, [])
      else ensureR (m_base_size ba \<noteq> 0) Div_by_zero (
        let npos = position mod m_base_size ba in
        bindR (skip_nodes (m_nodes ba) (m_cur ba) (position div m_base_size ba)) (\<lambda>cur.
          bindR (deref (m_nodes ba) cur) (\<lambda>(c, nd).
            bindR (iov_loop (m_nodes ba) cur npos (ssub (n_size nd) npos) len [])
              (\<lambda>bufs. Inr (len, bufs))))))"

definition get_write_buffers :: "byte_array \<Rightarrow> nat \<Rightarrow> (nat \<times> iovec list \<times> byte_array) res" where
  "get_write_buffers ba len =
     (if len = 0 then Inr (0, [], ba)
      else bindR (add_capacity ba len) (\<lambda>ba.
        ensureR (m_base_size ba \<noteq> 0) Div_by_zero (
          let npos = m_position ba mod m_base_size ba in
          bindR (deref (m_nodes ba) (m_cur ba)) (\<lambda>(c, nd).
            bindR (iov_loop (m_nodes ba) (m_cur ba) npos (ssub (n_size nd) npos) len [])
              (\<lambda>bufs. Inr (len, bufs, ba))))))"

section \<open>Files and hexadecimal\<close>

text \<open>
  \<open>write_to_file\<close>: \<open>opened\<close> says whether the file could be opened; the result is
  \<open>None\<close> when it could not, else what has been written. The lengths are signed in the
  code; a negative one is outside what \<open>ofstream::write\<close> accepts.
\<close>

function file_loop ::
  "node list \<Rightarrow> nat option \<Rightarrow> int \<Rightarrow> int \<Rightarrow> int \<Rightarrow> u8 option list \<Rightarrow> u8 option list res" where
  "file_loop nodes cur base read_size pos out =
     (if read_size > 0 then
        let diff = pos mod base;
            len = (if read_size > base then base else read_size) - diff in
        ensureR (0 \<le> len) Undefined (
          bindR (deref nodes cur) (\<lambda>(c, nd).
            bindR (node_load nd (nat diff) (nat len)) (\<lambda>cs.
              file_loop nodes (next_node nodes c) base (read_size - len) (pos + len) (out @ cs))))
      else Inr out)"
  by pat_completeness auto
termination
proof (relation "measure (\<lambda>(nodes, cur, _). case cur of None \<Rightarrow> 0 | Some c \<Rightarrow> Suc (length nodes) - c)")
qed (auto simp: deref_def next_node_def split: option.splits if_splits)

declare file_loop.simps [simp del]

definition write_to_file :: "byte_array \<Rightarrow> bool \<Rightarrow> u8 option list option res" where
  "write_to_file ba opened =
     (if \<not> opened then Inr None
      else ensureR (m_base_size ba \<noteq> 0 \<or> get_read_size ba = 0) Div_by_zero (
        bindR (file_loop (m_nodes ba) (m_cur ba) (int (m_base_size ba)) (int (get_read_size ba))
                 (int (m_position ba)) []) (\<lambda>out. Inr (Some out))))"

text \<open>
  \<open>read_from_file\<close>: \<open>file\<close> is the content of the file, \<open>None\<close> when it cannot be opened.
  The stream reaches its end at the first short read. With blocks of size 0 every read is
  complete and the loop does not return, which is the outer \<open>None\<close>.
\<close>

function file_chunks :: "nat \<Rightarrow> u8 list \<Rightarrow> u8 list list" where
  "file_chunks base file =
     (if length file < base \<or> base = 0 then [file]
      else take base file # file_chunks base (drop base file))"
  by pat_completeness auto
termination by (relation "measure (\<lambda>(base, file). length file)") auto

declare file_chunks.simps [simp del]

fun write_chunks :: "byte_array \<Rightarrow> u8 list list \<Rightarrow> byte_array res" where
  "write_chunks ba [] = Inr ba"
| "write_chunks ba (c # cs) = bindR (ba_write ba c) (\<lambda>ba. write_chunks ba cs)"

definition read_from_file :: "byte_array \<Rightarrow> u8 list option \<Rightarrow> (bool \<times> byte_array) res option" where
  "read_from_file ba file =
     (case file of None \<Rightarrow> Some (Inr (False, ba))
      | Some cs \<Rightarrow>
          if m_base_size ba = 0 then None
          else Some (bindR (write_chunks ba (file_chunks (m_base_size ba) cs)) (\<lambda>ba. Inr (True, ba))))"

text \<open>The printed characters are ASCII codes.\<close>

definition hex_digit :: "nat \<Rightarrow> u8" where
  "hex_digit d = of_nat (if d < 10 then 48 + d else 87 + d)"

fun hex_loop :: "nat \<Rightarrow> u8 list \<Rightarrow> u8 list" where
  "hex_loop i [] = []"
| "hex_loop i (b # bs) =
     (if i > 0 \<and> i mod 32 = 0 then [10] else []) @
     [hex_digit (unat b div 16), hex_digit (unat b mod 16), 32] @ hex_loop (Suc i) bs"

definition to_hex_string :: "byte_array \<Rightarrow> u8 list res" where
  "to_hex_string ba =
     bindR (to_string ba) (\<lambda>cs. bindR (definite cs) (\<lambda>bs. Inr (hex_loop 0 bs)))"

end
