(* ===== verification/ByteArray_Spec.thy ===== *)
theory ByteArray_Spec
  imports ByteArray
begin

text \<open>
  What the byte array promises. Seen from outside it is a flat sequence of bytes with a
  position: \<open>content\<close> forgets the blocks, and \<open>ba_inv\<close> says that the blocks, the
  capacity, the size and the cursor fit together. Every operation is then described on
  the flat sequence: a write overwrites or extends it at the position, a read returns the
  bytes at the position, seeking moves the position. The description of \<open>read\<close> holds for
  a read that starts in the first block; \<open>read_past_first_block\<close> in the root theory
  shows what happens beyond it.
\<close>

section \<open>Flat view\<close>

definition flat :: "node list \<Rightarrow> u8 option list" where
  "flat nodes = concat (map n_data nodes)"

definition uniform :: "nat \<Rightarrow> node list \<Rightarrow> bool" where
  "uniform b nodes \<longleftrightarrow> (\<forall>nd \<in> set nodes. n_size nd = b)"

definition node_at :: "nat \<Rightarrow> node list \<Rightarrow> nat \<Rightarrow> nat option" where
  "node_at b nodes p = (if p div b < length nodes then Some (p div b) else None)"

definition content :: "byte_array \<Rightarrow> u8 option list" where
  "content ba = take (m_size ba) (flat (m_nodes ba))"

definition ba_inv :: "byte_array \<Rightarrow> bool" where
  "ba_inv ba \<longleftrightarrow>
     0 < m_base_size ba \<and> m_nodes ba \<noteq> [] \<and> uniform (m_base_size ba) (m_nodes ba) \<and>
     m_capacity ba = length (m_nodes ba) * m_base_size ba \<and>
     m_position ba \<le> m_size ba \<and> m_size ba \<le> m_capacity ba \<and>
     m_cur ba = node_at (m_base_size ba) (m_nodes ba) (m_position ba)"

lemma uniform_simps [simp]:
  "uniform b []"
  "uniform b (nd # nodes) \<longleftrightarrow> n_size nd = b \<and> uniform b nodes"
  "uniform b (xs @ ys) \<longleftrightarrow> uniform b xs \<and> uniform b ys"
  "uniform b (replicate k (new_node b))"
  by (auto simp: uniform_def n_size_def new_node_def)

lemma n_size_new_node [simp]: "n_size (new_node b) = b"
  by (simp add: n_size_def new_node_def)

lemma uniform_nth: "uniform b nodes \<Longrightarrow> c < length nodes \<Longrightarrow> n_size (nodes ! c) = b"
  by (simp add: uniform_def)

lemma uniform_update: "uniform b nodes \<Longrightarrow> n_size nd = b \<Longrightarrow> uniform b (nodes[c := nd])"
  using set_update_subset_insert [of nodes c nd] by (auto simp: uniform_def)

lemma flat_simps [simp]:
  "flat [] = []"
  "flat (nd # nodes) = n_data nd @ flat nodes"
  "flat (xs @ ys) = flat xs @ flat ys"
  by (simp_all add: flat_def)

lemma length_flat: "uniform b nodes \<Longrightarrow> length (flat nodes) = length nodes * b"
  by (induction nodes) (auto simp: n_size_def)

lemma flat_split:
  assumes "uniform b nodes" and "c < length nodes"
  shows "flat nodes = flat (take c nodes) @ n_data (nodes ! c) @ flat (drop (Suc c) nodes)"
    and "length (flat (take c nodes)) = c * b"
proof -
  have "nodes = take c nodes @ nodes ! c # drop (Suc c) nodes"
    using assms(2) by (rule id_take_nth_drop)
  then show "flat nodes = flat (take c nodes) @ n_data (nodes ! c) @ flat (drop (Suc c) nodes)"
    by (metis flat_simps(2,3))
  have "uniform b (take c nodes)"
    using assms(1) by (auto simp: uniform_def dest: in_set_takeD)
  from length_flat [OF this] show "length (flat (take c nodes)) = c * b"
    using assms(2) by simp
qed

lemma flat_load:
  assumes "uniform b nodes" "c < length nodes" "npos + n \<le> b"
  shows "node_load (nodes ! c) npos n = Inr (take n (drop (c * b + npos) (flat nodes)))"
proof -
  have sz: "n_size (nodes ! c) = b" by (rule uniform_nth [OF assms(1,2)])
  have "drop (c * b + npos) (flat nodes) =
      drop npos (n_data (nodes ! c) @ flat (drop (Suc c) nodes))"
    using flat_split [OF assms(1,2)] by simp
  moreover have "n \<le> length (drop npos (n_data (nodes ! c)))"
    using sz assms(3) by (simp add: n_size_def)
  ultimately show ?thesis
    using sz assms(3) by (simp add: node_load_def n_size_def)
qed

lemma flat_store:
  assumes "uniform b nodes" "c < length nodes" "npos + length bs \<le> b"
  obtains nd where "node_store (nodes ! c) npos bs = Inr nd" and "n_size nd = b"
    and "flat (nodes[c := nd]) = splice_at (flat nodes) (c * b + npos) (map Some bs)"
proof -
  have sz: "n_size (nodes ! c) = b" by (rule uniform_nth [OF assms(1,2)])
  define nd where "nd = Node (splice_at (n_data (nodes ! c)) npos (map Some bs))"
  have len: "npos + length (map Some bs) \<le> length (n_data (nodes ! c))"
    using sz assms(3) by (simp add: n_size_def)
  have 1: "node_store (nodes ! c) npos bs = Inr nd"
    using sz assms(3) by (simp add: node_store_def nd_def)
  have 2: "n_size nd = b"
    using len sz by (simp add: nd_def n_size_def)
  have "flat (nodes[c := nd]) = flat (take c nodes) @ n_data nd @ flat (drop (Suc c) nodes)"
    using assms(2) by (simp add: upd_conv_take_nth_drop)
  also have "\<dots> = splice_at (flat nodes) (c * b + npos) (map Some bs)"
    using splice_at_left [OF len] splice_at_right [of "flat (take c nodes)"]
      flat_split [OF assms(1,2)]
    by (simp add: nd_def)
  finally show thesis by (rule that [OF 1 2])
qed

lemma node_at_in: "0 < b \<Longrightarrow> npos < b \<Longrightarrow> c < length nodes \<Longrightarrow>
    node_at b nodes (c * b + npos) = Some c"
  by (simp add: node_at_def)

lemma node_at_next: "0 < b \<Longrightarrow> node_at b nodes (Suc c * b) = next_node nodes c"
proof -
  assume "0 < b"
  then have "Suc c * b div b = Suc c" by (rule div_mult_self_is_m)
  then show ?thesis unfolding node_at_def next_node_def by simp
qed

lemma node_at_length: "length nodes = length nodes' \<Longrightarrow> node_at b nodes p = node_at b nodes' p"
  by (simp add: node_at_def)

lemma deref_Some [simp]: "c < length nodes \<Longrightarrow> deref nodes (Some c) = Inr (c, nodes ! c)"
  by (simp add: deref_def)

lemma next_node_Some: "Suc c < length nodes \<Longrightarrow> next_node nodes c = Some (Suc c)"
  by (simp add: next_node_def)

lemma room_means_next:
  fixes b :: nat
  assumes "c * b + npos + n \<le> k * b" "b - npos < n" "npos \<le> b"
  shows "Suc c < k"
proof (rule ccontr)
  assume "\<not> Suc c < k"
  then have "k * b \<le> Suc c * b" by (intro mult_le_mono1) simp
  with assms show False by simp
qed

section \<open>The loops on the flat view\<close>

lemma write_loop_flat:
  assumes "0 < b" "uniform b nodes" "cur = Some c" "c < length nodes" "npos < b"
    "ncap = b - npos" "c * b + npos + length buf \<le> length nodes * b"
  shows "\<exists>nodes'. write_loop nodes cur npos ncap buf pos =
      Inr (nodes', node_at b nodes (c * b + npos + length buf), pos + length buf) \<and>
    uniform b nodes' \<and> length nodes' = length nodes \<and>
    flat nodes' = splice_at (flat nodes) (c * b + npos) (map Some buf)"
  using assms
proof (induction nodes cur npos ncap buf pos arbitrary: c rule: write_loop.induct)
  case (1 nodes cur npos ncap buf pos)
  note IH = "1.IH" and prems = "1.prems"
  consider (nil) "buf = []" | (last) "buf \<noteq> []" "length buf \<le> ncap" | (more) "ncap < length buf"
    by (cases "buf = []"; cases "length buf \<le> ncap") simp_all
  then show ?case
  proof cases
    case nil
    with prems show ?thesis by (auto simp: write_loop.simps node_at_in)
  next
    case last
    then have fits: "npos + length buf \<le> b" using prems by simp
    obtain nd where nd: "node_store (nodes ! c) npos buf = Inr nd" "n_size nd = b"
      "flat (nodes[c := nd]) = splice_at (flat nodes) (c * b + npos) (map Some buf)"
      by (rule flat_store [OF prems(2,4) fits])
    have "node_at b nodes (c * b + npos + length buf) =
        (if ncap = length buf then next_node nodes c else Some c)"
    proof (cases "ncap = length buf")
      case True
      then have "c * b + npos + length buf = Suc c * b" using prems by simp
      then show ?thesis using node_at_next [of b nodes c] prems True by (simp add: add.commute)
    next
      case False
      then have "npos + length buf < b" using last prems by simp
      then show ?thesis using node_at_in [of b "npos + length buf" c nodes] prems False
        by (simp add: add.assoc)
    qed
    with nd last prems show ?thesis
      by (auto simp: write_loop.simps uniform_update)
  next
    case more
    then have ne: "buf \<noteq> []" "\<not> length buf \<le> ncap" by auto
    have fits: "npos + length (take ncap buf) \<le> b" using prems more by simp
    obtain nd where nd: "node_store (nodes ! c) npos (take ncap buf) = Inr nd" "n_size nd = b"
      "flat (nodes[c := nd]) = splice_at (flat nodes) (c * b + npos) (map Some (take ncap buf))"
      by (rule flat_store [OF prems(2,4) fits])
    let ?ns = "nodes[c := nd]"
    have suc: "Suc c < length nodes"
      using room_means_next [of c b npos "length buf" "length nodes"] prems more by simp
    have u: "uniform b ?ns" using prems(2) nd(2) by (rule uniform_update)
    have sz: "n_size (?ns ! Suc c) = b" by (rule uniform_nth [OF u]) (use suc in simp)
    have "\<exists>nodes'. write_loop ?ns (Some (Suc c)) 0 (n_size (?ns ! Suc c)) (drop ncap buf) (pos + ncap) =
        Inr (nodes', node_at b ?ns (Suc c * b + 0 + length (drop ncap buf)),
             pos + ncap + length (drop ncap buf)) \<and>
      uniform b nodes' \<and> length nodes' = length ?ns \<and>
      flat nodes' = splice_at (flat ?ns) (Suc c * b + 0) (map Some (drop ncap buf))"
      by (rule IH [OF ne(1) _ _ ne(2) nd(1)])
         (use prems more suc sz u in \<open>simp_all add: next_node_def deref_def\<close>)
    moreover have "node_at b ?ns (Suc c * b + 0 + length (drop ncap buf)) =
        node_at b nodes (c * b + npos + length buf)"
    proof -
      have "Suc c * b + 0 + length (drop ncap buf) = c * b + npos + length buf"
        using prems more by simp
      then show ?thesis by (simp only:) (simp add: node_at_def)
    qed
    moreover have "splice_at (flat ?ns) (Suc c * b + 0) (map Some (drop ncap buf)) =
        splice_at (flat nodes) (c * b + npos) (map Some buf)"
    proof -
      have e: "Suc c * b + 0 = (c * b + npos) + length (map Some (take ncap buf))"
        using prems more by simp
      have l: "(c * b + npos) + length (map Some (take ncap buf)) + length (map Some (drop ncap buf))
          \<le> length (flat nodes)"
        using prems more by (simp add: length_flat)
      show ?thesis
        unfolding nd(3) e by (subst splice_at_append [OF l]) (simp flip: map_append)
    qed
    ultimately show ?thesis
      using nd(1) prems(3,4) more suc ne
      by (auto simp: write_loop.simps [of nodes] next_node_Some)
  qed
qed

lemma read_loop_flat:
  assumes "0 < b" "uniform b nodes" "cur = Some c" "c < length nodes" "npos < b"
    "ncap = b - npos" "c * b + npos + n \<le> length nodes * b"
  shows "read_loop nodes cur npos ncap n pos out =
    Inr (out @ take n (drop (c * b + npos) (flat nodes)),
         node_at b nodes (c * b + npos + n), pos + n)"
  using assms
proof (induction nodes cur npos ncap n pos out arbitrary: c rule: read_loop.induct)
  case (1 nodes cur npos ncap n pos out)
  note IH = "1.IH" and prems = "1.prems"
  consider (nil) "n = 0" | (last) "n \<noteq> 0" "n \<le> ncap" | (more) "ncap < n"
    by (cases "n = 0"; cases "n \<le> ncap") simp_all
  then show ?case
  proof cases
    case nil
    with prems show ?thesis by (simp add: read_loop.simps node_at_in)
  next
    case last
    have "node_at b nodes (c * b + npos + n) = (if ncap = n then next_node nodes c else Some c)"
    proof (cases "ncap = n")
      case True
      then have "c * b + npos + n = Suc c * b" using prems by simp
      then show ?thesis using node_at_next [of b nodes c] prems True by (simp add: add.commute)
    next
      case False
      then have "npos + n < b" using last prems by simp
      then show ?thesis using node_at_in [of b "npos + n" c nodes] prems False
        by (simp add: add.assoc)
    qed
    with last prems flat_load [OF prems(2,4), of npos n] show ?thesis
      by (simp add: read_loop.simps)
  next
    case more
    then have ne: "n \<noteq> 0" "\<not> n \<le> ncap" by auto
    have ld: "node_load (nodes ! c) npos ncap =
        Inr (take ncap (drop (c * b + npos) (flat nodes)))"
      using flat_load [OF prems(2,4)] prems by simp
    have suc: "Suc c < length nodes"
      using room_means_next [of c b npos n "length nodes"] prems more by simp
    have sz: "n_size (nodes ! Suc c) = b" using uniform_nth [OF prems(2)] suc by simp
    have e: "Suc c * b = c * b + npos + ncap" using prems by simp
    have "read_loop nodes (Some (Suc c)) 0 (n_size (nodes ! Suc c)) (n - ncap) (pos + ncap)
        (out @ take ncap (drop (c * b + npos) (flat nodes))) =
      Inr ((out @ take ncap (drop (c * b + npos) (flat nodes))) @
           take (n - ncap) (drop (Suc c * b + 0) (flat nodes)),
           node_at b nodes (Suc c * b + 0 + (n - ncap)), pos + ncap + (n - ncap))"
      by (rule IH [OF ne(1) _ _ ne(2) ld])
         (insert prems more suc sz e, auto simp: next_node_Some)
    moreover have "take ncap (drop (c * b + npos) (flat nodes)) @
        take (n - ncap) (drop (Suc c * b) (flat nodes)) = take n (drop (c * b + npos) (flat nodes))"
      using more take_add [of ncap "n - ncap" "drop (c * b + npos) (flat nodes)"]
      unfolding e by (simp add: add.commute)
    moreover have "Suc c * b + 0 + (n - ncap) = c * b + npos + n" using more e by simp
    moreover have "read_loop nodes cur npos ncap n pos out =
        read_loop nodes (Some (Suc c)) 0 (n_size (nodes ! Suc c)) (n - ncap) (pos + ncap)
          (out @ take ncap (drop (c * b + npos) (flat nodes)))"
      using ld prems(3,4) more suc ne
      by (subst read_loop.simps) (simp add: next_node_Some)
    ultimately show ?thesis using more by simp
  qed
qed

lemma seek_loop_flat:
  assumes "0 < b" "uniform b nodes" "cur = Some c" "c < length nodes"
    "c * b + pos \<le> length nodes * b"
  shows "seek_loop nodes cur pos = Inr (node_at b nodes (c * b + pos))"
  using assms
proof (induction nodes cur pos arbitrary: c rule: seek_loop.induct)
  case (1 nodes cur pos)
  note IH = "1.IH" and prems = "1.prems"
  have sz: "n_size (nodes ! c) = b" by (rule uniform_nth [OF prems(2,4)])
  consider (more) "b < pos" | (eq) "pos = b" | (less) "pos < b" by linarith
  then show ?case
  proof cases
    case more
    have suc: "Suc c < length nodes"
      using room_means_next [of c b 0 pos "length nodes"] prems more by simp
    have "seek_loop nodes (next_node nodes c) (pos - n_size (nodes ! c)) =
        Inr (node_at b nodes (Suc c * b + (pos - n_size (nodes ! c))))"
      by (rule IH)
         (use prems more suc sz in \<open>simp_all add: next_node_def deref_def\<close>)
    moreover have "Suc c * b + (pos - b) = c * b + pos" using more by simp
    ultimately show ?thesis using prems more sz by (simp add: seek_loop.simps [of nodes "Some c"])
  next
    case eq
    then show ?thesis
      using prems sz node_at_next [of b nodes c]
      by (simp add: seek_loop.simps [of nodes "Some c"] add.commute)
  next
    case less
    then show ?thesis
      using prems sz by (simp add: seek_loop.simps [of nodes "Some c"] node_at_in)
  qed
qed

section \<open>Capacity, writing, reading and seeking on the flat view\<close>

lemma ba_invD:
  assumes "ba_inv ba"
  shows "0 < m_base_size ba" "uniform (m_base_size ba) (m_nodes ba)" "m_nodes ba \<noteq> []"
    "m_capacity ba = length (m_nodes ba) * m_base_size ba"
    "m_position ba \<le> m_size ba" "m_size ba \<le> m_capacity ba"
    "m_cur ba = node_at (m_base_size ba) (m_nodes ba) (m_position ba)"
    "length (flat (m_nodes ba)) = m_capacity ba"
    "length (content ba) = m_size ba"
  using assms by (auto simp: ba_inv_def length_flat content_def)

lemma node_at_room:
  assumes "0 < b" "p < length nodes * b"
  shows "node_at b nodes p = Some (p div b)" "p div b < length nodes"
  using assms by (simp_all add: node_at_def less_mult_imp_div_less)

lemma node_at_full:
  assumes "0 < b" "p = length nodes * b"
  shows "node_at b nodes p = None"
  using assms by (simp add: node_at_def)

lemma node_at_snoc:
  assumes "0 < b" "p \<le> length nodes * b" "0 < k" "length nodes' = length nodes + k"
  shows "node_at b nodes' p = Some (p div b)"
proof -
  have "p div b \<le> length nodes * b div b" using assms(2) by (rule div_le_mono)
  with assms show ?thesis by (simp add: node_at_def)
qed

lemma byte_array_new_inv:
  "0 < b \<Longrightarrow> ba_inv (byte_array_new b en) \<and> content (byte_array_new b en) = []"
  by (simp add: ba_inv_def byte_array_new_def content_def node_at_def)

lemma byte_array_new_simps [simp]:
  "ba_inv (byte_array_new b en) \<longleftrightarrow> 0 < b"
  "content (byte_array_new b en) = []"
  "m_position (byte_array_new b en) = 0" "m_size (byte_array_new b en) = 0"
  "m_base_size (byte_array_new b en) = b" "m_endian (byte_array_new b en) = en"
  by (simp_all add: ba_inv_def byte_array_new_def content_def node_at_def)

definition same_but_blocks :: "byte_array \<Rightarrow> byte_array \<Rightarrow> bool" where
  "same_but_blocks ba ba' \<longleftrightarrow>
     m_base_size ba' = m_base_size ba \<and> m_endian ba' = m_endian ba \<and>
     m_position ba' = m_position ba \<and> m_size ba' = m_size ba \<and> content ba' = content ba"

lemma add_capacity_inv:
  assumes inv: "ba_inv ba" and pos: "0 < sz"
  shows "\<exists>ba'. add_capacity ba sz = Inr ba' \<and> ba_inv ba' \<and> same_but_blocks ba ba' \<and>
    m_position ba + sz \<le> m_capacity ba'"
proof (cases "get_capacity ba > sz")
  case True
  then show ?thesis
    using assms ba_invD [OF inv]
    by (auto simp: add_capacity_def same_but_blocks_def get_capacity_def)
next
  case False
  note I = ba_invD [OF inv]
  let ?b = "m_base_size ba" and ?n = "length (m_nodes ba)"
  define old where "old = m_capacity ba - m_position ba"
  have cap: "get_capacity ba = old" using I by (simp add: get_capacity_def old_def)
  define k where "k = (sz - old + ?b - 1) div ?b"
  have enough: "sz - old \<le> k * ?b"
  proof -
    have "sz - old + ?b - 1 < (k + 1) * ?b"
      using I(1) div_less_iff_less_mult [of ?b "sz - old + ?b - 1" "k + 1"] by (simp add: k_def)
    then show ?thesis using I(1) by simp
  qed
  let ?nodes = "m_nodes ba @ replicate k (new_node ?b)"
  define ba' where "ba' = ba\<lparr>m_nodes := ?nodes, m_capacity := m_capacity ba + k * ?b,
    m_cur := (if old = 0 then (if k = 0 then None else Some ?n) else m_cur ba)\<rparr>"
  have run: "add_capacity ba sz = Inr ba'"
    using False pos I(1) cap by (auto simp: add_capacity_def Let_def k_def ba'_def)
  have "m_cur ba' = node_at ?b ?nodes (m_position ba)"
  proof (cases "old = 0")
    case True
    then have "m_position ba = ?n * ?b" using I by (simp add: old_def)
    moreover from True pos enough have "0 < k" by (cases k) simp_all
    ultimately show ?thesis using True I(1) by (simp add: ba'_def node_at_def)
  next
    case False
    then have "m_position ba < ?n * ?b" using I by (simp add: old_def)
    from node_at_room [OF I(1) this] show ?thesis
      using False I(7) by (simp add: ba'_def node_at_def)
  qed
  moreover have "content ba' = content ba"
    using I by (simp add: ba'_def content_def)
  ultimately have "ba_inv ba' \<and> same_but_blocks ba ba'"
    using I by (simp add: ba_inv_def same_but_blocks_def ba'_def algebra_simps)
  moreover have "m_position ba + sz \<le> m_capacity ba'"
    using enough I by (simp add: ba'_def old_def)
  ultimately show ?thesis using run by blast
qed

text \<open>What a write does to the flat sequence.\<close>

definition wrote :: "byte_array \<Rightarrow> u8 list \<Rightarrow> byte_array \<Rightarrow> bool" where
  "wrote ba bs ba' \<longleftrightarrow>
     ba_inv ba' \<and> content ba' = splice_at (content ba) (m_position ba) (map Some bs) \<and>
     m_position ba' = m_position ba + length bs \<and>
     m_size ba' = max (m_size ba) (m_position ba + length bs) \<and>
     m_base_size ba' = m_base_size ba \<and> m_endian ba' = m_endian ba"

lemma wrote_refl: "ba_inv ba \<Longrightarrow> wrote ba [] ba"
  using ba_invD [of ba] by (simp add: wrote_def)

lemma splice_at_append_any:
  "p \<le> length xs \<Longrightarrow>
   splice_at (splice_at xs p ys) (p + length ys) zs = splice_at xs p (ys @ zs)"
  by (simp add: splice_at_def ac_simps)

lemma wrote_trans:
  "ba_inv ba \<Longrightarrow> wrote ba xs ba1 \<Longrightarrow> wrote ba1 ys ba2 \<Longrightarrow> wrote ba (xs @ ys) ba2"
  using splice_at_append_any [of "m_position ba" "content ba" "map Some xs" "map Some ys"]
    ba_invD(5,9) [of ba]
  by (auto simp: wrote_def)

lemma wrote_inv: "wrote ba xs ba' \<Longrightarrow> ba_inv ba'"
  by (simp add: wrote_def)

lemma wrote_endian: "wrote ba xs ba' \<Longrightarrow> m_endian ba' = m_endian ba"
  by (simp add: wrote_def)

lemma ba_write_wrote:
  assumes inv: "ba_inv ba"
  shows "\<exists>ba'. ba_write ba bs = Inr ba' \<and> wrote ba bs ba'"
proof (cases "bs = []")
  case True
  then show ?thesis using wrote_refl [OF inv] by (simp add: ba_write_def)
next
  case False
  obtain ba1 where ba1: "add_capacity ba (length bs) = Inr ba1" "ba_inv ba1"
    "same_but_blocks ba ba1" "m_position ba + length bs \<le> m_capacity ba1"
    using add_capacity_inv [OF inv] False by blast
  note I = ba_invD [OF ba1(2)] and S = ba1(3) [unfolded same_but_blocks_def]
  let ?b = "m_base_size ba1" and ?p = "m_position ba1" and ?nodes = "m_nodes ba1"
  let ?c = "?p div ?b" and ?o = "?p mod ?b"
  have bound: "?p + length bs \<le> length ?nodes * ?b" using ba1(4) I(4) S by simp
  with False have room: "?p < length ?nodes * ?b" by (cases bs) simp_all
  note cur = node_at_room [OF I(1) room]
  have o: "?o < ?b" using I(1) by simp
  have sz: "n_size (?nodes ! ?c) = ?b" by (rule uniform_nth [OF I(2) cur(2)])
  obtain nodes' where L: "write_loop ?nodes (Some ?c) ?o (?b - ?o) bs ?p =
      Inr (nodes', node_at ?b ?nodes (?c * ?b + ?o + length bs), ?p + length bs)"
    "uniform ?b nodes'" "length nodes' = length ?nodes"
    "flat nodes' = splice_at (flat ?nodes) (?c * ?b + ?o) (map Some bs)"
    using write_loop_flat [OF I(1,2) refl cur(2) o refl, where buf = bs and pos = ?p] bound by auto
  define ba' where "ba' = ba1\<lparr>m_nodes := nodes', m_cur := node_at ?b ?nodes (?p + length bs),
    m_position := ?p + length bs,
    m_size := (if ?p + length bs > m_size ba1 then ?p + length bs else m_size ba1)\<rparr>"
  have max: "m_size ba' = max (m_size ba1) (?p + length bs)" by (simp add: ba'_def max_def)
  have run: "ba_write ba bs = Inr ba'"
    using False ba1(1) I(1,7) cur L(1) sz o by (simp add: ba_write_def Let_def ba'_def)
  have "content ba' = splice_at (content ba1) ?p (map Some bs)"
    using take_splice_at_max [of ?p "m_size ba1" "flat ?nodes" "map Some bs"] I(4,5,6,8) bound L(4)
    by (simp add: content_def max) (simp add: ba'_def)
  moreover have "ba_inv ba'"
    using I L(2,3) bound by (auto simp: ba_inv_def ba'_def node_at_def)
  ultimately show ?thesis
    using run S max by (auto simp: wrote_def ba'_def)
qed

text \<open>What a read does: bytes come off at the position and only the cursor moves.\<close>

definition at_input :: "byte_array \<Rightarrow> u8 list \<Rightarrow> bool" where
  "at_input ba bs \<longleftrightarrow> ba_inv ba \<and> drop (m_position ba) (content ba) = map Some bs"

definition consumed :: "byte_array \<Rightarrow> nat \<Rightarrow> byte_array" where
  "consumed ba n =
     ba\<lparr>m_cur := node_at (m_base_size ba) (m_nodes ba) (m_position ba + n),
        m_position := m_position ba + n\<rparr>"

lemma consumed_simps [simp]:
  "m_position (consumed ba n) = m_position ba + n"
  "m_base_size (consumed ba n) = m_base_size ba"
  "m_endian (consumed ba n) = m_endian ba"
  "m_size (consumed ba n) = m_size ba"
  "m_capacity (consumed ba n) = m_capacity ba"
  "m_nodes (consumed ba n) = m_nodes ba"
  "content (consumed ba n) = content ba"
  "consumed (consumed ba n) k = consumed ba (n + k)"
  by (simp_all add: consumed_def content_def add.assoc)

lemma consumed_0: "ba_inv ba \<Longrightarrow> consumed ba 0 = ba"
  using ba_invD(7) [of ba] by (simp add: consumed_def)

lemma consumed_inv: "ba_inv ba \<Longrightarrow> m_position ba + n \<le> m_size ba \<Longrightarrow> ba_inv (consumed ba n)"
  by (auto simp: ba_inv_def consumed_def)

lemma at_input_len: "at_input ba bs \<Longrightarrow> m_size ba = m_position ba + length bs"
proof -
  assume a: "at_input ba bs"
  then have "length (drop (m_position ba) (content ba)) = length (map Some bs)"
    by (simp add: at_input_def)
  then have "length (content ba) - m_position ba = length bs" by simp
  with a show ?thesis using ba_invD(5,9) [of ba] by (simp add: at_input_def)
qed

lemma at_input_consumed:
  assumes "at_input ba (bs @ rest)"
  shows "at_input (consumed ba (length bs)) rest"
proof -
  have "ba_inv (consumed ba (length bs))"
    using assms at_input_len [OF assms] by (simp add: consumed_inv at_input_def)
  moreover have "drop (m_position ba + length bs) (content ba) =
      drop (length bs) (drop (m_position ba) (content ba))"
    by (simp add: add.commute)
  ultimately show ?thesis using assms unfolding at_input_def by (simp del: drop_drop)
qed

lemma ba_read_flat:
  assumes inv: "ba_inv ba" and fits: "m_position ba + n \<le> m_size ba"
    and first: "m_position ba < m_base_size ba"
  shows "ba_read ba n = Inr (take n (drop (m_position ba) (content ba)), consumed ba n)"
proof -
  note I = ba_invD [OF inv]
  have cur: "m_cur ba = Some 0" using I(3,7) first by (simp add: node_at_def)
  have ne: "0 < length (m_nodes ba)" using I(3) by simp
  have sz: "n_size (m_nodes ba ! 0) = m_base_size ba" by (rule uniform_nth [OF I(2) ne])
  have bound: "0 * m_base_size ba + m_position ba + n \<le> length (m_nodes ba) * m_base_size ba"
    using fits I(4,6) by simp
  have "take n (drop (m_position ba) (content ba)) =
      take n (drop (m_position ba) (flat (m_nodes ba)))"
    using fits by (simp add: content_def drop_take min_absorb1)
  then show ?thesis
    using read_loop_flat [OF I(1,2) cur ne first refl bound, where out = "[]" and pos = "m_position ba"]
      I(1,5) ne sz cur first add_le_imp_le_diff [of n "m_position ba" "m_size ba"] fits
    by (simp add: ba_read_def get_read_size_def consumed_def)
qed

lemma ba_read_too_much: "ba_inv ba \<Longrightarrow> m_size ba < m_position ba + n \<Longrightarrow> ba_read ba n = Inl Out_of_range"
proof -
  assume "ba_inv ba" "m_size ba < m_position ba + n"
  then have "\<not> n \<le> get_read_size ba"
    using ba_invD(5) [of ba] by (simp add: get_read_size_def)
  then show ?thesis unfolding ba_read_def by simp
qed

lemma definite_map_Some [simp]: "definite (map Some bs) = Inr bs"
  by (auto simp: definite_def o_def)

lemma read_raw_input:
  assumes "at_input ba (bs @ rest)" "m_position ba < m_base_size ba"
  shows "read_raw ba (length bs) = Inr (bs, consumed ba (length bs))"
  using assms at_input_len [OF assms(1)]
  by (simp add: read_raw_def ba_read_flat at_input_def)

lemma set_position_inv:
  assumes inv: "ba_inv ba" and p: "p \<le> m_size ba"
  shows "set_position ba p = Inr (ba\<lparr>m_position := p,
      m_cur := node_at (m_base_size ba) (m_nodes ba) p\<rparr>)"
    and "ba_inv (ba\<lparr>m_position := p, m_cur := node_at (m_base_size ba) (m_nodes ba) p\<rparr>)"
proof -
  note I = ba_invD [OF inv]
  have "seek_loop (m_nodes ba) (Some 0) p = Inr (node_at (m_base_size ba) (m_nodes ba) p)"
    using seek_loop_flat [OF I(1,2) refl, of 0 p] I(3,4,6) p by simp
  then show "set_position ba p = Inr (ba\<lparr>m_position := p,
      m_cur := node_at (m_base_size ba) (m_nodes ba) p\<rparr>)"
    using p I(6) by (simp add: set_position_def)
  show "ba_inv (ba\<lparr>m_position := p, m_cur := node_at (m_base_size ba) (m_nodes ba) p\<rparr>)"
    using inv p by (simp add: ba_inv_def)
qed

lemma clear_inv: "ba_inv ba \<Longrightarrow> ba_inv (clear ba) \<and> content (clear ba) = []"
  by (cases "m_nodes ba") (auto simp: ba_inv_def clear_def content_def node_at_def)

lemma clear_simps [simp]:
  "m_position (clear ba) = 0" "m_size (clear ba) = 0"
  "m_base_size (clear ba) = m_base_size ba" "m_endian (clear ba) = m_endian ba"
  by (simp_all add: clear_def)

section \<open>Whole contents and files\<close>

lemma concat_file_chunks: "0 < b \<Longrightarrow> concat (file_chunks b cs) = cs"
proof (induction b cs rule: file_chunks.induct)
  case (1 b cs)
  then show ?case by (subst file_chunks.simps) auto
qed

lemma write_chunks_wrote:
  "ba_inv ba \<Longrightarrow> \<exists>ba'. write_chunks ba cs = Inr ba' \<and> wrote ba (concat cs) ba'"
proof (induction cs arbitrary: ba)
  case (Cons c cs)
  obtain b1 where 1: "ba_write ba c = Inr b1" "wrote ba c b1"
    using ba_write_wrote [OF Cons.prems] by blast
  obtain b2 where 2: "write_chunks b1 cs = Inr b2" "wrote b1 (concat cs) b2"
    using Cons.IH [OF wrote_inv [OF 1(2)]] by blast
  show ?case using 1(1) 2(1) wrote_trans [OF Cons.prems 1(2) 2(2)] by simp
qed (simp add: wrote_refl)

lemma file_loop_flat:
  assumes "0 < b" "uniform b nodes" "cur = node_at b nodes (c * b)"
    "c * b + n \<le> length nodes * b"
  shows "file_loop nodes cur (int b) (int n) (int (c * b)) out =
    Inr (out @ take n (drop (c * b) (flat nodes)))"
  using assms(3,4)
proof (induction n arbitrary: cur c out rule: less_induct)
  case (less n)
  show ?case
  proof (cases "n = 0")
    case True
    then show ?thesis by (simp add: file_loop.simps)
  next
    case False
    then have "c * b < length nodes * b" using less.prems(2) by linarith
    then have c: "c < length nodes" by (rule mult_less_cancel2 [THEN iffD1, THEN conjunct2])
    then have cur: "cur = Some c" using less.prems(1) assms(1) by (simp add: node_at_def)
    define k where "k = min n b"
    have k: "(if int b < int n then int b else int n) = int k" "k \<le> b" "0 < k" "k \<le> n"
      using False assms(1) by (auto simp: k_def min_def)
    have ld: "node_load (nodes ! c) 0 k = Inr (take k (drop (c * b) (flat nodes)))"
      using flat_load [OF assms(2) c, of 0 k] k(2) by simp
    have step: "file_loop nodes cur (int b) (int n) (int (c * b)) out =
        file_loop nodes (next_node nodes c) (int b) (int (n - k)) (int (c * b + k))
          (out @ take k (drop (c * b) (flat nodes)))"
      using False ld c k by (subst file_loop.simps) (simp add: cur Let_def of_nat_diff)
    show ?thesis
    proof (cases "n \<le> b")
      case True
      then have "k = n" by (simp add: k_def)
      then show ?thesis unfolding step by (subst file_loop.simps) simp
    next
      case False
      then have kb: "k = b" by (simp add: k_def)
      have e: "int (c * b + k) = int (Suc c * b)" by (simp add: kb)
      have "file_loop nodes (next_node nodes c) (int b) (int (n - b)) (int (Suc c * b))
          (out @ take b (drop (c * b) (flat nodes))) =
        Inr ((out @ take b (drop (c * b) (flat nodes))) @ take (n - b) (drop (Suc c * b) (flat nodes)))"
        using less.prems(2) False assms(1)
        by (intro less.IH) (simp_all add: node_at_next [OF assms(1)] del: mult_Suc, simp)
      moreover have "take b (drop (c * b) (flat nodes)) @ take (n - b) (drop (Suc c * b) (flat nodes)) =
          take n (drop (c * b) (flat nodes))"
        using False take_add [of b "n - b" "drop (c * b) (flat nodes)"] by (simp add: add.commute)
      ultimately show ?thesis unfolding step e kb by (simp add: add.commute)
    qed
  qed
qed

lemma write_to_file_start:
  assumes "ba_inv ba" "m_position ba = 0"
  shows "write_to_file ba True = Inr (Some (content ba))"
proof -
  note I = ba_invD [OF assms(1)]
  have "file_loop (m_nodes ba) (m_cur ba) (int (m_base_size ba)) (int (m_size ba)) (int (0 * m_base_size ba)) [] =
      Inr ([] @ take (m_size ba) (drop (0 * m_base_size ba) (flat (m_nodes ba))))"
    by (rule file_loop_flat [OF I(1,2)]) (use I assms in simp_all)
  with I(1) assms(2) show ?thesis
    by (simp add: write_to_file_def get_read_size_def content_def)
qed

lemma to_string_flat:
  assumes "ba_inv ba"
  shows "to_string ba = Inr (drop (m_position ba) (content ba))"
proof (cases "m_position ba = m_size ba")
  case True
  with ba_invD(9) [OF assms] show ?thesis by (simp add: to_string_def get_read_size_def)
next
  case False
  note I = ba_invD [OF assms]
  let ?b = "m_base_size ba" and ?p = "m_position ba" and ?n = "m_size ba - m_position ba"
  have lt: "?p < length (m_nodes ba) * ?b" using False I(4,5,6) by linarith
  note cur = node_at_room [OF I(1) lt]
  have sz: "n_size (m_nodes ba ! (?p div ?b)) = ?b" by (rule uniform_nth [OF I(2) cur(2)])
  have "read_loop (m_nodes ba) (Some (?p div ?b)) (?p mod ?b) (?b - ?p mod ?b) ?n ?p [] =
      Inr ([] @ take ?n (drop (?p div ?b * ?b + ?p mod ?b) (flat (m_nodes ba))),
        node_at ?b (m_nodes ba) (?p div ?b * ?b + ?p mod ?b + ?n), ?p + ?n)"
    by (rule read_loop_flat [OF I(1,2) refl cur(2) _ refl]) (use I(1,4,5,6) in simp_all)
  moreover have "drop ?p (content ba) = take ?n (drop ?p (flat (m_nodes ba)))"
    by (simp add: content_def drop_take)
  ultimately show ?thesis
    using False I(1,5,7) cur sz
    by (simp add: to_string_def get_read_size_def ba_read_at_def less_imp_le)
qed

lemma ba_read_second_block:
  assumes "ba_inv ba" "m_position ba = m_base_size ba" "length (m_nodes ba) = 2" "0 < n"
    "m_position ba + n \<le> m_size ba"
  shows "ba_read ba n = Inl Null_deref"
proof -
  note I = ba_invD [OF assms(1)]
  have cur: "m_cur ba = Some 1" using I(1,7) assms(2,3) by (simp add: node_at_def)
  have sz: "n_size (m_nodes ba ! 1) = m_base_size ba" using uniform_nth [OF I(2), of 1] assms(3) by simp
  have "read_loop (m_nodes ba) (Some 1) 0 0 n (m_base_size ba) [] = Inl Null_deref"
    using assms(3,4)
    by (subst read_loop.simps) (simp add: node_load_def next_node_def deref_def)
  then show ?thesis
    using cur sz assms I(1) add_le_imp_le_diff [of n "m_position ba" "m_size ba"]
    by (simp add: ba_read_def get_read_size_def add.commute)
qed

end
