(* ===== verification/ByteArray_Codec.thy ===== *)
theory ByteArray_Codec
  imports ByteArray_Spec
begin

text \<open>
  The contract between the byte array and everything that serialises into it. A \<open>codec\<close>
  is a writer and a reader of \<open>ByteArray\<close> with the byte format they agree on: the
  writer puts exactly that format on the flat sequence, the reader recovers the value from
  it. Every pair of \<open>write_X\<close> / \<open>read_X\<close> members is an instance; a client composes codecs
  without looking at blocks or cursors.
\<close>

section \<open>The interface\<close>

locale codec =
  fixes wr :: "byte_array \<Rightarrow> 'a \<Rightarrow> byte_array res"
    and rd :: "byte_array \<Rightarrow> ('a \<times> byte_array) res"
    and enc :: "endian \<Rightarrow> 'a \<Rightarrow> u8 list"
    and valid :: "'a \<Rightarrow> bool"
  assumes writes: "ba_inv ba \<Longrightarrow> \<exists>ba'. wr ba x = Inr ba' \<and> wrote ba (enc (m_endian ba) x) ba'"
    and reads: "valid x \<Longrightarrow> at_input ba (enc (m_endian ba) x @ rest) \<Longrightarrow>
      m_position ba + length (enc (m_endian ba) x) < m_base_size ba \<Longrightarrow>
      rd ba = Inr (x, consumed ba (length (enc (m_endian ba) x)))"
begin

text \<open>A value written into a fresh region is read back after seeking to where it began.\<close>

lemma roundtrip:
  assumes "ba_inv ba" "valid x" "m_position ba = m_size ba"
    and "m_position ba + length (enc (m_endian ba) x) < m_base_size ba"
  shows "\<exists>ba1 ba2. wr ba x = Inr ba1 \<and> set_position ba1 (m_position ba) = Inr ba2 \<and>
    rd ba2 = Inr (x, consumed ba2 (length (enc (m_endian ba) x)))"
proof -
  let ?p = "m_position ba" and ?e = "enc (m_endian ba) x"
  obtain ba1 where ba1: "wr ba x = Inr ba1" "wrote ba ?e ba1"
    using writes [OF assms(1)] by blast
  then have W: "ba_inv ba1" "content ba1 = splice_at (content ba) ?p (map Some ?e)"
    "?p \<le> m_size ba1" "m_base_size ba1 = m_base_size ba" "m_endian ba1 = m_endian ba"
    by (simp_all add: wrote_def)
  define ba2 where "ba2 = ba1\<lparr>m_position := ?p,
    m_cur := node_at (m_base_size ba1) (m_nodes ba1) ?p\<rparr>"
  have ba2: "set_position ba1 ?p = Inr ba2" "ba_inv ba2"
    using set_position_inv [OF W(1,3)] by (simp_all add: ba2_def)
  have "content ba2 = content ba @ map Some ?e"
    using W(2) assms(3) ba_invD(9) [OF assms(1)]
    by (simp add: ba2_def content_def splice_at_def)
  then have "at_input ba2 (?e @ [])"
    using ba2(2) assms(3) ba_invD(9) [OF assms(1)] by (simp add: at_input_def) (simp add: ba2_def)
  with ba1(1) ba2(1) reads [OF assms(2), of ba2 "[]"] assms(4) W(4,5) show ?thesis
    by (auto simp: ba2_def)
qed

end

section \<open>Fixed-width integers and floats\<close>

definition fix_bytes :: "endian \<Rightarrow> 'a::len word \<Rightarrow> u8 list" where
  "fix_bytes en v = (if en = native then mem_bytes v else rev (mem_bytes v))"

lemma length_fix_bytes [simp]: "length (fix_bytes en (v :: 'a::len word)) = LENGTH('a) div 8"
  by (simp add: fix_bytes_def)

lemma write_fix_int_wrote:
  assumes "swappable TYPE('a::len)" "ba_inv ba"
  shows "\<exists>ba'. write_fix_int ba (v :: 'a word) = Inr ba' \<and> wrote ba (fix_bytes (m_endian ba) v) ba'"
  using ba_write_wrote [OF assms(2), of "fix_bytes (m_endian ba) v"] assms(1)
  by (auto simp: write_fix_int_def fix_bytes_def byte_swap_Inr mem_bytes_swap)

lemma read_fix_xx_input:
  assumes "swappable TYPE('a::len)" "at_input ba (fix_bytes (m_endian ba) (v :: 'a word) @ rest)"
    and "m_position ba < m_base_size ba"
  shows "read_fix_xx ba = Inr (v, consumed ba (LENGTH('a) div 8))"
proof -
  have d: "8 dvd LENGTH('a)" using assms(1) by auto
  have w: "word_of_mem (mem_bytes v) = v" by (rule word_of_mem_bytes) (use d in simp)
  have "bindR (byte_swap (word_of_mem (rev (mem_bytes v)) :: 'a word)) (\<lambda>v'. Inr (v', ba')) =
      Inr (v, ba')" for ba'
    using byte_swap_twice [OF assms(1), of v] by (simp add: byte_swap_Inr [OF assms(1)])
  then show ?thesis
    using read_raw_input [OF assms(2,3), unfolded length_fix_bytes] w
    by (cases "m_endian ba = native") (simp_all add: read_fix_xx_def fix_bytes_def)
qed

lemma read_u8_input:
  assumes "at_input ba (b # rest)" "m_position ba < m_base_size ba"
  shows "read_fix_uint8 ba = Inr (b, consumed ba 1)"
  using read_raw_input [of ba "[b]" rest] word_of_mem_bytes [of b] assms
  by (simp add: read_fix_uint8_def mem_bytes_def)

section \<open>Compressed integers\<close>

lemma var_bytes_step:
  "push_bit i (v AND 0x7F) OR push_bit (i + 7) (drop_bit 7 v) = push_bit i (v :: 'a::len word)"
proof (rule bit_word_eqI)
  fix k assume k: "k < LENGTH('a)"
  have m: "(0x7F :: 'a word) = mask 7" by (simp add: mask_eq_exp_minus_1)
  show "bit (push_bit i (v AND 0x7F) OR push_bit (i + 7) (drop_bit 7 v)) k = bit (push_bit i v) k"
    unfolding m using k
  proof (cases "k - i < 7")
    case False
    then have "7 + (k - (i + 7)) = k - i" "i + 7 \<le> k" by simp_all
    with False k show "bit (push_bit i (v AND mask 7) OR push_bit (i + 7) (drop_bit 7 v)) k =
        bit (push_bit i v) k"
      by (auto simp: bit_simps)
  qed (auto simp: bit_simps)
qed

lemma ucast_u8_small:
  assumes "8 \<le> LENGTH('a)" "unat (v :: 'a::len word) < 256"
  shows "ucast (ucast v :: u8) = v" "unat (ucast v :: u8) = unat v"
proof -
  show u: "unat (ucast v :: u8) = unat v"
    using assms(2) by (simp add: unsigned_ucast_eq unsigned_take_bit_eq take_bit_nat_eq_self)
  have "unat (ucast (ucast v :: u8) :: 'a word) = unat (ucast v :: u8)"
    using assms(1) unat_u8_less [of "ucast v"] unat_less [of v] u
    by (simp add: unsigned_ucast_eq unsigned_take_bit_eq take_bit_nat_eq_self)
  then show "ucast (ucast v :: u8) = v" using u by (simp add: word_unat_eq_iff)
qed

lemma var_byte_more:
  fixes v :: "'a::len word"
  assumes "8 \<le> LENGTH('a)"
  defines "t \<equiv> (ucast ((v AND 0x7F) OR 0x80) :: u8)"
  shows "\<not> t < 0x80" "ucast (t AND 0x7F) = v AND 0x7F"
proof -
  have m: "(0x7F :: 'a word) = mask 7" "(0x7F :: u8) = mask 7"
    by (simp_all add: mask_eq_exp_minus_1)
  have hi: "bit (0x80 :: 'a word) n \<longleftrightarrow> n = 7" for n
  proof -
    have "(0x80 :: 'a word) = 2 ^ 7" by simp
    then show ?thesis using assms(1) by (simp only: bit_exp_iff) auto
  qed
  have hi8: "bit (0x80 :: int) n \<longleftrightarrow> n = 7" for n
  proof -
    have "(0x80 :: int) = 2 ^ 7" by simp
    then show ?thesis by (simp only: bit_exp_iff) auto
  qed
  have b: "bit t 7" unfolding t_def m using assms(1) by (auto simp: bit_simps hi)
  show "\<not> t < 0x80"
  proof
    assume "t < 0x80"
    then have "unat t < 2 ^ 7" by (simp add: word_less_nat_alt)
    then have "\<not> bit (unat t) 7" by (simp add: bit_iff_odd)
    with b show False by (simp add: bit_unsigned_iff)
  qed
  show "ucast (t AND 0x7F) = v AND 0x7F"
    unfolding t_def m
    by (rule bit_word_eqI) (use assms(1) in \<open>auto simp: bit_simps hi hi8\<close>)
qed

lemma read_var_loop_input:
  fixes v :: "'a::len word"
  assumes "8 \<le> LENGTH('a)" "at_input ba (var_bytes v @ rest)"
    and "m_position ba + length (var_bytes v) \<le> m_base_size ba"
    and "i < LENGTH('a)" "unat v < 2 ^ (LENGTH('a) - i)"
  shows "read_var_loop i r ba = Inr (r OR push_bit i v, consumed ba (length (var_bytes v)))"
  using assms(2-)
proof (induction v arbitrary: i r ba rule: var_bytes.induct)
  case (1 v)
  show ?case
  proof (cases "0x80 \<le> unat v")
    case False
    then have bs: "var_bytes v = [ucast v]" by (subst var_bytes.simps) simp
    have "unat v < 256" using False by simp
    note small = ucast_u8_small [OF assms(1) this]
    have "(ucast v :: u8) < 0x80" using False small(2) by (simp add: word_less_nat_alt)
    then show ?thesis
      using 1 read_u8_input [of ba "ucast v" rest] bs small(1) by (subst read_var_loop.simps) simp
  next
    case True
    define t where "t = (ucast ((v AND 0x7F) OR 0x80) :: u8)"
    have bs: "var_bytes v = t # var_bytes (drop_bit 7 v)"
      unfolding t_def by (subst var_bytes.simps) (use True in simp)
    have ne: "0 < length (var_bytes (drop_bit 7 v))" by (simp add: var_bytes_nonempty)
    have rd: "read_fix_uint8 ba = Inr (t, consumed ba 1)"
      using 1(2,3) bs by (intro read_u8_input [where rest = "var_bytes (drop_bit 7 v) @ rest"]) auto
    have inp: "at_input (consumed ba 1) (var_bytes (drop_bit 7 v) @ rest)"
      using at_input_consumed [of ba "[t]" "var_bytes (drop_bit 7 v) @ rest"] 1(2) bs by simp
    have "(2::nat) ^ 7 < 2 ^ (LENGTH('a) - i)" using True 1(5) by simp
    then have i: "7 < LENGTH('a) - i" by (rule power_less_imp_less_exp [rotated]) simp
    have "2 ^ (LENGTH('a) - i) = (2::nat) ^ (LENGTH('a) - (i + 7)) * 128"
      using i power_add [of "2::nat" "LENGTH('a) - (i + 7)" 7] by simp
    then have lt: "unat (drop_bit 7 v) < 2 ^ (LENGTH('a) - (i + 7))"
      using 1(5) unfolding unat_drop7 by (simp add: less_mult_imp_div_less)
    have "read_var_loop (i + 7) (r OR push_bit i (v AND 0x7F)) (consumed ba 1) =
        Inr ((r OR push_bit i (v AND 0x7F)) OR push_bit (i + 7) (drop_bit 7 v),
             consumed (consumed ba 1) (length (var_bytes (drop_bit 7 v))))"
      by (rule 1(1) [OF True inp _ _ lt]) (use 1(3) bs i in auto)
    also have "\<dots> = Inr (r OR push_bit i v, consumed ba (length (var_bytes v)))"
      using bs var_bytes_step [of i v] by (simp only: or.assoc) simp
    finally show ?thesis
      using rd 1(4) var_byte_more [OF assms(1), of v, folded t_def]
      by (subst read_var_loop.simps) simp
  qed
qed

lemma read_var_uint32_input:
  "at_input ba (var_bytes v @ rest) \<Longrightarrow> m_position ba + length (var_bytes v) \<le> m_base_size ba \<Longrightarrow>
   read_var_uint32 ba = Inr (v, consumed ba (length (var_bytes v)))"
  using read_var_loop_input [of ba v rest 0 0] unat_less [of v] by (simp add: read_var_uint32_def)

lemma read_var_uint64_input:
  "at_input ba (var_bytes v @ rest) \<Longrightarrow> m_position ba + length (var_bytes v) \<le> m_base_size ba \<Longrightarrow>
   read_var_uint64 ba = Inr (v, consumed ba (length (var_bytes v)))"
  using read_var_loop_input [of ba v rest 0 0] unat_less [of v] by (simp add: read_var_uint64_def)

section \<open>The instances\<close>

interpretation fix_u8: codec write_fix_uint8 read_fix_uint8 "\<lambda>_ v. [v]" "\<lambda>_. True"
proof
  fix ba and x :: u8
  assume "ba_inv ba"
  from ba_write_wrote [OF this, of "[x]"]
  show "\<exists>ba'. write_fix_uint8 ba x = Inr ba' \<and> wrote ba [x] ba'"
    by (simp add: write_fix_uint8_def mem_bytes_def)
qed (auto simp: read_u8_input)

interpretation fix_u16: codec write_fix_uint16 read_fix_uint16 fix_bytes "\<lambda>_. True"
  by unfold_locales
    (auto simp: write_fix_uint16_def read_fix_uint16_def write_fix_int_wrote read_fix_xx_input)

interpretation fix_i8: codec write_fix_int8 read_fix_int8 "\<lambda>_ v. [v]" "\<lambda>_. True"
  using fix_u8.codec_axioms
  by (simp add: write_fix_int8_def write_fix_uint8_def read_fix_int8_def read_fix_uint8_def
      codec_def cong del: if_weak_cong)

interpretation fix_i16: codec write_fix_int16 read_fix_int16 fix_bytes "\<lambda>_. True"
  by unfold_locales
    (auto simp: write_fix_int16_def read_fix_int16_def write_fix_int_wrote read_fix_xx_input)

interpretation fix_i64: codec write_fix_int64 read_fix_int64 fix_bytes "\<lambda>_. True"
  by unfold_locales
    (auto simp: write_fix_int64_def read_fix_int64_def write_fix_int_wrote read_fix_xx_input)

interpretation fix_i32: codec write_fix_int32 read_fix_int32 fix_bytes "\<lambda>_. True"
  by unfold_locales
    (auto simp: write_fix_int32_def read_fix_int32_def write_fix_int_wrote read_fix_xx_input)

interpretation fix_u32: codec write_fix_uint32 read_fix_uint32 fix_bytes "\<lambda>_. True"
  by unfold_locales
    (auto simp: write_fix_uint32_def read_fix_uint32_def write_fix_int_wrote read_fix_xx_input)

interpretation fix_u64: codec write_fix_uint64 read_fix_uint64 fix_bytes "\<lambda>_. True"
  by unfold_locales
    (auto simp: write_fix_uint64_def read_fix_uint64_def write_fix_int_wrote read_fix_xx_input)

interpretation dbl: codec write_double read_double fix_bytes "\<lambda>_. True"
  by unfold_locales
    (auto simp: write_double_def read_double_def fix_u64.writes fix_u64.reads [simplified])

interpretation flt: codec write_float read_float fix_bytes "\<lambda>_. True"
  by unfold_locales
    (auto simp: write_float_def read_float_def fix_u32.writes fix_u32.reads [simplified])

interpretation var_u32: codec write_var_uint32 read_var_uint32 "\<lambda>_. var_bytes" "\<lambda>_. True"
  by unfold_locales (auto simp: write_var_uint32_def ba_write_wrote read_var_uint32_input)

interpretation var_u64: codec write_var_uint64 read_var_uint64 "\<lambda>_. var_bytes" "\<lambda>_. True"
  by unfold_locales (auto simp: write_var_uint64_def ba_write_wrote read_var_uint64_input)

interpretation var_i32: codec write_var_int32 read_var_int32
  "\<lambda>_ v. var_bytes (encode_zigzag32 v)" "\<lambda>_. True"
  by unfold_locales
    (auto simp: write_var_int32_def read_var_int32_def var_u32.writes read_var_uint32_input
      decode_encode_zigzag32)

interpretation var_i64: codec write_var_int64 read_var_int64
  "\<lambda>_ v. var_bytes (encode_zigzag64 v)" "\<lambda>_. True"
  by unfold_locales
    (auto simp: write_var_int64_def read_var_int64_def var_u64.writes read_var_uint64_input
      decode_encode_zigzag64)

section \<open>Strings\<close>

text \<open>
  A string is its length in one of the integer formats, then its bytes. The bytes may run
  over any number of blocks, as long as the first of them is in the first block.
\<close>

context codec
begin

lemma then_bytes:
  assumes "ba_inv ba"
  shows "\<exists>ba'. bindR (wr ba x) (\<lambda>ba. ba_write ba bs) = Inr ba' \<and>
    wrote ba (enc (m_endian ba) x @ bs) ba'"
proof -
  obtain ba1 where 1: "wr ba x = Inr ba1" "wrote ba (enc (m_endian ba) x) ba1"
    using writes [OF assms] by blast
  obtain ba2 where 2: "ba_write ba1 bs = Inr ba2" "wrote ba1 bs ba2"
    using ba_write_wrote [OF wrote_inv [OF 1(2)]] by blast
  show ?thesis using 1(1) 2(1) wrote_trans [OF assms 1(2) 2(2)] by simp
qed

end

lemma read_string_f16_input:
  assumes "length s < 2 ^ 16" "at_input ba (fix_bytes (m_endian ba) (of_nat (length s) :: u16) @ s @ rest)"
    and "m_position ba + 2 < m_base_size ba"
  shows "read_string_f16 ba = Inr (s, consumed ba (2 + length s))"
  using fix_u16.reads [OF _ assms(2)] read_raw_input [OF at_input_consumed [OF assms(2)]] assms(1,3)
  by (simp add: read_string_f16_def unat_of_nat take_bit_nat_eq_self)

lemma read_string_f32_input:
  assumes "length s < 2 ^ 32" "at_input ba (fix_bytes (m_endian ba) (of_nat (length s) :: u32) @ s @ rest)"
    and "m_position ba + 4 < m_base_size ba"
  shows "read_string_f32 ba = Inr (s, consumed ba (4 + length s))"
  using fix_u32.reads [OF _ assms(2)] read_raw_input [OF at_input_consumed [OF assms(2)]] assms(1,3)
  by (simp add: read_string_f32_def unat_of_nat take_bit_nat_eq_self)

lemma read_string_f64_input:
  assumes "length s < 2 ^ 64" "at_input ba (fix_bytes (m_endian ba) (of_nat (length s) :: u64) @ s @ rest)"
    and "m_position ba + 8 < m_base_size ba"
  shows "read_string_f64 ba = Inr (s, consumed ba (8 + length s))"
  using fix_u64.reads [OF _ assms(2)] read_raw_input [OF at_input_consumed [OF assms(2)]] assms(1,3)
  by (simp add: read_string_f64_def unat_of_nat take_bit_nat_eq_self)

lemma read_string_vint_input:
  assumes "length s < 2 ^ 64" "at_input ba (var_bytes (of_nat (length s) :: u64) @ s @ rest)"
    and "m_position ba + length (var_bytes (of_nat (length s) :: u64)) < m_base_size ba"
  shows "read_string_vint ba =
    Inr (s, consumed ba (length (var_bytes (of_nat (length s) :: u64)) + length s))"
  using var_u64.reads [OF _ assms(2,3)] read_raw_input [OF at_input_consumed [OF assms(2)]] assms(1,3)
  by (simp add: read_string_vint_def unat_of_nat take_bit_nat_eq_self)

interpretation str_f16: codec write_string_f16 read_string_f16
  "\<lambda>en s. fix_bytes en (of_nat (length s) :: u16) @ s" "\<lambda>s. length s < 2 ^ 16"
  by unfold_locales
    (auto simp: write_string_f16_def fix_u16.then_bytes read_string_f16_input)

interpretation str_f32: codec write_string_f32 read_string_f32
  "\<lambda>en s. fix_bytes en (of_nat (length s) :: u32) @ s" "\<lambda>s. length s < 2 ^ 32"
  by unfold_locales
    (auto simp: write_string_f32_def fix_u32.then_bytes read_string_f32_input)

interpretation str_f64: codec write_string_f64 read_string_f64
  "\<lambda>en s. fix_bytes en (of_nat (length s) :: u64) @ s" "\<lambda>s. length s < 2 ^ 64"
  by unfold_locales
    (auto simp: write_string_f64_def fix_u64.then_bytes read_string_f64_input)

interpretation str_vint: codec write_string_vint read_string_vint
  "\<lambda>en s. var_bytes (of_nat (length s) :: u64) @ s" "\<lambda>s. length s < 2 ^ 64"
  by unfold_locales
    (auto simp: write_string_vint_def var_u64.then_bytes read_string_vint_input)

end
