(* ===== verification/StdMap.thy ===== *)
theory StdMap
  imports Prelude
begin

text \<open>
  The ordered containers of the C++ standard library as the code uses them: a \<open>std::set\<close>
  or \<open>std::map\<close> with comparator \<open>lt\<close> is the list of its elements in iteration order. The
  operations only ever compare with \<open>lt\<close>, so two keys are the same key when neither is
  less than the other. The interface a comparator has to meet is the locale
  \<open>strict_weak\<close>; its facts are the container laws, proved once for all comparators.
\<close>

section \<open>Operations\<close>

definition equiv_key :: "('k \<Rightarrow> 'k \<Rightarrow> bool) \<Rightarrow> 'k \<Rightarrow> 'k \<Rightarrow> bool" where
  "equiv_key lt a b \<longleftrightarrow> \<not> lt a b \<and> \<not> lt b a"

fun set_insert :: "('k \<Rightarrow> 'k \<Rightarrow> bool) \<Rightarrow> 'k \<Rightarrow> 'k list \<Rightarrow> 'k list" where
  "set_insert lt x [] = [x]"
| "set_insert lt x (y # ys) =
     (if lt x y then x # y # ys else if lt y x then y # set_insert lt x ys else y # ys)"

fun multi_insert :: "('k \<Rightarrow> 'k \<Rightarrow> bool) \<Rightarrow> 'k \<Rightarrow> 'k list \<Rightarrow> 'k list" where
  "multi_insert lt x [] = [x]"
| "multi_insert lt x (y # ys) = (if lt x y then x # y # ys else y # multi_insert lt x ys)"

definition set_erase :: "('k \<Rightarrow> 'k \<Rightarrow> bool) \<Rightarrow> 'k \<Rightarrow> 'k list \<Rightarrow> 'k list" where
  "set_erase lt x xs = filter (\<lambda>y. \<not> equiv_key lt x y) xs"

definition set_contains :: "('k \<Rightarrow> 'k \<Rightarrow> bool) \<Rightarrow> 'k \<Rightarrow> 'k list \<Rightarrow> bool" where
  "set_contains lt x xs = list_ex (equiv_key lt x) xs"

lemma set_multi_insert [simp]: "set (multi_insert lt x xs) = insert x (set xs)"
  by (induction xs) auto

text \<open>\<open>emplace\<close> keeps an existing mapping; \<open>m[k] = v\<close> overwrites it.\<close>

definition map_emplace :: "('k \<Rightarrow> 'k \<Rightarrow> bool) \<Rightarrow> 'k \<Rightarrow> 'v \<Rightarrow> ('k \<times> 'v) list \<Rightarrow> ('k \<times> 'v) list" where
  "map_emplace lt k v m = set_insert (\<lambda>a b. lt (fst a) (fst b)) (k, v) m"

definition map_find :: "('k \<Rightarrow> 'k \<Rightarrow> bool) \<Rightarrow> 'k \<Rightarrow> ('k \<times> 'v) list \<Rightarrow> 'v option" where
  "map_find lt k m = map_option snd (find (\<lambda>e. equiv_key lt k (fst e)) m)"

definition map_erase :: "('k \<Rightarrow> 'k \<Rightarrow> bool) \<Rightarrow> 'k \<Rightarrow> ('k \<times> 'v) list \<Rightarrow> ('k \<times> 'v) list" where
  "map_erase lt k m = filter (\<lambda>e. \<not> equiv_key lt k (fst e)) m"

definition map_assign :: "('k \<Rightarrow> 'k \<Rightarrow> bool) \<Rightarrow> 'k \<Rightarrow> 'v \<Rightarrow> ('k \<times> 'v) list \<Rightarrow> ('k \<times> 'v) list" where
  "map_assign lt k v m =
     (if map_find lt k m = None then map_emplace lt k v m
      else map (\<lambda>e. if equiv_key lt k (fst e) then (fst e, v) else e) m)"

section \<open>Comparators\<close>

locale strict_weak =
  fixes lt :: "'k \<Rightarrow> 'k \<Rightarrow> bool"
  assumes irrefl: "\<not> lt a a"
    and trans: "lt a b \<Longrightarrow> lt b c \<Longrightarrow> lt a c"
    and equiv_trans: "equiv_key lt a b \<Longrightarrow> equiv_key lt b c \<Longrightarrow> equiv_key lt a c"
begin

lemma asym: "lt a b \<Longrightarrow> \<not> lt b a"
  using irrefl trans by blast

lemma equiv_refl [simp]: "equiv_key lt a a"
  by (simp add: equiv_key_def irrefl)

lemma equiv_sym: "equiv_key lt a b \<longleftrightarrow> equiv_key lt b a"
  by (auto simp: equiv_key_def)

lemma lt_equiv_left: "lt a b \<Longrightarrow> equiv_key lt a c \<Longrightarrow> lt c b"
  by (metis asym equiv_key_def equiv_trans trans)

lemma lt_equiv_right: "lt a b \<Longrightarrow> equiv_key lt b c \<Longrightarrow> lt a c"
  by (metis asym equiv_key_def equiv_trans trans)

abbreviation ordered :: "'k list \<Rightarrow> bool" where
  "ordered xs \<equiv> sorted_wrt lt xs"

lemma set_set_insert: "set (set_insert lt x xs) \<subseteq> insert x (set xs)"
  by (induction xs) auto

lemma ordered_insert: "ordered xs \<Longrightarrow> ordered (set_insert lt x xs)"
proof (induction xs)
  case (Cons y ys)
  then show ?case
    using set_set_insert [of x ys] by (auto dest: trans)
qed simp

lemma insert_keeps: "y \<in> set xs \<Longrightarrow> y \<in> set (set_insert lt x xs)"
  by (induction xs) auto

lemma insert_contains: "set_contains lt x (set_insert lt x xs)"
  unfolding set_contains_def by (induction xs) (auto simp: equiv_key_def irrefl)

lemma insert_new:
  "ordered xs \<Longrightarrow> \<not> set_contains lt x xs \<Longrightarrow> set (set_insert lt x xs) = insert x (set xs)"
  by (induction xs) (auto simp: set_contains_def equiv_key_def)

lemma insert_absent_length:
  "\<not> set_contains lt x xs \<Longrightarrow> length (set_insert lt x xs) = Suc (length xs)"
  by (induction xs) (auto simp: set_contains_def equiv_key_def)

lemma insert_present: "ordered xs \<Longrightarrow> set_contains lt x xs \<Longrightarrow> set_insert lt x xs = xs"
proof (induction xs)
  case (Cons y ys)
  show ?case
  proof (cases "equiv_key lt x y")
    case False
    with Cons.prems obtain z where z: "z \<in> set ys" "equiv_key lt x z"
      by (auto simp: set_contains_def list_ex_iff)
    with Cons.prems have "lt y z" by simp
    with z(2) have "lt y x" using lt_equiv_right equiv_sym by blast
    moreover have "set_contains lt x ys" using z by (auto simp: set_contains_def list_ex_iff)
    ultimately show ?thesis using Cons asym by auto
  qed (simp add: equiv_key_def)
qed (simp add: set_contains_def)

lemma insert_last: "ordered (xs @ [x]) \<Longrightarrow> set_insert lt x xs = xs @ [x]"
  by (induction xs) (auto dest: asym)

lemma multi_insert_last:
  "sorted_wrt (\<lambda>a b. \<not> lt b a) (xs @ [x]) \<Longrightarrow> multi_insert lt x xs = xs @ [x]"
  by (induction xs) auto

lemma multi_insert_ordered:
  "sorted_wrt (\<lambda>a b. \<not> lt b a) xs \<Longrightarrow> sorted_wrt (\<lambda>a b. \<not> lt b a) (multi_insert lt x xs)"
proof (induction xs)
  case (Cons y ys)
  show ?case
  proof (cases "lt x y")
    case True
    have "\<not> lt z x" if "z \<in> set ys" for z
    proof
      assume "lt z x"
      from trans [OF this True] show False using that Cons.prems by simp
    qed
    with True asym [OF True] Cons.prems show ?thesis by simp
  next
    case False
    with Cons show ?thesis by simp
  qed
qed simp

lemma fold_insert_ordered:
  "ordered (xs @ ys) \<Longrightarrow> fold (set_insert lt) ys xs = xs @ ys"
proof (induction ys arbitrary: xs)
  case (Cons y ys)
  then have "ordered (xs @ [y])" by (auto simp: sorted_wrt_append)
  from insert_last [OF this] Cons.IH [of "xs @ [y]"] Cons.prems show ?case by simp
qed simp

lemma fold_multi_ordered:
  "sorted_wrt (\<lambda>a b. \<not> lt b a) (xs @ ys) \<Longrightarrow> fold (multi_insert lt) ys xs = xs @ ys"
proof (induction ys arbitrary: xs)
  case (Cons y ys)
  then have "sorted_wrt (\<lambda>a b. \<not> lt b a) (xs @ [y])" by (auto simp: sorted_wrt_append)
  from multi_insert_last [OF this] Cons.IH [of "xs @ [y]"] Cons.prems show ?case by simp
qed simp

lemma ordered_erase: "ordered xs \<Longrightarrow> ordered (set_erase lt x xs)"
  by (simp add: set_erase_def sorted_wrt_filter)

lemma erase_contains: "\<not> set_contains lt x (set_erase lt x xs)"
  by (auto simp: set_contains_def set_erase_def list_ex_iff)

lemma set_erase_iff: "y \<in> set (set_erase lt x xs) \<longleftrightarrow> y \<in> set xs \<and> \<not> equiv_key lt x y"
  by (auto simp: set_erase_def)

abbreviation map_ordered :: "('k \<times> 'v) list \<Rightarrow> bool" where
  "map_ordered m \<equiv> sorted_wrt (\<lambda>a b. lt (fst a) (fst b)) m"

lemma find_emplace:
  "map_ordered m \<Longrightarrow> map_find lt k m = None \<Longrightarrow> map_find lt k (map_emplace lt k v m) = Some v"
  unfolding map_emplace_def map_find_def
  by (induction m) (auto simp: equiv_key_def irrefl split: if_splits)

lemma find_emplace_other:
  "\<not> equiv_key lt k k' \<Longrightarrow> map_find lt k' (map_emplace lt k v m) = map_find lt k' m"
  unfolding map_emplace_def map_find_def
  by (induction m) (auto simp: equiv_sym)

lemma emplace_present:
  "map_ordered m \<Longrightarrow> map_find lt k m \<noteq> None \<Longrightarrow> map_emplace lt k v m = m"
proof (induction m)
  case (Cons e m)
  show ?case
  proof (cases "equiv_key lt k (fst e)")
    case True
    then show ?thesis by (auto simp: map_emplace_def equiv_key_def)
  next
    case False
    with Cons.prems obtain z where z: "z \<in> set m" "equiv_key lt k (fst z)"
      by (auto simp: map_find_def find_None_iff)
    with Cons.prems(1) have "lt (fst e) k" using lt_equiv_right equiv_sym by fastforce
    with False Cons show ?thesis by (auto simp: map_emplace_def map_find_def dest: asym)
  qed
qed (simp add: map_find_def)

lemma find_update_same:
  "map_find lt k m \<noteq> None \<Longrightarrow>
   map_find lt k (map (\<lambda>e. if equiv_key lt k (fst e) then (fst e, v) else e) m) = Some v"
  unfolding map_find_def by (induction m) (auto split: if_splits)

lemma find_update_other:
  "\<not> equiv_key lt k k' \<Longrightarrow>
   map_find lt k' (map (\<lambda>e. if equiv_key lt k (fst e) then (fst e, v) else e) m) = map_find lt k' m"
  unfolding map_find_def
proof (induction m)
  case (Cons e m)
  have "\<not> equiv_key lt k' (fst e)" if "equiv_key lt k (fst e)"
    using that Cons.prems equiv_trans equiv_sym by blast
  with Cons show ?case by (cases e) auto
qed simp

lemma find_assign:
  fixes m :: "('k \<times> 'v) list"
  assumes o: "map_ordered m"
  shows "map_find lt k' (map_assign lt k v m) =
    (if equiv_key lt k k' then Some v else map_find lt k' m)"
proof -
  have cong: "map_find lt k' n = map_find lt k n" if "equiv_key lt k k'" for n :: "('k \<times> 'v) list"
  proof -
    have "equiv_key lt k' = equiv_key lt k"
      using that equiv_trans equiv_sym by blast
    then show ?thesis by (simp add: map_find_def)
  qed
  show ?thesis
    using o find_emplace [of m k v] find_emplace_other [of k k' v m]
      find_update_same [of k m v] find_update_other [of k k' v m]
    by (cases "equiv_key lt k k'") (simp_all add: map_assign_def cong)
qed

lemma find_erase:
  "map_find lt k' (map_erase lt k m) = (if equiv_key lt k k' then None else map_find lt k' m)"
proof (cases "equiv_key lt k k'")
  case True
  then have "find (\<lambda>e. equiv_key lt k' (fst e)) (map_erase lt k m) = None"
    using equiv_trans by (auto simp: find_None_iff map_erase_def)
  with True show ?thesis by (simp add: map_find_def)
next
  case False
  then have "\<not> (equiv_key lt k (fst e) \<and> equiv_key lt k' (fst e))" for e :: "'k \<times> 'v"
    using equiv_trans equiv_sym by blast
  then have "find (\<lambda>e. equiv_key lt k' (fst e)) (map_erase lt k m) =
      find (\<lambda>e. equiv_key lt k' (fst e)) m"
    unfolding map_erase_def by (induction m) auto
  with False show ?thesis by (simp add: map_find_def)
qed

lemma set_map_emplace: "set (map_emplace lt k v m) \<subseteq> insert (k, v) (set m)"
  unfolding map_emplace_def by (induction m) auto

lemma emplace_ordered: "map_ordered m \<Longrightarrow> map_ordered (map_emplace lt k v m)"
proof (induction m)
  case (Cons e m)
  then show ?case
    using set_map_emplace [of k v m] unfolding map_emplace_def
    by (auto dest: trans)
qed (simp add: map_emplace_def)

lemma update_ordered:
  "map_ordered m \<Longrightarrow> map_ordered (map (\<lambda>e. if equiv_key lt k (fst e) then (fst e, v) else e) m)"
  by (induction m) auto

lemma assign_ordered: "map_ordered m \<Longrightarrow> map_ordered (map_assign lt k v m)"
  by (simp add: map_assign_def emplace_ordered update_ordered)

lemma erase_ordered: "map_ordered m \<Longrightarrow> map_ordered (map_erase lt k m)"
  by (simp add: map_erase_def sorted_wrt_filter)

end

section \<open>The standard comparator of a linear order\<close>

interpretation std_less: strict_weak "(<) :: 'a::linorder \<Rightarrow> 'a \<Rightarrow> bool"
  by unfold_locales (auto simp: equiv_key_def)

end
