(* ===== verification/Serializer.thy ===== *)
theory Serializer
  imports ByteArray_Codec StdMap
begin

text \<open>
  The serialiser of \<open>acid/rpc/serializer.h\<close> and the call results of \<open>acid/rpc/rpc.h\<close>. The
  C++ templates dispatch on static types: \<open>ty\<close> names the types the class knows, \<open>val\<close>
  their values, \<open>sread\<close> and \<open>swrite\<close> are the \<open>if constexpr\<close> chains of \<open>read\<close> and
  \<open>write\<close> (which do nothing for any other type) and \<open>get\<close>, \<open>put\<close> the overloads of
  \<open>>>\<close> and \<open><<\<close>. Containers are lists in iteration order; \<open>lt\<close> stands for the element
  order of the ordered ones. Integers, floats and doubles are their bit patterns.
\<close>

section \<open>Types and values\<close>

datatype ty =
    TBool | TFloat | TDouble | TI8 | TU8 | TI16 | TU16 | TI32 | TU32 | TI64 | TU64 | TString
  | TTuple "ty list" | TList ty | TVector ty | TSet ty | TUnordered_set ty | TMultiset ty
  | TUnordered_multiset ty | TPair ty ty | TMap ty ty | TUnordered_map ty ty
  | TMultimap ty ty | TUnordered_multimap ty ty

datatype val =
    Bool bool | Float u32 | Double u64 | I8 u8 | U8 u8 | I16 u16 | U16 u16 | I32 u32 | U32 u32
  | I64 u64 | U64 u64 | Str bytes
  | Tuple "val list" | List "val list" | Vector "val list" | Set "val list"
  | Unordered_set "val list" | Multiset "val list" | Unordered_multiset "val list"
  | Pair val val | Map "(val \<times> val) list" | Unordered_map "(val \<times> val) list"
  | Multimap "(val \<times> val) list" | Unordered_multimap "(val \<times> val) list"

text \<open>The value of a local \<open>T tmp;\<close> of class type, and of a value-initialised member.\<close>

fun default_val :: "ty \<Rightarrow> val" where
  "default_val TBool = Bool False"
| "default_val TFloat = Float 0"
| "default_val TDouble = Double 0"
| "default_val TI8 = I8 0"
| "default_val TU8 = U8 0"
| "default_val TI16 = I16 0"
| "default_val TU16 = U16 0"
| "default_val TI32 = I32 0"
| "default_val TU32 = U32 0"
| "default_val TI64 = I64 0"
| "default_val TU64 = U64 0"
| "default_val TString = Str []"
| "default_val (TTuple ts) = Tuple (map default_val ts)"
| "default_val (TList t) = List []"
| "default_val (TVector t) = Vector []"
| "default_val (TSet t) = Set []"
| "default_val (TUnordered_set t) = Unordered_set []"
| "default_val (TMultiset t) = Multiset []"
| "default_val (TUnordered_multiset t) = Unordered_multiset []"
| "default_val (TPair k v) = Pair (default_val k) (default_val v)"
| "default_val (TMap k v) = Map []"
| "default_val (TUnordered_map k v) = Unordered_map []"
| "default_val (TMultimap k v) = Multimap []"
| "default_val (TUnordered_multimap k v) = Unordered_multimap []"

section \<open>Reading and writing by static type\<close>

definition with_val :: "('a \<times> byte_array) res \<Rightarrow> ('a \<Rightarrow> val) \<Rightarrow> (val \<times> byte_array) res" where
  "with_val m f = bindR m (\<lambda>(x, ba). Inr (f x, ba))"

text \<open>\<open>read(T& t)\<close>: \<open>old\<close> is what \<open>t\<close> held.\<close>

fun sread :: "ty \<Rightarrow> val \<Rightarrow> byte_array \<Rightarrow> (val \<times> byte_array) res" where
  "sread TBool old ba = with_val (read_fix_int8 ba) (\<lambda>w. Bool (w \<noteq> 0))"
| "sread TFloat old ba = with_val (read_float ba) Float"
| "sread TDouble old ba = with_val (read_double ba) Double"
| "sread TI8 old ba = with_val (read_fix_int8 ba) I8"
| "sread TU8 old ba = with_val (read_fix_uint8 ba) U8"
| "sread TI16 old ba = with_val (read_fix_int16 ba) I16"
| "sread TU16 old ba = with_val (read_fix_uint16 ba) U16"
| "sread TI32 old ba = with_val (read_var_int32 ba) I32"
| "sread TU32 old ba = with_val (read_var_uint32 ba) U32"
| "sread TI64 old ba = with_val (read_var_int64 ba) I64"
| "sread TU64 old ba = with_val (read_var_uint64 ba) U64"
| "sread TString old ba = with_val (read_string_vint ba) Str"
| "sread _ old ba = Inr (old, ba)"

fun swrite :: "byte_array \<Rightarrow> val \<Rightarrow> byte_array res" where
  "swrite ba (Bool b) = write_fix_int8 ba (if b then 1 else 0)"
| "swrite ba (Float w) = write_float ba w"
| "swrite ba (Double w) = write_double ba w"
| "swrite ba (I8 w) = write_fix_int8 ba w"
| "swrite ba (U8 w) = write_fix_uint8 ba w"
| "swrite ba (I16 w) = write_fix_int16 ba w"
| "swrite ba (U16 w) = write_fix_uint16 ba w"
| "swrite ba (I32 w) = write_var_int32 ba w"
| "swrite ba (U32 w) = write_var_uint32 ba w"
| "swrite ba (I64 w) = write_var_int64 ba w"
| "swrite ba (U64 w) = write_var_uint64 ba w"
| "swrite ba (Str s) = write_string_vint ba s"
| "swrite ba _ = Inr ba"

definition write_size :: "byte_array \<Rightarrow> nat \<Rightarrow> byte_array res" where
  "write_size ba n = write_var_uint64 ba (of_nat n)"

section \<open>The stream operators\<close>

text \<open>
  \<open><<\<close> on a constant. A pair that is constant, as the elements of a map are, does not
  match the overload for pairs, which takes a mutable reference, and falls to \<open>write\<close>.
  The unordered set and the multisets write their elements with \<open>write\<close> itself.
\<close>

fun write_each :: "byte_array \<Rightarrow> val list \<Rightarrow> byte_array res" where
  "write_each ba [] = Inr ba"
| "write_each ba (v # vs) = bindR (swrite ba v) (\<lambda>ba. write_each ba vs)"

fun put :: "byte_array \<Rightarrow> val \<Rightarrow> byte_array res"
  and put_all :: "byte_array \<Rightarrow> val list \<Rightarrow> byte_array res" where
  "put ba (Tuple vs) = put_all ba vs"
| "put ba (List vs) = bindR (write_size ba (length vs)) (\<lambda>ba. put_all ba vs)"
| "put ba (Vector vs) = bindR (write_size ba (length vs)) (\<lambda>ba. put_all ba vs)"
| "put ba (Set vs) = bindR (write_size ba (length vs)) (\<lambda>ba. put_all ba vs)"
| "put ba (Unordered_set vs) = bindR (write_size ba (length vs)) (\<lambda>ba. write_each ba vs)"
| "put ba (Multiset vs) = bindR (write_size ba (length vs)) (\<lambda>ba. write_each ba vs)"
| "put ba (Unordered_multiset vs) = bindR (write_size ba (length vs)) (\<lambda>ba. write_each ba vs)"
| "put ba (Map es) =
     bindR (write_size ba (length es)) (\<lambda>ba. write_each ba (map (\<lambda>(k, v). Pair k v) es))"
| "put ba (Unordered_map es) =
     bindR (write_size ba (length es)) (\<lambda>ba. write_each ba (map (\<lambda>(k, v). Pair k v) es))"
| "put ba (Multimap es) =
     bindR (write_size ba (length es)) (\<lambda>ba. write_each ba (map (\<lambda>(k, v). Pair k v) es))"
| "put ba (Unordered_multimap es) =
     bindR (write_size ba (length es)) (\<lambda>ba. write_each ba (map (\<lambda>(k, v). Pair k v) es))"
| "put ba (Pair a b) = swrite ba (Pair a b)"
| "put ba v = swrite ba v"
| "put_all ba [] = Inr ba"
| "put_all ba (v # vs) = bindR (put ba v) (\<lambda>ba. put_all ba vs)"

text \<open>\<open><<\<close> on a mutable pair writes both members and then flows off the end of a
  function that returns a reference.\<close>

definition put_pair_ref :: "byte_array \<Rightarrow> val \<Rightarrow> val \<Rightarrow> byte_array res" where
  "put_pair_ref ba a b = bindR (put ba a) (\<lambda>ba. bindR (put ba b) (\<lambda>ba. Inl Undefined))"

text \<open>The reading loops: \<open>T tmp; read(tmp);\<close> \<open>n\<close> times.\<close>

fun read_each :: "ty \<Rightarrow> nat \<Rightarrow> byte_array \<Rightarrow> (val list \<times> byte_array) res" where
  "read_each t 0 ba = Inr ([], ba)"
| "read_each t (Suc n) ba =
     bindR (sread t (default_val t) ba) (\<lambda>(v, ba).
       bindR (read_each t n ba) (\<lambda>(vs, ba). Inr (v # vs, ba)))"

fun repeat_read :: "nat \<Rightarrow> (byte_array \<Rightarrow> ('a \<times> byte_array) res) \<Rightarrow> byte_array \<Rightarrow>
    ('a list \<times> byte_array) res" where
  "repeat_read 0 f ba = Inr ([], ba)"
| "repeat_read (Suc n) f ba =
     bindR (f ba) (\<lambda>(x, ba). bindR (repeat_read n f ba) (\<lambda>(xs, ba). Inr (x # xs, ba)))"

definition key_lt :: "(val \<Rightarrow> val \<Rightarrow> bool) \<Rightarrow> val \<times> val \<Rightarrow> val \<times> val \<Rightarrow> bool" where
  "key_lt lt a b = lt (fst a) (fst b)"

text \<open>\<open>emplace\<close> of the unordered containers; their order is the order of insertion here.\<close>

definition uset_insert :: "'a \<Rightarrow> 'a list \<Rightarrow> 'a list" where
  "uset_insert x xs = (if x \<in> set xs then xs else xs @ [x])"

definition umap_insert :: "'k \<times> 'v \<Rightarrow> ('k \<times> 'v) list \<Rightarrow> ('k \<times> 'v) list" where
  "umap_insert e es = (if fst e \<in> fst ` set es then es else es @ [e])"

fun elems :: "val \<Rightarrow> val list" where
  "elems (Tuple vs) = vs"
| "elems (List vs) = vs"
| "elems (Vector vs) = vs"
| "elems (Set vs) = vs"
| "elems (Unordered_set vs) = vs"
| "elems (Multiset vs) = vs"
| "elems (Unordered_multiset vs) = vs"
| "elems (Pair a b) = [a, b]"
| "elems _ = []"

fun entries :: "val \<Rightarrow> (val \<times> val) list" where
  "entries (Map es) = es"
| "entries (Unordered_map es) = es"
| "entries (Multimap es) = es"
| "entries (Unordered_multimap es) = es"
| "entries _ = []"

definition read_container ::
  "ty \<Rightarrow> (val list \<Rightarrow> val) \<Rightarrow> byte_array \<Rightarrow> (val \<times> byte_array) res" where
  "read_container t build ba =
     bindR (read_var_uint64 ba) (\<lambda>(n, ba).
       bindR (read_each t (unat n) ba) (\<lambda>(vs, ba). Inr (build vs, ba)))"

definition read_entries ::
  "(byte_array \<Rightarrow> ((val \<times> val) \<times> byte_array) res) \<Rightarrow> ((val \<times> val) list \<Rightarrow> val) \<Rightarrow> byte_array \<Rightarrow>
   (val \<times> byte_array) res" where
  "read_entries rd build ba =
     bindR (read_var_uint64 ba) (\<lambda>(n, ba).
       bindR (repeat_read (unat n) rd ba) (\<lambda>(es, ba). Inr (build es, ba)))"

definition pair_read ::
  "(val \<Rightarrow> byte_array \<Rightarrow> (val \<times> byte_array) res) \<Rightarrow> (val \<Rightarrow> byte_array \<Rightarrow> (val \<times> byte_array) res) \<Rightarrow>
   val \<Rightarrow> val \<Rightarrow> byte_array \<Rightarrow> ((val \<times> val) \<times> byte_array) res" where
  "pair_read first second a b ba =
     bindR (first a ba) (\<lambda>(a, ba). bindR (second b ba) (\<lambda>(b, ba). Inr ((a, b), ba)))"

text \<open>\<open>>>\<close> into a variable that holds \<open>old\<close>.\<close>

fun get :: "(val \<Rightarrow> val \<Rightarrow> bool) \<Rightarrow> ty \<Rightarrow> val \<Rightarrow> byte_array \<Rightarrow> (val \<times> byte_array) res"
  and get_all :: "(val \<Rightarrow> val \<Rightarrow> bool) \<Rightarrow> ty list \<Rightarrow> val list \<Rightarrow> byte_array \<Rightarrow>
    (val list \<times> byte_array) res" where
  "get lt (TTuple ts) old ba =
     bindR (get_all lt ts (elems old) ba) (\<lambda>(vs, ba). Inr (Tuple vs, ba))"
| "get lt (TList t) old ba = read_container t (\<lambda>vs. List (elems old @ vs)) ba"
| "get lt (TVector t) old ba = read_container t (\<lambda>vs. Vector (elems old @ vs)) ba"
| "get lt (TSet t) old ba =
     read_container t (\<lambda>vs. Set (fold (set_insert lt) vs (elems old))) ba"
| "get lt (TUnordered_set t) old ba =
     read_container t (\<lambda>vs. Unordered_set (fold uset_insert vs (elems old))) ba"
| "get lt (TMultiset t) old ba =
     read_container t (\<lambda>vs. Multiset (fold (multi_insert lt) vs (elems old))) ba"
| "get lt (TUnordered_multiset t) old ba =
     read_container t (\<lambda>vs. Unordered_multiset (elems old @ vs)) ba"
| "get lt (TPair k v) old ba =
     (case elems old of
        [a, b] \<Rightarrow> bindR (pair_read (get lt k) (get lt v) a b ba) (\<lambda>((a, b), ba). Inr (Pair a b, ba))
      | _ \<Rightarrow> Inl Undefined)"
| "get lt (TMap k v) old ba =
     read_entries (pair_read (get lt k) (get lt v) (default_val k) (default_val v))
       (\<lambda>es. Map (fold (set_insert (key_lt lt)) es (entries old))) ba"
| "get lt (TUnordered_map k v) old ba =
     read_entries (pair_read (get lt k) (get lt v) (default_val k) (default_val v))
       (\<lambda>es. Unordered_map (fold umap_insert es (entries old))) ba"
| "get lt (TMultimap k v) old ba =
     read_entries (pair_read (get lt k) (get lt v) (default_val k) (default_val v))
       (\<lambda>es. Multimap (fold (multi_insert (key_lt lt)) es (entries old))) ba"
| "get lt (TUnordered_multimap k v) old ba =
     read_entries (pair_read (get lt k) (get lt v) (default_val k) (default_val v))
       (\<lambda>es. Unordered_multimap (entries old @ es)) ba"
| "get lt t old ba = sread t old ba"
| "get_all lt (t # ts) (v # vs) ba =
     bindR (get lt t v ba) (\<lambda>(v, ba).
       bindR (get_all lt ts vs ba) (\<lambda>(vs, ba). Inr (v # vs, ba)))"
| "get_all lt _ _ ba = Inr ([], ba)"

end
