(* ===== verification/Serializer_Spec.thy ===== *)
theory Serializer_Spec
  imports Serializer
begin

text \<open>
  What the serialiser promises. \<open>venc\<close> is the byte format of every value, and \<open>put\<close>
  writes exactly it (\<open>put_wrote\<close>). \<open>has_ty\<close> is the part of the types for which reading
  is the inverse of writing: the primitive types, tuples of supported types, and
  sequences and ordered sets of primitive types.
\<close>

section \<open>Byte format\<close>

fun senc :: "endian \<Rightarrow> val \<Rightarrow> u8 list" where
  "senc en (Bool b) = [if b then 1 else 0]"
| "senc en (Float w) = fix_bytes en w"
| "senc en (Double w) = fix_bytes en w"
| "senc en (I8 w) = [w]"
| "senc en (U8 w) = [w]"
| "senc en (I16 w) = fix_bytes en w"
| "senc en (U16 w) = fix_bytes en w"
| "senc en (I32 w) = var_bytes (encode_zigzag32 w)"
| "senc en (U32 w) = var_bytes w"
| "senc en (I64 w) = var_bytes (encode_zigzag64 w)"
| "senc en (U64 w) = var_bytes w"
| "senc en (Str s) = var_bytes (of_nat (length s) :: u64) @ s"
| "senc en _ = []"

definition size_bytes :: "nat \<Rightarrow> u8 list" where
  "size_bytes n = var_bytes (of_nat n :: u64)"

fun venc :: "endian \<Rightarrow> val \<Rightarrow> u8 list" where
  "venc en (Tuple vs) = concat (map (venc en) vs)"
| "venc en (List vs) = size_bytes (length vs) @ concat (map (venc en) vs)"
| "venc en (Vector vs) = size_bytes (length vs) @ concat (map (venc en) vs)"
| "venc en (Set vs) = size_bytes (length vs) @ concat (map (venc en) vs)"
| "venc en (Unordered_set vs) = size_bytes (length vs) @ concat (map (senc en) vs)"
| "venc en (Multiset vs) = size_bytes (length vs) @ concat (map (senc en) vs)"
| "venc en (Unordered_multiset vs) = size_bytes (length vs) @ concat (map (senc en) vs)"
| "venc en (Map es) = size_bytes (length es)"
| "venc en (Unordered_map es) = size_bytes (length es)"
| "venc en (Multimap es) = size_bytes (length es)"
| "venc en (Unordered_multimap es) = size_bytes (length es)"
| "venc en (Pair a b) = []"
| "venc en v = senc en v"

text \<open>A computation that writes the bytes \<open>bs\<close> at the position of \<open>ba\<close>.\<close>

definition puts :: "byte_array res \<Rightarrow> byte_array \<Rightarrow> u8 list \<Rightarrow> bool" where
  "puts m ba bs \<longleftrightarrow> (\<exists>ba'. m = Inr ba' \<and> wrote ba bs ba')"

lemma puts_none: "ba_inv ba \<Longrightarrow> puts (Inr ba) ba []"
  by (simp add: puts_def wrote_refl)

lemma puts_bind:
  assumes "ba_inv ba" "puts m ba xs"
    and "\<And>b1. ba_inv b1 \<Longrightarrow> m_endian b1 = m_endian ba \<Longrightarrow> puts (f b1) b1 ys"
  shows "puts (bindR m f) ba (xs @ ys)"
proof -
  from assms(2) obtain b1 where 1: "m = Inr b1" "wrote ba xs b1" by (auto simp: puts_def)
  from assms(3) [OF wrote_inv wrote_endian, OF 1(2) 1(2)]
  obtain b2 where 2: "f b1 = Inr b2" "wrote b1 ys b2" by (auto simp: puts_def)
  from wrote_trans [OF assms(1) 1(2) 2(2)] 1(1) 2(1) show ?thesis by (simp add: puts_def)
qed

lemma swrite_puts: "ba_inv ba \<Longrightarrow> puts (swrite ba v) ba (senc (m_endian ba) v)"
  unfolding puts_def
  by (cases v) (simp_all add: wrote_refl fix_i8.writes fix_u8.writes flt.writes dbl.writes
      fix_i16.writes fix_u16.writes var_i32.writes var_u32.writes var_i64.writes var_u64.writes
      str_vint.writes)

lemma write_size_puts: "ba_inv ba \<Longrightarrow> puts (write_size ba n) ba (size_bytes n)"
  unfolding puts_def write_size_def size_bytes_def by (rule var_u64.writes)

lemma write_each_puts:
  "ba_inv ba \<Longrightarrow> puts (write_each ba vs) ba (concat (map (senc (m_endian ba)) vs))"
proof (induction vs arbitrary: ba)
  case (Cons v vs)
  show ?case
    unfolding write_each.simps list.map concat.simps
    by (rule puts_bind [OF Cons.prems swrite_puts [OF Cons.prems]]) (metis Cons.IH)
qed (simp add: puts_none)

lemma put_all_puts:
  assumes "\<And>v ba. v \<in> set vs \<Longrightarrow> ba_inv ba \<Longrightarrow> puts (put ba v) ba (venc (m_endian ba) v)"
  shows "ba_inv ba \<Longrightarrow> puts (put_all ba vs) ba (concat (map (venc (m_endian ba)) vs))"
  using assms
proof (induction vs arbitrary: ba)
  case (Cons v vs)
  have "puts (put ba v) ba (venc (m_endian ba) v)" using Cons.prems by simp
  from puts_bind [OF Cons.prems(1) this] show ?case
    unfolding put_all.simps list.map concat.simps
    using Cons.IH Cons.prems(2) by (metis list.set_intros(2))
qed (simp add: puts_none)

lemma sized_puts:
  assumes "ba_inv ba" "\<And>b1. ba_inv b1 \<Longrightarrow> m_endian b1 = m_endian ba \<Longrightarrow> puts (f b1) b1 ys"
  shows "puts (bindR (write_size ba n) f) ba (size_bytes n @ ys)"
  by (rule puts_bind [OF assms(1) write_size_puts [OF assms(1)] assms(2)])

lemma sized_each_puts:
  "ba_inv ba \<Longrightarrow> puts (bindR (write_size ba n) (\<lambda>ba. write_each ba vs)) ba
     (size_bytes n @ concat (map (senc (m_endian ba)) vs))"
  by (rule sized_puts) (metis write_each_puts)+

lemma sized_all_puts:
  assumes "ba_inv ba"
    and "\<And>v ba. v \<in> set vs \<Longrightarrow> ba_inv ba \<Longrightarrow> puts (put ba v) ba (venc (m_endian ba) v)"
  shows "puts (bindR (write_size ba n) (\<lambda>ba. put_all ba vs)) ba
     (size_bytes n @ concat (map (venc (m_endian ba)) vs))"
  by (rule sized_puts [OF assms(1)]) (metis put_all_puts [OF assms(2)])

lemma concat_senc_pairs: "concat (map (senc en) (map (\<lambda>(k, v). Pair k v) es)) = []"
  by (induction es) auto

lemma sized_map_puts:
  assumes "ba_inv ba"
  shows "puts (bindR (write_size ba n) (\<lambda>ba. write_each ba (map (\<lambda>(k, v). Pair k v) es))) ba
     (size_bytes n)"
  using sized_each_puts [OF assms, of n "map (\<lambda>(k, v). Pair k v) es"]
  unfolding concat_senc_pairs by simp

lemma put_puts: "ba_inv ba \<Longrightarrow> puts (put ba v) ba (venc (m_endian ba) v)"
proof (induction v arbitrary: ba)
  case (Tuple vs)
  from put_all_puts [OF Tuple.IH Tuple.prems] show ?case by simp
next
  case (Set vs)
  from sized_all_puts [OF Set.prems Set.IH] show ?case by simp
next
  case (Vector vs)
  from sized_all_puts [OF Vector.prems Vector.IH] show ?case by simp
next
  case (List vs)
  from sized_all_puts [OF List.prems List.IH] show ?case by simp
next
  case (Pair a b)
  then show ?case by (simp add: puts_none)
qed (simp_all only: put.simps venc.simps swrite_puts sized_each_puts sized_map_puts)

section \<open>Reading back\<close>

text \<open>\<open>reads m ba x n\<close>: \<open>m\<close> yields \<open>x\<close> and consumes \<open>n\<close> bytes of \<open>ba\<close>.\<close>

abbreviation reads :: "('a \<times> byte_array) res \<Rightarrow> byte_array \<Rightarrow> 'a \<Rightarrow> nat \<Rightarrow> bool" where
  "reads m ba x n \<equiv> m = Inr (x, consumed ba n)"

definition prim_ty :: "ty \<Rightarrow> val \<Rightarrow> bool" where
  "prim_ty t v =
     (case v of Bool b \<Rightarrow> t = TBool | Float w \<Rightarrow> t = TFloat | Double w \<Rightarrow> t = TDouble
      | I8 w \<Rightarrow> t = TI8 | U8 w \<Rightarrow> t = TU8 | I16 w \<Rightarrow> t = TI16 | U16 w \<Rightarrow> t = TU16
      | I32 w \<Rightarrow> t = TI32 | U32 w \<Rightarrow> t = TU32 | I64 w \<Rightarrow> t = TI64 | U64 w \<Rightarrow> t = TU64
      | Str s \<Rightarrow> t = TString \<and> length s < 2 ^ 64 | _ \<Rightarrow> False)"

lemma sread_reads:
  assumes "prim_ty t v" "at_input ba (senc (m_endian ba) v @ rest)"
    and "m_position ba + length (senc (m_endian ba) v) < m_base_size ba"
  shows "reads (sread t old ba) ba v (length (senc (m_endian ba) v))"
  using assms
  by (cases v)
     (auto simp: prim_ty_def with_val_def fix_i8.reads fix_u8.reads flt.reads dbl.reads fix_i16.reads
       fix_u16.reads var_i32.reads var_u32.reads var_i64.reads var_u64.reads str_vint.reads)

text \<open>The supported types and their values.\<close>

inductive has_ty :: "(val \<Rightarrow> val \<Rightarrow> bool) \<Rightarrow> ty \<Rightarrow> val \<Rightarrow> bool" for lt where
  prim: "prim_ty t v \<Longrightarrow> has_ty lt t v"
| tuple: "list_all2 (has_ty lt) ts vs \<Longrightarrow> has_ty lt (TTuple ts) (Tuple vs)"
| list: "list_all (prim_ty t) vs \<Longrightarrow> length vs < 2 ^ 64 \<Longrightarrow> has_ty lt (TList t) (List vs)"
| vector: "list_all (prim_ty t) vs \<Longrightarrow> length vs < 2 ^ 64 \<Longrightarrow> has_ty lt (TVector t) (Vector vs)"
| set: "list_all (prim_ty t) vs \<Longrightarrow> length vs < 2 ^ 64 \<Longrightarrow> sorted_wrt lt vs \<Longrightarrow>
    has_ty lt (TSet t) (Set vs)"
| multiset: "list_all (prim_ty t) vs \<Longrightarrow> length vs < 2 ^ 64 \<Longrightarrow>
    sorted_wrt (\<lambda>a b. \<not> lt b a) vs \<Longrightarrow> has_ty lt (TMultiset t) (Multiset vs)"

lemma prim_venc: "prim_ty t v \<Longrightarrow> venc en v = senc en v"
  by (cases v) (simp_all add: prim_ty_def)

lemma prim_get: "prim_ty t v \<Longrightarrow> get lt t old ba = sread t old ba"
  by (cases v) (simp_all add: prim_ty_def)

lemma prims_venc:
  "list_all (prim_ty t) vs \<Longrightarrow> concat (map (venc en) vs) = concat (map (senc en) vs)"
  by (induction vs) (auto simp: prim_venc [of t])

lemma read_each_reads:
  assumes "list_all (prim_ty t) vs" "at_input ba (concat (map (senc (m_endian ba)) vs) @ rest)"
    and "m_position ba + length (concat (map (senc (m_endian ba)) vs)) < m_base_size ba"
  shows "reads (read_each t (length vs) ba) ba vs (length (concat (map (senc (m_endian ba)) vs)))"
  using assms
proof (induction vs arbitrary: ba)
  case Nil
  then show ?case by (simp add: at_input_def consumed_0)
next
  case (Cons v vs)
  let ?n = "length (senc (m_endian ba) v)"
  have i: "at_input ba (senc (m_endian ba) v @ concat (map (senc (m_endian ba)) vs) @ rest)"
    using Cons.prems(2) by simp
  have "reads (sread t (default_val t) ba) ba v ?n"
    by (rule sread_reads [OF _ i]) (use Cons.prems in simp_all)
  moreover have "reads (read_each t (length vs) (consumed ba ?n)) (consumed ba ?n) vs
      (length (concat (map (senc (m_endian (consumed ba ?n))) vs)))"
    by (rule Cons.IH) (use Cons.prems at_input_consumed [OF i] in simp_all)
  ultimately show ?case by (simp add: add.commute)
qed

lemma read_container_reads:
  assumes "list_all (prim_ty t) vs" "length vs < 2 ^ 64"
    and "at_input ba ((size_bytes (length vs) @ concat (map (senc (m_endian ba)) vs)) @ rest)"
    and "m_position ba + length (size_bytes (length vs) @ concat (map (senc (m_endian ba)) vs))
      < m_base_size ba"
  shows "reads (read_container t build ba) ba (build vs)
    (length (size_bytes (length vs) @ concat (map (senc (m_endian ba)) vs)))"
proof -
  let ?n = "length (size_bytes (length vs))"
  have i: "at_input ba (size_bytes (length vs) @ concat (map (senc (m_endian ba)) vs) @ rest)"
    using assms(3) by simp
  have "read_var_uint64 ba = Inr (of_nat (length vs), consumed ba ?n)"
    unfolding size_bytes_def
    by (rule read_var_uint64_input) (use i assms(4) in \<open>simp_all add: size_bytes_def\<close>)
  moreover have "unat (of_nat (length vs) :: u64) = length vs"
    using assms(2) by (simp add: unat_of_nat take_bit_nat_eq_self)
  moreover have "reads (read_each t (length vs) (consumed ba ?n)) (consumed ba ?n) vs
      (length (concat (map (senc (m_endian (consumed ba ?n))) vs)))"
    by (rule read_each_reads [OF assms(1)]) (use at_input_consumed [OF i] assms(4) in simp_all)
  ultimately show ?thesis by (simp add: read_container_def)
qed

definition readable :: "(val \<Rightarrow> val \<Rightarrow> bool) \<Rightarrow> ty \<Rightarrow> val \<Rightarrow> bool" where
  "readable lt t v \<longleftrightarrow>
     (\<forall>ba rest. at_input ba (venc (m_endian ba) v @ rest) \<and>
        m_position ba + length (venc (m_endian ba) v) < m_base_size ba \<longrightarrow>
        reads (get lt t (default_val t) ba) ba v (length (venc (m_endian ba) v)))"

lemma readableD:
  "readable lt t v \<Longrightarrow> at_input ba (venc (m_endian ba) v @ rest) \<Longrightarrow>
   m_position ba + length (venc (m_endian ba) v) < m_base_size ba \<Longrightarrow>
   reads (get lt t (default_val t) ba) ba v (length (venc (m_endian ba) v))"
  unfolding readable_def by blast

lemma get_all_reads:
  assumes "list_all2 (readable lt) ts vs" "at_input ba (concat (map (venc (m_endian ba)) vs) @ rest)"
    and "m_position ba + length (concat (map (venc (m_endian ba)) vs)) < m_base_size ba"
  shows "reads (get_all lt ts (map default_val ts) ba) ba vs
    (length (concat (map (venc (m_endian ba)) vs)))"
  using assms
proof (induction ts vs arbitrary: ba rule: list_all2_induct)
  case Nil
  then show ?case by (simp add: at_input_def consumed_0)
next
  case (Cons t ts v vs)
  let ?n = "length (venc (m_endian ba) v)"
  have i: "at_input ba (venc (m_endian ba) v @ concat (map (venc (m_endian ba)) vs) @ rest)"
    using Cons.prems(1) by simp
  have "m_position ba + ?n < m_base_size ba" using Cons.prems(2) by simp
  with Cons.hyps(1) i have "reads (get lt t (default_val t) ba) ba v ?n"
    unfolding readable_def by blast
  moreover have "reads (get_all lt ts (map default_val ts) (consumed ba ?n)) (consumed ba ?n) vs
      (length (concat (map (venc (m_endian (consumed ba ?n))) vs)))"
    by (rule Cons.IH) (use Cons.prems at_input_consumed [OF i] in simp_all)
  ultimately show ?case by (simp add: add.commute)
qed

lemma container_readable:
  assumes "list_all (prim_ty t) vs" "length vs < 2 ^ 64"
    and "\<And>en. venc en v = size_bytes (length vs) @ concat (map (senc en) vs)"
    and "\<And>ba. get lt t' (default_val t') ba = read_container t build ba" "build vs = v"
  shows "readable lt t' v"
  unfolding readable_def assms(3,4)
  using read_container_reads [OF assms(1,2), where build = build] assms(5) by blast

lemma has_ty_readable:
  assumes "strict_weak lt" "has_ty lt t v"
  shows "readable lt t v"
  using assms(2)
proof (induction rule: has_ty.induct)
  case (prim t v)
  then show ?case
    unfolding readable_def prim_venc [OF prim] prim_get [OF prim] using sread_reads by blast
next
  case (tuple ts vs)
  have "list_all2 (readable lt) ts vs" using tuple by (simp add: list_all2_conv_all_nth)
  note G = get_all_reads [OF this]
  show ?case
    unfolding readable_def using G by (auto simp: map_concat [symmetric])
next
  case (list t vs)
  show ?case by (rule container_readable [OF list]) (simp_all add: prims_venc [OF list(1)])
next
  case (vector t vs)
  show ?case by (rule container_readable [OF vector]) (simp_all add: prims_venc [OF vector(1)])
next
  case (set t vs)
  show ?case
    by (rule container_readable
          [OF set(1,2), where build = "\<lambda>vs. Set (fold (set_insert lt) vs [])"])
       (simp_all add: prims_venc [OF set(1)] strict_weak.fold_insert_ordered [OF assms(1)] set(3))
next
  case (multiset t vs)
  show ?case
    by (rule container_readable
          [OF multiset(1,2), where build = "\<lambda>vs. Multiset (fold (multi_insert lt) vs [])"])
       (simp_all add: strict_weak.fold_multi_ordered [OF assms(1)] multiset(3))
qed

section \<open>Nested containers\<close>

text \<open>The elements of a container are read by \<open>read\<close>, which does nothing when they are
  containers themselves.\<close>

definition is_container :: "ty \<Rightarrow> bool" where
  "is_container t \<longleftrightarrow> (case t of TList _ \<Rightarrow> True | TVector _ \<Rightarrow> True | TSet _ \<Rightarrow> True
     | TUnordered_set _ \<Rightarrow> True | TMultiset _ \<Rightarrow> True | TUnordered_multiset _ \<Rightarrow> True
     | TMap _ _ \<Rightarrow> True | TUnordered_map _ _ \<Rightarrow> True | TMultimap _ _ \<Rightarrow> True
     | TUnordered_multimap _ _ \<Rightarrow> True | _ \<Rightarrow> False)"

lemma read_each_container:
  "is_container t \<Longrightarrow> read_each t n ba = Inr (replicate n (default_val t), ba)"
  by (induction n) (cases t; simp add: is_container_def)+

end
