(* ===== verification/Streams.thy ===== *)
theory Streams
  imports ByteArray_Codec
begin

text \<open>
  \<open>acid/common/stream.cpp\<close> and \<open>acid/net/socket_stream.cpp\<close>: the loops that read or write
  a fixed number of bytes through a virtual \<open>read\<close> or \<open>write\<close>, and the socket stream, whose
  byte-array members go through the scatter/gather views of the byte array. The virtual
  member and the system calls are parameters over a state \<open>'s\<close> of the outside; all
  counters are \<open>size_t\<close>, so they are 64-bit words here. The loops have fuel; \<open>None\<close> means
  that it did not suffice.
\<close>

section \<open>Stream\<close>

text \<open>What a read into a raw buffer yields: the return value, the bytes it stored, the
  state it left behind.\<close>

type_synonym 's reader = "'s \<Rightarrow> u64 \<Rightarrow> u64 \<times> bytes \<times> 's"
type_synonym 's writer = "'s \<Rightarrow> bytes \<Rightarrow> u64 \<times> 's"

fun read_fix_loop ::
  "nat \<Rightarrow> 's reader \<Rightarrow> u64 \<Rightarrow> 's \<Rightarrow> u8 option list \<Rightarrow> u64 \<Rightarrow> u64 \<Rightarrow>
   (u64 \<times> u8 option list \<times> 's) res option" where
  "read_fix_loop 0 rd want s buf offset left = None"
| "read_fix_loop (Suc fuel) rd want s buf offset left =
     (if left > 0 then
        let (len, data, s') = rd s left in
        if data \<noteq> [] \<and> length buf < unat offset + length data then Some (Inl Heap_overflow)
        else let buf' = splice_at buf (unat offset) (map Some data) in
          if len \<le> 0 then Some (Inr (len, buf', s'))
          else read_fix_loop fuel rd want s' buf' (offset + len) (left - len)
      else Some (Inr (want, buf, s)))"

definition read_fix_size ::
  "nat \<Rightarrow> 's reader \<Rightarrow> 's \<Rightarrow> u8 option list \<Rightarrow> u64 \<Rightarrow> (u64 \<times> u8 option list \<times> 's) res option" where
  "read_fix_size fuel rd s buf len = read_fix_loop fuel rd len s buf 0 len"

fun write_fix_loop ::
  "nat \<Rightarrow> 's writer \<Rightarrow> u64 \<Rightarrow> 's \<Rightarrow> bytes \<Rightarrow> u64 \<Rightarrow> u64 \<Rightarrow> (u64 \<times> 's) res option" where
  "write_fix_loop 0 wr want s buf offset left = None"
| "write_fix_loop (Suc fuel) wr want s buf offset left =
     (if left > 0 then
        if length buf < unat offset + unat left then Some (Inl Heap_overflow)
        else let (len, s') = wr s (take (unat left) (drop (unat offset) buf)) in
          if len \<le> 0 then Some (Inr (len, s'))
          else write_fix_loop fuel wr want s' buf (offset + len) (left - len)
      else Some (Inr (want, s)))"

definition write_fix_size ::
  "nat \<Rightarrow> 's writer \<Rightarrow> 's \<Rightarrow> bytes \<Rightarrow> u64 \<Rightarrow> (u64 \<times> 's) res option" where
  "write_fix_size fuel wr s buf len = write_fix_loop fuel wr len s buf 0 len"

text \<open>
  The two members that take a byte array run the same loop over a step on (byte array,
  outside state); reading and writing differ in the virtual member only.
\<close>

type_synonym 's ba_step = "byte_array \<Rightarrow> 's \<Rightarrow> u64 \<Rightarrow> (u64 \<times> byte_array \<times> 's) res"

fun ba_fix_loop ::
  "nat \<Rightarrow> 's ba_step \<Rightarrow> u64 \<Rightarrow> byte_array \<Rightarrow> 's \<Rightarrow> u64 \<Rightarrow> (u64 \<times> byte_array \<times> 's) res option" where
  "ba_fix_loop 0 step want ba s left = None"
| "ba_fix_loop (Suc fuel) step want ba s left =
     (if left > 0 then
        (case step ba s left of
           Inl e \<Rightarrow> Some (Inl e)
         | Inr (len, ba', s') \<Rightarrow>
             if len \<le> 0 then Some (Inr (len, ba', s'))
             else ba_fix_loop fuel step want ba' s' (left - len))
      else Some (Inr (want, ba, s)))"

definition read_fix_size_ba ::
  "nat \<Rightarrow> 's ba_step \<Rightarrow> byte_array \<Rightarrow> 's \<Rightarrow> u64 \<Rightarrow> (u64 \<times> byte_array \<times> 's) res option" where
  "read_fix_size_ba fuel step ba s len = ba_fix_loop fuel step len ba s len"

definition write_fix_size_ba ::
  "nat \<Rightarrow> 's ba_step \<Rightarrow> byte_array \<Rightarrow> 's \<Rightarrow> u64 \<Rightarrow> (u64 \<times> byte_array \<times> 's) res option" where
  "write_fix_size_ba fuel step ba s len = ba_fix_loop fuel step len ba s len"

section \<open>SocketStream\<close>

text \<open>
  The socket is its connection flag and the system calls behind \<open>Socket::recv\<close> and
  \<open>Socket::send\<close> (theory \<open>Socket\<close>): the vectored ones take the
  lengths of the pieces, respectively the pieces.
\<close>

record 's sock_ops =
  op_connected :: "'s \<Rightarrow> bool"
  op_recv :: "'s \<Rightarrow> u64 \<Rightarrow> u64 \<times> bytes \<times> 's"
  op_recvv :: "'s \<Rightarrow> nat list \<Rightarrow> int \<times> bytes \<times> 's"
  op_send :: "'s \<Rightarrow> bytes \<Rightarrow> u64 \<times> 's"
  op_sendv :: "'s \<Rightarrow> u8 option list list \<Rightarrow> int \<times> 's"

definition socket_stream_read :: "'s sock_ops \<Rightarrow> 's reader" where
  "socket_stream_read ops s len = (if \<not> op_connected ops s then (-1, [], s) else op_recv ops s len)"

definition socket_stream_write :: "'s sock_ops \<Rightarrow> 's writer" where
  "socket_stream_write ops s buf = (if \<not> op_connected ops s then (-1, s) else op_send ops s buf)"

fun scatter :: "node list \<Rightarrow> iovec list \<Rightarrow> bytes \<Rightarrow> node list res" where
  "scatter nodes [] data = Inr nodes"
| "scatter nodes ((c, off, len) # iovs) data =
     (if c < length nodes then
        bindR (node_store (nodes ! c) off (take len data)) (\<lambda>nd.
          scatter (nodes[c := nd]) iovs (drop len data))
      else Inl Undefined)"

fun gather :: "node list \<Rightarrow> iovec list \<Rightarrow> u8 option list list res" where
  "gather nodes [] = Inr []"
| "gather nodes ((c, off, len) # iovs) =
     (if c < length nodes then
        bindR (node_load (nodes ! c) off len) (\<lambda>cs.
          bindR (gather nodes iovs) (\<lambda>rest. Inr (cs # rest)))
      else Inl Undefined)"

text \<open>\<open>&iovs[0]\<close> of an empty vector is undefined.\<close>

definition socket_stream_read_ba :: "'s sock_ops \<Rightarrow> 's ba_step" where
  "socket_stream_read_ba ops ba s len =
     (if \<not> op_connected ops s then Inr (-1, ba, s)
      else bindR (get_write_buffers ba (unat len)) (\<lambda>(n, iovs, ba).
        ensureR (iovs \<noteq> []) Undefined (
          let (ret, data, s') = op_recvv ops s (map (snd \<circ> snd) iovs) in
          bindR (scatter (m_nodes ba) iovs data) (\<lambda>nodes.
            let ba = ba\<lparr>m_nodes := nodes\<rparr> in
            if ret > 0 then
              bindR (set_position ba (m_position ba + nat ret)) (\<lambda>ba. Inr (of_int ret, ba, s'))
            else Inr (of_int ret, ba, s')))))"

definition socket_stream_write_ba :: "'s sock_ops \<Rightarrow> 's ba_step" where
  "socket_stream_write_ba ops ba s len =
     (if \<not> op_connected ops s then Inr (-1, ba, s)
      else bindR (get_read_buffers ba (unat len)) (\<lambda>(n, iovs).
        ensureR (iovs \<noteq> []) Undefined (
          bindR (gather (m_nodes ba) iovs) (\<lambda>pieces.
            let (ret, s') = op_sendv ops s pieces in
            if ret > 0 then
              bindR (set_position ba (m_position ba + nat ret)) (\<lambda>ba. Inr (of_int ret, ba, s'))
            else Inr (of_int ret, ba, s')))))"

section \<open>The raw loop against a well-behaved source\<close>

definition reader_ok :: "'s reader \<Rightarrow> ('s \<Rightarrow> bytes) \<Rightarrow> bool" where
  "reader_ok rd src \<longleftrightarrow>
     (\<forall>s n. 0 < n \<and> unat n \<le> length (src s) \<longrightarrow>
        (case rd s n of (len, data, s') \<Rightarrow>
           0 < len \<and> len \<le> n \<and> length data = unat len \<and> src s = data @ src s'))"

lemma read_fix_loop_ok:
  assumes "reader_ok rd src"
  shows "unat left \<le> length (src s) \<Longrightarrow> unat left < fuel \<Longrightarrow>
    unat offset + unat left = length buf \<Longrightarrow> length buf < 2 ^ 64 \<Longrightarrow>
    \<exists>s'. read_fix_loop fuel rd want s buf offset left =
      Some (Inr (want, take (unat offset) buf @ map Some (take (unat left) (src s)), s')) \<and>
      src s' = drop (unat left) (src s)"
proof (induction fuel arbitrary: s buf offset left)
  case (Suc fuel)
  show ?case
  proof (cases "left = 0")
    case True
    with Suc.prems show ?thesis by simp
  next
    case False
    then have pos: "0 < left" by (simp add: word_gt_0)
    obtain len data s' where r: "rd s left = (len, data, s')" by (rule prod_cases3)
    have "0 < left \<and> unat left \<le> length (src s) \<longrightarrow> (case rd s left of (len, data, s') \<Rightarrow>
        0 < len \<and> len \<le> left \<and> length data = unat len \<and> src s = data @ src s')"
      by (rule assms [unfolded reader_ok_def, THEN spec, THEN spec])
    then have R: "0 < len" "len \<le> left" "length data = unat len" "src s = data @ src s'"
      using pos Suc.prems(1) unfolding r prod.case by blast+
    have le: "unat len \<le> unat left" using R(2) by (simp add: word_le_nat_alt)
    have left': "unat (left - len) = unat left - unat len" using R(2) by (simp add: unat_sub)
    have off': "unat (offset + len) = unat offset + unat len"
      using Suc.prems(3,4) le by (intro unat_add_lem [THEN iffD1]) simp
    have len0: "0 < unat len" using R(1) by (simp add: word_less_nat_alt)
    define buf' where "buf' = splice_at buf (unat offset) (map Some data)"
    have lb: "length buf' = length buf" using Suc.prems(3) R(3) le by (simp add: buf'_def)
    have fits: "\<not> length buf < unat offset + length data" using Suc.prems(3) R(3) le by simp
    have run: "read_fix_loop (Suc fuel) rd want s buf offset left =
        read_fix_loop fuel rd want s' buf' (offset + len) (left - len)"
      using pos fits R(1) by (auto simp: r buf'_def Let_def)
    have p1: "unat (left - len) \<le> length (src s')" using Suc.prems(1) R(3,4) left' by simp
    have p2: "unat (left - len) < fuel" using Suc.prems(2) len0 le left' by linarith
    have p3: "unat (offset + len) + unat (left - len) = length buf'"
      using Suc.prems(3) le left' off' lb by linarith
    obtain s'' where IH: "read_fix_loop fuel rd want s' buf' (offset + len) (left - len) =
        Some (Inr (want, take (unat (offset + len)) buf' @
                         map Some (take (unat (left - len)) (src s')), s''))"
      "src s'' = drop (unat (left - len)) (src s')"
      using Suc.IH [OF p1 p2 p3] Suc.prems(4) lb by metis
    have "take (unat (offset + len)) buf' = take (unat offset) buf @ map Some data"
      using splice_at_append_grow [of "unat offset" buf "map Some data"] Suc.prems(3) R(3) off'
      by (simp add: buf'_def)
    moreover have "take (unat left) (src s) = data @ take (unat left - unat len) (src s')"
      "drop (unat left) (src s) = drop (unat left - unat len) (src s')"
      using R(3,4) le by simp_all
    ultimately show ?thesis
      using IH(2) left' unfolding run IH(1) by (simp only:) simp
  qed
qed simp

text \<open>A reader that keeps failing returns \<open>-1\<close>, which is not \<open><= 0\<close> as a \<open>size_t\<close>:
  each round makes \<open>left\<close> grow by one.\<close>

lemma read_fix_loop_error:
  assumes "\<And>n. rd s n = (- 1, [], s)"
  shows "0 < left \<Longrightarrow> fuel + unat left \<le> 2 ^ 64 \<Longrightarrow>
    read_fix_loop fuel rd want s buf offset left = None"
proof (induction fuel arbitrary: offset left)
  case (Suc fuel)
  show ?case
  proof (cases "fuel = 0")
    case False
    have lt: "unat left + unat (1 :: u64) < 2 ^ LENGTH(64)" using Suc.prems(2) False by simp
    have s: "unat (left + 1) = unat left + 1"
      using unat_add_lem [THEN iffD1, OF lt] by simp
    have "read_fix_loop fuel rd want s buf (offset - 1) (left + 1) = None"
      using Suc.prems s by (intro Suc.IH) (auto simp: word_less_nat_alt)
    then show ?thesis using Suc.prems assms by simp
  qed (use Suc.prems assms in simp)
qed simp

end
