(* ===== verification/Protocol.thy ===== *)
theory Protocol
  imports Streams
begin

text \<open>
  The RPC frame of \<open>acid/rpc/protocol.cpp\<close> and the session of \<open>acid/rpc/rpc_session.cpp\<close>
  that sends and receives frames over a socket stream. The lemmas give the wire format of
  \<open>encode\<close> and \<open>encode_meta\<close> and what the decoders recover from it.
\<close>

section \<open>Frames\<close>

datatype message_type =
    HEARTBEAT_PACKET | RPC_PROVIDER | RPC_COMSUMER | RPC_REQUEST | RPC_RESPONSE
  | RPC_METHOD_REQUEST | RPC_METHOD_RESPONSE | RPC_SERVICE_REGISTER
  | RPC_SERVICE_REGISTER_RESPONSE | RPC_SERVICE_DISCOVER | RPC_SERVICE_DISCOVER_RESPONSE
  | RPC_SUBSCRIBE_REQUEST | RPC_SUBSCRIBE_RESPONSE | RPC_PUBLISH_REQUEST | RPC_PUBLISH_RESPONSE

fun type_code :: "message_type \<Rightarrow> u8" where
  "type_code HEARTBEAT_PACKET = 0"
| "type_code RPC_PROVIDER = 1"
| "type_code RPC_COMSUMER = 2"
| "type_code RPC_REQUEST = 3"
| "type_code RPC_RESPONSE = 4"
| "type_code RPC_METHOD_REQUEST = 5"
| "type_code RPC_METHOD_RESPONSE = 6"
| "type_code RPC_SERVICE_REGISTER = 7"
| "type_code RPC_SERVICE_REGISTER_RESPONSE = 8"
| "type_code RPC_SERVICE_DISCOVER = 9"
| "type_code RPC_SERVICE_DISCOVER_RESPONSE = 10"
| "type_code RPC_SUBSCRIBE_REQUEST = 11"
| "type_code RPC_SUBSCRIBE_RESPONSE = 12"
| "type_code RPC_PUBLISH_REQUEST = 13"
| "type_code RPC_PUBLISH_RESPONSE = 14"

definition MAGIC :: u8 where "MAGIC = 0xcc"
definition DEFAULT_VERSION :: u8 where "DEFAULT_VERSION = 0x01"
definition BASE_LENGTH :: u8 where "BASE_LENGTH = 11"

record protocol =
  m_magic :: u8
  m_version :: u8
  m_type :: u8
  m_sequence_id :: u32
  m_content_length :: u32
  m_content :: bytes

definition protocol_default :: protocol where
  "protocol_default = \<lparr>m_magic = MAGIC, m_version = DEFAULT_VERSION, m_type = 0,
     m_sequence_id = 0, m_content_length = 0, m_content = []\<rparr>"

definition set_message_type :: "message_type \<Rightarrow> protocol \<Rightarrow> protocol" where
  "set_message_type t p = p\<lparr>m_type := type_code t\<rparr>"

definition create :: "message_type \<Rightarrow> bytes \<Rightarrow> u32 \<Rightarrow> protocol" where
  "create type' content' id' =
     (let p = set_message_type type' protocol_default;
          p = p\<lparr>m_content := content'\<rparr>;
          p = p\<lparr>m_content_length := of_nat (length content')\<rparr>
      in p\<lparr>m_sequence_id := id'\<rparr>)"

definition heartbeat :: protocol where
  "heartbeat = create HEARTBEAT_PACKET [] 0"

definition encode_meta :: "protocol \<Rightarrow> byte_array res" where
  "encode_meta p =
     bindR (write_fix_uint8 byte_array_default (m_magic p)) (\<lambda>ba.
     bindR (write_fix_uint8 ba (m_version p)) (\<lambda>ba.
     bindR (write_fix_uint8 ba (m_type p)) (\<lambda>ba.
     bindR (write_fix_uint32 ba (m_sequence_id p)) (\<lambda>ba.
     bindR (write_fix_uint32 ba (of_nat (length (m_content p)))) (\<lambda>ba.
     set_position ba 0)))))"

definition encode :: "protocol \<Rightarrow> byte_array res" where
  "encode p =
     bindR (write_fix_uint8 byte_array_default (m_magic p)) (\<lambda>ba.
     bindR (write_fix_uint8 ba (m_version p)) (\<lambda>ba.
     bindR (write_fix_uint8 ba (m_type p)) (\<lambda>ba.
     bindR (write_fix_uint32 ba (m_sequence_id p)) (\<lambda>ba.
     bindR (write_string_f32 ba (m_content p)) (\<lambda>ba.
     set_position ba 0)))))"

definition decode_meta :: "protocol \<Rightarrow> byte_array \<Rightarrow> (protocol \<times> byte_array) res" where
  "decode_meta p ba =
     bindR (read_fix_uint8 ba) (\<lambda>(magic, ba).
     bindR (read_fix_uint8 ba) (\<lambda>(version, ba).
     bindR (read_fix_uint8 ba) (\<lambda>(type', ba).
     bindR (read_fix_uint32 ba) (\<lambda>(seq', ba).
     bindR (read_fix_uint32 ba) (\<lambda>(len, ba).
     Inr (p\<lparr>m_magic := magic, m_version := version, m_type := type', m_sequence_id := seq',
            m_content_length := len\<rparr>, ba))))))"

definition decode :: "protocol \<Rightarrow> byte_array \<Rightarrow> (protocol \<times> byte_array) res" where
  "decode p ba =
     bindR (read_fix_uint8 ba) (\<lambda>(magic, ba).
     bindR (read_fix_uint8 ba) (\<lambda>(version, ba).
     bindR (read_fix_uint8 ba) (\<lambda>(type', ba).
     bindR (read_fix_uint32 ba) (\<lambda>(seq', ba).
     bindR (read_string_f32 ba) (\<lambda>(content', ba).
     Inr (p\<lparr>m_magic := magic, m_version := version, m_type := type', m_sequence_id := seq',
            m_content := content', m_content_length := of_nat (length content')\<rparr>, ba))))))"

section \<open>Session\<close>

text \<open>\<open>None\<close> is lack of fuel, \<open>Inr None\<close> the null pointer the code returns.\<close>

definition recv_protocol ::
  "nat \<Rightarrow> 's sock_ops \<Rightarrow> 's \<Rightarrow> (protocol option \<times> 's) res option" where
  "recv_protocol fuel ops s =
     (case read_fix_size_ba fuel (socket_stream_read_ba ops) byte_array_default s (ucast BASE_LENGTH) of
        None \<Rightarrow> None
      | Some (Inl e) \<Rightarrow> Some (Inl e)
      | Some (Inr (n, ba, s)) \<Rightarrow>
          if n \<le> 0 then Some (Inr (None, s))
          else case bindR (set_position ba 0) (decode_meta protocol_default) of
            Inl e \<Rightarrow> Some (Inl e)
          | Inr (p, ba) \<Rightarrow>
              if m_magic p \<noteq> MAGIC then Some (Inr (None, s))
              else if m_content_length p = 0 then Some (Inr (Some p, s))
              else
                (case read_fix_size fuel (socket_stream_read ops) s
                        (replicate (unat (m_content_length p)) (Some 0))
                        (ucast (m_content_length p)) of
                   None \<Rightarrow> None
                 | Some (Inl e) \<Rightarrow> Some (Inl e)
                 | Some (Inr (n, buf, s)) \<Rightarrow>
                     if n \<le> 0 then Some (Inr (None, s))
                     else Some (Inr (Some (p\<lparr>m_content := map the buf\<rparr>), s))))"

definition send_protocol ::
  "nat \<Rightarrow> 's sock_ops \<Rightarrow> 's \<Rightarrow> protocol \<Rightarrow> (u64 \<times> 's) res option" where
  "send_protocol fuel ops s p =
     (case encode p of
        Inl e \<Rightarrow> Some (Inl e)
      | Inr ba \<Rightarrow>
          (case write_fix_size_ba fuel (socket_stream_write_ba ops) ba s (of_nat (m_size ba)) of
             None \<Rightarrow> None
           | Some (Inl e) \<Rightarrow> Some (Inl e)
           | Some (Inr (n, ba, s)) \<Rightarrow> Some (Inr (n, s))))"

section \<open>Wire format\<close>

definition frame_head :: "protocol \<Rightarrow> u8 list" where
  "frame_head p = [m_magic p, m_version p, m_type p] @ fix_bytes Big (m_sequence_id p) @
     fix_bytes Big (of_nat (length (m_content p)) :: u32)"

lemma length_frame_head [simp]: "length (frame_head p) = 11"
  by (simp add: frame_head_def)

lemma wrote_default:
  assumes "wrote byte_array_default bs ba"
  shows "\<exists>ba'. set_position ba 0 = Inr ba' \<and> at_input ba' bs \<and> m_position ba' = 0 \<and>
    m_size ba' = length bs \<and> m_base_size ba' = 4096 \<and> m_endian ba' = Big"
proof -
  have W: "ba_inv ba" "content ba = map Some bs" "m_size ba = length bs" "m_base_size ba = 4096"
    "m_endian ba = Big"
    using assms byte_array_new_inv [of 4096 Big]
    by (auto simp: wrote_def byte_array_default_def splice_at_def byte_array_new_def)
  from set_position_inv [OF W(1), of 0] W(2-5) show ?thesis
    by (auto simp: at_input_def content_def)
qed

lemma write_head:
  assumes inv: "ba_inv ba" and en: "m_endian ba = Big"
  shows "\<exists>ba'. bindR (write_fix_uint8 ba (m_magic p)) (\<lambda>ba.
     bindR (write_fix_uint8 ba (m_version p)) (\<lambda>ba.
     bindR (write_fix_uint8 ba (m_type p)) (\<lambda>ba.
     write_fix_uint32 ba (m_sequence_id p)))) = Inr ba' \<and>
    wrote ba ([m_magic p, m_version p, m_type p] @ fix_bytes Big (m_sequence_id p)) ba'"
proof -
  obtain b1 where 1: "write_fix_uint8 ba (m_magic p) = Inr b1" "wrote ba [m_magic p] b1"
    using fix_u8.writes [OF inv] by blast
  obtain b2 where 2: "write_fix_uint8 b1 (m_version p) = Inr b2" "wrote b1 [m_version p] b2"
    using fix_u8.writes [OF wrote_inv [OF 1(2)]] by blast
  obtain b3 where 3: "write_fix_uint8 b2 (m_type p) = Inr b3" "wrote b2 [m_type p] b3"
    using fix_u8.writes [OF wrote_inv [OF 2(2)]] by blast
  have en3: "m_endian b3 = Big" using 1(2) 2(2) 3(2) en by (simp add: wrote_def)
  obtain b4 where 4: "write_fix_uint32 b3 (m_sequence_id p) = Inr b4"
    "wrote b3 (fix_bytes Big (m_sequence_id p)) b4"
    using fix_u32.writes [OF wrote_inv [OF 3(2)], of "m_sequence_id p"] en3 by auto
  have "wrote ba ([m_magic p] @ [m_version p] @ [m_type p] @ fix_bytes Big (m_sequence_id p)) b4"
    by (rule wrote_trans [OF inv 1(2)], rule wrote_trans [OF wrote_inv [OF 1(2)] 2(2)],
        rule wrote_trans [OF wrote_inv [OF 2(2)] 3(2) 4(2)])
  with 1(1) 2(1) 3(1) 4(1) show ?thesis by simp
qed

lemma default_inv: "ba_inv byte_array_default" "m_endian byte_array_default = Big"
  using byte_array_new_inv [of 4096 Big] by (simp_all add: byte_array_default_def byte_array_new_def)

lemma encode_via_head:
  "encode p = bindR (bindR (write_fix_uint8 byte_array_default (m_magic p)) (\<lambda>ba.
     bindR (write_fix_uint8 ba (m_version p)) (\<lambda>ba.
     bindR (write_fix_uint8 ba (m_type p)) (\<lambda>ba.
     write_fix_uint32 ba (m_sequence_id p))))) (\<lambda>ba.
       bindR (write_string_f32 ba (m_content p)) (\<lambda>ba. set_position ba 0))"
  "encode_meta p = bindR (bindR (write_fix_uint8 byte_array_default (m_magic p)) (\<lambda>ba.
     bindR (write_fix_uint8 ba (m_version p)) (\<lambda>ba.
     bindR (write_fix_uint8 ba (m_type p)) (\<lambda>ba.
     write_fix_uint32 ba (m_sequence_id p))))) (\<lambda>ba.
       bindR (write_fix_uint32 ba (of_nat (length (m_content p)))) (\<lambda>ba. set_position ba 0))"
  by (simp_all add: encode_def encode_meta_def bindR_assoc)

lemma encode_input:
  "\<exists>ba. encode p = Inr ba \<and> at_input ba (frame_head p @ m_content p) \<and> m_position ba = 0 \<and>
     m_size ba = 11 + length (m_content p) \<and> m_base_size ba = 4096 \<and> m_endian ba = Big"
proof -
  obtain b1 where 1: "bindR (write_fix_uint8 byte_array_default (m_magic p)) (\<lambda>ba.
     bindR (write_fix_uint8 ba (m_version p)) (\<lambda>ba.
     bindR (write_fix_uint8 ba (m_type p)) (\<lambda>ba.
     write_fix_uint32 ba (m_sequence_id p)))) = Inr b1"
    "wrote byte_array_default ([m_magic p, m_version p, m_type p] @ fix_bytes Big (m_sequence_id p)) b1"
    using write_head [OF default_inv] by blast
  have "m_endian b1 = Big" using wrote_endian [OF 1(2)] default_inv by simp
  then obtain b2 where 2: "write_string_f32 b1 (m_content p) = Inr b2"
    "wrote b1 (fix_bytes Big (of_nat (length (m_content p)) :: u32) @ m_content p) b2"
    using str_f32.writes [OF wrote_inv [OF 1(2)], of "m_content p"] by auto
  have "wrote byte_array_default (frame_head p @ m_content p) b2"
    using wrote_trans [OF default_inv(1) 1(2) 2(2)] by (simp add: frame_head_def)
  from wrote_default [OF this] 1(1) 2(1) show ?thesis by (auto simp: encode_via_head)
qed

lemma encode_meta_input:
  "\<exists>ba. encode_meta p = Inr ba \<and> at_input ba (frame_head p) \<and> m_position ba = 0 \<and>
     m_size ba = 11 \<and> m_base_size ba = 4096 \<and> m_endian ba = Big"
proof -
  obtain b1 where 1: "bindR (write_fix_uint8 byte_array_default (m_magic p)) (\<lambda>ba.
     bindR (write_fix_uint8 ba (m_version p)) (\<lambda>ba.
     bindR (write_fix_uint8 ba (m_type p)) (\<lambda>ba.
     write_fix_uint32 ba (m_sequence_id p)))) = Inr b1"
    "wrote byte_array_default ([m_magic p, m_version p, m_type p] @ fix_bytes Big (m_sequence_id p)) b1"
    using write_head [OF default_inv] by blast
  have "m_endian b1 = Big" using wrote_endian [OF 1(2)] default_inv by simp
  then obtain b2 where 2: "write_fix_uint32 b1 (of_nat (length (m_content p))) = Inr b2"
    "wrote b1 (fix_bytes Big (of_nat (length (m_content p)) :: u32)) b2"
    using fix_u32.writes [OF wrote_inv [OF 1(2)], of "of_nat (length (m_content p))"] by auto
  have "wrote byte_array_default (frame_head p) b2"
    using wrote_trans [OF default_inv(1) 1(2) 2(2)] by (simp add: frame_head_def)
  from wrote_default [OF this] 1(1) 2(1) show ?thesis by (auto simp: encode_via_head)
qed

text \<open>Both decoders start with the same four reads.\<close>

lemma read_head:
  assumes "at_input ba ([a, b, c] @ fix_bytes Big (s :: u32) @ rest)" "m_position ba = 0"
    and "m_base_size ba = 4096" "m_endian ba = Big"
  shows "read_fix_uint8 ba = Inr (a, consumed ba 1)"
    "read_fix_uint8 (consumed ba 1) = Inr (b, consumed ba 2)"
    "read_fix_uint8 (consumed ba 2) = Inr (c, consumed ba 3)"
    "read_fix_uint32 (consumed ba 3) = Inr (s, consumed ba 7)"
    "at_input (consumed ba 7) rest"
proof -
  have i0: "at_input ba (a # b # c # fix_bytes Big s @ rest)" using assms(1) by simp
  have i1: "at_input (consumed ba 1) (b # c # fix_bytes Big s @ rest)"
    using at_input_consumed [of ba "[a]"] assms(1) by simp
  have i2: "at_input (consumed ba 2) (c # fix_bytes Big s @ rest)"
    using at_input_consumed [of ba "[a, b]"] assms(1) by (simp add: numeral_2_eq_2)
  have i3: "at_input (consumed ba 3) (fix_bytes Big s @ rest)"
    using at_input_consumed [of ba "[a, b, c]"] assms(1) by (simp add: numeral_3_eq_3)
  show "read_fix_uint8 ba = Inr (a, consumed ba 1)"
    using read_u8_input [OF i0] assms by simp
  show "read_fix_uint8 (consumed ba 1) = Inr (b, consumed ba 2)"
    using read_u8_input [OF i1] assms by (simp add: numeral_2_eq_2)
  show "read_fix_uint8 (consumed ba 2) = Inr (c, consumed ba 3)"
    using read_u8_input [OF i2] assms by (simp add: numeral_3_eq_3 numeral_2_eq_2)
  have e: "m_endian (consumed ba 3) = Big" using assms(4) by simp
  show "read_fix_uint32 (consumed ba 3) = Inr (s, consumed ba 7)"
    using fix_u32.reads [where x = s and ba = "consumed ba 3" and rest = rest] i3 assms e by simp
  show "at_input (consumed ba 7) rest"
    using at_input_consumed [OF i3] by simp
qed

lemma decode_frame:
  assumes "at_input ba (frame_head p @ m_content p)" "m_position ba = 0"
    and "m_base_size ba = 4096" "m_endian ba = Big" "length (m_content p) < 2 ^ 32"
  shows "decode q ba = Inr (p\<lparr>m_content_length := of_nat (length (m_content p))\<rparr>,
    consumed ba (11 + length (m_content p)))"
proof -
  have i: "at_input ba ([m_magic p, m_version p, m_type p] @ fix_bytes Big (m_sequence_id p) @
      fix_bytes Big (of_nat (length (m_content p)) :: u32) @ m_content p @ [])"
    using assms(1) by (simp add: frame_head_def)
  note H = read_head [OF i assms(2-4)]
  have "read_string_f32 (consumed ba 7) =
      Inr (m_content p, consumed (consumed ba 7) (4 + length (m_content p)))"
    by (rule read_string_f32_input [OF assms(5), where rest = "[]"]) (use H(5) assms in simp_all)
  with H(1-4) show ?thesis by (simp add: decode_def)
qed

lemma decode_meta_frame:
  assumes "at_input ba (frame_head p @ rest)" "m_position ba = 0"
    and "m_base_size ba = 4096" "m_endian ba = Big"
  shows "decode_meta q ba =
    Inr (q\<lparr>m_magic := m_magic p, m_version := m_version p, m_type := m_type p,
           m_sequence_id := m_sequence_id p,
           m_content_length := of_nat (length (m_content p))\<rparr>, consumed ba 11)"
proof -
  have i: "at_input ba ([m_magic p, m_version p, m_type p] @ fix_bytes Big (m_sequence_id p) @
      fix_bytes Big (of_nat (length (m_content p)) :: u32) @ rest)"
    using assms(1) by (simp add: frame_head_def)
  note H = read_head [OF i assms(2-4)]
  have "read_fix_uint32 (consumed ba 7) =
      Inr (of_nat (length (m_content p)), consumed (consumed ba 7) 4)"
    using fix_u32.reads [where x = "of_nat (length (m_content p))" and ba = "consumed ba 7" and rest = rest] H(5) assms by simp
  with H(1-4) show ?thesis by (simp add: decode_meta_def)
qed

text \<open>
  A frame that fits one block has no complete piece: its scatter/gather view is empty, and
  the session's \<open>&iovs[0]\<close> is undefined.
\<close>

lemma get_read_buffers_first_block:
  assumes "at_input ba bs" "m_position ba = 0" "0 < length bs" "length bs \<le> m_base_size ba"
    and "length bs \<le> n"
  shows "get_read_buffers ba n = Inr (length bs, [])"
proof -
  have inv: "ba_inv ba" using assms(1) by (simp add: at_input_def)
  note I = ba_invD [OF inv]
  have s: "m_size ba = length bs" using at_input_len [OF assms(1)] assms(2) by simp
  have cur: "m_cur ba = Some 0" "0 < length (m_nodes ba)"
    using I(1,3,7) assms(2) by (simp_all add: node_at_def)
  have "n_size (m_nodes ba ! 0) = m_base_size ba" using uniform_nth [OF I(2)] cur by simp
  then show ?thesis
    using s cur assms I(1)
    by (auto simp: get_read_buffers_def get_read_size_def iov_loop.simps [of "m_nodes ba" "Some 0"])
qed

lemma send_small_undefined:
  assumes "op_connected ops s" "length (m_content p) \<le> 4085"
  shows "send_protocol (Suc fuel) ops s p = Some (Inl Undefined)"
proof -
  obtain ba where E: "encode p = Inr ba" "at_input ba (frame_head p @ m_content p)"
    "m_position ba = 0" "m_size ba = 11 + length (m_content p)" "m_base_size ba = 4096"
    using encode_input by blast
  have u: "unat (of_nat (m_size ba) :: u64) = m_size ba" using E(4) assms(2) by (simp add: unat_of_nat del: of_nat_add)
  have pos: "(0 :: u64) < of_nat (m_size ba)" using u E(4) by (simp add: word_less_nat_alt)
  have "get_read_buffers ba (m_size ba) = Inr (length (frame_head p @ m_content p), [])"
    by (rule get_read_buffers_first_block [OF E(2,3)]) (use E assms in simp_all)
  then show ?thesis
    using E(1) pos assms(1) u
    by (simp add: send_protocol_def write_fix_size_ba_def socket_stream_write_ba_def)
qed

text \<open>Receiving begins with the 11 bytes of the head, which always fit the block: no connected
  session ever receives a frame.\<close>

lemma head_write_buffers: "get_write_buffers byte_array_default 11 = Inr (11, [], byte_array_default)"
  by (simp add: get_write_buffers_def add_capacity_def get_capacity_def byte_array_default_def byte_array_new_def
      iov_loop.simps n_size_def new_node_def ssub_def node_at_def deref_def Let_def)

lemma recv_undefined:
  assumes "op_connected ops s"
  shows "recv_protocol (Suc fuel) ops s = Some (Inl Undefined)"
proof -
  have u: "unat (ucast BASE_LENGTH :: u64) = 11" "(0 :: u64) < ucast BASE_LENGTH"
    by (simp_all add: BASE_LENGTH_def)
  show ?thesis
    using assms head_write_buffers u
    by (simp add: recv_protocol_def read_fix_size_ba_def socket_stream_read_ba_def)
qed

section \<open>Frames over an ideal connection\<close>

text \<open>
  What \<open>recv_protocol\<close> makes of the bytes that \<open>send_protocol\<close> puts on the wire when the stream
  in between delivers them all: the head is decoded from the first 11 bytes, the rest is the
  content. The session itself never gets so far (\<open>recv_undefined\<close>), so that statements about a
  message that goes from one peer to the other use this instead.
\<close>

definition sent_bytes :: "protocol \<Rightarrow> bytes res" where
  "sent_bytes p = bindR (encode p) (\<lambda>ba. bindR (to_string ba) (\<lambda>bs. Inr (map the bs)))"

definition received :: "bytes \<Rightarrow> protocol option res" where
  "received bs =
     bindR (ba_write byte_array_default (take (unat BASE_LENGTH) bs)) (\<lambda>ba.
     bindR (set_position ba 0) (\<lambda>ba.
     bindR (decode_meta protocol_default ba) (\<lambda>(p, ba).
       if m_magic p \<noteq> MAGIC then Inr None
       else if m_content_length p = 0 then Inr (Some p)
       else Inr (Some (p\<lparr>m_content := take (unat (m_content_length p)) (drop (unat BASE_LENGTH) bs)\<rparr>)))))"

definition over_wire :: "protocol \<Rightarrow> protocol option res" where
  "over_wire p = bindR (sent_bytes p) received"

lemma sent_frame: "sent_bytes p = Inr (frame_head p @ m_content p)"
proof -
  obtain ba where "encode p = Inr ba" "at_input ba (frame_head p @ m_content p)" "m_position ba = 0"
    using encode_input by blast
  then show ?thesis
    using to_string_flat [of ba] by (simp add: sent_bytes_def at_input_def comp_def flip: map_append)
qed

lemma received_frame:
  assumes "m_magic p = MAGIC" "length (m_content p) < 2 ^ 32"
    and "m_content_length p = of_nat (length (m_content p))"
  shows "received (frame_head p @ m_content p) = Inr (Some p)"
proof -
  let ?cs = "m_content p"
  define q where "q = protocol_default\<lparr>m_magic := m_magic p, m_version := m_version p, m_type := m_type p,
      m_sequence_id := m_sequence_id p, m_content_length := of_nat (length ?cs)\<rparr>"
  obtain b where b: "ba_write byte_array_default (frame_head p) = Inr b" "wrote byte_array_default (frame_head p) b"
    using ba_write_wrote [OF default_inv(1)] by blast
  obtain b' where b': "set_position b 0 = Inr b'" "at_input b' (frame_head p @ [])" "m_position b' = 0"
    "m_base_size b' = 4096" "m_endian b' = Big"
    using wrote_default [OF b(2)] by auto
  have D: "decode_meta protocol_default b' = Inr (q, consumed b' 11)"
    unfolding q_def by (rule decode_meta_frame [OF b'(2-5)])
  have l: "unat (of_nat (length ?cs) :: u32) = length ?cs"
    unfolding unat_of_nat by (rule mod_less) (use assms(2) in simp)
  have z: "(of_nat (length ?cs) :: u32) = 0 \<longleftrightarrow> ?cs = []"
    unfolding word_unat_eq_iff l by simp
  have h: "take (unat BASE_LENGTH) (frame_head p @ ?cs) = frame_head p"
    "drop (unat BASE_LENGTH) (frame_head p @ ?cs) = ?cs"
    by (simp_all add: BASE_LENGTH_def)
  have q: "m_magic q = MAGIC" "m_content_length q = of_nat (length ?cs)" "q\<lparr>m_content := ?cs\<rparr> = p"
    "m_content q = []"
  proof -
    show "m_magic q = MAGIC" "m_content_length q = of_nat (length ?cs)" "m_content q = []"
      using assms(1) by (simp_all add: q_def protocol_default_def)
    show "q\<lparr>m_content := ?cs\<rparr> = p"
      by (rule protocol.equality) (simp_all add: q_def assms(3))
  qed
  show ?thesis
  proof (cases "?cs = []")
    case True
    then have "q = p"
      using q(4) assms(1,3) by (intro protocol.equality) (simp_all add: q_def protocol_default_def)
    with True z show ?thesis
      unfolding received_def h b(1) by (simp add: b'(1) D assms(1,3))
  next
    case False
    with z l q show ?thesis
      unfolding received_def h b(1) by (simp add: b'(1) D)
  qed
qed

lemma over_wire_created: "length cs < 2 ^ 32 \<Longrightarrow> over_wire (create t cs n) = Inr (Some (create t cs n))"
  unfolding over_wire_def sent_frame bindR_simps
  by (rule received_frame)
     (simp_all add: create_def set_message_type_def protocol_default_def Let_def)

end
