(* ===== verification/Rpc.thy ===== *)
theory Rpc
  imports Serializer_Spec Protocol
begin

text \<open>
  The call result of \<open>acid/rpc/rpc.h\<close>: a state code, a message and a value, with its two
  stream operators. The value is present on the wire whatever the code says, and is read
  only when the code is \<open>RPC_SUCCESS\<close>.
\<close>

datatype rpc_state =
    RPC_SUCCESS | RPC_FAIL | RPC_NO_MATCH | RPC_NO_METHOD | RPC_CLOSED | RPC_TIMEOUT

fun state_code :: "rpc_state \<Rightarrow> u16" where
  "state_code RPC_SUCCESS = 0"
| "state_code RPC_FAIL = 1"
| "state_code RPC_NO_MATCH = 2"
| "state_code RPC_NO_METHOD = 3"
| "state_code RPC_CLOSED = 4"
| "state_code RPC_TIMEOUT = 5"

text \<open>\<open>return_type\<close>: \<open>void\<close> (\<open>None\<close>) becomes \<open>int8_t\<close>.\<close>

definition return_type :: "ty option \<Rightarrow> ty" where
  "return_type t = (case t of None \<Rightarrow> TI8 | Some t \<Rightarrow> t)"

record rpc_result =
  r_code :: u16
  r_message :: bytes
  r_value :: val

text \<open>\<open>m_value\<close> has no initialiser: \<open>v\<close> is what it holds at first, which is the empty
  value of a class type and anything of an arithmetic one (\<open>starts\<close>).\<close>

definition result_new :: "val \<Rightarrow> rpc_result" where
  "result_new v = \<lparr>r_code = 0, r_message = [], r_value = v\<rparr>"

fun plain_ty :: "ty \<Rightarrow> bool" where
  "plain_ty (TTuple _) = False"
| "plain_ty (TPair _ _) = False"
| "plain_ty t = (\<not> is_container t)"

definition starts :: "ty \<Rightarrow> val \<Rightarrow> bool" where
  "starts t v \<longleftrightarrow> plain_ty t \<or> v = default_val t"

lemma get_starts: "starts t v \<Longrightarrow> get lt t v ba = get lt t (default_val t) ba"
  by (cases t) (auto simp: starts_def is_container_def)

text \<open>ASCII codes of the two fixed messages.\<close>

definition success_text :: bytes where
  "success_text = [115, 117, 99, 99, 101, 115, 115]"

definition fail_text :: bytes where
  "fail_text = [102, 97, 105, 108]"

definition result_success :: "val \<Rightarrow> rpc_result" where
  "result_success v =
     (result_new v)\<lparr>r_code := state_code RPC_SUCCESS, r_message := success_text\<rparr>"

definition result_fail :: "val \<Rightarrow> rpc_result" where
  "result_fail v = (result_new v)\<lparr>r_code := state_code RPC_FAIL, r_message := fail_text\<rparr>"

definition valid :: "rpc_result \<Rightarrow> bool" where
  "valid r \<longleftrightarrow> r_code r = state_code RPC_SUCCESS"

definition get_result ::
  "(val \<Rightarrow> val \<Rightarrow> bool) \<Rightarrow> ty \<Rightarrow> rpc_result \<Rightarrow> byte_array \<Rightarrow> (rpc_result \<times> byte_array) res" where
  "get_result lt t r ba =
     bindR (read_fix_uint16 ba) (\<lambda>(code, ba).
     bindR (read_string_vint ba) (\<lambda>(msg, ba).
       let r = r\<lparr>r_code := code, r_message := msg\<rparr> in
       if r_code r = state_code RPC_SUCCESS then
         bindR (get lt t (r_value r) ba) (\<lambda>(v, ba). Inr (r\<lparr>r_value := v\<rparr>, ba))
       else Inr (r, ba)))"

definition put_result :: "byte_array \<Rightarrow> rpc_result \<Rightarrow> byte_array res" where
  "put_result ba r =
     bindR (put ba (U16 (r_code r))) (\<lambda>ba.
     bindR (put ba (Str (r_message r))) (\<lambda>ba.
       case r_value r of
         Pair a b \<Rightarrow> put_pair_ref ba a b
       | v \<Rightarrow> put ba v))"

definition result_bytes :: "endian \<Rightarrow> rpc_result \<Rightarrow> u8 list" where
  "result_bytes en r =
     venc en (U16 (r_code r)) @ venc en (Str (r_message r)) @ venc en (r_value r)"

lemma put_result_puts:
  assumes "ba_inv ba" "\<And>a b. r_value r \<noteq> Pair a b"
  shows "puts (put_result ba r) ba (result_bytes (m_endian ba) r)"
proof -
  have v: "(case r_value r of Pair a b \<Rightarrow> put_pair_ref ba' a b | v \<Rightarrow> put ba' v) = put ba' (r_value r)"
    for ba' by (cases "r_value r") (use assms(2) in auto)
  show ?thesis
    unfolding put_result_def result_bytes_def v
    by (rule puts_bind [OF assms(1) put_puts [OF assms(1)]], rule puts_bind)
       (metis put_puts)+
qed

lemma get_result_reads:
  assumes "strict_weak lt" "has_ty lt t (r_value r)" "length (r_message r) < 2 ^ 64"
    and "at_input ba (result_bytes (m_endian ba) r @ rest)"
    and "m_position ba + length (result_bytes (m_endian ba) r) < m_base_size ba"
    and "starts t old"
  defines "head \<equiv> 2 + length (venc (m_endian ba) (Str (r_message r)))"
  shows "get_result lt t (result_new old) ba =
    (if r_code r = 0 then Inr (r\<lparr>r_code := 0\<rparr>, consumed ba (length (result_bytes (m_endian ba) r)))
     else Inr ((result_new old)\<lparr>r_code := r_code r, r_message := r_message r\<rparr>, consumed ba head))"
proof -
  let ?en = "m_endian ba"
  let ?c = "fix_bytes ?en (r_code r)" and ?m = "venc ?en (Str (r_message r))"
  let ?v = "venc ?en (r_value r)"
  have B: "result_bytes ?en r = ?c @ ?m @ ?v" by (simp add: result_bytes_def)
  have i0: "at_input ba (?c @ (?m @ ?v @ rest))" using assms(4) by (simp add: B)
  have c: "read_fix_uint16 ba = Inr (r_code r, consumed ba 2)"
    using fix_u16.reads [OF _ i0] assms(5) by (simp add: B)
  have i1: "at_input (consumed ba 2) (?m @ (?v @ rest))"
    using at_input_consumed [OF i0] by simp
  have m: "read_string_vint (consumed ba 2) = Inr (r_message r, consumed ba head)"
    using str_vint.reads [where x = "r_message r" and ba = "consumed ba 2" and rest = "?v @ rest"]
      i1 assms(3,5) by (simp add: B head_def add.assoc)
  have i2: "at_input (consumed ba head) (?v @ rest)"
    using at_input_consumed [OF i1] by (simp add: head_def)
  have "get lt t (default_val t) (consumed ba head) =
      Inr (r_value r, consumed (consumed ba head) (length ?v))"
    using readableD [OF has_ty_readable [OF assms(1,2)], where ba = "consumed ba head" and rest = rest]
      i2 assms(5) by (simp add: B head_def)
  with c m get_starts [OF assms(6)] show ?thesis
    by (simp add: get_result_def result_new_def B head_def add.assoc)
qed

section \<open>Message contents\<close>

text \<open>
  \<open>Serializer(content)\<close> (whose length parameter is an \<open>int\<close>), the text of the rest of the
  buffer, and the idiom \<open>s << a << b; s.reset(); s.to_string()\<close> that makes a content.
\<close>

definition serializer_of :: "bytes \<Rightarrow> byte_array res" where
  "serializer_of cs =
     ensureR (length cs < 2 ^ 31) Undefined
       (bindR (ba_write byte_array_default cs) (\<lambda>ba. set_position ba 0))"

definition ser_string :: "byte_array \<Rightarrow> bytes res" where
  "ser_string ba =
     bindR (to_string ba) (\<lambda>cs. ensureR (None \<notin> set cs) Uninit_read (Inr (map the cs)))"

text \<open>\<open>size\<close> and \<open>offset\<close> count in \<open>int\<close>; a negative position becomes a huge \<open>size_t\<close>.\<close>

definition ser_size :: "byte_array \<Rightarrow> int" where
  "ser_size ba = sint (of_nat (m_size ba) :: u32)"

definition ser_offset :: "byte_array \<Rightarrow> int \<Rightarrow> byte_array res" where
  "ser_offset ba off =
     (let old = sint (of_nat (m_position ba) :: u32)
      in set_position ba (unat (word_of_int (old + off) :: u64)))"

lemma ser_offset_moves:
  assumes "m_position ba < 2 ^ 31" "0 \<le> int (m_position ba) + off" "int (m_position ba) + off < 2 ^ 32"
  shows "ser_offset ba off = set_position ba (nat (int (m_position ba) + off))"
proof -
  have "sint (of_nat (m_position ba) :: u32) = int (m_position ba)"
    using assms(1) by (simp add: signed_of_nat signed_take_bit_int_eq_self)
  moreover have "unat (word_of_int i :: u64) = nat i" if "0 \<le> i" "i < 2 ^ 32" for i
    using that by (simp add: unsigned_of_int take_bit_int_eq_self)
  ultimately show ?thesis unfolding ser_offset_def Let_def using assms(2,3) by metis
qed

definition pack :: "val list \<Rightarrow> bytes res" where
  "pack vs =
     bindR (put_all byte_array_default vs) (\<lambda>ba. bindR (set_position ba 0) ser_string)"

lemma ser_string_input: "at_input ba bs \<Longrightarrow> ser_string ba = Inr bs"
  by (simp add: ser_string_def to_string_flat at_input_def comp_def)

lemma serializer_of_input:
  assumes "length cs < 2 ^ 31"
  shows "\<exists>ba. serializer_of cs = Inr ba \<and> at_input ba cs \<and> m_position ba = 0 \<and>
    m_base_size ba = 4096 \<and> m_endian ba = Big"
proof -
  obtain ba where "ba_write byte_array_default cs = Inr ba" "wrote byte_array_default cs ba"
    using ba_write_wrote [OF default_inv(1)] by blast
  with wrote_default [of cs ba] assms show ?thesis by (auto simp: serializer_of_def)
qed

text \<open>Whatever writes \<open>bs\<close> into an empty serialiser makes the content \<open>bs\<close>.\<close>

lemma puts_string:
  assumes "puts m byte_array_default bs"
  shows "bindR m (\<lambda>ba. bindR (set_position ba 0) ser_string) = Inr bs"
proof -
  obtain ba where 1: "m = Inr ba" "wrote byte_array_default bs ba"
    using assms by (auto simp: puts_def)
  from wrote_default [OF this(2)] 1(1) ser_string_input show ?thesis by auto
qed

lemma put_all_default:
  "puts (put_all byte_array_default vs) byte_array_default (concat (map (venc Big) vs))"
  using put_all_puts [of vs byte_array_default] put_puts default_inv by simp

lemma pack_bytes: "pack vs = Inr (concat (map (venc Big) vs))"
  unfolding pack_def by (rule puts_string [OF put_all_default])

text \<open>The content that holds one result.\<close>

definition pack_result :: "rpc_result \<Rightarrow> bytes res" where
  "pack_result r =
     bindR (put_result byte_array_default r) (\<lambda>ba. bindR (set_position ba 0) ser_string)"

lemma pack_result_bytes:
  "(\<And>a b. r_value r \<noteq> Pair a b) \<Longrightarrow> pack_result r = Inr (result_bytes Big r)"
  unfolding pack_result_def
  using puts_string [OF put_result_puts [OF default_inv(1)]] default_inv(2) by simp

end
