(* ===== verification/Timer.thy ===== *)
theory Timer
  imports StdMap
begin

text \<open>
  Timers and their manager (\<open>acid/common/timer.cpp\<close>). A timer is a heap cell: the heap maps
  addresses to timers and \<open>m_timers\<close>, a \<open>std::set\<close> ordered by expiry time and then by
  address, is the list of addresses in that order. The clock \<open>get_elapsed_ms()\<close> and the
  addresses that \<open>new\<close> returns are arguments. Times are 64-bit words. The locks make each
  operation atomic with respect to the others, so each is one function; the calls of
  \<open>on_timer_inserted_at_front\<close> are reported as a flag.
\<close>

section \<open>State\<close>

text \<open>A callback is called as it is, or only while a weak pointer is alive.\<close>

datatype 'cb callback = Plain 'cb | On_timer nat 'cb

record 'cb timer =
  t_recurring :: bool
  t_ms :: u64
  t_next :: u64
  t_callback :: "'cb callback option"

record 'cb timer_manager =
  tm_heap :: "nat \<Rightarrow> 'cb timer"
  tm_timers :: "nat list"
  tm_ticked :: bool
  tm_previous_time :: u64

definition comparator :: "(nat \<Rightarrow> 'cb timer) \<Rightarrow> nat option \<Rightarrow> nat option \<Rightarrow> bool" where
  "comparator h lhs rhs =
     (case lhs of
        None \<Rightarrow> (case rhs of None \<Rightarrow> False | Some _ \<Rightarrow> True)
      | Some l \<Rightarrow>
          (case rhs of
             None \<Rightarrow> False
           | Some r \<Rightarrow>
               if t_next (h l) < t_next (h r) then True
               else if t_next (h l) > t_next (h r) then False
               else l < r))"

definition timer_lt :: "(nat \<Rightarrow> 'cb timer) \<Rightarrow> nat \<Rightarrow> nat \<Rightarrow> bool" where
  "timer_lt h a b = comparator h (Some a) (Some b)"

definition new_timer :: "u64 \<Rightarrow> u64 \<Rightarrow> 'cb callback option \<Rightarrow> bool \<Rightarrow> 'cb timer" where
  "new_timer now ms cb recurring =
     \<lparr>t_recurring = recurring, t_ms = ms, t_next = now + ms, t_callback = cb\<rparr>"

definition new_timer_at :: "u64 \<Rightarrow> 'cb timer" where
  "new_timer_at nxt = \<lparr>t_recurring = False, t_ms = 0, t_next = nxt, t_callback = None\<rparr>"

definition timer_manager_new :: "(nat \<Rightarrow> 'cb timer) \<Rightarrow> u64 \<Rightarrow> 'cb timer_manager" where
  "timer_manager_new h now =
     \<lparr>tm_heap = h, tm_timers = [], tm_ticked = False, tm_previous_time = now\<rparr>"

section \<open>Operations of the manager\<close>

text \<open>The protected \<open>add_timer(val, lock)\<close>; the flag is the call of
  \<open>on_timer_inserted_at_front\<close>.\<close>

definition insert_timer :: "'cb timer_manager \<Rightarrow> nat \<Rightarrow> bool \<times> 'cb timer_manager" where
  "insert_timer m a =
     (let timers = set_insert (timer_lt (tm_heap m)) a (tm_timers m);
          at_front = equiv_key (timer_lt (tm_heap m)) (hd timers) a \<and> \<not> tm_ticked m
      in (at_front, m\<lparr>tm_timers := timers,
                      tm_ticked := (if at_front then True else tm_ticked m)\<rparr>))"

definition add_timer ::
  "'cb timer_manager \<Rightarrow> u64 \<Rightarrow> nat \<Rightarrow> u64 \<Rightarrow> 'cb callback option \<Rightarrow> bool \<Rightarrow> bool \<times> 'cb timer_manager" where
  "add_timer m now a ms cb recurring =
     insert_timer (m\<lparr>tm_heap := (tm_heap m)(a := new_timer now ms cb recurring)\<rparr>) a"

definition add_condition_timer ::
  "'cb timer_manager \<Rightarrow> u64 \<Rightarrow> nat \<Rightarrow> u64 \<Rightarrow> 'cb \<Rightarrow> nat \<Rightarrow> bool \<Rightarrow> bool \<times> 'cb timer_manager" where
  "add_condition_timer m now a ms cb weak_cond recurring =
     add_timer m now a ms (Some (On_timer weak_cond cb)) recurring"

text \<open>What calling a stored callback runs; \<open>alive\<close> is \<open>weak_cond.lock()\<close>.\<close>

fun run_callback :: "(nat \<Rightarrow> bool) \<Rightarrow> 'cb callback \<Rightarrow> 'cb list" where
  "run_callback alive (Plain cb) = [cb]"
| "run_callback alive (On_timer w cb) = (if alive w then [cb] else [])"

definition get_next_timer :: "'cb timer_manager \<Rightarrow> u64 \<Rightarrow> u64 \<times> 'cb timer_manager" where
  "get_next_timer m now =
     (let m = m\<lparr>tm_ticked := False\<rparr> in
      case tm_timers m of
        [] \<Rightarrow> (- 1, m)
      | a # _ \<Rightarrow>
          (if now \<ge> t_next (tm_heap m a) then 0 else t_next (tm_heap m a) - now, m))"

definition has_timer :: "'cb timer_manager \<Rightarrow> bool" where
  "has_timer m \<longleftrightarrow> tm_timers m \<noteq> []"

definition detect_clock_rollover :: "'cb timer_manager \<Rightarrow> u64 \<Rightarrow> bool \<times> 'cb timer_manager" where
  "detect_clock_rollover m now =
     (now < tm_previous_time m \<and> now < tm_previous_time m - 60 * 60 * 1000,
      m\<lparr>tm_previous_time := now\<rparr>)"

text \<open>The final loop of \<open>list_expired_callback\<close>.\<close>

fun fire :: "u64 \<Rightarrow> nat list \<Rightarrow> 'cb timer_manager \<Rightarrow> 'cb callback option list \<times> 'cb timer_manager" where
  "fire now [] m = ([], m)"
| "fire now (a # as) m =
     (let t = tm_heap m a;
          m' = (if t_recurring t then
                  let h = (tm_heap m)(a := t\<lparr>t_next := now + t_ms t\<rparr>) in
                  m\<lparr>tm_heap := h, tm_timers := set_insert (timer_lt h) a (tm_timers m)\<rparr>
                else m\<lparr>tm_heap := (tm_heap m)(a := t\<lparr>t_callback := None\<rparr>)\<rparr>);
          (cbs, m'') = fire now as m'
      in (t_callback t # cbs, m''))"

text \<open>\<open>na\<close> is the address of the temporary timer that marks the current time.\<close>

definition expired_prefix :: "'cb timer_manager \<Rightarrow> u64 \<Rightarrow> nat \<Rightarrow> nat list" where
  "expired_prefix m now na =
     (let h = (tm_heap m)(na := new_timer_at now);
          before = takeWhile (\<lambda>a. timer_lt h a na) (tm_timers m);
          rest = drop (length before) (tm_timers m)
      in before @ takeWhile (\<lambda>a. t_next (h a) = now) rest)"

definition list_expired_callback ::
  "'cb timer_manager \<Rightarrow> u64 \<Rightarrow> nat \<Rightarrow> 'cb callback option list \<times> 'cb timer_manager" where
  "list_expired_callback m now na =
     (if tm_timers m = [] then ([], m)
      else let (rollover, m) = detect_clock_rollover m now in
        if \<not> rollover \<and> t_next (tm_heap m (hd (tm_timers m))) > now then ([], m)
        else let expired = (if rollover then tm_timers m else expired_prefix m now na) in
          fire now expired (m\<lparr>tm_timers := drop (length expired) (tm_timers m)\<rparr>))"

section \<open>Operations of a timer\<close>

definition erase_timer :: "'cb timer_manager \<Rightarrow> nat \<Rightarrow> 'cb timer_manager" where
  "erase_timer m a = m\<lparr>tm_timers := set_erase (timer_lt (tm_heap m)) a (tm_timers m)\<rparr>"

definition find_timer :: "'cb timer_manager \<Rightarrow> nat \<Rightarrow> bool" where
  "find_timer m a = set_contains (timer_lt (tm_heap m)) a (tm_timers m)"

text \<open>\<open>cancel\<close> erases the iterator without comparing it with \<open>end()\<close>.\<close>

definition cancel :: "'cb timer_manager \<Rightarrow> nat \<Rightarrow> (bool \<times> 'cb timer_manager) res" where
  "cancel m a =
     (if t_callback (tm_heap m a) \<noteq> None then
        let m = m\<lparr>tm_heap := (tm_heap m)(a := (tm_heap m a)\<lparr>t_callback := None\<rparr>)\<rparr> in
        if find_timer m a then Inr (True, erase_timer m a) else Inl Undefined
      else Inr (False, m))"

definition refresh :: "'cb timer_manager \<Rightarrow> u64 \<Rightarrow> nat \<Rightarrow> bool \<times> 'cb timer_manager" where
  "refresh m now a =
     (if t_callback (tm_heap m a) = None then (False, m)
      else if \<not> find_timer m a then (False, m)
      else let m = erase_timer m a;
               h = (tm_heap m)(a := (tm_heap m a)\<lparr>t_next := now + t_ms (tm_heap m a)\<rparr>)
        in (True, m\<lparr>tm_heap := h, tm_timers := set_insert (timer_lt h) a (tm_timers m)\<rparr>))"

text \<open>The result is the return value, the notification flag and the state.\<close>

definition reset ::
  "'cb timer_manager \<Rightarrow> u64 \<Rightarrow> nat \<Rightarrow> u64 \<Rightarrow> bool \<Rightarrow> bool \<times> bool \<times> 'cb timer_manager" where
  "reset m now a ms from_now =
     (let t = tm_heap m a in
      if ms = t_ms t \<and> \<not> from_now then (True, False, m)
      else if t_callback t = None then (False, False, m)
      else if \<not> find_timer m a then (False, False, m)
      else let m = erase_timer m a;
               start = (if from_now then now else t_next t - t_ms t);
               h = (tm_heap m)(a := t\<lparr>t_ms := ms, t_next := start + ms\<rparr>);
               (front, m) = insert_timer (m\<lparr>tm_heap := h\<rparr>) a
        in (True, front, m))"

section \<open>The order of the set\<close>

lemma timer_lt_alt:
  "timer_lt h a b \<longleftrightarrow> t_next (h a) < t_next (h b) \<or> t_next (h a) = t_next (h b) \<and> a < b"
  by (auto simp: timer_lt_def comparator_def)

interpretation timer_order: strict_weak "timer_lt h" for h :: "nat \<Rightarrow> 'cb timer"
  by unfold_locales (auto simp: timer_lt_alt equiv_key_def)

lemma equiv_timer [simp]: "equiv_key (timer_lt h) a b \<longleftrightarrow> a = b"
  by (auto simp: equiv_key_def timer_lt_alt)

lemma contains_timer [simp]: "set_contains (timer_lt h) a ts \<longleftrightarrow> a \<in> set ts"
  by (auto simp: set_contains_def list_ex_iff)

lemma erase_timer_eq [simp]: "set_erase (timer_lt h) a ts = filter (\<lambda>b. b \<noteq> a) ts"
  unfolding set_erase_def equiv_timer by (rule arg_cong [where f = "\<lambda>P. filter P ts"]) auto

lemma set_insert_timer [simp]: "sorted_wrt (timer_lt h) ts \<Longrightarrow>
    set (set_insert (timer_lt h) a ts) = insert a (set ts)"
  by (cases "a \<in> set ts")
     (simp_all add: timer_order.insert_present insert_absorb timer_order.insert_new)

lemma sorted_cong:
  "(\<And>a. a \<in> set ts \<Longrightarrow> t_next (h' a) = t_next (h a)) \<Longrightarrow>
   sorted_wrt (timer_lt h') ts = sorted_wrt (timer_lt h) ts"
  by (induction ts) (auto simp: timer_lt_alt)

section \<open>Well-formedness\<close>

definition timer_inv :: "'cb timer_manager \<Rightarrow> bool" where
  "timer_inv m \<longleftrightarrow> sorted_wrt (timer_lt (tm_heap m)) (tm_timers m) \<and>
     (\<forall>a. t_callback (tm_heap m a) \<noteq> None \<longrightarrow> a \<in> set (tm_timers m))"

lemma timer_invD:
  "timer_inv m \<Longrightarrow> sorted_wrt (timer_lt (tm_heap m)) (tm_timers m)"
  "timer_inv m \<Longrightarrow> t_callback (tm_heap m a) \<noteq> None \<Longrightarrow> a \<in> set (tm_timers m)"
  by (auto simp: timer_inv_def)

lemma timer_manager_new_inv:
  "(\<And>a. t_callback (h a) = None) \<Longrightarrow> timer_inv (timer_manager_new h now)"
  by (simp add: timer_inv_def timer_manager_new_def)

text \<open>Re-inserting a timer that is not in the set, with a new cell.\<close>

lemma sorted_fresh:
  "sorted_wrt (timer_lt h) ts \<Longrightarrow> a \<notin> set ts \<Longrightarrow> sorted_wrt (timer_lt (h(a := t))) ts"
  by (subst sorted_cong [of _ _ h]) auto

lemma reinsert_inv:
  assumes "sorted_wrt (timer_lt (tm_heap m)) (tm_timers m)" "a \<notin> set (tm_timers m)"
    and "\<And>b. b \<noteq> a \<Longrightarrow> t_callback (tm_heap m b) \<noteq> None \<Longrightarrow> b \<in> set (tm_timers m)"
  shows "timer_inv (m\<lparr>tm_heap := (tm_heap m)(a := t),
    tm_timers := set_insert (timer_lt ((tm_heap m)(a := t))) a (tm_timers m)\<rparr>)"
  using assms timer_order.ordered_insert [OF sorted_fresh [OF assms(1,2)]] sorted_fresh [OF assms(1,2)]
  by (auto simp: timer_inv_def)

lemma ticked_inv [simp]: "timer_inv (m\<lparr>tm_ticked := b\<rparr>) = timer_inv m"
  by (simp add: timer_inv_def)

lemma previous_inv [simp]: "timer_inv (m\<lparr>tm_previous_time := b\<rparr>) = timer_inv m"
  by (simp add: timer_inv_def)

lemma add_timer_inv:
  assumes "timer_inv m" "a \<notin> set (tm_timers m)"
  shows "timer_inv (snd (add_timer m now a ms cb rec))"
    and "set (tm_timers (snd (add_timer m now a ms cb rec))) = insert a (set (tm_timers m))"
proof -
  let ?h = "(tm_heap m)(a := new_timer now ms cb rec)"
  have s: "sorted_wrt (timer_lt ?h) (tm_timers m)"
    using sorted_fresh timer_invD(1) assms by blast
  have e: "snd (add_timer m now a ms cb rec) =
      (m\<lparr>tm_heap := ?h, tm_timers := set_insert (timer_lt ?h) a (tm_timers m)\<rparr>)
        \<lparr>tm_ticked := tm_ticked (snd (add_timer m now a ms cb rec))\<rparr>"
    by (simp add: add_timer_def insert_timer_def Let_def)
  show "timer_inv (snd (add_timer m now a ms cb rec))"
    by (subst e, unfold ticked_inv, rule reinsert_inv) (use assms timer_invD in blast)+
  show "set (tm_timers (snd (add_timer m now a ms cb rec))) = insert a (set (tm_timers m))"
    by (subst e) (simp add: s)
qed

text \<open>Erasing a timer whose callback has been dropped.\<close>

lemma cancel_spec:
  assumes "timer_inv m"
  shows "cancel m a =
    (if t_callback (tm_heap m a) \<noteq> None
     then Inr (True, m\<lparr>tm_heap := (tm_heap m)(a := (tm_heap m a)\<lparr>t_callback := None\<rparr>),
                       tm_timers := filter (\<lambda>b. b \<noteq> a) (tm_timers m)\<rparr>)
     else Inr (False, m))"
  using timer_invD(2) [OF assms, of a]
  by (auto simp: cancel_def find_timer_def erase_timer_def Let_def)

lemma cancel_inv:
  assumes "timer_inv m" "cancel m a = Inr (b, m')"
  shows "timer_inv m'" "b \<Longrightarrow> a \<notin> set (tm_timers m')"
proof -
  have s: "sorted_wrt (timer_lt ((tm_heap m)(a := (tm_heap m a)\<lparr>t_callback := None\<rparr>)))
      (filter (\<lambda>b. b \<noteq> a) (tm_timers m))"
    using timer_invD(1) [OF assms(1)]
    by (subst sorted_cong [of _ _ "tm_heap m"]) (auto simp: sorted_wrt_filter)
  show "timer_inv m'"
    using assms s unfolding cancel_spec [OF assms(1)]
    by (auto simp: timer_inv_def split: if_splits)
  show "b \<Longrightarrow> a \<notin> set (tm_timers m')"
    using assms(2) unfolding cancel_spec [OF assms(1)] by (auto split: if_splits)
qed

lemma filter_sorted:
  "timer_inv m \<Longrightarrow> sorted_wrt (timer_lt (tm_heap m)) (filter (\<lambda>b. b \<noteq> a) (tm_timers m))"
  by (simp add: timer_inv_def sorted_wrt_filter)

lemma rearm_inv:
  assumes "timer_inv m"
  shows "timer_inv (m\<lparr>tm_heap := (tm_heap m)(a := t),
    tm_timers := set_insert (timer_lt ((tm_heap m)(a := t))) a (filter (\<lambda>b. b \<noteq> a) (tm_timers m))\<rparr>)"
  using reinsert_inv [of "m\<lparr>tm_timers := filter (\<lambda>b. b \<noteq> a) (tm_timers m)\<rparr>" a t]
    filter_sorted [OF assms] timer_invD(2) [OF assms] by auto

lemma rearm_set:
  assumes "timer_inv m"
  shows "set (set_insert (timer_lt ((tm_heap m)(a := t))) a (filter (\<lambda>b. b \<noteq> a) (tm_timers m))) =
    insert a (set (tm_timers m))"
  using sorted_fresh [OF filter_sorted [OF assms, of a], of a t] by auto

lemma refresh_spec:
  assumes "timer_inv m"
  shows "refresh m now a =
    (if t_callback (tm_heap m a) = None then (False, m)
     else let h = (tm_heap m)(a := (tm_heap m a)\<lparr>t_next := now + t_ms (tm_heap m a)\<rparr>)
       in (True, m\<lparr>tm_heap := h,
          tm_timers := set_insert (timer_lt h) a (filter (\<lambda>b. b \<noteq> a) (tm_timers m))\<rparr>))"
  using timer_invD(2) [OF assms, of a]
  by (auto simp: refresh_def find_timer_def erase_timer_def Let_def)

lemma refresh_inv: "timer_inv m \<Longrightarrow> timer_inv (snd (refresh m now a))"
  by (simp add: refresh_spec Let_def rearm_inv)

lemma reset_inv:
  assumes "timer_inv m"
  shows "timer_inv (snd (snd (reset m now a ms from_now)))"
proof -
  define t where "t = (tm_heap m a)\<lparr>t_ms := ms,
    t_next := (if from_now then now else t_next (tm_heap m a) - t_ms (tm_heap m a)) + ms\<rparr>"
  show ?thesis
    using rearm_inv [OF assms, of a t] assms
    by (simp add: reset_def Let_def erase_timer_def insert_timer_def t_def split: prod.splits if_splits)
qed

lemma rearmed_set:
  assumes "timer_inv m"
  shows "set (tm_timers (snd (refresh m now a))) = set (tm_timers m)"
    "set (tm_timers (snd (snd (reset m now a ms from_now)))) = set (tm_timers m)"
  using rearm_set [OF assms] assms
  by (auto simp: refresh_def reset_def Let_def erase_timer_def insert_timer_def find_timer_def split: if_splits)

section \<open>Expiry\<close>

lemma takeWhile_append_all:
  "(\<forall>x \<in> set xs. P x) \<Longrightarrow> takeWhile P (xs @ ys) = xs @ takeWhile P ys"
  by (induction xs) auto

lemma expired_prefix_eq:
  assumes "sorted_wrt (timer_lt (tm_heap m)) (tm_timers m)" "na \<notin> set (tm_timers m)"
  shows "expired_prefix m now na = takeWhile (\<lambda>a. t_next (tm_heap m a) \<le> now) (tm_timers m)"
proof -
  let ?ts = "tm_timers m" and ?h = "tm_heap m"
  define h where "h = ?h(na := new_timer_at now)"
  define before where "before = takeWhile (\<lambda>a. timer_lt h a na) ?ts"
  define rest where "rest = dropWhile (\<lambda>a. timer_lt h a na) ?ts"
  have ts: "?ts = before @ rest" by (simp add: before_def rest_def)
  have sub: "set before \<subseteq> set ?ts" "set rest \<subseteq> set ?ts" unfolding ts by auto
  have lt: "timer_lt h a na \<longleftrightarrow> t_next (?h a) < now \<or> t_next (?h a) = now \<and> a < na"
    if "a \<in> set ?ts" for a
    using that assms(2) by (auto simp: h_def timer_lt_alt new_timer_at_def)
  have 1: "\<forall>a \<in> set before. t_next (?h a) \<le> now"
    using lt sub(1) by (auto simp: before_def dest!: set_takeWhileD)
  have 2: "\<forall>a \<in> set rest. now \<le> t_next (?h a)"
  proof (cases rest)
    case (Cons x xs)
    then have x: "\<not> timer_lt h x na" unfolding rest_def by (metis dropWhile_eq_Cons_conv)
    have "x \<in> set ?ts" unfolding ts Cons by simp
    with lt [OF this] x have "now \<le> t_next (?h x)" by auto
    moreover have "\<forall>a \<in> set xs. timer_lt ?h x a"
      using assms(1) unfolding ts Cons by (simp add: sorted_wrt_append)
    ultimately show ?thesis unfolding Cons by (auto simp: timer_lt_alt)
  qed simp
  have "takeWhile (\<lambda>a. t_next (h a) = now) rest = takeWhile (\<lambda>a. t_next (?h a) \<le> now) rest"
    by (rule takeWhile_cong [OF refl]) (use 2 sub(2) assms(2) in \<open>auto simp: h_def\<close>)
  moreover have "rest = drop (length before) ?ts"
    unfolding ts by simp
  ultimately show ?thesis
    unfolding expired_prefix_def Let_def h_def [symmetric] before_def [symmetric]
    using takeWhile_append_all [OF 1, of rest] ts by metis
qed

lemma takeWhile_sorted:
  assumes "sorted_wrt (timer_lt h) ts"
  shows "takeWhile (\<lambda>a. t_next (h a) \<le> now) ts = filter (\<lambda>a. t_next (h a) \<le> now) ts"
  using assms
proof (induction ts)
  case (Cons a ts)
  show ?case
  proof (cases "t_next (h a) \<le> now")
    case False
    with Cons.prems have "\<forall>b \<in> set ts. \<not> t_next (h b) \<le> now" by (auto simp: timer_lt_alt)
    with False show ?thesis by (simp add: filter_empty_conv)
  qed (use Cons in simp)
qed simp

lemma sorted_distinct: "sorted_wrt (timer_lt h) ts \<Longrightarrow> distinct ts"
  by (induction ts) (auto simp: timer_lt_alt)

definition fired :: "u64 \<Rightarrow> 'cb timer \<Rightarrow> 'cb timer" where
  "fired now t = (if t_recurring t then t\<lparr>t_next := now + t_ms t\<rparr> else t\<lparr>t_callback := None\<rparr>)"

lemma fire_spec:
  assumes "sorted_wrt (timer_lt (tm_heap m)) (tm_timers m)" "distinct as"
    and "set as \<inter> set (tm_timers m) = {}"
    and "\<And>b. t_callback (tm_heap m b) \<noteq> None \<Longrightarrow> b \<in> set (tm_timers m) \<union> set as"
  shows "fst (fire now as m) = map (\<lambda>a. t_callback (tm_heap m a)) as \<and>
    timer_inv (snd (fire now as m)) \<and>
    set (tm_timers (snd (fire now as m))) =
      set (tm_timers m) \<union> {a \<in> set as. t_recurring (tm_heap m a)} \<and>
    tm_heap (snd (fire now as m)) =
      (\<lambda>b. if b \<in> set as then fired now (tm_heap m b) else tm_heap m b)"
  using assms
proof (induction as arbitrary: m)
  case Nil
  then show ?case by (auto simp: timer_inv_def)
next
  case (Cons a as)
  define m' where "m' = (if t_recurring (tm_heap m a)
    then m\<lparr>tm_heap := (tm_heap m)(a := fired now (tm_heap m a)),
           tm_timers := set_insert (timer_lt ((tm_heap m)(a := fired now (tm_heap m a)))) a (tm_timers m)\<rparr>
    else m\<lparr>tm_heap := (tm_heap m)(a := fired now (tm_heap m a))\<rparr>)"
  have a: "a \<notin> set (tm_timers m)" "a \<notin> set as" using Cons.prems(2,3) by auto
  note s = sorted_fresh [OF Cons.prems(1) a(1), of "fired now (tm_heap m a)"]
  have h: "tm_heap m' = (tm_heap m)(a := fired now (tm_heap m a))" by (simp add: m'_def)
  have ts: "set (tm_timers m') = set (tm_timers m) \<union> (if t_recurring (tm_heap m a) then {a} else {})"
    using s by (simp add: m'_def)
  have s': "sorted_wrt (timer_lt (tm_heap m')) (tm_timers m')"
    using s timer_order.ordered_insert [OF s] by (simp add: m'_def)
  have run: "fire now (a # as) m =
      (t_callback (tm_heap m a) # fst (fire now as m'), snd (fire now as m'))"
    by (simp add: m'_def fired_def Let_def split: prod.splits)
  have cb: "b \<in> set (tm_timers m') \<union> set as" if "t_callback (tm_heap m' b) \<noteq> None" for b
  proof (cases "b = a")
    case True
    with that ts show ?thesis by (auto simp: h fired_def split: if_splits)
  next
    case False
    with that Cons.prems(4) [of b] ts show ?thesis by (auto simp: h)
  qed
  have "set as \<inter> set (tm_timers m') = {}" using Cons.prems(3) ts a by auto
  note IH = Cons.IH [OF s' _ this cb]
  have "map (\<lambda>a. t_callback (tm_heap m' a)) as = map (\<lambda>a. t_callback (tm_heap m a)) as"
    using a(2) by (auto simp: h)
  moreover have "{b \<in> set as. t_recurring (tm_heap m' b)} = {b \<in> set as. t_recurring (tm_heap m b)}"
    using a(2) by (auto simp: h)
  ultimately show ?case
    using IH Cons.prems(2) ts a(2) unfolding run by (auto simp: h fun_eq_iff)
qed

text \<open>Without a rollover, exactly the timers due fire, in the order of the set.\<close>

lemma list_expired_spec:
  fixes m :: "'cb timer_manager" and now :: u64
  assumes inv: "timer_inv m" and na: "na \<notin> set (tm_timers m)"
  defines "due \<equiv> filter (\<lambda>a. fst (detect_clock_rollover m now) \<or> t_next (tm_heap m a) \<le> now) (tm_timers m)"
  shows "fst (list_expired_callback m now na) = map (\<lambda>a. t_callback (tm_heap m a)) due"
    and "timer_inv (snd (list_expired_callback m now na))"
    and "set (tm_timers (snd (list_expired_callback m now na))) =
      {a \<in> set (tm_timers m). a \<notin> set due \<or> t_recurring (tm_heap m a)}"
    and "tm_heap (snd (list_expired_callback m now na)) =
      (\<lambda>b. if b \<in> set due then fired now (tm_heap m b) else tm_heap m b)"
proof -
  let ?m = "m\<lparr>tm_previous_time := now\<rparr>" and ?ro = "fst (detect_clock_rollover m now)"
  have D: "detect_clock_rollover m now = (?ro, ?m)" by (simp add: detect_clock_rollover_def)
  note s = timer_invD(1) [OF inv]
  define ex where "ex = (if ?ro then tm_timers m else expired_prefix ?m now na)"
  have ex: "ex = due"
    using expired_prefix_eq [of ?m na now] s na takeWhile_sorted [OF s, of now]
    by (simp add: ex_def due_def)
  have due_take: "due = takeWhile (\<lambda>a. ?ro \<or> t_next (tm_heap m a) \<le> now) (tm_timers m)"
    using takeWhile_sorted [OF s, of now]
    by (cases ?ro) (simp_all add: due_def takeWhile_eq_all_conv [THEN iffD2])
  define rest where "rest = drop (length due) (tm_timers m)"
  have split: "tm_timers m = due @ rest"
    unfolding rest_def due_take by (simp flip: dropWhile_eq_drop)
  have due_early: "due = []" if "tm_timers m \<noteq> []" "\<not> ?ro" "now < t_next (tm_heap m (hd (tm_timers m)))"
    using that unfolding due_take by (cases "tm_timers m") auto
  have sr: "sorted_wrt (timer_lt (tm_heap m)) rest"
    using s unfolding split by (simp add: sorted_wrt_append)
  have dist: "distinct (due @ rest)" using sorted_distinct [OF s] unfolding split .
  have cb: "b \<in> set rest \<union> set due" if "t_callback (tm_heap m b) \<noteq> None" for b
    using timer_invD(2) [OF inv that] unfolding split by auto
  have F': "fst (fire now due (?m\<lparr>tm_timers := rest\<rparr>)) = map (\<lambda>a. t_callback (tm_heap m a)) due \<and>
    timer_inv (snd (fire now due (?m\<lparr>tm_timers := rest\<rparr>))) \<and>
    set (tm_timers (snd (fire now due (?m\<lparr>tm_timers := rest\<rparr>)))) =
      set rest \<union> {a \<in> set due. t_recurring (tm_heap m a)} \<and>
    tm_heap (snd (fire now due (?m\<lparr>tm_timers := rest\<rparr>))) =
      (\<lambda>b. if b \<in> set due then fired now (tm_heap m b) else tm_heap m b)"
  proof -
    have 1: "sorted_wrt (timer_lt (tm_heap (?m\<lparr>tm_timers := rest\<rparr>))) (tm_timers (?m\<lparr>tm_timers := rest\<rparr>))"
      using sr by simp
    have 2: "distinct due" "set due \<inter> set (tm_timers (?m\<lparr>tm_timers := rest\<rparr>)) = {}"
      using dist by auto
    have 3: "b \<in> set (tm_timers (?m\<lparr>tm_timers := rest\<rparr>)) \<union> set due"
      if "t_callback (tm_heap (?m\<lparr>tm_timers := rest\<rparr>) b) \<noteq> None" for b
      using cb [of b] that by simp
    show ?thesis using fire_spec [OF 1 2 3, of now] by (simp cong: if_cong)
  qed
  have run: "list_expired_callback m now na =
      (if tm_timers m = [] then ([], m)
       else if \<not> ?ro \<and> now < t_next (tm_heap m (hd (tm_timers m))) then ([], ?m)
       else fire now due (?m\<lparr>tm_timers := rest\<rparr>))"
  proof -
    have e: "(case detect_clock_rollover m now of (rollover, m') \<Rightarrow> f rollover m') = f ?ro ?m"
      for f :: "bool \<Rightarrow> 'cb timer_manager \<Rightarrow> 'cb callback option list \<times> 'cb timer_manager"
      by (subst D) simp
    show ?thesis
      unfolding list_expired_callback_def e rest_def Let_def by (simp add: ex [unfolded ex_def, symmetric])
  qed
  have mem: "{a \<in> set (tm_timers m). a \<notin> set due \<or> t_recurring (tm_heap m a)} =
      set rest \<union> {a \<in> set due. t_recurring (tm_heap m a)}"
    using dist unfolding split by auto
  have nil: "due = []" if "tm_timers m = []" using that by (simp add: due_def)
  consider (none) "due = []" "list_expired_callback m now na = ([], m)"
    | (early) "due = []" "list_expired_callback m now na = ([], ?m)"
    | (fire) "list_expired_callback m now na = fire now due (?m\<lparr>tm_timers := rest\<rparr>)"
  proof (cases "tm_timers m = []")
    case True
    with nil run none show thesis by simp
  next
    case ne: False
    show thesis
    proof (cases "\<not> ?ro \<and> now < t_next (tm_heap m (hd (tm_timers m)))")
      case True
      with ne have "due = []" using due_early by blast
      moreover have "list_expired_callback m now na = ([], ?m)" using run ne True by simp
      ultimately show thesis by (rule early)
    next
      case False
      with run ne have "list_expired_callback m now na = fire now due (?m\<lparr>tm_timers := rest\<rparr>)"
        by simp
      then show thesis by (rule fire)
    qed
  qed
  then have all: "fst (list_expired_callback m now na) = map (\<lambda>a. t_callback (tm_heap m a)) due \<and>
    timer_inv (snd (list_expired_callback m now na)) \<and>
    set (tm_timers (snd (list_expired_callback m now na))) =
      {a \<in> set (tm_timers m). a \<notin> set due \<or> t_recurring (tm_heap m a)} \<and>
    tm_heap (snd (list_expired_callback m now na)) =
      (\<lambda>b. if b \<in> set due then fired now (tm_heap m b) else tm_heap m b)"
  proof cases
    case fire
    show ?thesis unfolding fire mem by (rule F')
  qed (simp_all add: inv)
  from all show "fst (list_expired_callback m now na) = map (\<lambda>a. t_callback (tm_heap m a)) due"
    and "timer_inv (snd (list_expired_callback m now na))"
    and "set (tm_timers (snd (list_expired_callback m now na))) =
      {a \<in> set (tm_timers m). a \<notin> set due \<or> t_recurring (tm_heap m a)}"
    and "tm_heap (snd (list_expired_callback m now na)) =
      (\<lambda>b. if b \<in> set due then fired now (tm_heap m b) else tm_heap m b)"
    by blast+
qed

text \<open>\<open>get_next_timer\<close> is the time to the earliest expiry.\<close>

lemma get_next_timer_spec:
  assumes "timer_inv m" "a \<in> set (tm_timers m)"
  shows "fst (get_next_timer m now) \<le> (if now \<ge> t_next (tm_heap m a) then 0 else t_next (tm_heap m a) - now)"
    and "\<exists>b \<in> set (tm_timers m). fst (get_next_timer m now) =
      (if now \<ge> t_next (tm_heap m b) then 0 else t_next (tm_heap m b) - now)"
proof -
  obtain b bs where ts: "tm_timers m = b # bs" using assms(2) by (cases "tm_timers m") auto
  have le: "t_next (tm_heap m b) \<le> t_next (tm_heap m a)"
    using timer_invD(1) [OF assms(1)] assms(2) unfolding ts by (auto simp: timer_lt_alt)
  have g: "fst (get_next_timer m now) =
      (if now \<ge> t_next (tm_heap m b) then 0 else t_next (tm_heap m b) - now)"
    by (simp add: get_next_timer_def ts)
  show "fst (get_next_timer m now) \<le> (if now \<ge> t_next (tm_heap m a) then 0 else t_next (tm_heap m a) - now)"
  proof (cases "t_next (tm_heap m b) \<le> now")
    case True
    then show ?thesis by (simp add: g)
  next
    case False
    then have "now \<le> t_next (tm_heap m b)" "now \<le> t_next (tm_heap m a)" using le by simp_all
    with False le show ?thesis
      by (simp add: g word_le_nat_alt unat_sub diff_le_mono)
  qed
  show "\<exists>b \<in> set (tm_timers m). fst (get_next_timer m now) =
      (if now \<ge> t_next (tm_heap m b) then 0 else t_next (tm_heap m b) - now)"
    using g by (auto simp: ts)
qed

section \<open>The clock\<close>

text \<open>\<open>get_elapsed_ms\<close> of the seconds and nanoseconds that the system gives; it does not go back
  while the product fits.\<close>

definition elapsed_ms :: "u64 \<Rightarrow> u64 \<Rightarrow> u64" where
  "elapsed_ms sec nsec = sec * 1000 + nsec div 1000000"

lemma elapsed_ms_nat:
  assumes "unat sec < 2 ^ 50" "unat nsec < 10 ^ 9"
  shows "unat (elapsed_ms sec nsec) = unat sec * 1000 + unat nsec div 1000000"
proof -
  have s: "unat (sec * 1000) = unat sec * 1000" using assms(1) by (subst unat_mult_lem [THEN iffD1]) simp_all
  have "unat nsec div 1000000 < 1000" using assms(2) by (simp add: less_mult_imp_div_less)
  then show ?thesis
    unfolding elapsed_ms_def using assms(1) s by (subst unat_add_lem [THEN iffD1]) (simp_all add: unat_div)
qed

lemma elapsed_ms_mono:
  assumes "unat s2 < 2 ^ 50" "unat n1 < 10 ^ 9" "unat n2 < 10 ^ 9"
    and "unat s1 < unat s2 \<or> unat s1 = unat s2 \<and> unat n1 \<le> unat n2"
  shows "elapsed_ms s1 n1 \<le> elapsed_ms s2 n2"
proof -
  have "unat s1 < 2 ^ 50" using assms(1,4) by linarith
  moreover have "unat n1 div 1000000 < 1000" using assms(2) by (simp add: less_mult_imp_div_less)
  moreover have "unat n1 \<le> unat n2 \<Longrightarrow> unat n1 div 1000000 \<le> unat n2 div 1000000" by (rule div_le_mono)
  ultimately show ?thesis
    using assms elapsed_ms_nat [of s1 n1] elapsed_ms_nat [of s2 n2] by (auto simp: word_le_nat_alt)
qed

end
