(* ===== verification/Address.thy ===== *)
theory Address
  imports Codec Text StdMap
begin

text \<open>
  Socket addresses (\<open>acid/net/address.cpp\<close>). A \<open>sockaddr\<close> the system hands over is its
  bytes; the classes keep the structure with its fields in network order, as the code does.
  \<open>inet_pton\<close>, \<open>getaddrinfo\<close> and \<open>getifaddrs\<close> are the system's and parameters of the
  operations that call them.
\<close>

section \<open>Helpers\<close>

definition AF_UNSPEC :: u16 where "AF_UNSPEC = 0"
definition AF_UNIX :: u16 where "AF_UNIX = 1"
definition AF_INET :: u16 where "AF_INET = 2"
definition AF_INET6 :: u16 where "AF_INET6 = 10"

definition host_to_network :: "'a::len word \<Rightarrow> 'a word res" where
  "host_to_network t = endian_cast t"

definition network_to_host :: "'a::len word \<Rightarrow> 'a word res" where
  "network_to_host t = endian_cast t"

text \<open>\<open>(1 << (32 - bit)) - 1\<close> in \<open>int\<close>: the shift count must be below 32, and
  \<open>1 << 31\<close> is the smallest \<open>int\<close>, from which nothing can be taken.\<close>

definition create_mask :: "nat \<Rightarrow> u32 res" where
  "create_mask bit' =
     (if bit' = 0 \<or> bit' > 32 then Inl Undefined
      else if bit' = 1 then Inl Undefined
      else Inr (push_bit (32 - bit') 1 - 1))"

function count_bytes :: "'a::len word \<Rightarrow> nat" where
  "count_bytes value = (if value = 0 then 0 else Suc (count_bytes (value AND (value - 1))))"
  by auto

termination
proof (relation "measure unat")
  fix v :: "'a::len word"
  assume "v \<noteq> 0"
  then have "unat (v - 1) < unat v" by (simp add: unat_minus_one unat_gt_0)
  moreover have "unat (v AND (v - 1)) \<le> unat (v - 1)"
    using word_and_le1 [of v "v - 1"] by (simp add: word_le_nat_alt)
  ultimately show "(v AND (v - 1), v) \<in> measure unat" by simp
qed simp

declare count_bytes.simps [simp del]

section \<open>IPv4\<close>

record sockaddr_in =
  sin_family :: u16
  sin_port :: u16
  sin_addr :: u32
  sin_zero :: "u8 list"

definition ipv4_new :: sockaddr_in where
  "ipv4_new = \<lparr>sin_family = AF_INET, sin_port = 0, sin_addr = 0, sin_zero = replicate 8 0\<rparr>"

definition ipv4_of :: "u32 \<Rightarrow> u16 \<Rightarrow> sockaddr_in res" where
  "ipv4_of ip port =
     bindR (host_to_network ip) (\<lambda>ip. bindR (host_to_network port) (\<lambda>port.
       Inr (ipv4_new\<lparr>sin_addr := ip, sin_port := port\<rparr>)))"

text \<open>\<open>pton\<close> is \<open>inet_pton\<close>: the address it stores, \<open>None\<close> when it returns 0 or less. The
  test is on the smart pointer, which is never null, and not on that return value.\<close>

definition ipv4_create :: "(string \<Rightarrow> u32 option) \<Rightarrow> string \<Rightarrow> u16 \<Rightarrow> sockaddr_in option res" where
  "ipv4_create pton ip port =
     bindR (host_to_network port) (\<lambda>port.
       let result = ipv4_new\<lparr>sin_port := port\<rparr>;
           result = (case pton ip of None \<Rightarrow> result | Some a \<Rightarrow> result\<lparr>sin_addr := a\<rparr>)
       in Inr (Some result))"

definition ipv4_insert :: "sockaddr_in \<Rightarrow> string res" where
  "ipv4_insert a =
     bindR (network_to_host (sin_addr a)) (\<lambda>addr. bindR (network_to_host (sin_port a)) (\<lambda>port.
       Inr (show_nat (unat (drop_bit 24 addr AND 0xFF)) @ ''.'' @
            show_nat (unat (drop_bit 16 addr AND 0xFF)) @ ''.'' @
            show_nat (unat (drop_bit 8 addr AND 0xFF)) @ ''.'' @
            show_nat (unat (addr AND 0xFF)) @ '':'' @ show_nat (unat port))))"

definition broadcast_address :: "sockaddr_in \<Rightarrow> nat \<Rightarrow> sockaddr_in option res" where
  "broadcast_address a prefix_len =
     (if prefix_len > 32 then Inr None
      else bindR (create_mask prefix_len) (\<lambda>m. bindR (host_to_network m) (\<lambda>m.
        Inr (Some (a\<lparr>sin_addr := sin_addr a OR m\<rparr>)))))"

definition network_address :: "sockaddr_in \<Rightarrow> nat \<Rightarrow> sockaddr_in option res" where
  "network_address a prefix_len =
     (if prefix_len > 32 then Inr None
      else bindR (create_mask prefix_len) (\<lambda>m. bindR (host_to_network m) (\<lambda>m.
        Inr (Some (a\<lparr>sin_addr := sin_addr a AND m\<rparr>)))))"

definition subnet_mask :: "sockaddr_in \<Rightarrow> nat \<Rightarrow> sockaddr_in option res" where
  "subnet_mask a prefix_len =
     (if prefix_len > 32 then Inr None
      else bindR (create_mask prefix_len) (\<lambda>m. bindR (host_to_network (NOT m)) (\<lambda>m.
        Inr (Some (ipv4_new\<lparr>sin_addr := m\<rparr>)))))"

definition ipv4_get_port :: "sockaddr_in \<Rightarrow> u32 res" where
  "ipv4_get_port a = bindR (network_to_host (sin_port a)) (\<lambda>p. Inr (ucast p))"

definition ipv4_set_port :: "sockaddr_in \<Rightarrow> u16 \<Rightarrow> sockaddr_in res" where
  "ipv4_set_port a port = bindR (host_to_network port) (\<lambda>p. Inr (a\<lparr>sin_port := p\<rparr>))"

section \<open>IPv6\<close>

record sockaddr_in6 =
  sin6_family :: u16
  sin6_port :: u16
  sin6_flowinfo :: u32
  sin6_addr :: "u8 list"
  sin6_scope_id :: u32

definition ipv6_new :: sockaddr_in6 where
  "ipv6_new = \<lparr>sin6_family = AF_INET6, sin6_port = 0, sin6_flowinfo = 0,
     sin6_addr = replicate 16 0, sin6_scope_id = 0\<rparr>"

definition ipv6_of :: "u8 list \<Rightarrow> u16 \<Rightarrow> sockaddr_in6 res" where
  "ipv6_of ip port =
     bindR (host_to_network port) (\<lambda>port. Inr (ipv6_new\<lparr>sin6_port := port, sin6_addr := ip\<rparr>))"

definition ipv6_create :: "(string \<Rightarrow> u8 list option) \<Rightarrow> string \<Rightarrow> u16 \<Rightarrow> sockaddr_in6 option res" where
  "ipv6_create pton ip port =
     bindR (host_to_network port) (\<lambda>port.
       case pton ip of None \<Rightarrow> Inr None
       | Some a \<Rightarrow> Inr (Some (ipv6_new\<lparr>sin6_port := port, sin6_addr := a\<rparr>)))"

definition ipv6_get_port :: "sockaddr_in6 \<Rightarrow> u32 res" where
  "ipv6_get_port a = bindR (network_to_host (sin6_port a)) (\<lambda>p. Inr (ucast p))"

definition ipv6_set_port :: "sockaddr_in6 \<Rightarrow> u16 \<Rightarrow> sockaddr_in6 res" where
  "ipv6_set_port a port = bindR (host_to_network port) (\<lambda>p. Inr (a\<lparr>sin6_port := p\<rparr>))"

text \<open>The eight groups of the address; the loop prints group \<open>i\<close>, \<open>prev\<close> is the group
  before it (none for the first).\<close>

definition groups :: "sockaddr_in6 \<Rightarrow> u16 list" where
  "groups a = map (\<lambda>i. word_of_mem (take 2 (drop (2 * i) (sin6_addr a)))) [0..<8]"

fun ipv6_loop :: "u16 option \<Rightarrow> bool \<Rightarrow> u16 list \<Rightarrow> (string \<times> bool) res" where
  "ipv6_loop prev used [] = Inr ([], used)"
| "ipv6_loop prev used (g # gs) =
     (if g = 0 \<and> \<not> used then ipv6_loop (Some g) used gs
      else
        let gap = (prev = Some 0 \<and> \<not> used) in
        bindR (network_to_host g) (\<lambda>h.
        bindR (ipv6_loop (Some g) (used \<or> gap) gs) (\<lambda>(s, used').
          Inr ((if gap then '':'' else []) @ (if prev \<noteq> None then '':'' else []) @
               show_hex (unat h) @ s, used'))))"

definition ipv6_insert :: "sockaddr_in6 \<Rightarrow> string res" where
  "ipv6_insert a =
     bindR (ipv6_loop None False (groups a)) (\<lambda>(s, used).
     bindR (network_to_host (sin6_port a)) (\<lambda>port.
       Inr (''['' @ s @ (if \<not> used \<and> groups a ! 7 = 0 then ''::'' else []) @ '']:'' @
            show_nat (unat port))))"

text \<open>Declared to return a pointer, and empty.\<close>

definition ipv6_broadcast_address :: "sockaddr_in6 \<Rightarrow> nat \<Rightarrow> sockaddr_in6 option res" where
  "ipv6_broadcast_address a prefix_len = Inl Undefined"

definition ipv6_network_address :: "sockaddr_in6 \<Rightarrow> nat \<Rightarrow> sockaddr_in6 option res" where
  "ipv6_network_address a prefix_len = Inl Undefined"

definition ipv6_subnet_mask :: "sockaddr_in6 \<Rightarrow> nat \<Rightarrow> sockaddr_in6 option res" where
  "ipv6_subnet_mask a prefix_len = Inl Undefined"


section \<open>Unix-domain and unknown addresses\<close>

definition MAX_PATH_LEN :: nat where
  "MAX_PATH_LEN = 108 - 1"

record unix_address =
  sun_path :: "u8 list"
  un_len :: nat

definition unix_default :: unix_address where
  "unix_default = \<lparr>sun_path = replicate 108 0, un_len = 2 + MAX_PATH_LEN\<rparr>"

definition unix_of :: "u8 list \<Rightarrow> unix_address res" where
  "unix_of path =
     (let len = length path + 1;
          len = (if path \<noteq> [] \<and> hd path = 0 then len - 1 else len)
      in ensureR (len \<le> 108) Logic_error
           (Inr \<lparr>sun_path = splice_at (replicate 108 0) 0 (take len (path @ [0])), un_len = len + 2\<rparr>))"

definition set_addr_len :: "unix_address \<Rightarrow> nat \<Rightarrow> unix_address" where
  "set_addr_len a len = a\<lparr>un_len := len\<rparr>"

section \<open>Addresses\<close>

text \<open>An unknown address is the 16 bytes of a \<open>sockaddr\<close>.\<close>

datatype address =
    IPv4 sockaddr_in | IPv6 sockaddr_in6 | Unix unix_address | Unknown "u8 list"

definition unknown_of :: "u16 \<Rightarrow> u8 list" where
  "unknown_of family = mem_bytes family @ replicate 14 0"

definition sa_family :: "u8 list \<Rightarrow> u16" where
  "sa_family raw = word_of_mem (take 2 raw)"

definition to_sockaddr_in :: "u8 list \<Rightarrow> sockaddr_in" where
  "to_sockaddr_in raw =
     \<lparr>sin_family = word_of_mem (take 2 raw), sin_port = word_of_mem (take 2 (drop 2 raw)),
      sin_addr = word_of_mem (take 4 (drop 4 raw)), sin_zero = take 8 (drop 8 raw)\<rparr>"

definition to_sockaddr_in6 :: "u8 list \<Rightarrow> sockaddr_in6" where
  "to_sockaddr_in6 raw =
     \<lparr>sin6_family = word_of_mem (take 2 raw), sin6_port = word_of_mem (take 2 (drop 2 raw)),
      sin6_flowinfo = word_of_mem (take 4 (drop 4 raw)), sin6_addr = take 16 (drop 8 raw),
      sin6_scope_id = word_of_mem (take 4 (drop 24 raw))\<rparr>"

text \<open>\<open>Address::create\<close>: the null pointer gives the null pointer.\<close>

definition create_address :: "u8 list option \<Rightarrow> address option" where
  "create_address addr =
     (case addr of
        None \<Rightarrow> None
      | Some raw \<Rightarrow>
          Some (if sa_family raw = AF_INET then IPv4 (to_sockaddr_in raw)
                else if sa_family raw = AF_INET6 then IPv6 (to_sockaddr_in6 raw)
                else Unknown (take 16 raw)))"

text \<open>\<open>get_addr\<close> and \<open>get_addr_len\<close>: the bytes behind the pointer and how many count.\<close>

definition addr_memory :: "address \<Rightarrow> u8 list" where
  "addr_memory a =
     (case a of
        IPv4 s \<Rightarrow> mem_bytes (sin_family s) @ mem_bytes (sin_port s) @ mem_bytes (sin_addr s) @ sin_zero s
      | IPv6 s \<Rightarrow> mem_bytes (sin6_family s) @ mem_bytes (sin6_port s) @ mem_bytes (sin6_flowinfo s) @
          sin6_addr s @ mem_bytes (sin6_scope_id s)
      | Unix s \<Rightarrow> mem_bytes AF_UNIX @ sun_path s
      | Unknown raw \<Rightarrow> raw)"

definition get_addr_len :: "address \<Rightarrow> nat" where
  "get_addr_len a = (case a of IPv4 _ \<Rightarrow> 16 | IPv6 _ \<Rightarrow> 28 | Unix s \<Rightarrow> un_len s | Unknown _ \<Rightarrow> 16)"

definition get_family :: "address \<Rightarrow> u16" where
  "get_family a = sa_family (addr_memory a)"

definition address_to_string :: "address \<Rightarrow> string res" where
  "address_to_string a =
     (case a of
        IPv4 s \<Rightarrow> ipv4_insert s
      | IPv6 s \<Rightarrow> ipv6_insert s
      | Unix s \<Rightarrow> Inl Undefined
      | Unknown raw \<Rightarrow>
          Inr (''[ UnknownAddress family='' @ show_nat (unat (sa_family raw)) @ '' ]''))"

text \<open>\<open>memcmp\<close>: the sign of the first difference.\<close>

fun memcmp :: "u8 list \<Rightarrow> u8 list \<Rightarrow> int" where
  "memcmp (x # xs) (y # ys) = (if x < y then -1 else if y < x then 1 else memcmp xs ys)"
| "memcmp _ _ = 0"

definition address_less :: "address \<Rightarrow> address \<Rightarrow> bool" where
  "address_less a b =
     (let min_len = min (get_addr_len a) (get_addr_len b);
          result = memcmp (take min_len (addr_memory a)) (take min_len (addr_memory b))
      in if result < 0 then True
         else if result > 0 then False
         else if get_addr_len a < get_addr_len b then True
         else False)"

definition address_eq :: "address \<Rightarrow> address \<Rightarrow> bool" where
  "address_eq a b \<longleftrightarrow>
     get_addr_len a = get_addr_len b \<and>
     memcmp (take (get_addr_len a) (addr_memory a)) (take (get_addr_len a) (addr_memory b)) = 0"

section \<open>Resolving names\<close>

text \<open>The index of the first occurrence, as \<open>memchr\<close> gives it as a pointer.\<close>

definition memchr :: "char \<Rightarrow> string \<Rightarrow> nat option" where
  "memchr c s = (let n = length (takeWhile (\<lambda>d. d \<noteq> c) s) in if n < length s then Some n else None)"

text \<open>The node and the service that \<open>look_up\<close> passes on, as C strings.\<close>

definition split_host :: "string \<Rightarrow> string \<times> string option" where
  "split_host host =
     (let (node, service) =
            (if host \<noteq> [] \<and> hd host = CHR ''['' then
               case memchr (CHR '']'') (tl host) of
                 Some n \<Rightarrow>
                   (take n (tl host),
                    if drop (n + 2) host \<noteq> [] \<and> host ! (n + 2) = CHR '':''
                    then Some (drop (n + 3) host) else None)
               | None \<Rightarrow> ([], None)
             else ([], None));
          (node, service) =
            (if node = [] then
               case memchr (CHR '':'') host of
                 Some n \<Rightarrow>
                   (if memchr (CHR '':'') (drop (n + 1) host) = None
                    then (take n host, Some (drop (n + 1) host))
                    else (node, Some (drop n host)))
               | None \<Rightarrow> (node, None)
             else (node, service));
          node = (if node = [] then host else node)
      in (c_str node, map_option c_str service))"

text \<open>\<open>resolve\<close> is \<open>getaddrinfo\<close>: the addresses of the result list, \<open>None\<close> on an error.
  The result vector is extended.\<close>

type_synonym resolver = "string \<Rightarrow> string option \<Rightarrow> u16 \<Rightarrow> int \<Rightarrow> int \<Rightarrow> u8 list option list option"

definition look_up ::
  "resolver \<Rightarrow> address option list \<Rightarrow> string \<Rightarrow> u16 \<Rightarrow> int \<Rightarrow> int \<Rightarrow> bool \<times> address option list" where
  "look_up resolve result host family type' protocol =
     (let (node, service) = split_host host in
      case resolve node service family type' protocol of
        None \<Rightarrow> (False, result)
      | Some infos \<Rightarrow> let result = result @ map create_address infos in (result \<noteq> [], result))"

definition look_up_any :: "resolver \<Rightarrow> string \<Rightarrow> u16 \<Rightarrow> int \<Rightarrow> int \<Rightarrow> address option" where
  "look_up_any resolve host family type' protocol =
     (case look_up resolve [] host family type' protocol of
        (ok, result) \<Rightarrow> if ok then hd result else None)"

definition is_ip :: "address option \<Rightarrow> bool" where
  "is_ip a = (case a of Some (IPv4 _) \<Rightarrow> True | Some (IPv6 _) \<Rightarrow> True | _ \<Rightarrow> False)"

definition look_up_any_ipaddress :: "resolver \<Rightarrow> string \<Rightarrow> u16 \<Rightarrow> int \<Rightarrow> int \<Rightarrow> address option" where
  "look_up_any_ipaddress resolve host family type' protocol =
     (case look_up resolve [] host family type' protocol of
        (ok, result) \<Rightarrow>
          if ok then (case find is_ip result of Some a \<Rightarrow> a | None \<Rightarrow> None) else None)"

text \<open>\<open>IPAddress::create\<close>: the first address of the list; the port is set when it is an IP
  address.\<close>

definition set_port :: "address \<Rightarrow> u16 \<Rightarrow> address option res" where
  "set_port a port =
     (case a of
        IPv4 s \<Rightarrow> bindR (ipv4_set_port s port) (\<lambda>s. Inr (Some (IPv4 s)))
      | IPv6 s \<Rightarrow> bindR (ipv6_set_port s port) (\<lambda>s. Inr (Some (IPv6 s)))
      | _ \<Rightarrow> Inr None)"

definition ip_create :: "resolver \<Rightarrow> string \<Rightarrow> u16 \<Rightarrow> address option res" where
  "ip_create resolve host_name port =
     (case resolve (c_str host_name) None AF_UNSPEC 0 0 of
        None \<Rightarrow> Inr None
      | Some [] \<Rightarrow> Inl Null_deref
      | Some (raw # _) \<Rightarrow> (case create_address raw of None \<Rightarrow> Inr None | Some a \<Rightarrow> set_port a port))"

section \<open>Interfaces\<close>

record ifaddr =
  ifa_name :: string
  ifa_addr :: "u8 list option"
  ifa_netmask :: "u8 list option"

text \<open>One round of the loop over the interfaces: the entry added, if any. A pointer of the
  list may be null. \<open>prefix_len\<close> of an IPv6 address is counted in \<open>ifa_addr\<close>.\<close>

definition interface_entry :: "u16 \<Rightarrow> ifaddr \<Rightarrow> (string \<times> address \<times> u32) option res" where
  "interface_entry family i =
     (case ifa_addr i of
        None \<Rightarrow> Inl Null_deref
      | Some raw \<Rightarrow>
          if family \<noteq> AF_UNSPEC \<and> family \<noteq> sa_family raw then Inr None
          else if sa_family raw = AF_INET then
            (case ifa_netmask i of
               None \<Rightarrow> Inl Null_deref
             | Some net_mask \<Rightarrow>
                 Inr (Some (ifa_name i, IPv4 (to_sockaddr_in raw),
                            of_nat (count_bytes (sin_addr (to_sockaddr_in net_mask))))))
          else if sa_family raw = AF_INET6 then
            Inr (Some (ifa_name i, IPv6 (to_sockaddr_in6 raw),
                       of_nat (sum_list (map count_bytes (sin6_addr (to_sockaddr_in6 raw))))))
          else Inr None)"

definition entry_less :: "string \<times> 'a \<Rightarrow> string \<times> 'a \<Rightarrow> bool" where
  "entry_less a b \<longleftrightarrow> fst a < fst b"

fun interface_loop ::
  "u16 \<Rightarrow> ifaddr list \<Rightarrow> (string \<times> address \<times> u32) list \<Rightarrow> (string \<times> address \<times> u32) list res" where
  "interface_loop family [] result = Inr result"
| "interface_loop family (i # is) result =
     bindR (interface_entry family i) (\<lambda>e.
       interface_loop family is
         (case e of None \<Rightarrow> result | Some e \<Rightarrow> multi_insert entry_less e result))"

definition get_interface_addresses ::
  "ifaddr list option \<Rightarrow> (string \<times> address \<times> u32) list \<Rightarrow> u16 \<Rightarrow>
   (bool \<times> (string \<times> address \<times> u32) list) res" where
  "get_interface_addresses ifs result family =
     (case ifs of
        None \<Rightarrow> Inr (False, result)
      | Some is \<Rightarrow> bindR (interface_loop family is result) (\<lambda>r. Inr (r \<noteq> [], r)))"

definition get_interface_address ::
  "ifaddr list option \<Rightarrow> (address \<times> u32) list \<Rightarrow> string \<Rightarrow> u16 \<Rightarrow> (bool \<times> (address \<times> u32) list) res" where
  "get_interface_address ifs result interface family =
     (if interface = [] \<or> interface = ''*'' then
        let result = (if family = AF_INET \<or> family = AF_UNSPEC then result @ [(IPv4 ipv4_new, 0)] else result);
            result = (if family = AF_INET6 \<or> family = AF_UNSPEC then result @ [(IPv6 ipv6_new, 0)] else result)
        in Inr (True, result)
      else bindR (get_interface_addresses ifs [] family) (\<lambda>(ok, results).
        if \<not> ok then Inr (False, result)
        else let result = result @ map snd (filter (\<lambda>e. fst e = interface) results)
          in Inr (result \<noteq> [], result)))"


section \<open>Byte order and bitwise operations\<close>

definition swap :: "'a::len word \<Rightarrow> 'a word" where
  "swap v = word_of_mem (rev (mem_bytes v))"

lemma to_network:
  "host_to_network (v :: u32) = Inr (swap v)" "network_to_host (v :: u32) = Inr (swap v)"
  "host_to_network (p :: u16) = Inr (swap p)" "network_to_host (p :: u16) = Inr (swap p)"
  by (simp_all add: host_to_network_def network_to_host_def endian_cast_def native_def
      byte_swap_Inr swap_def)

lemma swap_swap [simp]: "swap (swap (v :: u32)) = v" "swap (swap (p :: u16)) = p"
  by (simp_all add: swap_def mem_bytes_swap word_of_mem_bytes)

lemma nth_le_bytes: "i < n \<Longrightarrow> le_bytes n x ! i = of_nat (drop_bit (8 * i) x)"
proof (induction n arbitrary: x i)
  case (Suc n)
  then show ?case
    by (cases i) (simp_all add: drop_bit_eq_div power_add div_mult2_eq [symmetric])
qed simp

lemma mem_bytes_or: "mem_bytes (a OR b) = map2 (OR) (mem_bytes a) (mem_bytes (b :: 'a::len word))"
  by (rule nth_equalityI) (simp_all add: mem_bytes_def nth_le_bytes unsigned_or_eq of_nat_or_eq)

lemma mem_bytes_and: "mem_bytes (a AND b) = map2 (AND) (mem_bytes a) (mem_bytes (b :: 'a::len word))"
  by (rule nth_equalityI) (simp_all add: mem_bytes_def nth_le_bytes unsigned_and_eq of_nat_and_eq)

lemma mem_bytes_inj: "8 dvd LENGTH('a) \<Longrightarrow> mem_bytes (a :: 'a::len word) = mem_bytes b \<Longrightarrow> a = b"
  by (metis word_of_mem_bytes)

lemma rev_map2: "length xs = length ys \<Longrightarrow> rev (map2 f xs ys) = map2 f (rev xs) (rev ys)"
  by (simp add: rev_map zip_rev)

lemma swap_or: "swap (a OR b) = swap a OR swap (b :: u32)"
  by (rule mem_bytes_inj) (simp_all add: swap_def mem_bytes_or mem_bytes_of_mem rev_map2)

lemma swap_and: "swap (a AND b) = swap a AND swap (b :: u32)"
  by (rule mem_bytes_inj) (simp_all add: swap_def mem_bytes_and mem_bytes_of_mem rev_map2)

lemma create_mask_eq: "2 \<le> n \<Longrightarrow> n \<le> 32 \<Longrightarrow> create_mask n = Inr (mask (32 - n))"
  by (simp add: create_mask_def mask_eq_exp_minus_1 push_bit_eq_mult)

section \<open>The order of addresses\<close>

text \<open>The bytes that count; comparing addresses is comparing them lexicographically.\<close>

definition addr_bytes :: "address \<Rightarrow> u8 list" where
  "addr_bytes a = take (get_addr_len a) (addr_memory a)"

definition address_ok :: "address \<Rightarrow> bool" where
  "address_ok a \<longleftrightarrow> get_addr_len a \<le> length (addr_memory a)"

lemma nil_less: "[] < (xs :: u8 list) \<longleftrightarrow> xs \<noteq> []"
  by (cases xs) simp_all

lemma memcmp_lex:
  fixes xs ys :: "u8 list"
  defines "m \<equiv> min (length xs) (length ys)"
  shows "xs < ys \<longleftrightarrow> memcmp (take m xs) (take m ys) < 0 \<or>
      memcmp (take m xs) (take m ys) = 0 \<and> length xs < length ys"
    and "xs = ys \<longleftrightarrow> memcmp (take m xs) (take m ys) = 0 \<and> length xs = length ys"
  unfolding m_def by (induction xs ys rule: memcmp.induct) (auto simp: nil_less)

lemma length_addr_bytes: "address_ok a \<Longrightarrow> length (addr_bytes a) = get_addr_len a"
  by (simp add: addr_bytes_def address_ok_def)

lemma address_less_lex:
  "address_ok a \<Longrightarrow> address_ok b \<Longrightarrow> address_less a b \<longleftrightarrow> addr_bytes a < addr_bytes b"
  using memcmp_lex(1) [of "addr_bytes a" "addr_bytes b"] length_addr_bytes [of a] length_addr_bytes [of b]
  by (auto simp: address_less_def addr_bytes_def Let_def)

lemma address_eq_bytes:
  "address_ok a \<Longrightarrow> address_ok b \<Longrightarrow> address_eq a b \<longleftrightarrow> addr_bytes a = addr_bytes b"
  using memcmp_lex(2) [of "addr_bytes a" "addr_bytes b"] length_addr_bytes [of a] length_addr_bytes [of b]
  by (auto simp: address_eq_def addr_bytes_def)

text \<open>The address classes keep the bytes they were made from.\<close>

lemma mem_take: "8 dvd LENGTH('a) \<Longrightarrow> length bs = LENGTH('a) div 8 \<Longrightarrow>
    mem_bytes (word_of_mem bs :: 'a::len word) = bs"
  by (rule mem_bytes_of_mem)

lemma take_take_drop: "n + m \<le> length xs \<Longrightarrow> take n xs @ take m (drop n xs) = take (n + m) xs"
  by (simp add: take_add)

lemma create_address_bytes:
  assumes "28 \<le> length raw"
  shows "\<exists>a. create_address (Some raw) = Some a \<and> address_ok a \<and>
    addr_bytes a = take (get_addr_len a) raw \<and> get_family a = sa_family raw"
proof -
  have t: "take 2 raw @ take 2 (drop 2 raw) @ take 4 (drop 4 raw) @ take 8 (drop 8 raw) = take 16 raw"
    "take 2 raw @ take 2 (drop 2 raw) @ take 4 (drop 4 raw) @ take 16 (drop 8 raw) @
       take 4 (drop 24 raw) = take 28 raw"
    by (simp_all add: take_add [symmetric] flip: append_assoc)
  have 4: "addr_memory (IPv4 (to_sockaddr_in raw)) = take 16 raw"
    using assms t(1) by (simp add: addr_memory_def to_sockaddr_in_def mem_take)
  have 6: "addr_memory (IPv6 (to_sockaddr_in6 raw)) = take 28 raw"
    using assms t(2) by (simp add: addr_memory_def to_sockaddr_in6_def mem_take)
  define a where "a = (if sa_family raw = AF_INET then IPv4 (to_sockaddr_in raw)
    else if sa_family raw = AF_INET6 then IPv6 (to_sockaddr_in6 raw) else Unknown (take 16 raw))"
  have "addr_memory a = take (get_addr_len a) raw" "get_addr_len a \<le> length raw" "2 \<le> get_addr_len a"
    using assms 4 6 by (auto simp: a_def get_addr_len_def addr_memory_def)
  moreover have "create_address (Some raw) = Some a" by (simp add: create_address_def a_def)
  ultimately show ?thesis
    by (auto simp: address_ok_def addr_bytes_def get_family_def sa_family_def)
qed

section \<open>Splitting host names\<close>

lemma memchr_append: "c \<notin> set xs \<Longrightarrow> memchr c (xs @ c # ys) = Some (length xs)"
proof -
  assume "c \<notin> set xs"
  then have "takeWhile (\<lambda>d. d \<noteq> c) (xs @ c # ys) = xs" by (induction xs) auto
  then show ?thesis by (simp add: memchr_def)
qed

lemma memchr_none: "c \<notin> set xs \<Longrightarrow> memchr c xs = None"
proof -
  assume "c \<notin> set xs"
  then have "takeWhile (\<lambda>d. d \<noteq> c) xs = xs" by (induction xs) auto
  then show ?thesis unfolding memchr_def Let_def by (simp only:) simp
qed

lemma c_str_id: "CHR 0x00 \<notin> set s \<Longrightarrow> c_str s = s"
  unfolding c_str_def by (rule takeWhile_eq_all_conv [THEN iffD2]) auto

lemma split_host_port:
  assumes "h \<noteq> []" "hd h \<noteq> CHR ''[''" "CHR '':'' \<notin> set h" "CHR '':'' \<notin> set p"
    and "CHR 0x00 \<notin> set h \<union> set p"
  shows "split_host (h @ '':'' @ p) = (h, Some p)"
  using assms memchr_append [OF assms(3), of p] memchr_none [OF assms(4)]
  by (simp add: split_host_def c_str_id)

lemma split_bracketed:
  assumes "h \<noteq> []" "CHR '']'' \<notin> set h" "CHR 0x00 \<notin> set h \<union> set p"
  shows "split_host (''['' @ h @ '']:'' @ p) = (h, Some p)"
  using assms memchr_append [OF assms(2), of "CHR '':'' # p"]
  by (simp add: split_host_def c_str_id nth_append numeral_3_eq_3)

lemma split_two_colons:
  assumes "hd (h @ '':'') \<noteq> CHR ''[''" "CHR '':'' \<notin> set h" "CHR '':'' \<in> set p"
    and "CHR 0x00 \<notin> set h \<union> set p"
  shows "split_host (h @ '':'' @ p) = (h @ '':'' @ p, Some ('':'' @ p))"
proof -
  have "memchr (CHR '':'') p \<noteq> None"
    using split_list_first [OF assms(3)] memchr_append by fastforce
  then show ?thesis
    using assms memchr_append [OF assms(2), of p] by (cases h) (auto simp: split_host_def c_str_id)
qed

end
