(* ===== verification/Registry.thy ===== *)
theory Registry
  imports Rpc Timer Address
begin

text \<open>
  The service registry (\<open>acid/rpc/rpc_service_registry.cpp\<close>): providers register services
  under their address, clients discover and subscribe. The state is \<open>m_services\<close>, a
  multimap in the order of its keys whose nodes carry an identity, \<open>m_iters\<close>, the nodes of
  each address, and \<open>m_subscribes\<close>. A session is a number, \<open>live\<close> says whether its weak
  pointer still leads to a connected session, and what is sent to a session is an output.
  Each handler runs under the registry's mutex and is one operation.
\<close>

section \<open>State\<close>

definition RPC_SERVICE_SUBSCRIBE :: bytes where
  "RPC_SERVICE_SUBSCRIBE = to_bytes ''[[rpc service subscribe]]''"

text \<open>An entry of the multimap: service name, address and node.\<close>

type_synonym service = "bytes \<times> bytes \<times> nat"

record registry =
  rg_services :: "service list"
  rg_iters :: "bytes \<Rightarrow> nat list option"
  rg_subscribes :: "(bytes \<times> nat) list"
  rg_next :: nat
  rg_alive_time :: u64
  rg_stop_clean :: bool

definition registry_new :: "u64 \<Rightarrow> registry" where
  "registry_new alive_time =
     \<lparr>rg_services = [], rg_iters = (\<lambda>_. None), rg_subscribes = [], rg_next = 0,
      rg_alive_time = alive_time, rg_stop_clean = False\<rparr>"

definition service_less :: "service \<Rightarrow> service \<Rightarrow> bool" where
  "service_less a b \<longleftrightarrow> fst a < fst b"

type_synonym sent = "(nat \<times> protocol) list"

section \<open>Handlers\<close>

definition publish :: "(nat \<Rightarrow> bool) \<Rightarrow> registry \<Rightarrow> bytes \<Rightarrow> val \<Rightarrow> sent res" where
  "publish live rg key data =
     (if rg_subscribes rg = [] then Inr []
      else bindR (pack [Str key, data]) (\<lambda>content.
        Inr (map (\<lambda>e. (snd e, create RPC_PUBLISH_REQUEST content 0))
               (filter (\<lambda>e. fst e = key \<and> live (snd e)) (rg_subscribes rg)))))"

text \<open>The body of the cleaning timer: whether it signals the end, and the state.\<close>

definition clean_subscribes :: "(nat \<Rightarrow> bool) \<Rightarrow> registry \<Rightarrow> bool \<times> registry" where
  "clean_subscribes live rg =
     (if \<not> rg_stop_clean rg
      then (False, rg\<lparr>rg_subscribes := filter (\<lambda>e. live (snd e)) (rg_subscribes rg)\<rparr>)
      else (True, rg))"

definition stop_clean :: "registry \<Rightarrow> registry" where
  "stop_clean rg = rg\<lparr>rg_stop_clean := True\<rparr>"

definition handle_heartbeat_packet :: "protocol \<Rightarrow> protocol" where
  "handle_heartbeat_packet p = heartbeat"

text \<open>\<open>remote\<close> is the remote address of the socket; the cast of another class than
  \<open>IPv4Address\<close> is null. The port is a \<open>uint32_t\<close> on the wire and cut to 16 bits.\<close>

definition handle_provider :: "protocol \<Rightarrow> address option \<Rightarrow> address res" where
  "handle_provider p remote =
     bindR (serializer_of (m_content p)) (\<lambda>ba.
     bindR (read_var_uint32 ba) (\<lambda>(port, ba).
       case remote of
         Some (IPv4 a) \<Rightarrow> bindR (ipv4_set_port a (ucast port)) (\<lambda>a. Inr (IPv4 a))
       | _ \<Rightarrow> Inl Null_deref))"

definition service_data :: "bool \<Rightarrow> bytes \<Rightarrow> val" where
  "service_data on addr = Tuple [Bool on, Str addr]"

definition handle_register_service ::
  "(nat \<Rightarrow> bool) \<Rightarrow> registry \<Rightarrow> protocol \<Rightarrow> address option \<Rightarrow> (protocol \<times> sent \<times> registry) res" where
  "handle_register_service live rg p provider =
     (case provider of
        None \<Rightarrow> Inl Null_deref
      | Some a \<Rightarrow>
          bindR (address_to_string a) (\<lambda>s.
            let service_address = to_bytes s;
                service_name = m_content p;
                it = rg_next rg;
                rg = rg\<lparr>rg_services := multi_insert service_less (service_name, service_address, it) (rg_services rg),
                        rg_next := it + 1\<rparr>;
                rg = rg\<lparr>rg_iters := (rg_iters rg)(service_address \<mapsto>
                        (case rg_iters rg service_address of None \<Rightarrow> [] | Some its \<Rightarrow> its) @ [it])\<rparr>;
                res = (result_success (Str []))\<lparr>r_value := Str service_name\<rparr>
            in bindR (pack_result res) (\<lambda>content.
               bindR (publish live rg (RPC_SERVICE_SUBSCRIBE @ service_name) (service_data True service_address)) (\<lambda>out.
                 Inr (create RPC_SERVICE_REGISTER_RESPONSE content 0, out, rg)))))"

text \<open>The loop over the nodes of the address. The key of the message is made of the
  address, \<open>it->first\<close>, as in the code. It is one step here, as the scope of \<open>m_mutex\<close> in
  \<open>handle_unregister_service\<close> means it to be; but each \<open>publish\<close> locks and unlocks \<open>m_mutex\<close>
  again and so frees it (\<open>mutex_locked_again\<close> in the root theory), so that behind the first
  publication another fiber can come between two rounds. What is proved of the loop is about
  runs in which none does.\<close>

fun unregister_loop ::
  "(nat \<Rightarrow> bool) \<Rightarrow> bytes \<Rightarrow> nat list \<Rightarrow> registry \<Rightarrow> (sent \<times> registry) res" where
  "unregister_loop live addr [] rg = Inr ([], rg)"
| "unregister_loop live addr (i # is) rg =
     (let rg = rg\<lparr>rg_services := filter (\<lambda>e. snd (snd e) \<noteq> i) (rg_services rg)\<rparr> in
      bindR (publish live rg (RPC_SERVICE_SUBSCRIBE @ addr) (service_data False addr)) (\<lambda>out.
      bindR (unregister_loop live addr is rg) (\<lambda>(out', rg). Inr (out @ out', rg))))"

definition handle_unregister_service ::
  "(nat \<Rightarrow> bool) \<Rightarrow> registry \<Rightarrow> address \<Rightarrow> (sent \<times> registry) res" where
  "handle_unregister_service live rg a =
     bindR (address_to_string a) (\<lambda>s.
       let addr = to_bytes s in
       case rg_iters rg addr of
         None \<Rightarrow> Inr ([], rg)
       | Some its \<Rightarrow>
           bindR (unregister_loop live addr its rg) (\<lambda>(out, rg).
             Inr (out, rg\<lparr>rg_iters := (rg_iters rg)(addr := None)\<rparr>)))"

definition no_service_text :: bytes where
  "no_service_text = to_bytes ''discover service: ''"

definition discover_results :: "registry \<Rightarrow> bytes \<Rightarrow> rpc_result list" where
  "discover_results rg service_name =
     (let range = filter (\<lambda>e. fst e = service_name) (rg_services rg) in
      if range = [] then
        [(result_new (Str []))\<lparr>r_code := state_code RPC_NO_METHOD,
                              r_message := no_service_text @ service_name\<rparr>]
      else map (\<lambda>e. (result_new (Str []))\<lparr>r_code := state_code RPC_SUCCESS,
                              r_value := Str (fst (snd e))\<rparr>) range)"

fun put_results :: "byte_array \<Rightarrow> rpc_result list \<Rightarrow> byte_array res" where
  "put_results ba [] = Inr ba"
| "put_results ba (r # rs) = bindR (put_result ba r) (\<lambda>ba. put_results ba rs)"

text \<open>The counter of the results is a \<open>uint32_t\<close>.\<close>

definition handle_discover_service :: "registry \<Rightarrow> protocol \<Rightarrow> protocol res" where
  "handle_discover_service rg p =
     (let service_name = m_content p;
          results = discover_results rg service_name;
          cnt = of_nat (length results) :: u32
      in bindR (bindR (put_all byte_array_default [Str service_name, U32 cnt])
                 (\<lambda>ba. put_results ba (take (unat cnt) results))) (\<lambda>ba.
         bindR (set_position ba 0) (\<lambda>ba.
         bindR (ser_string ba) (\<lambda>content.
           Inr (create RPC_SERVICE_DISCOVER_RESPONSE content 0)))))"

text \<open>\<open>emplace\<close> of an unordered map keeps a mapping that is there. \<open>v0\<close> is the
  indeterminate value of the empty result.\<close>

definition handle_subscribe :: "u8 \<Rightarrow> registry \<Rightarrow> protocol \<Rightarrow> nat \<Rightarrow> (protocol \<times> registry) res" where
  "handle_subscribe v0 rg p client =
     bindR (serializer_of (m_content p)) (\<lambda>ba.
     bindR (read_string_vint ba) (\<lambda>(key, ba).
       let rg = rg\<lparr>rg_subscribes := umap_insert (key, client) (rg_subscribes rg)\<rparr>;
           ba = clear ba
       in bindR (put_result ba (result_success (I8 v0))) (\<lambda>ba.
          bindR (set_position ba 0) (\<lambda>ba.
          bindR (ser_string ba) (\<lambda>content.
            Inr (create RPC_SUBSCRIBE_RESPONSE content 0, rg))))))"

section \<open>Connections\<close>

text \<open>
  \<open>update\<close>: the timer is passed by value, so the pointer of the caller does not change.
  \<open>close_cb\<close> is the callback that closes the connection, \<open>a\<close> a fresh address.
\<close>

definition update_heart ::
  "bool \<Rightarrow> u64 \<Rightarrow> 'cb \<Rightarrow> u64 \<Rightarrow> nat \<Rightarrow> nat option \<Rightarrow> 'cb timer_manager \<Rightarrow> 'cb timer_manager" where
  "update_heart recurring alive_time close_cb now a heart_timer m =
     (case heart_timer of
        None \<Rightarrow> snd (add_timer m now a alive_time (Some (Plain close_cb)) recurring)
      | Some t \<Rightarrow> snd (snd (reset m now t alive_time True)))"

record client_conn =
  cn_session :: nat
  cn_remote :: "address option"
  cn_heart_timer :: "nat option"
  cn_provider_address :: "address option"

definition client_conn_new :: "nat \<Rightarrow> address option \<Rightarrow> client_conn" where
  "client_conn_new session remote =
     \<lparr>cn_session = session, cn_remote = remote, cn_heart_timer = None, cn_provider_address = None\<rparr>"

text \<open>The switch of \<open>handle_client\<close>: the response to send, if any, what was published, the
  registry and the connection.\<close>

definition dispatch_request ::
  "(nat \<Rightarrow> bool) \<Rightarrow> u8 \<Rightarrow> registry \<Rightarrow> client_conn \<Rightarrow> protocol \<Rightarrow>
   (protocol option \<times> sent \<times> registry \<times> client_conn) res" where
  "dispatch_request live v0 rg cn request =
     (let t = m_type request in
      if t = type_code HEARTBEAT_PACKET then
        Inr (Some (handle_heartbeat_packet request), [], rg, cn)
      else if t = type_code RPC_PROVIDER then
        bindR (handle_provider request (cn_remote cn)) (\<lambda>a.
          Inr (None, [], rg, cn\<lparr>cn_provider_address := Some a\<rparr>))
      else if t = type_code RPC_SERVICE_REGISTER then
        bindR (handle_register_service live rg request (cn_provider_address cn)) (\<lambda>(r, out, rg).
          Inr (Some r, out, rg, cn))
      else if t = type_code RPC_SERVICE_DISCOVER then
        bindR (handle_discover_service rg request) (\<lambda>r. Inr (Some r, [], rg, cn))
      else if t = type_code RPC_SUBSCRIBE_REQUEST then
        bindR (handle_subscribe v0 rg request (cn_session cn)) (\<lambda>(r, rg). Inr (Some r, [], rg, cn))
      else Inr (None, [], rg, cn))"

text \<open>One round of the loop of \<open>handle_client\<close>: \<open>None\<close> is the null pointer that
  \<open>recv_protocol\<close> returns when the connection is lost. The loop goes on after the
  services of the provider have been removed.\<close>

definition client_round ::
  "(nat \<Rightarrow> bool) \<Rightarrow> u8 \<Rightarrow> 'cb \<Rightarrow> u64 \<Rightarrow> nat \<Rightarrow> protocol option \<Rightarrow>
   registry \<times> 'cb timer_manager \<times> client_conn \<Rightarrow>
   (protocol option \<times> sent \<times> registry \<times> 'cb timer_manager \<times> client_conn) res" where
  "client_round live v0 close_cb now a request = (\<lambda>(rg, m, cn).
     bindR (case (request, cn_provider_address cn) of
              (None, Some p) \<Rightarrow> handle_unregister_service live rg p
            | _ \<Rightarrow> Inr ([], rg)) (\<lambda>(out, rg).
       let m = update_heart False (rg_alive_time rg) close_cb now a (cn_heart_timer cn) m in
       case request of
         None \<Rightarrow> Inl Null_deref
       | Some request \<Rightarrow>
           bindR (dispatch_request live v0 rg cn request) (\<lambda>(r, out', rg, cn).
             Inr (r, out @ out', rg, m, cn))))"

text \<open>The connection from its first message on: times, fresh addresses and messages.\<close>

fun client_rounds ::
  "(nat \<Rightarrow> bool) \<Rightarrow> u8 \<Rightarrow> 'cb \<Rightarrow> (u64 \<times> nat \<times> protocol option) list \<Rightarrow>
   registry \<times> 'cb timer_manager \<times> client_conn \<Rightarrow>
   (protocol option list \<times> sent \<times> registry \<times> 'cb timer_manager \<times> client_conn) res" where
  "client_rounds live v0 cb [] (rg, m, cn) = Inr ([], [], rg, m, cn)"
| "client_rounds live v0 cb ((now, a, request) # es) s =
     bindR (client_round live v0 cb now a request s) (\<lambda>(r, out, s).
     bindR (client_rounds live v0 cb es s) (\<lambda>(rs, out', s). Inr (r # rs, out @ out', s)))"

definition registry_handle_client ::
  "(nat \<Rightarrow> bool) \<Rightarrow> u8 \<Rightarrow> 'cb \<Rightarrow> u64 \<Rightarrow> nat \<Rightarrow> (u64 \<times> nat \<times> protocol option) list \<Rightarrow>
   nat \<Rightarrow> address option \<Rightarrow> registry \<Rightarrow> 'cb timer_manager \<Rightarrow>
   (protocol option list \<times> sent \<times> registry \<times> 'cb timer_manager \<times> client_conn) res" where
  "registry_handle_client live v0 cb now a es session remote rg m =
     (let cn = client_conn_new session remote in
      client_rounds live v0 cb es
        (rg, update_heart False (rg_alive_time rg) cb now a (cn_heart_timer cn) m, cn))"

end
