(* ===== verification/RpcServer.thy ===== *)
theory RpcServer
  imports Registry
begin

text \<open>
  The RPC server (\<open>acid/rpc/rpc_server.cpp\<close>): registered methods, the proxy that decodes
  arguments and encodes the result, subscriptions and publishing, registration at the
  service registry. A method is its argument types, its return type and a function on
  values and an outside state; its exceptions are not modelled. Sessions are numbers as in
  the registry.
\<close>

section \<open>State\<close>

record 's rpc_method =
  md_args :: "ty list"
  md_return :: "ty option"
  md_fun :: "val list \<Rightarrow> 's \<Rightarrow> val \<times> 's"

text \<open>\<open>m_handlers\<close> is an ordered map, the unordered multimap of subscriptions the list of
  its entries.\<close>

record 's rpc_server =
  sv_handlers :: "(bytes \<times> 's rpc_method) list"
  sv_registry :: bool
  sv_port :: u32
  sv_alive_time :: u64
  sv_subscribes :: "(bytes \<times> nat) list"
  sv_stop_clean :: bool

definition rpc_server_new :: "u64 \<Rightarrow> u32 \<Rightarrow> 's rpc_server" where
  "rpc_server_new alive_time port =
     \<lparr>sv_handlers = [], sv_registry = False, sv_port = port, sv_alive_time = alive_time,
      sv_subscribes = [], sv_stop_clean = False\<rparr>"

definition register_method :: "'s rpc_server \<Rightarrow> bytes \<Rightarrow> 's rpc_method \<Rightarrow> 's rpc_server" where
  "register_method sv name f = sv\<lparr>sv_handlers := map_assign (<) name f (sv_handlers sv)\<rparr>"

section \<open>Calls\<close>

text \<open>What \<open>catch (...)\<close> catches.\<close>

definition is_exception :: "error \<Rightarrow> bool" where
  "is_exception e \<longleftrightarrow> e = Out_of_range \<or> e = Invalid_argument \<or> e = Logic_error"

text \<open>
  \<open>proxy\<close>: \<open>v0\<close> is the indeterminate value of the result object. In the mismatch branch the
  second \<open>set_code\<close> is given a string literal; \<open>literal_code\<close> is the 16-bit number a
  compiler that lets this pass makes of it.
\<close>

definition proxy ::
  "(val \<Rightarrow> val \<Rightarrow> bool) \<Rightarrow> u16 \<Rightarrow> val \<Rightarrow> 's rpc_method \<Rightarrow> byte_array \<Rightarrow> bytes \<Rightarrow> 's \<Rightarrow> (byte_array \<times> 's) res" where
  "proxy lt literal_code v0 f ba arg s =
     bindR (serializer_of arg) (\<lambda>in_ba.
       case get lt (TTuple (md_args f)) (default_val (TTuple (md_args f))) in_ba of
         Inl e \<Rightarrow>
           (if is_exception e then
              let res = (result_new v0)\<lparr>r_code := state_code RPC_NO_MATCH\<rparr>;
                  res = res\<lparr>r_code := literal_code\<rparr>
              in bindR (put_result ba res) (\<lambda>ba. Inr (ba, s))
            else Inl e)
       | Inr (args, _) \<Rightarrow>
           let (rt, s) = md_fun f (elems args) s;
               rt = (case md_return f of None \<Rightarrow> default_val (return_type None) | Some _ \<Rightarrow> rt);
               val = (result_new v0)\<lparr>r_code := state_code RPC_SUCCESS, r_value := rt\<rparr>
           in bindR (put_result ba val) (\<lambda>ba. Inr (ba, s)))"

text \<open>\<open>call\<close>: the serialiser stays empty for an unknown name.\<close>

definition call_method ::
  "(val \<Rightarrow> val \<Rightarrow> bool) \<Rightarrow> u16 \<Rightarrow> val \<Rightarrow> 's rpc_server \<Rightarrow> bytes \<Rightarrow> bytes \<Rightarrow> 's \<Rightarrow> (byte_array \<times> 's) res" where
  "call_method lt literal_code v0 sv name arg s =
     (case map_find (<) name (sv_handlers sv) of
        None \<Rightarrow> Inr (byte_array_default, s)
      | Some f \<Rightarrow>
          bindR (proxy lt literal_code v0 f byte_array_default arg s) (\<lambda>(ba, s).
          bindR (set_position ba 0) (\<lambda>ba. Inr (ba, s))))"

definition handle_method_call ::
  "(val \<Rightarrow> val \<Rightarrow> bool) \<Rightarrow> u16 \<Rightarrow> val \<Rightarrow> 's rpc_server \<Rightarrow> protocol \<Rightarrow> 's \<Rightarrow> (protocol \<times> 's) res" where
  "handle_method_call lt literal_code v0 sv p s =
     bindR (serializer_of (m_content p)) (\<lambda>request.
     bindR (read_string_vint request) (\<lambda>(func_name, request).
     bindR (ser_string request) (\<lambda>arg.
     bindR (call_method lt literal_code v0 sv func_name arg s) (\<lambda>(ret, s).
     bindR (ser_string ret) (\<lambda>content.
       Inr (create RPC_METHOD_RESPONSE content (m_sequence_id p), s))))))"

section \<open>Subscriptions\<close>

text \<open>The answer is written over the request from its start and what is left behind it is
  sent.\<close>

definition server_handle_subscribe ::
  "u8 \<Rightarrow> 's rpc_server \<Rightarrow> protocol \<Rightarrow> nat \<Rightarrow> (protocol \<times> 's rpc_server) res" where
  "server_handle_subscribe v0 sv p client =
     bindR (serializer_of (m_content p)) (\<lambda>ba.
     bindR (read_string_vint ba) (\<lambda>(key, ba).
       let sv = sv\<lparr>sv_subscribes := sv_subscribes sv @ [(key, client)]\<rparr> in
       bindR (set_position ba 0) (\<lambda>ba.
       bindR (put_result ba (result_success (I8 v0))) (\<lambda>ba.
       bindR (ser_string ba) (\<lambda>content.
         Inr (create RPC_SUBSCRIBE_RESPONSE content 0, sv))))))"

text \<open>The loop of \<open>publish\<close> over \<open>subs\<close>, the sessions of the key: the iterator is not
  advanced. \<open>None\<close> is lack of fuel.\<close>

fun publish_loop :: "nat \<Rightarrow> (nat \<Rightarrow> bool) \<Rightarrow> protocol \<Rightarrow> nat list \<Rightarrow> sent \<Rightarrow> sent option" where
  "publish_loop 0 live pub subs out = None"
| "publish_loop (Suc fuel) live pub subs out =
     (case subs of
        [] \<Rightarrow> Some out
      | s # _ \<Rightarrow>
          if \<not> live s then publish_loop fuel live pub subs out
          else publish_loop fuel live pub subs (out @ [(s, pub)]))"

definition server_publish ::
  "nat \<Rightarrow> (nat \<Rightarrow> bool) \<Rightarrow> 's rpc_server \<Rightarrow> bytes \<Rightarrow> val \<Rightarrow> sent res option" where
  "server_publish fuel live sv key data =
     (if sv_subscribes sv = [] then Some (Inr [])
      else case pack [Str key, data] of
        Inl e \<Rightarrow> Some (Inl e)
      | Inr cs \<Rightarrow>
          map_option Inr (publish_loop fuel live (create RPC_PUBLISH_REQUEST cs 0)
            (map snd (filter (\<lambda>e. fst e = key) (sv_subscribes sv))) []))"

definition server_clean_subscribes :: "(nat \<Rightarrow> bool) \<Rightarrow> 's rpc_server \<Rightarrow> bool \<times> 's rpc_server" where
  "server_clean_subscribes live sv =
     (if \<not> sv_stop_clean sv
      then (False, sv\<lparr>sv_subscribes := filter (\<lambda>e. live (snd e)) (sv_subscribes sv)\<rparr>)
      else (True, sv))"

section \<open>Registry and clients\<close>

text \<open>The connection to the registry: sending a frame and receiving one act on an outside
  state \<open>'r\<close>. The result of \<open>register_service\<close> is only logged.\<close>

record 'r link =
  lk_send :: "protocol \<Rightarrow> 'r \<Rightarrow> 'r"
  lk_recv :: "'r \<Rightarrow> protocol option \<times> 'r"

definition bind_registry ::
  "'r link \<Rightarrow> bool \<Rightarrow> bool \<Rightarrow> 's rpc_server \<Rightarrow> 'r \<Rightarrow> (bool \<times> 's rpc_server \<times> 'r) res" where
  "bind_registry lk created connected sv r =
     (if \<not> created then Inr (False, sv, r)
      else if \<not> connected then Inr (False, sv\<lparr>sv_registry := False\<rparr>, r)
      else bindR (pack [U32 (sv_port sv)]) (\<lambda>content.
        Inr (True, sv\<lparr>sv_registry := True\<rparr>, lk_send lk (create RPC_PROVIDER content 0) r)))"

text \<open>The body of the server's heartbeat timer: whether the timer goes on.\<close>

definition server_heartbeat :: "'r link \<Rightarrow> 'r \<Rightarrow> bool \<times> 'r" where
  "server_heartbeat lk r =
     (let r = lk_send lk (create HEARTBEAT_PACKET [] 0) r;
          (response, r) = lk_recv lk r
      in (response \<noteq> None, r))"

definition register_service :: "'r link \<Rightarrow> bytes \<Rightarrow> 'r \<Rightarrow> (rpc_result option \<times> 'r) res" where
  "register_service lk name r =
     (let r = lk_send lk (create RPC_SERVICE_REGISTER name 0) r in
      case lk_recv lk r of
        (None, r) \<Rightarrow> Inr (None, r)
      | (Some response, r) \<Rightarrow>
          bindR (serializer_of (m_content response)) (\<lambda>ba.
          bindR (get_result (\<lambda>_ _. False) TString (result_new (Str [])) ba) (\<lambda>(res, _).
            Inr (Some res, r))))"

fun register_services :: "'r link \<Rightarrow> bytes list \<Rightarrow> 'r \<Rightarrow> 'r res" where
  "register_services lk [] r = Inr r"
| "register_services lk (name # names) r =
     bindR (register_service lk name r) (\<lambda>(_, r). register_services lk names r)"

text \<open>The part of \<open>start\<close> before the timers and the accepting loop.\<close>

definition start_registration :: "'r link \<Rightarrow> 's rpc_server \<Rightarrow> 'r \<Rightarrow> 'r res" where
  "start_registration lk sv r =
     (if sv_registry sv then register_services lk (map fst (sv_handlers sv)) r else Inr r)"

text \<open>The task that \<open>handle_client\<close> schedules for a request: the response it sends, if any.\<close>

definition handle_request ::
  "(val \<Rightarrow> val \<Rightarrow> bool) \<Rightarrow> u16 \<Rightarrow> val \<Rightarrow> u8 \<Rightarrow> 's rpc_server \<Rightarrow> nat \<Rightarrow> protocol \<Rightarrow> 's \<Rightarrow>
   (protocol option \<times> 's rpc_server \<times> 's) res" where
  "handle_request lt literal_code v0 v1 sv client request s =
     (let t = m_type request in
      if t = type_code HEARTBEAT_PACKET then Inr (Some heartbeat, sv, s)
      else if t = type_code RPC_METHOD_REQUEST then
        bindR (handle_method_call lt literal_code v0 sv request s) (\<lambda>(r, s). Inr (Some r, sv, s))
      else if t = type_code RPC_SUBSCRIBE_REQUEST then
        bindR (server_handle_subscribe v1 sv request client) (\<lambda>(r, sv). Inr (Some r, sv, s))
      else Inr (None, sv, s))"

text \<open>\<open>handle_client\<close>: the requests that arrive, each with the time and a fresh address for
  \<open>update\<close>, up to the null pointer. The result lists the scheduled requests.\<close>

fun server_rounds ::
  "'cb \<Rightarrow> u64 \<Rightarrow> (u64 \<times> nat \<times> protocol option) list \<Rightarrow> 'cb timer_manager \<Rightarrow> nat option \<Rightarrow>
   protocol list \<times> 'cb timer_manager" where
  "server_rounds cb alive [] m heart = ([], m)"
| "server_rounds cb alive ((now, a, None) # es) m heart = ([], m)"
| "server_rounds cb alive ((now, a, Some request) # es) m heart =
     (let m = update_heart True alive cb now a heart m;
          (reqs, m) = server_rounds cb alive es m heart
      in (request # reqs, m))"

definition server_handle_client ::
  "'cb \<Rightarrow> 's rpc_server \<Rightarrow> u64 \<Rightarrow> nat \<Rightarrow> (u64 \<times> nat \<times> protocol option) list \<Rightarrow> 'cb timer_manager \<Rightarrow>
   protocol list \<times> 'cb timer_manager" where
  "server_handle_client cb sv now a es m =
     server_rounds cb (sv_alive_time sv) es (update_heart True (sv_alive_time sv) cb now a None m) None"

section \<open>Laws\<close>

lemma find_registered:
  "sorted_wrt (\<lambda>a b. fst a < fst b) (sv_handlers sv) \<Longrightarrow>
   map_find (<) n (sv_handlers (register_method sv name f)) =
     (if name = n then Some f else map_find (<) n (sv_handlers sv))"
  using std_less.find_assign [of "sv_handlers sv" n name f]
  by (auto simp: register_method_def equiv_key_def)

lemma register_method_sorted:
  "sorted_wrt (\<lambda>a b. fst a < fst b) (sv_handlers sv) \<Longrightarrow>
   sorted_wrt (\<lambda>a b. fst a < fst b) (sv_handlers (register_method sv name f))"
  using std_less.assign_ordered by (simp add: register_method_def)

text \<open>A call whose arguments have the declared types.\<close>

lemma proxy_result:
  assumes "strict_weak lt" "list_all2 (has_ty lt) (md_args f) vs"
    and "length (venc Big (Tuple vs)) < 4096" "md_fun f vs s = (rt, s')"
    and "md_return f = Some t" "\<And>a b. rt \<noteq> Pair a b"
  shows "\<exists>ba. proxy lt lc v0 f byte_array_default (venc Big (Tuple vs)) s = Inr (ba, s') \<and>
    wrote byte_array_default (result_bytes Big ((result_new v0)\<lparr>r_code := 0, r_value := rt\<rparr>)) ba"
proof -
  let ?t = "TTuple (md_args f)" and ?cs = "venc Big (Tuple vs)"
  obtain in_ba where i: "serializer_of ?cs = Inr in_ba" "at_input in_ba ?cs" "m_position in_ba = 0"
    "m_base_size in_ba = 4096" "m_endian in_ba = Big"
    using serializer_of_input [of ?cs] assms(3) by auto
  have "has_ty lt ?t (Tuple vs)" by (rule has_ty.tuple [OF assms(2)])
  note R = readableD [OF has_ty_readable [OF assms(1) this], of in_ba "[]"]
  have g: "get lt ?t (default_val ?t) in_ba = Inr (Tuple vs, consumed in_ba (length ?cs))"
    using R i assms(3) by simp
  obtain ba where ba: "put_result byte_array_default ((result_new v0)\<lparr>r_code := 0, r_value := rt\<rparr>) = Inr ba"
    "wrote byte_array_default (result_bytes Big ((result_new v0)\<lparr>r_code := 0, r_value := rt\<rparr>)) ba"
    using put_result_puts [OF default_inv(1), of "(result_new v0)\<lparr>r_code := 0, r_value := rt\<rparr>"] assms(6)
      default_inv(2) by (auto simp: puts_def)
  then show ?thesis
    using i(1) g assms(4,5) by (simp add: proxy_def Let_def)
qed

lemma call_method_result:
  assumes "map_find (<) name (sv_handlers sv) = Some f"
    and "strict_weak lt" "list_all2 (has_ty lt) (md_args f) vs"
    and "length (venc Big (Tuple vs)) < 4096" "md_fun f vs s = (rt, s')"
    and "md_return f = Some t" "\<And>a b. rt \<noteq> Pair a b"
  shows "\<exists>ba. call_method lt lc v0 sv name (venc Big (Tuple vs)) s = Inr (ba, s') \<and>
    ser_string ba = Inr (result_bytes Big ((result_new v0)\<lparr>r_code := 0, r_value := rt\<rparr>))"
proof -
  obtain ba where ba: "proxy lt lc v0 f byte_array_default (venc Big (Tuple vs)) s = Inr (ba, s')"
    "wrote byte_array_default (result_bytes Big ((result_new v0)\<lparr>r_code := 0, r_value := rt\<rparr>)) ba"
    using proxy_result [OF assms(2-7)] by blast
  from wrote_default [OF ba(2)] ba(1) assms(1) ser_string_input show ?thesis
    by (auto simp: call_method_def)
qed

text \<open>The content of a request: the name and the arguments.\<close>

lemma handle_method_call_result:
  assumes p: "m_content p = venc Big (Str name) @ venc Big (Tuple vs)"
    and "length (m_content p) < 4096"
    and "map_find (<) name (sv_handlers sv) = Some f"
    and "strict_weak lt" "list_all2 (has_ty lt) (md_args f) vs"
    and "md_fun f vs s = (rt, s')" "md_return f = Some t" "\<And>a b. rt \<noteq> Pair a b"
  shows "handle_method_call lt lc v0 sv p s =
    Inr (create RPC_METHOD_RESPONSE
      (result_bytes Big ((result_new v0)\<lparr>r_code := 0, r_value := rt\<rparr>)) (m_sequence_id p), s')"
proof -
  let ?n = "venc Big (Str name)" and ?a = "venc Big (Tuple vs)"
  obtain ba where i: "serializer_of (m_content p) = Inr ba" "at_input ba (?n @ ?a)" "m_position ba = 0"
    "m_base_size ba = 4096" "m_endian ba = Big"
    using serializer_of_input [of "m_content p"] assms(2) p by auto
  have l: "length ?n < 4096" "length name < 2 ^ 64" "length ?a < 4096"
    using assms(2) p by simp_all
  have n: "read_string_vint ba = Inr (name, consumed ba (length ?n))"
    using str_vint.reads [where x = name and ba = ba and rest = ?a] i l by simp
  have a: "ser_string (consumed ba (length ?n)) = Inr ?a"
    by (rule ser_string_input [OF at_input_consumed [OF i(2)]])
  obtain ret where r: "call_method lt lc v0 sv name ?a s = Inr (ret, s')"
    "ser_string ret = Inr (result_bytes Big ((result_new v0)\<lparr>r_code := 0, r_value := rt\<rparr>))"
    using call_method_result [OF assms(3-5) l(3) assms(6-8)] by blast
  show ?thesis using i(1) n a r by (simp add: handle_method_call_def)
qed

text \<open>An unknown name is answered by an empty content.\<close>

lemma unknown_method:
  assumes "m_content p = venc Big (Str name) @ arg" "length (m_content p) < 4096"
    and "map_find (<) name (sv_handlers sv) = None"
  shows "handle_method_call lt lc v0 sv p s = Inr (create RPC_METHOD_RESPONSE [] (m_sequence_id p), s)"
proof -
  let ?n = "venc Big (Str name)"
  obtain ba where i: "serializer_of (m_content p) = Inr ba" "at_input ba (?n @ arg)" "m_position ba = 0"
    "m_base_size ba = 4096" "m_endian ba = Big"
    using serializer_of_input [of "m_content p"] assms(1,2) by auto
  have l: "length ?n < 4096" "length name < 2 ^ 64" using assms(1,2) by simp_all
  have n: "read_string_vint ba = Inr (name, consumed ba (length ?n))"
    using str_vint.reads [where x = name and ba = ba and rest = arg] i l by simp
  have a: "ser_string (consumed ba (length ?n)) = Inr arg"
    by (rule ser_string_input [OF at_input_consumed [OF i(2)]])
  have e: "ser_string byte_array_default = Inr []"
    by (rule ser_string_input)
       (simp add: at_input_def default_inv byte_array_default_def)
  show ?thesis using i(1) n a e assms(3) by (simp add: handle_method_call_def call_method_def)
qed

text \<open>A publication to a key that somebody has subscribed never ends.\<close>

lemma publish_loop_hangs: "subs \<noteq> [] \<Longrightarrow> publish_loop fuel live pub subs out = None"
  by (induction fuel arbitrary: out) (auto split: list.splits)

text \<open>The answer to a subscription is written over the request and what follows it is
  sent: nothing at all, when the request is not longer.\<close>

lemma success_bytes_length: "length (result_bytes Big (result_success (I8 v0))) = 11"
proof -
  have "var_bytes (7 :: u64) = [7]" by (simp add: var_bytes.simps)
  then show ?thesis
    by (simp add: result_bytes_def result_success_def result_new_def success_text_def)
qed

lemma subscribe_answer:
  assumes "m_content p = venc Big (Str key)" "length (m_content p) < 4096"
  shows "\<exists>sv'. server_handle_subscribe v0 sv p client =
      Inr (create RPC_SUBSCRIBE_RESPONSE (drop 11 (m_content p)) 0, sv') \<and>
    sv_subscribes sv' = sv_subscribes sv @ [(key, client)]"
proof -
  let ?r = "result_bytes Big (result_success (I8 v0))"
  obtain ba where i: "serializer_of (m_content p) = Inr ba" "at_input ba (m_content p)" "m_position ba = 0"
    "m_base_size ba = 4096" "m_endian ba = Big"
    using serializer_of_input [of "m_content p"] assms(2) by auto
  have l: "length key < 2 ^ 64" using assms by simp
  have r: "read_string_vint ba = Inr (key, consumed ba (length (m_content p)))"
    using str_vint.reads [where x = key and ba = ba and rest = "[]"] i assms l by simp
  let ?b = "consumed ba (length (m_content p))"
  have b: "ba_inv ?b" using at_input_consumed [of ba "m_content p" "[]"] i(2) by (simp add: at_input_def)
  obtain b0 where b0: "set_position ?b 0 = Inr b0" "ba_inv b0" "m_position b0 = 0"
    "content b0 = map Some (m_content p)" "m_endian b0 = Big"
    using set_position_inv [OF b, of 0] i by (auto simp: at_input_def content_def)
  obtain b1 where b1: "put_result b0 (result_success (I8 v0)) = Inr b1" "wrote b0 ?r b1"
    using put_result_puts [OF b0(2), of "result_success (I8 v0)"] b0(5)
    by (auto simp: puts_def result_success_def result_new_def)
  have "at_input b1 (drop 11 (m_content p))"
    using b1(2) b0(3,4) success_bytes_length by (simp add: wrote_def at_input_def splice_at_def drop_map)
  from ser_string_input [OF this] show ?thesis
    using i(1) r b0(1) b1(1) by (simp add: server_handle_subscribe_def Let_def)
qed

end
