(* ===== verification/CoSync.thy ===== *)
theory CoSync
  imports Prelude
begin

text \<open>
  Condition variable, counting semaphore and count-down latch of
  \<open>acid/common/co_mutex.cpp\<close>. Their members run under a \<open>CoMutex\<close> (the condition variable
  under a spinlock of its own), so each stretch between taking and giving up the lock is
  one operation here. \<open>wait\<close> is split where the fiber yields: the first half enqueues
  the fiber, the second runs when it has been scheduled again and has the mutex back.
\<close>

section \<open>CoCond\<close>

text \<open>\<open>cc_timer\<close> says whether the keep-alive timer exists.\<close>

record co_cond =
  cc_queue :: "nat list"
  cc_timer :: bool

definition cond_new :: co_cond where
  "cond_new = \<lparr>cc_queue = [], cc_timer = False\<rparr>"

definition cond_notify :: "co_cond \<Rightarrow> nat list \<times> co_cond" where
  "cond_notify c =
     (case cc_queue c of
        [] \<Rightarrow> ([], c)
      | f # q \<Rightarrow> ([f], c\<lparr>cc_queue := q, cc_timer := False\<rparr>))"

definition cond_notify_all :: "co_cond \<Rightarrow> nat list \<times> co_cond" where
  "cond_notify_all c = (cc_queue c, c\<lparr>cc_queue := [], cc_timer := False\<rparr>)"

definition cond_wait :: "nat \<Rightarrow> co_cond \<Rightarrow> co_cond" where
  "cond_wait f c =
     c\<lparr>cc_queue := cc_queue c @ [f], cc_timer := (if \<not> cc_timer c then True else cc_timer c)\<rparr>"

lemma cond_simps [simp]:
  "cc_queue (snd (cond_notify c)) = tl (cc_queue c)"
  "fst (cond_notify c) = take 1 (cc_queue c)"
  "cond_notify_all c = (cc_queue c, c\<lparr>cc_queue := [], cc_timer := False\<rparr>)"
  "cc_queue (cond_wait f c) = cc_queue c @ [f]"
  "cc_queue cond_new = []"
  by (auto simp: cond_notify_def cond_notify_all_def cond_wait_def cond_new_def split: list.splits)

section \<open>CoSemaphore\<close>

text \<open>\<open>s_woken\<close> are the fibers that were notified and have not run yet.\<close>

record semaphore =
  s_num :: u32
  s_used :: u32
  s_cond :: co_cond
  s_woken :: "nat list"

definition semaphore_new :: "u32 \<Rightarrow> semaphore" where
  "semaphore_new n = \<lparr>s_num = n, s_used = 0, s_cond = cond_new, s_woken = []\<rparr>"

text \<open>One round of the loop of \<open>wait\<close>: the flag says whether \<open>wait\<close> returned.\<close>

definition sem_round :: "nat \<Rightarrow> semaphore \<Rightarrow> bool \<times> semaphore" where
  "sem_round f s =
     (if s_used s \<ge> s_num s then (False, s\<lparr>s_cond := cond_wait f (s_cond s)\<rparr>)
      else (True, s\<lparr>s_used := s_used s + 1\<rparr>))"

definition sem_wait :: "nat \<Rightarrow> semaphore \<Rightarrow> bool \<times> semaphore" where
  "sem_wait f s = sem_round f s"

definition sem_resume :: "nat \<Rightarrow> semaphore \<Rightarrow> bool \<times> semaphore" where
  "sem_resume f s = sem_round f (s\<lparr>s_woken := remove1 f (s_woken s)\<rparr>)"

definition sem_notify :: "semaphore \<Rightarrow> semaphore" where
  "sem_notify s =
     (let s = (if s_used s > 0 then s\<lparr>s_used := s_used s - 1\<rparr> else s);
          (woken, c) = cond_notify (s_cond s)
      in s\<lparr>s_cond := c, s_woken := s_woken s @ woken\<rparr>)"

inductive sem_reachable :: "u32 \<Rightarrow> semaphore \<Rightarrow> bool" for n where
  init: "sem_reachable n (semaphore_new n)"
| wait: "sem_reachable n s \<Longrightarrow> sem_reachable n (snd (sem_wait f s))"
| resume: "sem_reachable n s \<Longrightarrow> f \<in> set (s_woken s) \<Longrightarrow> sem_reachable n (snd (sem_resume f s))"
| notify: "sem_reachable n s \<Longrightarrow> sem_reachable n (sem_notify s)"

text \<open>Never more permits than there are, and no fiber sleeps while there is a free permit
  that no woken fiber is on its way to take.\<close>

definition sem_inv :: "u32 \<Rightarrow> semaphore \<Rightarrow> bool" where
  "sem_inv n s \<longleftrightarrow> s_num s = n \<and> s_used s \<le> n \<and>
     (cc_queue (s_cond s) \<noteq> [] \<longrightarrow> unat n - unat (s_used s) \<le> length (s_woken s))"

lemma unat_succ: "(w :: u32) < n \<Longrightarrow> unat (w + 1) = Suc (unat w) \<and> w + 1 \<le> n"
  using unat_less [of n] by (simp add: word_less_nat_alt word_le_nat_alt unat_word_ariths)

lemma sem_round_inv:
  assumes "s_num s = n" "s_used s \<le> n"
    and "cc_queue (s_cond s) \<noteq> [] \<Longrightarrow> unat n - unat (s_used s) \<le> Suc (length (s_woken s))"
    and "s_used s < n \<Longrightarrow> cc_queue (s_cond s) \<noteq> [] \<Longrightarrow>
      unat n - unat (s_used s) \<le> Suc (length (s_woken s))"
  shows "sem_inv n (snd (sem_round f s))"
proof (cases "s_used s < n")
  case True
  with assms unat_succ [OF True] show ?thesis by (auto simp: sem_round_def sem_inv_def)
next
  case False
  then have "unat n \<le> unat (s_used s)" by (simp add: not_less word_le_nat_alt)
  with assms False show ?thesis by (auto simp: sem_round_def sem_inv_def)
qed

lemma sem_reachable_inv: "sem_reachable n s \<Longrightarrow> sem_inv n s"
proof (induction rule: sem_reachable.induct)
  case init
  show ?case by (simp add: sem_inv_def semaphore_new_def)
next
  case (wait s f)
  then show ?case
    unfolding sem_wait_def by (intro sem_round_inv) (auto simp: sem_inv_def)
next
  case (resume s f)
  then have "length (s_woken s) = Suc (length (remove1 f (s_woken s)))"
    by (simp add: length_remove1) (metis Suc_pred length_pos_if_in_set)
  with resume show ?case
    unfolding sem_resume_def by (intro sem_round_inv) (auto simp: sem_inv_def)
next
  case (notify s)
  let ?u = "if s_used s > 0 then s_used s - 1 else s_used s"
  have u: "unat n - unat ?u \<le> Suc (unat n - unat (s_used s))" "?u \<le> s_used s"
    using word_gt_0 [of "s_used s"] by (auto simp: unat_minus_one word_le_nat_alt)
  have le: "?u \<le> n" using u(2) notify.IH by (auto simp: sem_inv_def)
  have q: "length (take 1 (cc_queue (s_cond s))) = 1" if "tl (cc_queue (s_cond s)) \<noteq> []"
    using that by (cases "cc_queue (s_cond s)") simp_all
  have s': "sem_notify s = s\<lparr>s_used := ?u, s_cond := snd (cond_notify (s_cond s)),
      s_woken := s_woken s @ fst (cond_notify (s_cond s))\<rparr>"
    by (simp add: sem_notify_def Let_def case_prod_unfold del: cond_simps)
  have "unat n - unat ?u \<le> length (s_woken s @ take 1 (cc_queue (s_cond s)))"
    if t: "tl (cc_queue (s_cond s)) \<noteq> []"
  proof -
    have "cc_queue (s_cond s) \<noteq> []" using t by auto
    with notify.IH have "unat n - unat (s_used s) \<le> length (s_woken s)" by (simp add: sem_inv_def)
    with u(1) q [OF t] show ?thesis by simp
  qed
  with notify.IH le show ?case
    unfolding s' by (simp add: sem_inv_def)
qed

section \<open>CoCountDownLatch\<close>

record latch =
  l_count :: int
  l_cond :: co_cond
  l_woken :: "nat list"

definition latch_new :: "int \<Rightarrow> latch" where
  "latch_new n = \<lparr>l_count = n, l_cond = cond_new, l_woken = []\<rparr>"

text \<open>\<open>wait\<close> returns at once (\<open>True\<close>) or enqueues the fiber; a woken fiber returns without
  looking at the count again.\<close>

definition latch_wait :: "nat \<Rightarrow> latch \<Rightarrow> bool \<times> latch" where
  "latch_wait f l =
     (if l_count l = 0 then (True, l) else (False, l\<lparr>l_cond := cond_wait f (l_cond l)\<rparr>))"

definition latch_resume :: "nat \<Rightarrow> latch \<Rightarrow> latch" where
  "latch_resume f l = l\<lparr>l_woken := remove1 f (l_woken l)\<rparr>"

text \<open>\<open>int\<close> has 32 bits; decrementing the smallest one is undefined.\<close>

definition count_down :: "latch \<Rightarrow> (bool \<times> latch) res" where
  "count_down l =
     (if l_count l = 0 then Inr (False, l)
      else ensureR (l_count l \<noteq> - (2 ^ 31)) Undefined (
        let l = l\<lparr>l_count := l_count l - 1\<rparr> in
        if l_count l = 0 then
          let (woken, c) = cond_notify_all (l_cond l)
          in Inr (True, l\<lparr>l_cond := c, l_woken := l_woken l @ woken\<rparr>)
        else Inr (True, l)))"

definition get_count :: "latch \<Rightarrow> int" where
  "get_count l = l_count l"

inductive latch_reachable :: "int \<Rightarrow> latch \<Rightarrow> bool" for n where
  init: "latch_reachable n (latch_new n)"
| wait: "latch_reachable n l \<Longrightarrow> latch_reachable n (snd (latch_wait f l))"
| resume: "latch_reachable n l \<Longrightarrow> f \<in> set (l_woken l) \<Longrightarrow> latch_reachable n (latch_resume f l)"
| down: "latch_reachable n l \<Longrightarrow> count_down l = Inr (b, l') \<Longrightarrow> latch_reachable n l'"

lemma latch_reachable_inv:
  "latch_reachable n l \<Longrightarrow>
   (l_count l = 0 \<longrightarrow> cc_queue (l_cond l) = []) \<and> (l_woken l \<noteq> [] \<longrightarrow> l_count l = 0) \<and>
   (0 \<le> n \<longrightarrow> 0 \<le> l_count l \<and> l_count l \<le> n)"
proof (induction rule: latch_reachable.induct)
  case (down l b l')
  then show ?case
    by (auto simp: count_down_def ensureR_def Let_def split: if_splits)
qed (auto simp: latch_new_def latch_wait_def latch_resume_def)

end
