(* ===== verification/Channel.thy ===== *)
theory Channel
  imports CoSync
begin

text \<open>
  The bounded channel of \<open>acid/common/channel.h\<close>. \<open>push\<close> and \<open>pop\<close> run under the mutex of
  the channel and are split where they wait on a condition variable. \<open>ch_item\<close> is the
  local argument of a fiber that waits in \<open>push\<close>; the woken lists are the fibers that have
  been notified and have not run yet.
\<close>

section \<open>State and operations\<close>

record 'a channel =
  ch_is_close :: bool
  ch_capacity :: nat
  ch_push_cond :: co_cond
  ch_pop_cond :: co_cond
  ch_queue :: "'a list"
  ch_item :: "nat \<Rightarrow> 'a"
  ch_push_woken :: "nat list"
  ch_pop_woken :: "nat list"

definition channel_new :: "nat \<Rightarrow> (nat \<Rightarrow> 'a) \<Rightarrow> 'a channel" where
  "channel_new capacity item =
     \<lparr>ch_is_close = False, ch_capacity = capacity, ch_push_cond = cond_new,
      ch_pop_cond = cond_new, ch_queue = [], ch_item = item, ch_push_woken = [], ch_pop_woken = []\<rparr>"

text \<open>\<open>None\<close>: the fiber waits. The rounds are one pass through the loop of \<open>push\<close>, \<open>pop\<close>.\<close>

definition push_round :: "nat \<Rightarrow> 'a \<Rightarrow> 'a channel \<Rightarrow> bool option \<times> 'a channel" where
  "push_round f t c =
     (if length (ch_queue c) \<ge> ch_capacity c then
        (None, c\<lparr>ch_push_cond := cond_wait f (ch_push_cond c), ch_item := (ch_item c)(f := t)\<rparr>)
      else
        let c = c\<lparr>ch_queue := ch_queue c @ [t]\<rparr>;
            (woken, pc) = cond_notify (ch_pop_cond c)
        in (Some True, c\<lparr>ch_pop_cond := pc, ch_pop_woken := ch_pop_woken c @ woken\<rparr>))"

definition push :: "nat \<Rightarrow> 'a \<Rightarrow> 'a channel \<Rightarrow> bool option \<times> 'a channel" where
  "push f t c = (if ch_is_close c then (Some False, c) else push_round f t c)"

definition push_resume :: "nat \<Rightarrow> 'a channel \<Rightarrow> bool option \<times> 'a channel" where
  "push_resume f c =
     (let c = c\<lparr>ch_push_woken := remove1 f (ch_push_woken c)\<rparr> in
      if ch_is_close c then (Some False, c) else push_round f (ch_item c f) c)"

text \<open>The result of \<open>pop\<close>: \<open>Some None\<close> is \<open>false\<close>, \<open>Some (Some t)\<close> is \<open>true\<close> with the item.\<close>

definition pop_round :: "nat \<Rightarrow> 'a channel \<Rightarrow> 'a option option \<times> 'a channel" where
  "pop_round f c =
     (case ch_queue c of
        [] \<Rightarrow> (None, c\<lparr>ch_pop_cond := cond_wait f (ch_pop_cond c)\<rparr>)
      | t # q \<Rightarrow>
          let (woken, pc) = cond_notify (ch_push_cond c)
          in (Some (Some t),
              c\<lparr>ch_queue := q, ch_push_cond := pc, ch_push_woken := ch_push_woken c @ woken\<rparr>))"

definition pop :: "nat \<Rightarrow> 'a channel \<Rightarrow> 'a option option \<times> 'a channel" where
  "pop f c = (if ch_is_close c then (Some None, c) else pop_round f c)"

definition pop_resume :: "nat \<Rightarrow> 'a channel \<Rightarrow> 'a option option \<times> 'a channel" where
  "pop_resume f c =
     (let c = c\<lparr>ch_pop_woken := remove1 f (ch_pop_woken c)\<rparr> in
      if ch_is_close c then (Some None, c) else pop_round f c)"

definition close :: "'a channel \<Rightarrow> 'a channel" where
  "close c =
     (if ch_is_close c then c
      else let c = c\<lparr>ch_is_close := True\<rparr>;
               (w1, pc1) = cond_notify_all (ch_push_cond c);
               (w2, pc2) = cond_notify_all (ch_pop_cond c)
        in c\<lparr>ch_push_cond := pc1, ch_push_woken := ch_push_woken c @ w1,
             ch_pop_cond := pc2, ch_pop_woken := ch_pop_woken c @ w2, ch_queue := []\<rparr>)"

definition is_open :: "'a channel \<Rightarrow> bool" where
  "is_open c \<longleftrightarrow> ch_is_close c = False"

definition channel_size :: "'a channel \<Rightarrow> nat" where
  "channel_size c = length (ch_queue c)"

definition channel_empty :: "'a channel \<Rightarrow> bool" where
  "channel_empty c \<longleftrightarrow> ch_queue c = []"

section \<open>Histories\<close>

text \<open>A configuration is a channel, the items accepted so far and the items handed out.\<close>

definition record_push :: "'a \<Rightarrow> 'a list \<Rightarrow> bool option \<times> 'a channel \<Rightarrow> 'a list" where
  "record_push t ins r = (if fst r = Some True then ins @ [t] else ins)"

definition record_pop :: "'a list \<Rightarrow> 'a option option \<times> 'a channel \<Rightarrow> 'a list" where
  "record_pop outs r = (case fst r of Some (Some t) \<Rightarrow> outs @ [t] | _ \<Rightarrow> outs)"

inductive chan_run :: "nat \<Rightarrow> 'a channel \<Rightarrow> 'a list \<Rightarrow> 'a list \<Rightarrow> bool" for cap where
  init: "chan_run cap (channel_new cap item) [] []"
| push: "chan_run cap c ins outs \<Longrightarrow> chan_run cap (snd (push f t c)) (record_push t ins (push f t c)) outs"
| push_resume: "chan_run cap c ins outs \<Longrightarrow> f \<in> set (ch_push_woken c) \<Longrightarrow>
    chan_run cap (snd (push_resume f c)) (record_push (ch_item c f) ins (push_resume f c)) outs"
| pop: "chan_run cap c ins outs \<Longrightarrow> chan_run cap (snd (pop f c)) ins (record_pop outs (pop f c))"
| pop_resume: "chan_run cap c ins outs \<Longrightarrow> f \<in> set (ch_pop_woken c) \<Longrightarrow>
    chan_run cap (snd (pop_resume f c)) ins (record_pop outs (pop_resume f c))"
| close: "chan_run cap c ins outs \<Longrightarrow> chan_run cap (close c) ins outs"

definition chan_inv :: "nat \<Rightarrow> 'a channel \<Rightarrow> 'a list \<Rightarrow> 'a list \<Rightarrow> bool" where
  "chan_inv cap c ins outs \<longleftrightarrow>
     ch_capacity c = cap \<and> length (ch_queue c) \<le> cap \<and>
     (if ch_is_close c then ch_queue c = [] \<and> cc_queue (ch_push_cond c) = [] \<and>
          cc_queue (ch_pop_cond c) = [] \<and> (\<exists>lost. ins = outs @ lost)
      else ins = outs @ ch_queue c \<and>
        (cc_queue (ch_pop_cond c) \<noteq> [] \<longrightarrow> length (ch_queue c) \<le> length (ch_pop_woken c)) \<and>
        (cc_queue (ch_push_cond c) \<noteq> [] \<longrightarrow>
           cap - length (ch_queue c) \<le> length (ch_push_woken c)))"

lemma tl_take1: "tl xs \<noteq> [] \<Longrightarrow> length (take 1 xs) = 1" "tl xs \<noteq> [] \<Longrightarrow> xs \<noteq> []"
  by (cases xs; simp)+

text \<open>The rounds need the invariant only up to the fiber that is running.\<close>

lemma push_round_inv:
  assumes "\<not> ch_is_close c" "ch_capacity c = cap" "length (ch_queue c) \<le> cap" "ins = outs @ ch_queue c"
    and "cc_queue (ch_pop_cond c) \<noteq> [] \<Longrightarrow> length (ch_queue c) \<le> length (ch_pop_woken c)"
    and "cc_queue (ch_push_cond c) \<noteq> [] \<Longrightarrow>
      cap - length (ch_queue c) \<le> Suc (length (ch_push_woken c))"
  shows "chan_inv cap (snd (push_round f t c)) (record_push t ins (push_round f t c)) outs"
proof (cases "cap \<le> length (ch_queue c)")
  case True
  with assms show ?thesis by (auto simp: push_round_def chan_inv_def record_push_def)
next
  case False
  have r: "push_round f t c = (Some True, c\<lparr>ch_queue := ch_queue c @ [t],
      ch_pop_cond := snd (cond_notify (ch_pop_cond c)),
      ch_pop_woken := ch_pop_woken c @ fst (cond_notify (ch_pop_cond c))\<rparr>)"
    using False assms(2) by (simp add: push_round_def Let_def case_prod_unfold del: cond_simps)
  show ?thesis
    unfolding r using assms False tl_take1 [of "cc_queue (ch_pop_cond c)"]
    by (auto simp: chan_inv_def record_push_def)
qed

lemma pop_round_inv:
  assumes "\<not> ch_is_close c" "ch_capacity c = cap" "length (ch_queue c) \<le> cap" "ins = outs @ ch_queue c"
    and "cc_queue (ch_pop_cond c) \<noteq> [] \<Longrightarrow> length (ch_queue c) \<le> Suc (length (ch_pop_woken c))"
    and "cc_queue (ch_push_cond c) \<noteq> [] \<Longrightarrow> cap - length (ch_queue c) \<le> length (ch_push_woken c)"
  shows "chan_inv cap (snd (pop_round f c)) ins (record_pop outs (pop_round f c))"
proof (cases "ch_queue c")
  case Nil
  with assms show ?thesis by (auto simp: pop_round_def chan_inv_def record_pop_def)
next
  case (Cons t q)
  have r: "pop_round f c = (Some (Some t), c\<lparr>ch_queue := q,
      ch_push_cond := snd (cond_notify (ch_push_cond c)),
      ch_push_woken := ch_push_woken c @ fst (cond_notify (ch_push_cond c))\<rparr>)"
    using Cons by (simp add: pop_round_def Let_def case_prod_unfold del: cond_simps)
  show ?thesis
    unfolding r using assms Cons tl_take1 [of "cc_queue (ch_push_cond c)"]
    by (auto simp: chan_inv_def record_pop_def)
qed

lemma length_remove1_in: "f \<in> set xs \<Longrightarrow> length xs = Suc (length (remove1 f xs))"
  by (simp add: length_remove1) (metis Suc_pred length_pos_if_in_set)

lemma chan_run_inv: "chan_run cap c ins outs \<Longrightarrow> chan_inv cap c ins outs"
proof (induction rule: chan_run.induct)
  case (init item)
  show ?case by (simp add: chan_inv_def channel_new_def)
next
  case (push c ins outs f t)
  show ?case
  proof (cases "ch_is_close c")
    case False
    then have e: "push f t c = push_round f t c" by (simp add: push_def)
    show ?thesis
      unfolding e by (rule push_round_inv) (use push.IH False in \<open>auto simp: chan_inv_def\<close>)
  qed (use push.IH in \<open>simp add: push_def record_push_def\<close>)
next
  case (push_resume c ins outs f)
  let ?c = "c\<lparr>ch_push_woken := remove1 f (ch_push_woken c)\<rparr>"
  note len = length_remove1_in [OF push_resume.hyps(2)]
  show ?case
  proof (cases "ch_is_close c")
    case True
    with push_resume.IH show ?thesis by (simp add: push_resume_def record_push_def chan_inv_def)
  next
    case False
    then have e: "push_resume f c = push_round f (ch_item c f) ?c" by (simp add: push_resume_def Let_def)
    show ?thesis
      unfolding e by (rule push_round_inv) (use push_resume.IH False len in \<open>auto simp: chan_inv_def\<close>)
  qed
next
  case (pop c ins outs f)
  show ?case
  proof (cases "ch_is_close c")
    case False
    then have e: "pop f c = pop_round f c" by (simp add: pop_def)
    show ?thesis
      unfolding e by (rule pop_round_inv) (use pop.IH False in \<open>auto simp: chan_inv_def\<close>)
  qed (use pop.IH in \<open>simp add: pop_def record_pop_def\<close>)
next
  case (pop_resume c ins outs f)
  let ?c = "c\<lparr>ch_pop_woken := remove1 f (ch_pop_woken c)\<rparr>"
  note len = length_remove1_in [OF pop_resume.hyps(2)]
  show ?case
  proof (cases "ch_is_close c")
    case True
    with pop_resume.IH show ?thesis by (simp add: pop_resume_def record_pop_def chan_inv_def)
  next
    case False
    then have e: "pop_resume f c = pop_round f ?c" by (simp add: pop_resume_def Let_def)
    show ?thesis
      unfolding e by (rule pop_round_inv) (use pop_resume.IH False len in \<open>auto simp: chan_inv_def\<close>)
  qed
next
  case (close c ins outs)
  then show ?case by (auto simp: close_def chan_inv_def Let_def split: if_splits)
qed

section \<open>Operations that do not wait\<close>

lemma push_room:
  assumes "\<not> ch_is_close c" "length (ch_queue c) < ch_capacity c"
  shows "push f t c = (Some True, c\<lparr>ch_queue := ch_queue c @ [t],
    ch_pop_cond := snd (cond_notify (ch_pop_cond c)),
    ch_pop_woken := ch_pop_woken c @ fst (cond_notify (ch_pop_cond c))\<rparr>)"
  using assms by (simp add: push_def push_round_def Let_def case_prod_unfold del: cond_simps)

lemma pop_item:
  assumes "\<not> ch_is_close c" "ch_queue c = t # q"
  shows "pop f c = (Some (Some t), c\<lparr>ch_queue := q, ch_push_cond := snd (cond_notify (ch_push_cond c)),
    ch_push_woken := ch_push_woken c @ fst (cond_notify (ch_push_cond c))\<rparr>)"
  using assms by (simp add: pop_def pop_round_def Let_def case_prod_unfold del: cond_simps)

end
