(* ===== verification/RpcClient.thy ===== *)
theory RpcClient
  imports RpcServer Channel
begin

text \<open>
  The RPC client (\<open>acid/rpc/rpc_client.h\<close>, \<open>rpc_client.cpp\<close>). A call takes a sequence
  number, registers a channel of capacity 1 under it, hands its request to the sending
  fiber and waits on the channel; the receiving fiber routes responses by their number.
  The operations are split where a fiber waits. Response channels are cells of a heap; an
  entry of \<open>m_response_handle\<close> holds the cell of the call that made it, which also names
  the map's node, so that the iterator a call keeps is the cell it found there.
\<close>

section \<open>State\<close>

type_synonym response_channel = "protocol option channel"

record 's rpc_client =
  cl_auto_heartbeat :: bool
  cl_is_close :: bool
  cl_is_heart_close :: bool
  cl_timeout :: u64
  cl_connected :: bool
  cl_sequence_id :: u32
  cl_response_handle :: "(u32 \<times> nat) list"
  cl_channels :: "nat \<Rightarrow> response_channel"
  cl_channel :: "protocol option channel"
  cl_sub_handle :: "(bytes \<times> (byte_array \<Rightarrow> 's \<Rightarrow> 's)) list"

definition response_channel_new :: response_channel where
  "response_channel_new = channel_new 1 (\<lambda>_. None)"

text \<open>The constructor; \<open>m_timeout\<close> has no initial value of its own.\<close>

definition rpc_client_new :: "bool \<Rightarrow> u64 \<Rightarrow> nat \<Rightarrow> 's rpc_client" where
  "rpc_client_new auto_heartbeat timeout channel_capacity =
     \<lparr>cl_auto_heartbeat = auto_heartbeat, cl_is_close = True, cl_is_heart_close = True,
      cl_timeout = timeout, cl_connected = False, cl_sequence_id = 0, cl_response_handle = [],
      cl_channels = (\<lambda>_. response_channel_new),
      cl_channel = channel_new channel_capacity (\<lambda>_. None), cl_sub_handle = []\<rparr>"

definition set_timeout :: "'s rpc_client \<Rightarrow> u64 \<Rightarrow> 's rpc_client" where
  "set_timeout cl timeout_ms = cl\<lparr>cl_timeout := timeout_ms\<rparr>"

definition is_close :: "'s rpc_client \<Rightarrow> bool" where
  "is_close cl \<longleftrightarrow> \<not> cl_connected cl"

text \<open>\<open>connect\<close> with the outcome of creating and connecting the socket.\<close>

definition client_connect :: "bool \<Rightarrow> bool \<Rightarrow> nat \<Rightarrow> 's rpc_client \<Rightarrow> bool \<times> 's rpc_client" where
  "client_connect created connected channel_capacity cl =
     (if \<not> created then (False, cl)
      else if \<not> connected then (False, cl\<lparr>cl_connected := False\<rparr>)
      else (True, cl\<lparr>cl_is_heart_close := False, cl_is_close := False, cl_connected := True,
                    cl_channel := channel_new channel_capacity (\<lambda>_. None)\<rparr>))"

definition push_to :: "nat \<Rightarrow> protocol option \<Rightarrow> nat \<Rightarrow> (nat \<Rightarrow> response_channel) \<Rightarrow> nat \<Rightarrow> response_channel" where
  "push_to f p c chans = chans(c := snd (Channel.push f p (chans c)))"

text \<open>
  \<open>close\<close>: the null pointer goes to every registered channel; \<open>f\<close> is the fiber that closes. A
  channel that still holds a response has no room, and the fiber waits in its \<open>push\<close>: the
  result then holds that channel and what is left of the loop, and \<open>close_resume\<close> goes on
  from there. \<open>None\<close>: \<open>close\<close> has returned.
\<close>

fun close_loop :: "nat \<Rightarrow> (u32 \<times> nat) list \<Rightarrow> (nat \<Rightarrow> response_channel) \<Rightarrow>
    (nat \<times> (u32 \<times> nat) list) option \<times> (nat \<Rightarrow> response_channel)" where
  "close_loop f [] chans = (None, chans)"
| "close_loop f ((n, c) # es) chans =
     (case Channel.push f None (chans c) of
        (None, ch) \<Rightarrow> (Some (c, es), chans(c := ch))
      | (Some _, ch) \<Rightarrow> close_loop f es (chans(c := ch)))"

definition close_end ::
  "(nat \<times> (u32 \<times> nat) list) option \<times> (nat \<Rightarrow> response_channel) \<Rightarrow> 's rpc_client \<Rightarrow>
   (nat \<times> (u32 \<times> nat) list) option \<times> 's rpc_client" where
  "close_end r cl =
     (case r of
        (Some w, chans) \<Rightarrow> (Some w, cl\<lparr>cl_channels := chans\<rparr>)
      | (None, chans) \<Rightarrow> (None, cl\<lparr>cl_channels := chans, cl_response_handle := [], cl_connected := False\<rparr>))"

definition client_close ::
  "nat \<Rightarrow> 's rpc_client \<Rightarrow> (nat \<times> (u32 \<times> nat) list) option \<times> 's rpc_client" where
  "client_close f cl =
     (if cl_is_close cl then (None, cl)
      else
        let cl = cl\<lparr>cl_is_heart_close := True, cl_is_close := True, cl_channel := Channel.close (cl_channel cl)\<rparr>
        in close_end (close_loop f (cl_response_handle cl) (cl_channels cl)) cl)"

definition close_resume ::
  "nat \<Rightarrow> nat \<times> (u32 \<times> nat) list \<Rightarrow> 's rpc_client \<Rightarrow>
   (nat \<times> (u32 \<times> nat) list) option \<times> 's rpc_client" where
  "close_resume f w cl =
     (case Channel.push_resume f (cl_channels cl (fst w)) of
        (None, ch) \<Rightarrow> (Some w, cl\<lparr>cl_channels := (cl_channels cl)(fst w := ch)\<rparr>)
      | (Some _, ch) \<Rightarrow> close_end (close_loop f (snd w) ((cl_channels cl)(fst w := ch))) cl)"

section \<open>Calls\<close>

text \<open>The content of a request, with arguments and without.\<close>

definition call_content :: "bytes \<Rightarrow> val list \<Rightarrow> bytes res" where
  "call_content name params = pack (if params = [] then [Str name] else [Str name, Tuple params])"

definition closed_text :: bytes where "closed_text = to_bytes ''socket closed''"
definition timeout_text :: bytes where "timeout_text = to_bytes ''call timeout''"
definition no_method_text :: bytes where "no_method_text = to_bytes ''method not found''"
definition no_match_text :: bytes where "no_match_text = to_bytes ''return value not match''"

definition failed :: "val \<Rightarrow> rpc_state \<Rightarrow> bytes \<Rightarrow> rpc_result" where
  "failed v0 code msg = (result_new v0)\<lparr>r_code := state_code code, r_message := msg\<rparr>"

text \<open>
  The first half of \<open>call\<close>, up to waiting for the response: \<open>c\<close> is the cell of the new
  channel, \<open>f\<close> the calling fiber. \<open>Inl\<close> is an immediate result; otherwise the sequence
  number, the iterator and whether the request was accepted by the sending channel
  (\<open>None\<close>: the fiber waits for room).
\<close>

definition next_sequence_id :: "u32 \<Rightarrow> u32" where
  "next_sequence_id n = (let n = n + 1 in if n = - 1 then 0 else n)"

definition begin_call ::
  "val \<Rightarrow> nat \<Rightarrow> nat \<Rightarrow> bytes \<Rightarrow> 's rpc_client \<Rightarrow> rpc_result + (u32 \<times> nat \<times> bool option \<times> 's rpc_client)" where
  "begin_call v0 f c content' cl =
     (if is_close cl then Inl (failed v0 RPC_CLOSED closed_text)
      else
        let n = cl_sequence_id cl;
            cl = cl\<lparr>cl_channels := (cl_channels cl)(c := response_channel_new),
                   cl_response_handle := map_emplace (<) n c (cl_response_handle cl),
                   cl_sequence_id := next_sequence_id n\<rparr>;
            it = (case map_find (<) n (cl_response_handle cl) of Some d \<Rightarrow> d | None \<Rightarrow> c);
            (ok, ch) = Channel.push f (Some (create RPC_METHOD_REQUEST content' n)) (cl_channel cl)
        in Inr (n, it, ok, cl\<lparr>cl_channel := ch\<rparr>))"

text \<open>What the response, or its absence, is turned into. When reading throws, the value is
  what had been read of it; here it is the one before.\<close>

definition call_result ::
  "(val \<Rightarrow> val \<Rightarrow> bool) \<Rightarrow> ty \<Rightarrow> val \<Rightarrow> bool \<Rightarrow> protocol option \<Rightarrow> rpc_result res" where
  "call_result lt t v0 timeout response =
     (if timeout then Inr (failed v0 RPC_TIMEOUT timeout_text)
      else case response of
        None \<Rightarrow> Inr (failed v0 RPC_CLOSED closed_text)
      | Some p \<Rightarrow>
          if m_content p = [] then Inr (failed v0 RPC_NO_METHOD no_method_text)
          else bindR (serializer_of (m_content p)) (\<lambda>ba.
            case get_result lt t (result_new v0) ba of
              Inr (r, _) \<Rightarrow> Inr r
            | Inl e \<Rightarrow> if is_exception e then Inr (failed v0 RPC_NO_MATCH no_match_text) else Inl e))"

text \<open>
  The second half: reading the channel (\<open>None\<close>: the fiber waits), then erasing the
  iterator unless the client was closed. Erasing a node that is gone is undefined.
  \<open>timeout\<close> is the flag that the timer sets before it closes the channel.
\<close>

definition conclude_call ::
  "(val \<Rightarrow> val \<Rightarrow> bool) \<Rightarrow> ty \<Rightarrow> val \<Rightarrow> nat \<Rightarrow> u32 \<Rightarrow> nat \<Rightarrow> bool \<Rightarrow> protocol option option \<Rightarrow> response_channel \<Rightarrow>
   's rpc_client \<Rightarrow> (rpc_result \<times> 's rpc_client) res" where
  "conclude_call lt t v0 c n it timeout item ch cl =
     (let response = (case item of Some p \<Rightarrow> p | None \<Rightarrow> None);
          cl = cl\<lparr>cl_channels := (cl_channels cl)(c := ch)\<rparr>
      in
        if \<not> cl_is_close cl \<and> map_find (<) n (cl_response_handle cl) \<noteq> Some it then Inl Undefined
        else
          let cl = (if cl_is_close cl then cl
                    else cl\<lparr>cl_response_handle := map_erase (<) n (cl_response_handle cl)\<rparr>)
          in bindR (call_result lt t v0 timeout response) (\<lambda>r. Inr (r, cl)))"

definition finish_call ::
  "(val \<Rightarrow> val \<Rightarrow> bool) \<Rightarrow> ty \<Rightarrow> val \<Rightarrow> nat \<Rightarrow> nat \<Rightarrow> u32 \<Rightarrow> nat \<Rightarrow> bool \<Rightarrow> 's rpc_client \<Rightarrow>
   (rpc_result \<times> 's rpc_client) res option" where
  "finish_call lt t v0 f c n it timeout cl =
     (case Channel.pop f (cl_channels cl c) of
        (None, _) \<Rightarrow> None
      | (Some item, ch) \<Rightarrow> Some (conclude_call lt t v0 c n it timeout item ch cl))"

text \<open>A call that waits: the client while it does, and the call when its fiber runs again.\<close>

definition await_call :: "nat \<Rightarrow> nat \<Rightarrow> 's rpc_client \<Rightarrow> 's rpc_client" where
  "await_call f c cl = cl\<lparr>cl_channels := (cl_channels cl)(c := snd (Channel.pop f (cl_channels cl c)))\<rparr>"

definition resume_call ::
  "(val \<Rightarrow> val \<Rightarrow> bool) \<Rightarrow> ty \<Rightarrow> val \<Rightarrow> nat \<Rightarrow> nat \<Rightarrow> u32 \<Rightarrow> nat \<Rightarrow> bool \<Rightarrow> 's rpc_client \<Rightarrow>
   (rpc_result \<times> 's rpc_client) res option" where
  "resume_call lt t v0 f c n it timeout cl =
     (case Channel.pop_resume f (cl_channels cl c) of
        (None, _) \<Rightarrow> None
      | (Some item, ch) \<Rightarrow> Some (conclude_call lt t v0 c n it timeout item ch cl))"

text \<open>The body of the timeout timer.\<close>

definition call_timeout :: "nat \<Rightarrow> 's rpc_client \<Rightarrow> bool \<times> 's rpc_client" where
  "call_timeout c cl = (True, cl\<lparr>cl_channels := (cl_channels cl)(c := Channel.close (cl_channels cl c))\<rparr>)"

section \<open>The two fibers of a connection\<close>

definition handle_method_response :: "nat \<Rightarrow> protocol \<Rightarrow> 's rpc_client \<Rightarrow> 's rpc_client" where
  "handle_method_response f p cl =
     (case map_find (<) (m_sequence_id p) (cl_response_handle cl) of
        None \<Rightarrow> cl
      | Some c \<Rightarrow> cl\<lparr>cl_channels := push_to f (Some p) c (cl_channels cl)\<rparr>)"

definition client_handle_publish :: "protocol \<Rightarrow> 's rpc_client \<Rightarrow> 's \<Rightarrow> 's res" where
  "client_handle_publish p cl s =
     bindR (serializer_of (m_content p)) (\<lambda>ba.
     bindR (read_string_vint ba) (\<lambda>(key, ba).
       case map_find (<) key (cl_sub_handle cl) of None \<Rightarrow> Inr s | Some h \<Rightarrow> Inr (h ba s)))"

text \<open>One response in \<open>handle_recv\<close>: the flag says whether the loop goes on; when \<open>close\<close> has to wait,
  nothing but the rest of it follows.\<close>

definition recv_round :: "nat \<Rightarrow> protocol option \<Rightarrow> 's rpc_client \<Rightarrow> 's \<Rightarrow> (bool \<times> 's rpc_client \<times> 's) res" where
  "recv_round f response cl s =
     (case response of
        None \<Rightarrow> Inr (False, snd (client_close f cl), s)
      | Some p \<Rightarrow>
          let cl = cl\<lparr>cl_is_heart_close := False\<rparr>; t = m_type p in
          if t = type_code HEARTBEAT_PACKET then Inr (True, cl\<lparr>cl_is_heart_close := False\<rparr>, s)
          else if t = type_code RPC_METHOD_RESPONSE then Inr (True, handle_method_response f p cl, s)
          else if t = type_code RPC_PUBLISH_RESPONSE then
            bindR (client_handle_publish p cl s) (\<lambda>s. Inr (True, cl, s))
          else Inr (True, cl, s))"

fun handle_recv :: "nat \<Rightarrow> protocol option list \<Rightarrow> 's rpc_client \<Rightarrow> 's \<Rightarrow> ('s rpc_client \<times> 's) res" where
  "handle_recv f [] cl s = Inr (cl, s)"
| "handle_recv f (r # rs) cl s =
     bindR (recv_round f r cl s) (\<lambda>(go_on, cl, s). if go_on then handle_recv f rs cl s else Inr (cl, s))"

text \<open>One round of \<open>handle_send\<close>: waiting, leaving the loop, or a request to send, if it is
  not the null pointer.\<close>

datatype send_step = Send_wait | Send_exit | Send_request "protocol option"

definition send_round :: "nat \<Rightarrow> 's rpc_client \<Rightarrow> send_step \<times> 's rpc_client" where
  "send_round f cl =
     (case Channel.pop f (cl_channel cl) of
        (None, ch) \<Rightarrow> (Send_wait, cl\<lparr>cl_channel := ch\<rparr>)
      | (Some None, ch) \<Rightarrow> (Send_exit, cl\<lparr>cl_channel := ch\<rparr>)
      | (Some (Some p), ch) \<Rightarrow> (Send_request p, cl\<lparr>cl_channel := ch\<rparr>))"

text \<open>The heartbeat timer: what follows \<open>close\<close>, and the whole of it up to where its fiber waits, in
  \<open>close\<close> or for room in the sending channel.\<close>

definition heartbeat_rest :: "nat \<Rightarrow> 's rpc_client \<Rightarrow> 's rpc_client" where
  "heartbeat_rest f cl =
     (case Channel.push f (Some (create HEARTBEAT_PACKET [] 0)) (cl_channel cl) of
        (None, ch) \<Rightarrow> cl\<lparr>cl_channel := ch\<rparr>
      | (Some _, ch) \<Rightarrow> cl\<lparr>cl_channel := ch, cl_is_heart_close := True\<rparr>)"

definition client_heartbeat :: "nat \<Rightarrow> 's rpc_client \<Rightarrow> 's rpc_client" where
  "client_heartbeat f cl =
     (if cl_is_heart_close cl then
        case client_close f cl of (Some w, cl) \<Rightarrow> cl | (None, cl) \<Rightarrow> heartbeat_rest f cl
      else heartbeat_rest f cl)"

text \<open>\<open>subscribe\<close>: a second subscription of a key fails the assertion.\<close>

definition subscribe ::
  "nat \<Rightarrow> bytes \<Rightarrow> (byte_array \<Rightarrow> 's \<Rightarrow> 's) \<Rightarrow> 's rpc_client \<Rightarrow> 's rpc_client res" where
  "subscribe f key func cl =
     (if map_find (<) key (cl_sub_handle cl) \<noteq> None then Inl Assert_failed
      else bindR (pack [Str key]) (\<lambda>content.
        let cl = cl\<lparr>cl_sub_handle := map_emplace (<) key func (cl_sub_handle cl)\<rparr> in
        Inr (cl\<lparr>cl_channel := snd (Channel.push f (Some (create RPC_SUBSCRIBE_REQUEST content 0))
                                 (cl_channel cl))\<rparr>)))"

section \<open>Laws\<close>

abbreviation handles_ok :: "'s rpc_client \<Rightarrow> bool" where
  "handles_ok cl \<equiv> sorted_wrt (\<lambda>a b. fst a < fst b) (cl_response_handle cl)"

lemma next_sequence_id_bound: "n \<noteq> - 1 \<Longrightarrow> next_sequence_id n \<noteq> (- 1 :: u32)"
  by (simp add: next_sequence_id_def Let_def)

lemma call_content_bytes:
  "call_content name params = Inr (venc Big (Str name) @ venc Big (Tuple params))"
  by (simp add: call_content_def pack_bytes)

lemma begin_call_spec:
  assumes "cl_connected cl" "handles_ok cl" "map_find (<) (cl_sequence_id cl) (cl_response_handle cl) = None"
    and "\<not> ch_is_close (cl_channel cl)" "length (ch_queue (cl_channel cl)) < ch_capacity (cl_channel cl)"
  defines "n \<equiv> cl_sequence_id cl"
  shows "\<exists>cl'. begin_call v0 f c cs cl = Inr (n, c, Some True, cl') \<and> handles_ok cl' \<and>
    map_find (<) n (cl_response_handle cl') = Some c \<and>
    (\<forall>k. k \<noteq> n \<longrightarrow> map_find (<) k (cl_response_handle cl') = map_find (<) k (cl_response_handle cl)) \<and>
    cl_channels cl' = (cl_channels cl)(c := response_channel_new) \<and>
    ch_queue (cl_channel cl') = ch_queue (cl_channel cl) @ [Some (create RPC_METHOD_REQUEST cs n)] \<and>
    cl_is_close cl' = cl_is_close cl \<and> cl_sequence_id cl' = next_sequence_id n"
proof -
  let ?h = "map_emplace (<) n c (cl_response_handle cl)"
  have f: "map_find (<) n ?h = Some c"
    using std_less.find_emplace [OF assms(2)] assms(3) by (simp add: n_def)
  have o: "map_find (<) k ?h = map_find (<) k (cl_response_handle cl)" if "k \<noteq> n" for k
    by (rule std_less.find_emplace_other) (use that in \<open>auto simp: equiv_key_def\<close>)
  have s: "sorted_wrt (\<lambda>a b. fst a < fst b) ?h"
    by (rule std_less.emplace_ordered [OF assms(2)])
  obtain ch where ch: "Channel.push f (Some (create RPC_METHOD_REQUEST cs n)) (cl_channel cl) = (Some True, ch)"
    "ch_queue ch = ch_queue (cl_channel cl) @ [Some (create RPC_METHOD_REQUEST cs n)]"
    using push_room [OF assms(4,5)] by simp
  show ?thesis
    using assms(1) f o s ch
    by (simp add: begin_call_def is_close_def Let_def n_def [symmetric])
qed

lemma response_routed:
  assumes "map_find (<) (m_sequence_id p) (cl_response_handle cl) = Some c"
    and "cl_channels cl c = response_channel_new"
  shows "\<exists>ch ch'. handle_method_response f p cl = cl\<lparr>cl_channels := (cl_channels cl)(c := ch)\<rparr> \<and>
    Channel.pop g ch = (Some (Some (Some p)), ch')"
proof -
  let ?ch = "snd (Channel.push f (Some p) response_channel_new)"
  have "\<not> ch_is_close ?ch" "ch_queue ?ch = [Some p]"
    by (simp_all add: push_room response_channel_new_def channel_new_def)
  from pop_item [OF this, of g] assms show ?thesis
    by (auto simp: handle_method_response_def push_to_def)
qed

text \<open>Closing the client. A channel takes the null pointer at once when it is closed or has room.\<close>

definition takes_null :: "response_channel \<Rightarrow> bool" where
  "takes_null ch \<longleftrightarrow> ch_is_close ch \<or> length (ch_queue ch) < ch_capacity ch"

lemma takes_null_push: "takes_null ch \<longleftrightarrow> fst (Channel.push f None ch) \<noteq> None"
  by (auto simp: takes_null_def push_def push_round_def Let_def case_prod_unfold)

lemma close_loop_returns:
  assumes "distinct (map snd es)" "\<And>n c. (n, c) \<in> set es \<Longrightarrow> takes_null (chans c)"
  shows "close_loop f es chans =
    (None, \<lambda>c. if c \<in> snd ` set es then snd (Channel.push f None (chans c)) else chans c)"
  using assms
proof (induction es arbitrary: chans)
  case (Cons e es)
  obtain n c where e: "e = (n, c)" by fastforce
  obtain b ch where p: "Channel.push f None (chans c) = (Some b, ch)"
    using Cons.prems(2) [of n c] takes_null_push [of "chans c" f] e
    by (cases "Channel.push f None (chans c)") (metis fst_conv list.set_intros(1) option.exhaust)
  have c: "c \<notin> snd ` set es" using Cons.prems(1) e by auto
  have "close_loop f es (chans(c := ch)) =
    (None, \<lambda>d. if d \<in> snd ` set es then snd (Channel.push f None ((chans(c := ch)) d)) else (chans(c := ch)) d)"
    by (rule Cons.IH) (use Cons.prems c e in \<open>auto simp: image_iff\<close>)
  then show ?case
    using p c e by (auto simp: fun_eq_iff)
qed simp

text \<open>The first channel that does not take it keeps the closing fiber waiting.\<close>

lemma close_loop_waits:
  assumes "\<not> takes_null (chans c)" "distinct (map snd (es @ (n, c) # es'))"
    and "\<And>n c. (n, c) \<in> set es \<Longrightarrow> takes_null (chans c)"
  shows "fst (close_loop f (es @ (n, c) # es') chans) = Some (c, es')"
  using assms
proof (induction es arbitrary: chans)
  case Nil
  then have "fst (Channel.push f None (chans c)) = None" using takes_null_push by blast
  then show ?case by (cases "Channel.push f None (chans c)") simp
next
  case (Cons e es)
  obtain m d where e: "e = (m, d)" by fastforce
  obtain b ch where p: "Channel.push f None (chans d) = (Some b, ch)"
    using Cons.prems(3) [of m d] takes_null_push [of "chans d" f] e
    by (cases "Channel.push f None (chans d)") (metis fst_conv list.set_intros(1) option.exhaust)
  have d: "d \<noteq> c" "d \<notin> snd ` set es" using Cons.prems(2) e by auto
  have "fst (close_loop f (es @ (n, c) # es') (chans(d := ch))) = Some (c, es')"
    by (rule Cons.IH) (use Cons.prems d e in \<open>auto simp: image_iff\<close>)
  with p e show ?case by simp
qed

definition closed_client :: "nat \<Rightarrow> 's rpc_client \<Rightarrow> 's rpc_client" where
  "closed_client g cl = cl\<lparr>cl_is_heart_close := True, cl_is_close := True, cl_channel := Channel.close (cl_channel cl),
     cl_channels := (\<lambda>c. if c \<in> snd ` set (cl_response_handle cl)
       then snd (Channel.push g None (cl_channels cl c)) else cl_channels cl c),
     cl_response_handle := [], cl_connected := False\<rparr>"

lemma client_close_returns:
  assumes "\<not> cl_is_close cl" "distinct (map snd (cl_response_handle cl))"
    and "\<And>n c. (n, c) \<in> set (cl_response_handle cl) \<Longrightarrow> takes_null (cl_channels cl c)"
  shows "client_close g cl = (None, closed_client g cl)"
  using close_loop_returns [OF assms(2,3)] assms(1)
  by (simp add: client_close_def close_end_def closed_client_def Let_def)

lemma null_concludes:
  assumes "cl_is_close cl"
  shows "conclude_call lt t v0 c n it False (Some None) ch cl =
    Inr (failed v0 RPC_CLOSED closed_text, cl\<lparr>cl_channels := (cl_channels cl)(c := ch)\<rparr>)"
  using assms by (simp add: conclude_call_def call_result_def Let_def)

lemma null_wakes:
  fixes g :: nat
  assumes "ch = snd (Channel.pop f response_channel_new)"
  defines "ch' \<equiv> snd (Channel.push g None ch)"
  shows "f \<in> set (ch_pop_woken ch')" "\<exists>ch''. Channel.pop_resume f ch' = (Some (Some None), ch'')"
  unfolding ch'_def assms(1)
  by (simp_all add: response_channel_new_def channel_new_def push_def pop_def push_round_def pop_round_def pop_resume_def
      Let_def case_prod_unfold del: cond_simps)
     (simp_all add: cond_wait_def cond_notify_def cond_new_def)

lemma null_found:
  "\<exists>ch''. Channel.pop f (snd (Channel.push g None response_channel_new)) = (Some (Some None), ch'')"
  by (simp add: response_channel_new_def channel_new_def push_def pop_def push_round_def pop_round_def Let_def case_prod_unfold)

lemma close_ends_call:
  assumes "\<not> cl_is_close cl" "distinct (map snd (cl_response_handle cl))" "(n, c) \<in> set (cl_response_handle cl)"
    and "\<And>n c. (n, c) \<in> set (cl_response_handle cl) \<Longrightarrow> takes_null (cl_channels cl c)"
  shows "\<exists>cl1. client_close g cl = (None, cl1) \<and> cl_response_handle cl1 = [] \<and> is_close cl1 \<and>
    (cl_channels cl c = snd (Channel.pop f response_channel_new) \<longrightarrow>
      f \<in> set (ch_pop_woken (cl_channels cl1 c)) \<and>
      (\<exists>cl2. resume_call lt t v0 f c n it False cl1 = Some (Inr (failed v0 RPC_CLOSED closed_text, cl2)))) \<and>
    (cl_channels cl c = response_channel_new \<longrightarrow>
      (\<exists>cl2. finish_call lt t v0 f c n it False cl1 = Some (Inr (failed v0 RPC_CLOSED closed_text, cl2))))"
proof -
  let ?cl = "closed_client g cl"
  have k: "cl_response_handle ?cl = []" "is_close ?cl" "cl_is_close ?cl"
    by (simp_all add: closed_client_def is_close_def)
  have "c \<in> snd ` set (cl_response_handle cl)" using assms(3) by (force simp: image_iff)
  then have ch: "cl_channels ?cl c = snd (Channel.push g None (cl_channels cl c))" by (simp add: closed_client_def)
  have waiting: "f \<in> set (ch_pop_woken (cl_channels ?cl c)) \<and>
      (\<exists>cl2. resume_call lt t v0 f c n it False ?cl = Some (Inr (failed v0 RPC_CLOSED closed_text, cl2)))"
    if "cl_channels cl c = snd (Channel.pop f response_channel_new)"
    using null_wakes [OF that, of g] null_concludes [OF k(3)] by (auto simp: resume_call_def ch)
  have before: "\<exists>cl2. finish_call lt t v0 f c n it False ?cl = Some (Inr (failed v0 RPC_CLOSED closed_text, cl2))"
    if "cl_channels cl c = response_channel_new"
    using null_found [of f g] null_concludes [OF k(3)] that by (auto simp: finish_call_def ch)
  have "client_close g cl = (None, ?cl)"
    by (rule client_close_returns [OF assms(1,2)]) (rule assms(4))
  with k(1,2) waiting before show ?thesis by blast
qed

section \<open>A call from end to end\<close>

lemma create_type: "m_type (create ty cs n) = type_code ty"
  by (simp add: create_def set_message_type_def Let_def)

lemma result_bytes_nonempty: "result_bytes en r \<noteq> []"
proof -
  have "venc en (U16 (r_code r)) \<noteq> []"
    using arg_cong [where f = length] by (auto simp flip: length_greater_0_conv)
  then show ?thesis unfolding result_bytes_def by blast
qed

lemma call_result_value:
  assumes "strict_weak lt" "has_ty lt t (r_value r)" "r_code r = 0" "length (r_message r) < 2 ^ 64"
    and "length (result_bytes Big r) < 4096" "starts t v0" "m_content p = result_bytes Big r"
  shows "call_result lt t v0 False (Some p) = Inr r"
proof -
  obtain ba where ba: "serializer_of (m_content p) = Inr ba" "at_input ba (result_bytes Big r)"
    "m_position ba = 0" "m_base_size ba = 4096" "m_endian ba = Big"
    using serializer_of_input [of "result_bytes Big r"] assms(5,7) by auto
  from get_result_reads [OF assms(1,2,4), of ba "[]" v0] ba assms(3,5,6)
  have "\<exists>ba'. get_result lt t (result_new v0) ba = Inr (r, ba')" by simp
  then show ?thesis
    using ba(1) result_bytes_nonempty [of Big r] assms(7) by (auto simp: call_result_def)
qed

lemma finish_call_value:
  assumes "Channel.pop f (cl_channels cl c) = (Some (Some (Some p)), ch)"
    and "map_find (<) n (cl_response_handle cl) = Some it" "\<not> cl_is_close cl"
    and "call_result lt t v0 False (Some p) = Inr r"
  shows "finish_call lt t v0 f c n it False cl = Some (Inr (r,
    cl\<lparr>cl_channels := (cl_channels cl)(c := ch), cl_response_handle := map_erase (<) n (cl_response_handle cl)\<rparr>))"
  using assms by (simp add: finish_call_def conclude_call_def Let_def)

text \<open>A client that can send a call, and a server that answers it with \<open>rt\<close>.\<close>

definition call_ready :: "'s rpc_client \<Rightarrow> bool" where
  "call_ready cl \<longleftrightarrow>
     cl_connected cl \<and> \<not> cl_is_close cl \<and> handles_ok cl \<and>
     map_find (<) (cl_sequence_id cl) (cl_response_handle cl) = None \<and>
     \<not> ch_is_close (cl_channel cl) \<and> length (ch_queue (cl_channel cl)) < ch_capacity (cl_channel cl)"

definition serves ::
  "(val \<Rightarrow> val \<Rightarrow> bool) \<Rightarrow> 's rpc_server \<Rightarrow> bytes \<Rightarrow> val list \<Rightarrow> 's \<Rightarrow> ty \<Rightarrow> val \<Rightarrow> 's \<Rightarrow> bool" where
  "serves lt sv name vs s t rt s' \<longleftrightarrow>
     strict_weak lt \<and> has_ty lt t rt \<and>
     (\<exists>m. map_find (<) name (sv_handlers sv) = Some m \<and> list_all2 (has_ty lt) (md_args m) vs \<and>
        md_return m = Some t \<and> md_fun m vs s = (rt, s'))"

lemma rpc_call_returns:
  assumes cl: "cl_connected cl" "\<not> cl_is_close cl" "handles_ok cl"
      "map_find (<) (cl_sequence_id cl) (cl_response_handle cl) = None"
      "\<not> ch_is_close (cl_channel cl)" "length (ch_queue (cl_channel cl)) < ch_capacity (cl_channel cl)"
    and sv: "map_find (<) name (sv_handlers sv) = Some m" "list_all2 (has_ty lt) (md_args m) vs"
      "md_return m = Some t" "md_fun m vs s = (rt, s')" "has_ty lt t rt" "strict_weak lt"
    and sz: "length (venc Big (Str name) @ venc Big (Tuple vs)) < 4096"
      "length (result_bytes Big ((result_new v1)\<lparr>r_code := 0, r_value := rt\<rparr>)) < 4096"
    and st: "starts t v0"
  shows "\<exists>cs request response r cl1 cl2 cl3. call_content name vs = Inr cs \<and>
    begin_call v0 f c cs cl = Inr (cl_sequence_id cl, c, Some True, cl1) \<and>
    ch_queue (cl_channel cl1) = ch_queue (cl_channel cl) @ [Some request] \<and>
    over_wire request = Inr (Some request) \<and>
    handle_request lt lc v1 u sv peer request s = Inr (Some response, sv, s') \<and>
    over_wire response = Inr (Some response) \<and>
    recv_round g (Some response) cl1 w = Inr (True, cl2, w) \<and>
    finish_call lt t v0 f c (cl_sequence_id cl) c False cl2 = Some (Inr (r, cl3)) \<and>
    r_code r = 0 \<and> r_value r = rt \<and> map_find (<) (cl_sequence_id cl) (cl_response_handle cl3) = None"
proof -
  let ?n = "cl_sequence_id cl" and ?cs = "venc Big (Str name) @ venc Big (Tuple vs)"
  let ?r = "(result_new v1)\<lparr>r_code := 0, r_value := rt\<rparr>"
  let ?req = "create RPC_METHOD_REQUEST ?cs ?n"
  let ?resp = "create RPC_METHOD_RESPONSE (result_bytes Big ?r) ?n"
  obtain cl1 where b: "begin_call v0 f c ?cs cl = Inr (?n, c, Some True, cl1)"
    "map_find (<) ?n (cl_response_handle cl1) = Some c"
    "cl_channels cl1 = (cl_channels cl)(c := response_channel_new)"
    "ch_queue (cl_channel cl1) = ch_queue (cl_channel cl) @ [Some ?req]" "cl_is_close cl1 = cl_is_close cl"
    using begin_call_spec [OF cl(1,3-6), of v0 f c ?cs] by blast
  have np: "rt \<noteq> Pair a b" for a b
    using sv(5) by (auto elim: has_ty.cases simp: prim_ty_def)
  have c: "m_content ?req = ?cs" "m_content ?resp = result_bytes Big ?r" "m_sequence_id ?req = ?n"
    "m_sequence_id ?resp = ?n"
    by (simp_all add: create_def set_message_type_def Let_def)
  have w: "over_wire ?req = Inr (Some ?req)" "over_wire ?resp = Inr (Some ?resp)"
    using sz by (simp_all add: over_wire_created)
  have h: "handle_method_call lt lc v1 sv ?req s = Inr (?resp, s')"
    using handle_method_call_result [OF c(1) _ sv(1,6,2,4,3) np, of lc v1] sz(1) c(1,3) by simp
  then have q: "handle_request lt lc v1 u sv peer ?req s = Inr (Some ?resp, sv, s')"
    by (simp add: handle_request_def create_type)
  let ?cl1 = "cl1\<lparr>cl_is_heart_close := False\<rparr>"
  obtain ch ch' where R: "handle_method_response g ?resp ?cl1 = ?cl1\<lparr>cl_channels := (cl_channels ?cl1)(c := ch)\<rparr>"
    "Channel.pop f ch = (Some (Some (Some ?resp)), ch')"
    using response_routed [of ?resp ?cl1 c g f] b(2,3) c(4) by auto
  have v: "call_result lt t v0 False (Some ?resp) = Inr ?r"
    by (rule call_result_value [OF sv(6) _ _ _ sz(2) st c(2)])
       (use sv(5) in \<open>simp_all add: result_new_def\<close>)
  let ?cl2 = "?cl1\<lparr>cl_channels := (cl_channels ?cl1)(c := ch)\<rparr>"
  have V: "recv_round g (Some ?resp) cl1 w = Inr (True, ?cl2, w)" for w
    using R(1) by (simp add: recv_round_def Let_def create_type)
  define cl3 where "cl3 = ?cl2\<lparr>cl_channels := (cl_channels ?cl2)(c := ch'),
      cl_response_handle := map_erase (<) ?n (cl_response_handle ?cl2)\<rparr>"
  have F: "finish_call lt t v0 f c ?n c False ?cl2 = Some (Inr (?r, cl3))"
    unfolding cl3_def
    by (rule finish_call_value [OF _ _ _ v]) (use R(2) b(2,5) cl(2) in simp_all)
  have "map_find (<) ?n (cl_response_handle cl3) = None"
    by (simp add: cl3_def std_less.find_erase)
  moreover have "r_code ?r = 0" "r_value ?r = rt" by simp_all
  ultimately show ?thesis
    using call_content_bytes [of name vs] b(1,4) w q V F by blast
qed

end
