(* ===== verification/Registry_Spec.thy ===== *)
theory Registry_Spec
  imports Registry
begin

text \<open>
  What the registry promises. The abstract state is the list of addresses of each service;
  \<open>registry_inv\<close> ties the multimap, its nodes and the index by address together, every
  handler keeps it, and on the abstract state registering appends an address and
  unregistering removes it everywhere. The last part shows what the heartbeat timers of
  a connection do.
\<close>

section \<open>The multimap\<close>

definition services_of :: "registry \<Rightarrow> bytes \<Rightarrow> bytes list" where
  "services_of rg n = map (fst \<circ> snd) (filter (\<lambda>e. fst e = n) (rg_services rg))"

abbreviation node_of :: "service \<Rightarrow> nat" where
  "node_of e \<equiv> snd (snd e)"

abbreviation address_of :: "service \<Rightarrow> bytes" where
  "address_of e \<equiv> fst (snd e)"

abbreviation services_sorted :: "service list \<Rightarrow> bool" where
  "services_sorted es \<equiv> sorted_wrt (\<lambda>a b. \<not> service_less b a) es"

lemma multi_insert_sorted: "services_sorted es \<Longrightarrow> services_sorted (multi_insert service_less e es)"
  by (induction es) (auto simp: service_less_def)

lemma multi_insert_nodes:
  "distinct (map node_of (multi_insert lt e es)) \<longleftrightarrow>
     distinct (map node_of es) \<and> node_of e \<notin> node_of ` set es"
  by (induction es) auto

lemma multi_insert_last_of_key:
  "services_sorted es \<Longrightarrow> filter (\<lambda>e. fst e = n) (multi_insert service_less e es) =
     (if fst e = n then filter (\<lambda>e. fst e = n) es @ [e] else filter (\<lambda>e. fst e = n) es)"
proof (induction es)
  case (Cons y ys)
  show ?case
  proof (cases "fst e < fst y")
    case True
    then have "\<forall>z \<in> set (y # ys). fst z \<noteq> fst e"
      using Cons.prems by (auto simp: service_less_def)
    then have "filter (\<lambda>z. fst z = fst e) (y # ys) = []" unfolding filter_empty_conv by blast
    with True show ?thesis by (auto simp: service_less_def)
  next
    case False
    with Cons show ?thesis by (simp add: service_less_def)
  qed
qed simp

section \<open>Invariant\<close>

definition nodes_at :: "registry \<Rightarrow> bytes \<Rightarrow> nat list" where
  "nodes_at rg addr = (case rg_iters rg addr of None \<Rightarrow> [] | Some its \<Rightarrow> its)"

definition registry_inv :: "registry \<Rightarrow> bool" where
  "registry_inv rg \<longleftrightarrow>
     services_sorted (rg_services rg) \<and> distinct (map node_of (rg_services rg)) \<and>
     (\<forall>e \<in> set (rg_services rg). node_of e < rg_next rg) \<and>
     (\<forall>addr. set (nodes_at rg addr) = node_of ` {e \<in> set (rg_services rg). address_of e = addr})"

lemma registry_new_inv: "registry_inv (registry_new t)"
  by (simp add: registry_inv_def registry_new_def nodes_at_def)

lemma publish_total: "\<exists>out. publish live rg key data = Inr out"
  by (simp add: publish_def pack_bytes)

lemma publish_to:
  "publish live rg key data = Inr out \<Longrightarrow> (s, p) \<in> set out \<Longrightarrow>
     (key, s) \<in> set (rg_subscribes rg) \<and> live s \<and>
     p = create RPC_PUBLISH_REQUEST (venc Big (Str key) @ venc Big data) 0"
  by (auto simp: publish_def pack_bytes split: if_splits)

section \<open>Registering\<close>

definition registered :: "registry \<Rightarrow> bytes \<Rightarrow> bytes \<Rightarrow> registry" where
  "registered rg n addr =
     rg\<lparr>rg_services := multi_insert service_less (n, addr, rg_next rg) (rg_services rg),
        rg_next := rg_next rg + 1,
        rg_iters := (rg_iters rg)(addr \<mapsto> nodes_at rg addr @ [rg_next rg])\<rparr>"

lemma registered_inv:
  assumes "registry_inv rg"
  shows "registry_inv (registered rg n addr)"
    and "services_of (registered rg n addr) =
      (services_of rg)(n := services_of rg n @ [addr])"
proof -
  have I: "services_sorted (rg_services rg)" "distinct (map node_of (rg_services rg))"
    "\<And>e. e \<in> set (rg_services rg) \<Longrightarrow> node_of e < rg_next rg"
    "\<And>addr. set (nodes_at rg addr) = node_of ` {e \<in> set (rg_services rg). address_of e = addr}"
    using assms by (auto simp: registry_inv_def)
  have "rg_next rg \<notin> node_of ` set (rg_services rg)" using I(3) by force
  moreover have "set (nodes_at (registered rg n addr) a) =
      node_of ` {e \<in> set (rg_services (registered rg n addr)). address_of e = a}" for a
  proof -
    have "set (nodes_at (registered rg n addr) a) =
        (if a = addr then insert (rg_next rg) (set (nodes_at rg a)) else set (nodes_at rg a))"
      by (auto simp: registered_def nodes_at_def)
    moreover have "{e \<in> set (rg_services (registered rg n addr)). address_of e = a} =
        (if a = addr then insert (n, addr, rg_next rg) {e \<in> set (rg_services rg). address_of e = a}
         else {e \<in> set (rg_services rg). address_of e = a})"
      by (auto simp: registered_def)
    ultimately show ?thesis using I(4) [of a] by (cases "a = addr") simp_all
  qed
  ultimately show "registry_inv (registered rg n addr)"
    using I(1-3) multi_insert_sorted
    by (auto simp: registry_inv_def registered_def multi_insert_nodes less_Suc_eq)
  show "services_of (registered rg n addr) = (services_of rg)(n := services_of rg n @ [addr])"
    using multi_insert_last_of_key [OF I(1)]
    by (auto simp: services_of_def registered_def fun_eq_iff)
qed

definition register_response :: "bytes \<Rightarrow> protocol" where
  "register_response n =
     create RPC_SERVICE_REGISTER_RESPONSE
       (result_bytes Big ((result_success (Str []))\<lparr>r_value := Str n\<rparr>)) 0"

lemma register_spec:
  assumes "address_to_string a = Inr s"
  shows "\<exists>out. handle_register_service live rg p (Some a) =
    Inr (register_response (m_content p), out, registered rg (m_content p) (to_bytes s))"
proof -
  let ?rg = "registered rg (m_content p) (to_bytes s)"
  obtain out where "publish live ?rg (RPC_SERVICE_SUBSCRIBE @ m_content p) (service_data True (to_bytes s)) = Inr out"
    using publish_total by blast
  then show ?thesis
    using assms
    by (simp add: handle_register_service_def Let_def pack_result_bytes register_response_def
        registered_def nodes_at_def)
qed

section \<open>Unregistering\<close>

lemma unregister_loop_spec:
  "\<exists>out. unregister_loop live addr is rg =
     Inr (out, rg\<lparr>rg_services := filter (\<lambda>e. node_of e \<notin> set is) (rg_services rg)\<rparr>)"
proof (induction "is" arbitrary: rg)
  case (Cons i "is")
  let ?rg = "rg\<lparr>rg_services := filter (\<lambda>e. node_of e \<noteq> i) (rg_services rg)\<rparr>"
  obtain out where "publish live ?rg (RPC_SERVICE_SUBSCRIBE @ addr) (service_data False addr) = Inr out"
    using publish_total by blast
  moreover obtain out' where "unregister_loop live addr is ?rg =
      Inr (out', ?rg\<lparr>rg_services := filter (\<lambda>e. node_of e \<notin> set is) (rg_services ?rg)\<rparr>)"
    using Cons.IH by blast
  ultimately show ?case by (simp add: Let_def conj_commute)
qed simp

lemma nodes_filter:
  assumes "registry_inv rg"
  shows "filter (\<lambda>e. node_of e \<notin> set (nodes_at rg addr)) (rg_services rg) =
    filter (\<lambda>e. address_of e \<noteq> addr) (rg_services rg)"
proof (rule filter_cong [OF refl])
  fix e assume e: "e \<in> set (rg_services rg)"
  have "set (nodes_at rg addr) = node_of ` {e \<in> set (rg_services rg). address_of e = addr}"
    "inj_on node_of (set (rg_services rg))"
    using assms by (auto simp: registry_inv_def distinct_map)
  with e show "(node_of e \<notin> set (nodes_at rg addr)) = (address_of e \<noteq> addr)"
    by (auto dest: inj_onD)
qed

lemma unregister_spec:
  assumes inv: "registry_inv rg" and a: "address_to_string a = Inr s"
  shows "\<exists>out rg'. handle_unregister_service live rg a = Inr (out, rg') \<and> registry_inv rg' \<and>
    services_of rg' = (\<lambda>n. filter (\<lambda>x. x \<noteq> to_bytes s) (services_of rg n))"
proof -
  let ?addr = "to_bytes s"
  define rg' where "rg' = rg\<lparr>rg_services := filter (\<lambda>e. address_of e \<noteq> ?addr) (rg_services rg),
      rg_iters := (rg_iters rg)(?addr := None)\<rparr>"
  obtain out where out: "unregister_loop live ?addr (nodes_at rg ?addr) rg =
      Inr (out, rg\<lparr>rg_services := filter (\<lambda>e. address_of e \<noteq> ?addr) (rg_services rg)\<rparr>)"
    using unregister_loop_spec [of live ?addr "nodes_at rg ?addr" rg] nodes_filter [OF inv] by auto
  have nodes: "set (nodes_at rg' b) = node_of ` {e \<in> set (rg_services rg'). address_of e = b}" for b
  proof -
    have "set (nodes_at rg b) = node_of ` {e \<in> set (rg_services rg). address_of e = b}"
      using inv by (simp add: registry_inv_def)
    then show ?thesis by (auto simp: rg'_def nodes_at_def)
  qed
  have I: "registry_inv rg'"
    using inv nodes
    by (auto simp: registry_inv_def rg'_def sorted_wrt_filter distinct_map_filter)
  have S: "services_of rg' = (\<lambda>n. filter (\<lambda>x. x \<noteq> ?addr) (services_of rg n))"
    by (rule ext) (simp add: services_of_def rg'_def filter_map comp_def conj_commute)
  show ?thesis
  proof (cases "rg_iters rg ?addr")
    case None
    then have "nodes_at rg ?addr = []" by (simp add: nodes_at_def)
    then have "rg_services rg = filter (\<lambda>e. address_of e \<noteq> ?addr) (rg_services rg)"
      using nodes_filter [OF inv, of ?addr] by simp
    moreover have "(rg_iters rg)(?addr := None) = rg_iters rg" using None by auto
    ultimately have "rg' = rg" by (simp add: rg'_def)
    with None a I S show ?thesis by (auto simp: handle_unregister_service_def)
  next
    case (Some its)
    then have "nodes_at rg ?addr = its" by (simp add: nodes_at_def)
    with Some a out I S show ?thesis
      by (simp add: handle_unregister_service_def rg'_def Let_def)
  qed
qed

section \<open>Discovering\<close>

text \<open>The results that are sent: one per address, or a single \<open>RPC_NO_METHOD\<close>.\<close>

definition address_result :: "bytes \<Rightarrow> rpc_result" where
  "address_result addr = (result_new (Str []))\<lparr>r_code := 0, r_value := Str addr\<rparr>"

definition missing_result :: "bytes \<Rightarrow> rpc_result" where
  "missing_result n = (result_new (Str []))\<lparr>r_code := 3, r_message := no_service_text @ n\<rparr>"

lemma discover_results_eq:
  "discover_results rg n =
     (if services_of rg n = [] then [missing_result n] else map address_result (services_of rg n))"
  by (simp add: discover_results_def services_of_def Let_def missing_result_def address_result_def)

definition discover_bytes :: "bytes \<Rightarrow> rpc_result list \<Rightarrow> bytes" where
  "discover_bytes n rs =
     (venc Big (Str n) @ venc Big (U32 (of_nat (length rs)))) @ concat (map (result_bytes Big) rs)"

lemma put_results_puts:
  assumes "\<And>r a b. r \<in> set rs \<Longrightarrow> r_value r \<noteq> Pair a b"
  shows "ba_inv ba \<Longrightarrow> puts (put_results ba rs) ba (concat (map (result_bytes (m_endian ba)) rs))"
  using assms
proof (induction rs arbitrary: ba)
  case (Cons r rs)
  have "puts (put_result ba r) ba (result_bytes (m_endian ba) r)"
    using put_result_puts [OF Cons.prems(1)] Cons.prems(2) by simp
  from puts_bind [OF Cons.prems(1) this] show ?case
    unfolding put_results.simps list.map concat.simps
    using Cons.IH Cons.prems(2) by (metis list.set_intros(2))
qed (simp add: puts_none)

lemma discover_spec:
  assumes "length (services_of rg (m_content p)) < 2 ^ 32"
  shows "handle_discover_service rg p =
    Inr (create RPC_SERVICE_DISCOVER_RESPONSE
      (discover_bytes (m_content p) (discover_results rg (m_content p))) 0)"
proof -
  let ?n = "m_content p" and ?rs = "discover_results rg (m_content p)"
  have len: "length ?rs < 2 ^ 32"
    using assms by (simp add: discover_results_eq)
  have take: "take (unat (of_nat (length ?rs) :: u32)) ?rs = ?rs"
    using len by (simp add: unat_of_nat take_bit_nat_eq_self)
  have np: "r_value r \<noteq> Pair a b" if "r \<in> set ?rs" for r a b
    using that by (auto simp: discover_results_eq missing_result_def address_result_def
        result_new_def split: if_splits)
  have "puts (bindR (put_all byte_array_default [Str ?n, U32 (of_nat (length ?rs))])
      (\<lambda>ba. put_results ba ?rs)) byte_array_default (discover_bytes ?n ?rs)"
    unfolding discover_bytes_def
  proof (rule puts_bind [OF default_inv(1)])
    show "puts (put_all byte_array_default [Str ?n, U32 (of_nat (length ?rs))]) byte_array_default
        (venc Big (Str ?n) @ venc Big (U32 (of_nat (length ?rs))))"
      using put_all_default [of "[Str ?n, U32 (of_nat (length ?rs))]"] by simp
    show "puts (put_results b1 ?rs) b1 (concat (map (result_bytes Big) ?rs))"
      if "ba_inv b1" "m_endian b1 = m_endian byte_array_default" for b1
      using put_results_puts [OF np that(1)] that(2) default_inv(2) by simp
  qed
  from puts_string [OF this] show ?thesis
    by (simp add: handle_discover_service_def Let_def take bindR_assoc [symmetric] del: bindR_assoc)
qed

section \<open>Heartbeat timers\<close>

text \<open>With the timer passed by value no message resets anything: each one adds a timer.\<close>

lemma update_heart_none:
  "update_heart recurring t cb now a None m = snd (add_timer m now a t (Some (Plain cb)) recurring)"
  by (simp add: update_heart_def)

lemma heart_timer_kept:
  assumes "timer_inv m" "a \<notin> set (tm_timers m)" "b \<noteq> a"
  shows "tm_heap (update_heart recurring t cb now a None m) b = tm_heap m b"
    and "b \<in> set (tm_timers (update_heart recurring t cb now a None m)) \<longleftrightarrow> b \<in> set (tm_timers m)"
  using add_timer_inv(2) [OF assms(1,2)] assms(3)
  by (auto simp: update_heart_none add_timer_def insert_timer_def Let_def)

lemma client_round_heart:
  assumes "client_round live v0 cb now a request (rg, m, cn) = Inr (r, out, rg', m', cn')"
  shows "m' = update_heart False (rg_alive_time rg) cb now a (cn_heart_timer cn) m"
    and "cn_heart_timer cn' = cn_heart_timer cn" and "rg_alive_time rg' = rg_alive_time rg"
proof -
  show "m' = update_heart False (rg_alive_time rg) cb now a (cn_heart_timer cn) m"
    and "cn_heart_timer cn' = cn_heart_timer cn" and "rg_alive_time rg' = rg_alive_time rg"
    using assms
    by (auto simp: client_round_def dispatch_request_def Let_def res_simps
        handle_register_service_def handle_subscribe_def split: option.splits if_splits)
qed

lemma client_rounds_heart:
  assumes "client_rounds live v0 cb es (rg, m, cn) = Inr (rs, out, rg', m', cn')"
    and "cn_heart_timer cn = None" "timer_inv m" "distinct (map (fst \<circ> snd) es)"
    and "(fst \<circ> snd) ` set es \<inter> set (tm_timers m) = {}" "a \<in> set (tm_timers m)"
  shows "tm_heap m' a = tm_heap m a \<and> a \<in> set (tm_timers m')"
  using assms
proof (induction es arbitrary: rg m cn rs out)
  case (Cons e es)
  obtain now b request where e: "e = (now, b, request)" by (rule prod_cases3)
  from Cons.prems(1) obtain r out1 rg1 m1 cn1 rs1 out2 where
    R: "client_round live v0 cb now b request (rg, m, cn) = Inr (r, out1, rg1, m1, cn1)"
    "client_rounds live v0 cb es (rg1, m1, cn1) = Inr (rs1, out2, rg', m', cn')"
    by (auto simp: e res_simps)
  note H = client_round_heart [OF R(1)]
  have m1: "m1 = snd (add_timer m now b (rg_alive_time rg) (Some (Plain cb)) False)"
    using H(1) Cons.prems(2) by (simp add: update_heart_def)
  have b: "b \<notin> set (tm_timers m)" using Cons.prems(5) by (auto simp: e)
  then have ne: "a \<noteq> b" using Cons.prems(6) by auto
  note A = add_timer_inv [OF Cons.prems(3) b, of now "rg_alive_time rg" "Some (Plain cb)" False]
  have keep: "tm_heap m1 a = tm_heap m a"
    using ne by (simp add: m1 add_timer_def insert_timer_def Let_def)
  have "tm_heap m' a = tm_heap m1 a \<and> a \<in> set (tm_timers m')"
    by (rule Cons.IH [OF R(2)]) (use H(2) A m1 Cons.prems in \<open>auto simp: e\<close>)
  with keep show ?case by simp
qed simp

lemma registry_heart:
  assumes "registry_handle_client live v0 cb now a es session remote rg m =
      Inr (rs, out, rg', m', cn')"
    and "timer_inv m" "distinct (a # map (fst \<circ> snd) es)"
    and "(insert a ((fst \<circ> snd) ` set es)) \<inter> set (tm_timers m) = {}"
  shows "a \<in> set (tm_timers m') \<and>
    tm_heap m' a = new_timer now (rg_alive_time rg) (Some (Plain cb)) False"
proof -
  let ?m = "snd (add_timer m now a (rg_alive_time rg) (Some (Plain cb)) False)"
  have a: "a \<notin> set (tm_timers m)" using assms(4) by auto
  note A = add_timer_inv [OF assms(2) a, of now "rg_alive_time rg" "Some (Plain cb)" False]
  have R: "client_rounds live v0 cb es (rg, ?m, client_conn_new session remote) =
      Inr (rs, out, rg', m', cn')"
    using assms(1) by (simp add: registry_handle_client_def client_conn_new_def update_heart_def)
  have h: "tm_heap ?m a = new_timer now (rg_alive_time rg) (Some (Plain cb)) False"
    by (simp add: add_timer_def insert_timer_def Let_def)
  have "tm_heap m' a = tm_heap ?m a \<and> a \<in> set (tm_timers m')"
    by (rule client_rounds_heart [OF R]) (use A assms(3,4) in \<open>auto simp: client_conn_new_def\<close>)
  with h show ?thesis by simp
qed

end
