(* ===== verification/Route.thy ===== *)
theory Route
  imports Prelude
begin

text \<open>
  The routing strategies of \<open>acid/rpc/route_strategy.h\<close>. \<open>select\<close> picks an element of a
  list; the result of \<open>rand()\<close> is an argument. The polling strategy counts in an \<open>int\<close>.
\<close>

section \<open>Strategies\<close>

datatype strategy = RANDOM | POLLING | HASHIP

datatype route_strategy = Random_route | Polling_route int | Hash_ip_route

definition query_strategy :: "strategy \<Rightarrow> route_strategy" where
  "query_strategy s =
     (case s of RANDOM \<Rightarrow> Random_route | POLLING \<Rightarrow> Polling_route 0 | HASHIP \<Rightarrow> Hash_ip_route)"

text \<open>\<open>static_cast<int>(list.size())\<close>.\<close>

definition int_size :: "'a list \<Rightarrow> int" where
  "int_size xs = sint (of_nat (length xs) :: u32)"

definition at_index :: "'a list \<Rightarrow> int \<Rightarrow> 'a res" where
  "at_index xs i = (if 0 \<le> i \<and> nat i < length xs then Inr (xs ! nat i) else Inl Out_of_range)"

definition random_select :: "nat \<Rightarrow> 'a list \<Rightarrow> 'a res" where
  "random_select r xs = (if xs = [] then Inl Div_by_zero else Inr (xs ! (r mod length xs)))"

definition polling_select :: "int \<Rightarrow> 'a list \<Rightarrow> 'a res \<times> int" where
  "polling_select i xs =
     (let i = (if i \<ge> int_size xs then 0 else i) in (at_index xs i, i + 1))"

definition hash_ip_select :: "'a list \<Rightarrow> 'a res" where
  "hash_ip_select xs = at_index xs 0"

definition select :: "nat \<Rightarrow> route_strategy \<Rightarrow> 'a list \<Rightarrow> 'a res \<times> route_strategy" where
  "select r s xs =
     (case s of
        Random_route \<Rightarrow> (random_select r xs, s)
      | Polling_route i \<Rightarrow> (case polling_select i xs of (x, i) \<Rightarrow> (x, Polling_route i))
      | Hash_ip_route \<Rightarrow> (hash_ip_select xs, s))"

text \<open>A sequence of selections with the given random numbers.\<close>

fun selects :: "nat list \<Rightarrow> route_strategy \<Rightarrow> 'a list \<Rightarrow> 'a res list \<times> route_strategy" where
  "selects [] s xs = ([], s)"
| "selects (r # rs) s xs =
     (let (x, s) = select r s xs; (ys, s) = selects rs s xs in (x # ys, s))"

section \<open>Every selection is a member of the list\<close>

lemma int_size_small: "length xs < 2 ^ 31 \<Longrightarrow> int_size xs = int (length xs)"
  by (simp add: int_size_def sint_word_ariths signed_take_bit_int_eq_self signed_of_nat)

definition index_ok :: "route_strategy \<Rightarrow> bool" where
  "index_ok s = (case s of Polling_route i \<Rightarrow> 0 \<le> i | _ \<Rightarrow> True)"

lemma select_member:
  assumes "xs \<noteq> []" "length xs < 2 ^ 31" "index_ok s"
  shows "\<exists>x \<in> set xs. fst (select r s xs) = Inr x" and "index_ok (snd (select r s xs))"
  using assms
  by (auto simp: select_def random_select_def hash_ip_select_def at_index_def polling_select_def
      index_ok_def int_size_small Let_def split: route_strategy.splits)

lemma select_empty:
  "fst (select r s []) = Inl (if s = Random_route then Div_by_zero else Out_of_range)"
  by (cases s) (auto simp: select_def random_select_def hash_ip_select_def at_index_def
      polling_select_def Let_def)

text \<open>The contract of a strategy, over its own state: while there is something to choose from, it
  chooses an element, and stays in a state in which it can choose.\<close>

locale balancer =
  fixes pick :: "nat \<Rightarrow> 's \<Rightarrow> 'a list \<Rightarrow> 'a res \<times> 's" and ok :: "'s \<Rightarrow> bool"
  assumes pick_member: "xs \<noteq> [] \<Longrightarrow> length xs < 2 ^ 31 \<Longrightarrow> ok s \<Longrightarrow> \<exists>x \<in> set xs. fst (pick r s xs) = Inr x"
    and pick_ok: "xs \<noteq> [] \<Longrightarrow> length xs < 2 ^ 31 \<Longrightarrow> ok s \<Longrightarrow> ok (snd (pick r s xs))"
begin

lemma pick_bind:
  assumes "xs \<noteq> []" "length xs < 2 ^ 31" "ok s"
  shows "\<exists>x \<in> set xs. bindR (fst (pick r s xs)) f = f x"
proof -
  obtain x where "x \<in> set xs" "fst (pick r s xs) = Inr x" using pick_member [OF assms] by blast
  then show ?thesis by (intro bexI [of _ x]) simp_all
qed

text \<open>Lists may change between two choices.\<close>

lemma picks_members:
  "list_all (\<lambda>(r, xs). xs \<noteq> [] \<and> length xs < 2 ^ 31) rs \<Longrightarrow> ok s \<Longrightarrow>
   ok (fold (\<lambda>(r, xs) s. snd (pick r s xs)) rs s)"
proof (induction rs arbitrary: s)
  case (Cons e rs)
  obtain r xs where e: "e = (r, xs)" by fastforce
  have "ok (snd (pick r s xs))" using Cons.prems pick_ok by (simp add: e)
  then show ?case using Cons by (simp add: e)
qed simp

end

interpretation random: balancer "\<lambda>r s xs. (random_select r xs, s :: unit)" "\<lambda>_. True"
  by unfold_locales (simp_all add: random_select_def)

interpretation polling: balancer "\<lambda>r i xs. polling_select i xs" "\<lambda>i. 0 \<le> i"
  by unfold_locales (auto simp: polling_select_def at_index_def int_size_small Let_def)

interpretation hash_ip: balancer "\<lambda>r s xs. (hash_ip_select xs, s :: unit)" "\<lambda>_. True"
  by unfold_locales (auto simp: hash_ip_select_def at_index_def)

interpretation engine: balancer select index_ok
  by unfold_locales (blast intro: select_member)+

text \<open>Polling goes round the list.\<close>

lemma polling_round_robin:
  assumes "xs \<noteq> []" "length xs < 2 ^ 31"
  shows "i \<le> length xs \<Longrightarrow> fst (selects rs (Polling_route (int i)) xs) =
    map (\<lambda>k. Inr (xs ! ((i + k) mod length xs))) [0..<length rs]"
proof (induction rs arbitrary: i)
  case (Cons r rs)
  define j where "j = (if i = length xs then 0 else i)"
  have j: "j < length xs" "i mod length xs = j" "\<And>k. (Suc j + k) mod length xs = (i + Suc k) mod length xs"
    using Cons.prems assms(1) mod_add_self1 [of "length xs" "Suc k" for k] by (auto simp: j_def)
  have "select r (Polling_route (int i)) xs = (Inr (xs ! j), Polling_route (int (Suc j)))"
    using Cons.prems j(1) int_size_small [OF assms(2)]
    by (auto simp: select_def polling_select_def at_index_def j_def Let_def)
  moreover have "fst (selects rs (Polling_route (int (Suc j))) xs) =
      map (\<lambda>k. Inr (xs ! ((Suc j + k) mod length xs))) [0..<length rs]"
    by (rule Cons.IH) (use j in simp)
  moreover have "[0..<length (r # rs)] = 0 # map Suc [0..<length rs]"
    by (simp add: upt_conv_Cons map_Suc_upt del: upt_Suc)
  ultimately show ?case
    using j by (simp add: case_prod_unfold Let_def comp_def del: upt_Suc)
qed simp

end
