(* ===== verification/RpcPool.thy ===== *)
theory RpcPool
  imports RpcClient Registry_Spec Route
begin

text \<open>
  The connection pool (\<open>acid/rpc/rpc_connection_pool.h\<close>, \<open>.cpp\<close>): it discovers the
  addresses of a service at the registry, keeps them in a cache that the registry's
  publications update, and calls through connections it keeps per service. Waiting for the
  registry splits \<open>discover\<close> in two halves; connections, resolving and connecting are
  parameters of \<open>pool_call\<close>.
\<close>

section \<open>State\<close>

text \<open>A subscription handler is the one \<open>discover\<close> installs for a service, or a user's.\<close>

datatype 's sub_handler = Service_events bytes | User_handler "byte_array \<Rightarrow> 's \<Rightarrow> 's"

record ('s, 'c) pool =
  pl_is_close :: bool
  pl_is_heart_close :: bool
  pl_service_cache :: "(bytes \<times> bytes list) list"
  pl_connections :: "(bytes \<times> 'c) list"
  pl_registry :: bool
  pl_heart_timer :: bool
  pl_channel :: "protocol option channel"
  pl_discover_handle :: "(bytes \<times> nat) list"
  pl_channels :: "nat \<Rightarrow> response_channel"
  pl_sub_handle :: "(bytes \<times> 's sub_handler) list"

definition pool_new :: "nat \<Rightarrow> ('s, 'c) pool" where
  "pool_new channel_capacity =
     \<lparr>pl_is_close = False, pl_is_heart_close = True, pl_service_cache = [], pl_connections = [],
      pl_registry = False, pl_heart_timer = False, pl_channel = channel_new channel_capacity (\<lambda>_. None),
      pl_discover_handle = [], pl_channels = (\<lambda>_. response_channel_new), pl_sub_handle = []\<rparr>"

definition pool_connect :: "bool \<Rightarrow> bool \<Rightarrow> ('s, 'c) pool \<Rightarrow> bool \<times> ('s, 'c) pool" where
  "pool_connect created connected pl =
     (if \<not> created then (False, pl)
      else if \<not> connected then (False, pl\<lparr>pl_registry := False\<rparr>)
      else (True, pl\<lparr>pl_registry := True, pl_heart_timer := True\<rparr>))"

text \<open>\<open>close\<close> uses the registry's session without asking whether there is one.\<close>

definition pool_close :: "('s, 'c) pool \<Rightarrow> ('s, 'c) pool res" where
  "pool_close pl =
     (if pl_is_close pl then Inr pl
      else
        let pl = pl\<lparr>pl_is_heart_close := True, pl_is_close := True,
                   pl_channel := Channel.close (pl_channel pl), pl_heart_timer := False,
                   pl_discover_handle := []\<rparr>
        in ensureR (pl_registry pl) Null_deref (Inr (pl\<lparr>pl_registry := False\<rparr>)))"

definition pool_send :: "nat \<Rightarrow> protocol \<Rightarrow> ('s, 'c) pool \<Rightarrow> ('s, 'c) pool" where
  "pool_send f p pl = pl\<lparr>pl_channel := snd (Channel.push f (Some p) (pl_channel pl))\<rparr>"

definition cache_of :: "('s, 'c) pool \<Rightarrow> bytes \<Rightarrow> bytes list" where
  "cache_of pl name = (case map_find (<) name (pl_service_cache pl) of None \<Rightarrow> [] | Some as \<Rightarrow> as)"

definition set_cache :: "bytes \<Rightarrow> bytes list \<Rightarrow> ('s, 'c) pool \<Rightarrow> ('s, 'c) pool" where
  "set_cache name as pl = pl\<lparr>pl_service_cache := map_assign (<) name as (pl_service_cache pl)\<rparr>"

section \<open>Subscriptions\<close>

definition val_str :: "val \<Rightarrow> bytes" where
  "val_str v = (case v of Str s \<Rightarrow> s | _ \<Rightarrow> [])"

text \<open>The handler that \<open>discover\<close> installs: a service came up or went down.\<close>

definition service_event :: "bytes \<Rightarrow> byte_array \<Rightarrow> ('s, 'c) pool \<Rightarrow> ('s, 'c) pool res" where
  "service_event name ba pl =
     bindR (sread TBool (Bool False) ba) (\<lambda>(is_new_server, ba).
     bindR (sread TString (Str []) ba) (\<lambda>(addr, ba).
       if is_new_server = Bool True then
         Inr (set_cache name (cache_of pl name @ [val_str addr]) pl)
       else
         (case map_find (<) name (pl_service_cache pl) of
            None \<Rightarrow> Inr pl
          | Some as \<Rightarrow> Inr (set_cache name (filter (\<lambda>a. a \<noteq> val_str addr) as) pl))))"

definition pool_handle_publish :: "protocol \<Rightarrow> ('s, 'c) pool \<Rightarrow> 's \<Rightarrow> (('s, 'c) pool \<times> 's) res" where
  "pool_handle_publish p pl s =
     bindR (serializer_of (m_content p)) (\<lambda>ba.
     bindR (read_string_vint ba) (\<lambda>(key, ba).
       case map_find (<) key (pl_sub_handle pl) of
         None \<Rightarrow> Inr (pl, s)
       | Some (Service_events name) \<Rightarrow> bindR (service_event name ba pl) (\<lambda>pl. Inr (pl, s))
       | Some (User_handler h) \<Rightarrow> Inr (pl, h ba s)))"

definition pool_subscribe ::
  "nat \<Rightarrow> bytes \<Rightarrow> 's sub_handler \<Rightarrow> ('s, 'c) pool \<Rightarrow> ('s, 'c) pool res" where
  "pool_subscribe f key h pl =
     (if map_find (<) key (pl_sub_handle pl) \<noteq> None then Inl Assert_failed
      else bindR (pack [Str key]) (\<lambda>content.
        Inr (pool_send f (create RPC_SUBSCRIBE_REQUEST content 0)
               (pl\<lparr>pl_sub_handle := map_emplace (<) key h (pl_sub_handle pl)\<rparr>))))"

section \<open>Discovery\<close>

text \<open>First half: \<open>None\<close> is the empty list that is returned at once; otherwise the pool and
  the iterator. Emplacing keeps a channel another fiber has registered for the name.\<close>

definition begin_discover :: "nat \<Rightarrow> nat \<Rightarrow> bytes \<Rightarrow> ('s, 'c) pool \<Rightarrow> (nat \<times> ('s, 'c) pool) option" where
  "begin_discover f c name pl =
     (if \<not> pl_registry pl then None
      else
        let h = map_emplace (<) name c (pl_discover_handle pl);
            pl = pl\<lparr>pl_channels := (pl_channels pl)(c := response_channel_new), pl_discover_handle := h\<rparr>;
            it = (case map_find (<) name h of Some d \<Rightarrow> d | None \<Rightarrow> c)
        in Some (it, pool_send f (create RPC_SERVICE_DISCOVER name 0) pl))"

text \<open>The addresses in a response; \<open>None\<close> when there is no such service. \<open>res.front()\<close> of
  an empty list is undefined.\<close>

definition parse_discover :: "bytes \<Rightarrow> bytes list option res" where
  "parse_discover content' =
     bindR (serializer_of content') (\<lambda>ba.
     bindR (read_string_vint ba) (\<lambda>(str, ba).
     bindR (read_var_uint32 ba) (\<lambda>(cnt, ba).
     bindR (repeat_read (unat cnt) (get_result (\<lambda>_ _. False) TString (result_new (Str []))) ba) (\<lambda>(res, ba).
       case res of
         [] \<Rightarrow> Inl Undefined
       | r # _ \<Rightarrow>
           if r_code r = state_code RPC_NO_METHOD then Inr None
           else Inr (Some (map (\<lambda>r. val_str (r_value r)) res))))))"

text \<open>Second half, with the item taken from the channel \<open>c\<close>: \<open>None\<close> while the fiber waits.
  A closed pool has cleared the map, and the iterator is erased all the same.\<close>

definition finish_discover ::
  "nat \<Rightarrow> nat \<Rightarrow> nat \<Rightarrow> bytes \<Rightarrow> ('s, 'c) pool \<Rightarrow> (bytes list \<times> ('s, 'c) pool) res option" where
  "finish_discover f c it name pl =
     (case Channel.pop f (pl_channels pl c) of
        (None, _) \<Rightarrow> None
      | (Some item, ch) \<Rightarrow>
          let response = (case item of Some p \<Rightarrow> p | None \<Rightarrow> None);
              pl = pl\<lparr>pl_channels := (pl_channels pl)(c := ch)\<rparr>
          in Some (
            if map_find (<) name (pl_discover_handle pl) \<noteq> Some it then Inl Undefined
            else
              let pl = pl\<lparr>pl_discover_handle := map_erase (<) name (pl_discover_handle pl)\<rparr> in
              case response of
                None \<Rightarrow> Inr ([], pl)
              | Some p \<Rightarrow>
                  bindR (parse_discover (m_content p)) (\<lambda>r.
                    case r of
                      None \<Rightarrow> Inr ([], pl)
                    | Some as \<Rightarrow>
                        let key = RPC_SERVICE_SUBSCRIBE @ name in
                        if map_find (<) key (pl_sub_handle pl) \<noteq> None then Inr (as, pl)
                        else bindR (pool_subscribe f key (Service_events name) pl) (\<lambda>pl. Inr (as, pl)))))"

definition handle_service_discover :: "nat \<Rightarrow> protocol \<Rightarrow> ('s, 'c) pool \<Rightarrow> ('s, 'c) pool res" where
  "handle_service_discover f p pl =
     bindR (serializer_of (m_content p)) (\<lambda>ba.
     bindR (read_string_vint ba) (\<lambda>(service, ba).
       case map_find (<) service (pl_discover_handle pl) of
         None \<Rightarrow> Inr pl
       | Some c \<Rightarrow> Inr (pl\<lparr>pl_channels := push_to f (Some p) c (pl_channels pl)\<rparr>)))"

text \<open>One response in \<open>handle_recv\<close>.\<close>

definition pool_recv_round ::
  "nat \<Rightarrow> protocol option \<Rightarrow> ('s, 'c) pool \<Rightarrow> 's \<Rightarrow> (bool \<times> ('s, 'c) pool \<times> 's) res" where
  "pool_recv_round f response pl s =
     (case response of
        None \<Rightarrow> bindR (pool_close pl) (\<lambda>pl. Inr (False, pl, s))
      | Some p \<Rightarrow>
          let pl = pl\<lparr>pl_is_heart_close := False\<rparr>; t = m_type p in
          if t = type_code HEARTBEAT_PACKET then Inr (True, pl\<lparr>pl_is_heart_close := False\<rparr>, s)
          else if t = type_code RPC_SERVICE_DISCOVER_RESPONSE then
            bindR (handle_service_discover f p pl) (\<lambda>pl. Inr (True, pl, s))
          else if t = type_code RPC_PUBLISH_REQUEST then
            bindR (pool_handle_publish p pl s) (\<lambda>(pl, s).
              Inr (True, pool_send f (create RPC_PUBLISH_RESPONSE [] 0) pl, s))
          else Inr (True, pl, s))"

text \<open>The heartbeat timer: it gives the registry up but goes on sending.\<close>

definition pool_heartbeat :: "nat \<Rightarrow> ('s, 'c) pool \<Rightarrow> ('s, 'c) pool" where
  "pool_heartbeat f pl =
     (let pl = (if pl_is_heart_close pl then pl\<lparr>pl_heart_timer := False\<rparr> else pl);
          pl = pool_send f (create HEARTBEAT_PACKET [] 0) pl
      in pl\<lparr>pl_is_heart_close := True\<rparr>)"

section \<open>Calling\<close>

text \<open>What \<open>call\<close> uses from outside, over a state \<open>'s\<close>: a call through a connection, the
  remote address of a connection, connecting to an address (which includes resolving its
  text), and the whole of \<open>discover\<close>.\<close>

record ('s, 'c) pool_ops =
  po_call :: "'c \<Rightarrow> 's \<Rightarrow> rpc_result \<times> 's"
  po_remote :: "'c \<Rightarrow> bytes"
  po_connect :: "bytes \<Rightarrow> 's \<Rightarrow> 'c option \<times> 's"
  po_discover :: "bytes \<Rightarrow> ('s, 'c) pool \<Rightarrow> 's \<Rightarrow> bytes list \<times> ('s, 'c) pool \<times> 's"

definition registry_closed_text :: bytes where "registry_closed_text = to_bytes ''registry closed''"
definition pool_no_method_text :: bytes where "pool_no_method_text = to_bytes ''no method: ''"
definition call_fail_text :: bytes where "call_fail_text = to_bytes ''call fail''"

text \<open>The part of \<open>call\<close> after an existing connection was absent or has been dropped.\<close>

definition call_fresh ::
  "('s, 'c) pool_ops \<Rightarrow> nat \<Rightarrow> val \<Rightarrow> bytes \<Rightarrow> ('s, 'c) pool \<Rightarrow> 's \<Rightarrow> (rpc_result \<times> ('s, 'c) pool \<times> 's) res" where
  "call_fresh ops rnd v0 name pl s =
     (if cache_of pl name = [] \<and> \<not> pl_registry pl then
        Inr (failed v0 RPC_CLOSED registry_closed_text, set_cache name [] pl, s)
      else
        let (as, pl, s) =
              (if cache_of pl name = [] then po_discover ops name pl s
               else (cache_of pl name, pl, s));
            pl = set_cache name as pl
        in if as = [] then Inr (failed v0 RPC_NO_METHOD (pool_no_method_text @ name), pl, s)
           else bindR (fst (select rnd (query_strategy RANDOM) as)) (\<lambda>ip.
             case po_connect ops ip s of
               (Some client, s) \<Rightarrow>
                 let pl = pl\<lparr>pl_connections := map_emplace (<) name client (pl_connections pl)\<rparr>;
                     (r, s) = po_call ops client s
                 in Inr (r, pl, s)
             | (None, s) \<Rightarrow> Inr (failed v0 RPC_FAIL call_fail_text, pl, s)))"

definition pool_call ::
  "('s, 'c) pool_ops \<Rightarrow> nat \<Rightarrow> val \<Rightarrow> bytes \<Rightarrow> ('s, 'c) pool \<Rightarrow> 's \<Rightarrow> (rpc_result \<times> ('s, 'c) pool \<times> 's) res" where
  "pool_call ops rnd v0 name pl s =
     (case map_find (<) name (pl_connections pl) of
        Some connection \<Rightarrow>
          let (r, s) = po_call ops connection s in
          if r_code r \<noteq> state_code RPC_CLOSED then Inr (r, pl, s)
          else
            let pl = set_cache name (filter (\<lambda>a. a \<noteq> po_remote ops connection) (cache_of pl name)) pl;
                pl = pl\<lparr>pl_connections := map_erase (<) name (pl_connections pl)\<rparr>
            in call_fresh ops rnd v0 name pl s
      | None \<Rightarrow> call_fresh ops rnd v0 name pl s)"

end
