(* ===== verification/RpcPool_Spec.thy ===== *)
theory RpcPool_Spec
  imports RpcPool
begin

text \<open>
  The pool against the registry: the answer of the registry to a discovery is parsed to
  the addresses the registry holds, a publication of the registry appends the address to
  the cache, and what a call through the pool returns.
\<close>

section \<open>Discovery\<close>

lemma strict_weak_none: "strict_weak (\<lambda>_ _. False)"
  by unfold_locales (auto simp: equiv_key_def)

lemma has_ty_string: "length s < 2 ^ 64 \<Longrightarrow> has_ty lt TString (Str s)"
  by (rule has_ty.prim) (simp_all add: prim_ty_def)

abbreviation read_address :: "byte_array \<Rightarrow> (rpc_result \<times> byte_array) res" where
  "read_address \<equiv> get_result (\<lambda>_ _. False) TString (result_new (Str []))"

abbreviation addresses_bytes :: "bytes list \<Rightarrow> bytes" where
  "addresses_bytes as \<equiv> concat (map (result_bytes Big) (map address_result as))"

lemma result_length: "length (result_bytes en r) = 2 + length (venc en (Str (r_message r))) + length (venc en (r_value r))"
  by (simp add: result_bytes_def)

lemma read_address_reads:
  assumes "at_input ba (result_bytes Big (address_result a) @ rest)" "m_endian ba = Big"
    and "m_position ba + length (result_bytes Big (address_result a)) < m_base_size ba" "length a < 2 ^ 64"
  shows "read_address ba = Inr (address_result a, consumed ba (length (result_bytes Big (address_result a))))"
proof -
  have "starts TString (Str [])" by (simp add: starts_def)
  from get_result_reads [OF strict_weak_none _ _ _ _ this, of "address_result a" ba rest]
  show ?thesis
    using assms by (simp add: address_result_def result_new_def has_ty_string)
qed

lemma read_addresses:
  assumes "at_input ba (addresses_bytes as @ rest)" "m_endian ba = Big"
    and "m_position ba + length (addresses_bytes as) < m_base_size ba" "\<forall>a \<in> set as. length a < 2 ^ 64"
  shows "\<exists>ba'. repeat_read (length as) read_address ba = Inr (map address_result as, ba')"
  using assms
proof (induction as arbitrary: ba)
  case (Cons a as)
  let ?b = "result_bytes Big (address_result a)"
  have i: "at_input ba (?b @ (addresses_bytes as @ rest))" using Cons.prems(1) by simp
  have r: "read_address ba = Inr (address_result a, consumed ba (length ?b))"
    by (rule read_address_reads [OF i]) (use Cons.prems in auto)
  have "\<exists>ba'. repeat_read (length as) read_address (consumed ba (length ?b)) = Inr (map address_result as, ba')"
    by (rule Cons.IH) (use at_input_consumed [OF i] Cons.prems in auto)
  with r show ?case by auto
qed simp


text \<open>Reading a primitive value at the head of an input.\<close>

lemma sread_head:
  assumes "prim_ty t v" "at_input ba (venc Big v @ rest)" "m_endian ba = Big"
    and "m_position ba + length (venc Big v) < m_base_size ba"
  shows "sread t old ba = Inr (v, consumed ba (length (venc Big v)))"
  using sread_reads [OF assms(1)] assms(2-4) unfolding prim_venc [OF assms(1)] by metis

lemma discover_bytes_length:
  "length (discover_bytes n rs) =
     length (venc Big (Str n)) + length (venc Big (U32 (of_nat (length rs)))) +
     length (concat (map (result_bytes Big) rs))"
  by (simp add: discover_bytes_def)

text \<open>A response of some results, read up to them.\<close>

lemma parse_discover_head:
  assumes "length (discover_bytes n rs) < 4096" "length rs < 2 ^ 32"
  shows "\<exists>ba. at_input ba (concat (map (result_bytes Big) rs)) \<and> m_endian ba = Big \<and>
    m_base_size ba = 4096 \<and> m_position ba + length (concat (map (result_bytes Big) rs)) < 4096 \<and>
    parse_discover (discover_bytes n rs) =
      bindR (repeat_read (length rs) read_address ba) (\<lambda>(res, ba).
        case res of [] \<Rightarrow> Inl Undefined
        | r # _ \<Rightarrow> if r_code r = state_code RPC_NO_METHOD then Inr None
                 else Inr (Some (map (\<lambda>r. val_str (r_value r)) res)))"
proof -
  let ?n = "venc Big (Str n)" and ?c = "venc Big (U32 (of_nat (length rs)))"
  let ?b = "concat (map (result_bytes Big) rs)"
  have l: "length ?n + length ?c + length ?b < 4096" using assms(1) by (simp only: discover_bytes_length)
  have B: "discover_bytes n rs = ?n @ (?c @ ?b)" by (simp add: discover_bytes_def)
  obtain ba where i: "serializer_of (discover_bytes n rs) = Inr ba" "at_input ba (discover_bytes n rs)"
    "m_position ba = 0" "m_base_size ba = 4096" "m_endian ba = Big"
    using serializer_of_input [of "discover_bytes n rs"] assms(1) by auto
  note i2 = i(2) [unfolded B]
  have "length n \<le> length ?n" by simp
  then have "length n < 2 ^ 64" using l by simp
  then have r1: "read_string_vint ba = Inr (n, consumed ba (length ?n))"
    using str_vint.reads [where x = n and ba = ba and rest = "?c @ ?b"] i2 i(3-5) l by simp
  note i3 = at_input_consumed [OF i2]
  have r2: "read_var_uint32 (consumed ba (length ?n)) =
      Inr (of_nat (length rs), consumed (consumed ba (length ?n)) (length ?c))"
    using var_u32.reads [where x = "of_nat (length rs)" and ba = "consumed ba (length ?n)" and rest = ?b]
      i3 i(3-5) l by simp
  have u: "unat (of_nat (length rs) :: u32) = length rs"
    using assms(2) by (simp add: unat_of_nat take_bit_nat_eq_self)
  show ?thesis
    by (rule exI [of _ "consumed (consumed ba (length ?n)) (length ?c)"])
       (use at_input_consumed [OF i3] i r1 r2 u l in \<open>simp add: parse_discover_def\<close>)
qed

lemma parse_discover_addresses:
  assumes "as \<noteq> []" "length (discover_bytes n (map address_result as)) < 4096"
    and "length as < 2 ^ 32" "\<forall>a \<in> set as. length a < 2 ^ 64"
  shows "parse_discover (discover_bytes n (map address_result as)) = Inr (Some as)"
proof -
  obtain ba where ba: "at_input ba (addresses_bytes as)" "m_endian ba = Big" "m_base_size ba = 4096"
    "m_position ba + length (addresses_bytes as) < 4096"
    "parse_discover (discover_bytes n (map address_result as)) =
      bindR (repeat_read (length as) read_address ba) (\<lambda>(res, ba).
        case res of [] \<Rightarrow> Inl Undefined
        | r # _ \<Rightarrow> if r_code r = state_code RPC_NO_METHOD then Inr None
                 else Inr (Some (map (\<lambda>r. val_str (r_value r)) res)))"
    using parse_discover_head [OF assms(2)] assms(3) unfolding length_map by blast
  obtain ba' where "repeat_read (length as) read_address ba = Inr (map address_result as, ba')"
    using read_addresses [of ba as "[]"] ba(1-4) assms(4) by auto
  with ba(5) assms(1) show ?thesis
    by (cases as) (auto simp: address_result_def val_str_def comp_def)
qed

lemma parse_discover_missing:
  assumes "length (discover_bytes n [missing_result n]) < 4096"
  shows "parse_discover (discover_bytes n [missing_result n]) = Inr None"
proof -
  let ?r = "missing_result n"
  obtain ba where ba: "at_input ba (result_bytes Big ?r)" "m_endian ba = Big" "m_base_size ba = 4096"
    "m_position ba + length (result_bytes Big ?r) < 4096"
    "parse_discover (discover_bytes n [?r]) =
      bindR (repeat_read (Suc 0) read_address ba) (\<lambda>(res, ba).
        case res of [] \<Rightarrow> Inl Undefined
        | r # _ \<Rightarrow> if r_code r = state_code RPC_NO_METHOD then Inr None
                 else Inr (Some (map (\<lambda>r. val_str (r_value r)) res)))"
    using parse_discover_head [OF assms] by auto
  have st: "starts TString (Str [])" by (simp add: starts_def)
  have "length (r_message ?r) < 2 ^ 64"
    using ba(4) by (simp add: result_bytes_def)
  moreover have "has_ty (\<lambda>_ _. False) TString (r_value ?r)"
    by (simp add: missing_result_def result_new_def has_ty_string)
  ultimately obtain ba' where "read_address ba =
      Inr ((result_new (Str []))\<lparr>r_code := r_code ?r, r_message := r_message ?r\<rparr>, ba')"
    using get_result_reads [OF strict_weak_none _ _ _ _ st, of ?r ba "[]"] ba(1-4)
    by (simp add: missing_result_def)
  with ba(5) show ?thesis by (simp add: missing_result_def)
qed

text \<open>The whole exchange: what the registry answers, the pool understands.\<close>

lemma discovered_addresses:
  assumes "length (services_of rg n) < 2 ^ 32" "\<forall>a \<in> set (services_of rg n). length a < 2 ^ 64"
    and "length (discover_bytes n (discover_results rg n)) < 4096"
  shows "\<exists>response. handle_discover_service rg (create RPC_SERVICE_DISCOVER n 0) = Inr response \<and>
    parse_discover (m_content response) =
      Inr (if services_of rg n = [] then None else Some (services_of rg n))"
proof -
  have c: "m_content (create RPC_SERVICE_DISCOVER n 0) = n"
    "m_content (create RPC_SERVICE_DISCOVER_RESPONSE cs 0) = cs" for cs
    by (simp_all add: create_def set_message_type_def Let_def)
  have "parse_discover (discover_bytes n (discover_results rg n)) =
      Inr (if services_of rg n = [] then None else Some (services_of rg n))"
    using parse_discover_addresses [of "services_of rg n" n] parse_discover_missing [of n] assms
    by (cases "services_of rg n = []") (simp_all add: discover_results_eq)
  with discover_spec [of rg "create RPC_SERVICE_DISCOVER n 0"] assms(1) show ?thesis
    unfolding c by (auto simp: c)
qed


section \<open>Publications\<close>

definition cache_event :: "bool \<Rightarrow> bytes \<Rightarrow> bytes list \<Rightarrow> bytes list" where
  "cache_event on addr as = (if on then as @ [addr] else filter (\<lambda>a. a \<noteq> addr) as)"

lemma cache_of_set:
  "sorted_wrt (\<lambda>a b. fst a < fst b) (pl_service_cache pl) \<Longrightarrow>
   cache_of (set_cache name as pl) n = (if n = name then as else cache_of pl n)"
  using std_less.find_assign [of "pl_service_cache pl" n name as]
  by (auto simp: cache_of_def set_cache_def equiv_key_def)

text \<open>What the handler of a service makes of the data the registry publishes.\<close>

lemma service_event_cache:
  assumes "at_input ba (venc Big (service_data on addr))" "m_endian ba = Big"
    and "m_position ba + length (venc Big (service_data on addr)) < m_base_size ba"
    and "length addr < 2 ^ 64" "sorted_wrt (\<lambda>a b. fst a < fst b) (pl_service_cache pl)"
  shows "\<exists>pl'. service_event name ba pl = Inr pl' \<and>
    cache_of pl' = (cache_of pl)(name := cache_event on addr (cache_of pl name))"
proof -
  let ?b = "venc Big (Bool on)" and ?s = "venc Big (Str addr)"
  have i: "at_input ba (?b @ ?s)" using assms(1) by (simp add: service_data_def)
  have l: "m_position ba + length ?b + length ?s < m_base_size ba"
    using assms(3) by (simp add: service_data_def)
  have 1: "sread TBool (Bool False) ba = Inr (Bool on, consumed ba (length ?b))"
    by (rule sread_head [OF _ i assms(2)]) (use l in \<open>simp_all add: prim_ty_def\<close>)
  have i2: "at_input (consumed ba (length ?b)) (?s @ [])" using at_input_consumed [OF i] by simp
  have 2: "sread TString (Str []) (consumed ba (length ?b)) =
      Inr (Str addr, consumed (consumed ba (length ?b)) (length ?s))"
    by (rule sread_head [OF _ i2]) (use assms(2,4) l in \<open>simp_all add: prim_ty_def\<close>)
  have n: "cache_of pl name = []" if "map_find (<) name (pl_service_cache pl) = None"
    using that by (simp add: cache_of_def)
  show ?thesis
  proof (cases on)
    case True
    with 1 2 show ?thesis
      using cache_of_set [OF assms(5), of name]
      by (simp add: service_event_def val_str_def cache_event_def fun_eq_iff)
  next
    case False
    with 1 2 show ?thesis
      using cache_of_set [OF assms(5), of name] n
      by (cases "map_find (<) name (pl_service_cache pl)")
         (auto simp: service_event_def val_str_def cache_event_def fun_eq_iff cache_of_def [of pl name])
  qed
qed

lemma pool_publish_event:
  assumes "m_content p = venc Big (Str key) @ venc Big (service_data on addr)"
    and "length (m_content p) < 4096" "length addr < 2 ^ 64"
    and "map_find (<) key (pl_sub_handle pl) = Some (Service_events name)"
    and "sorted_wrt (\<lambda>a b. fst a < fst b) (pl_service_cache pl)"
  shows "\<exists>pl'. pool_handle_publish p pl s = Inr (pl', s) \<and>
    cache_of pl' = (cache_of pl)(name := cache_event on addr (cache_of pl name))"
proof -
  let ?k = "venc Big (Str key)" and ?d = "venc Big (service_data on addr)"
  have l: "length ?k + length ?d < 4096" using assms(1,2) by simp
  obtain ba where i: "serializer_of (m_content p) = Inr ba" "at_input ba (?k @ ?d)"
    "m_position ba = 0" "m_base_size ba = 4096" "m_endian ba = Big"
    using serializer_of_input [of "m_content p"] assms(1,2) by auto
  have "length key \<le> length ?k" by simp
  then have "length key < 2 ^ 64" using l by simp
  then have r: "read_string_vint ba = Inr (key, consumed ba (length ?k))"
    using str_vint.reads [where x = key and ba = ba and rest = ?d] i l by simp
  obtain pl' where "service_event name (consumed ba (length ?k)) pl = Inr pl'"
    "cache_of pl' = (cache_of pl)(name := cache_event on addr (cache_of pl name))"
    using service_event_cache [OF at_input_consumed [OF i(2)] _ _ assms(3,5), of name] i l by auto
  with i(1) r assms(4) show ?thesis by (simp add: pool_handle_publish_def)
qed

lemma pool_publish_unknown:
  assumes "m_content p = venc Big (Str key) @ rest" "length (m_content p) < 4096"
    and "map_find (<) key (pl_sub_handle pl) = None"
  shows "pool_handle_publish p pl s = Inr (pl, s)"
proof -
  let ?k = "venc Big (Str key)"
  obtain ba where i: "serializer_of (m_content p) = Inr ba" "at_input ba (?k @ rest)"
    "m_position ba = 0" "m_base_size ba = 4096" "m_endian ba = Big"
    using serializer_of_input [of "m_content p"] assms(1,2) by auto
  have l: "length ?k < 4096" using assms(1,2) by simp
  have "length key \<le> length ?k" by simp
  then have "length key < 2 ^ 64" using l by simp
  then have "read_string_vint ba = Inr (key, consumed ba (length ?k))"
    using str_vint.reads [where x = key and ba = ba and rest = rest] i l by simp
  with i(1) assms(3) show ?thesis by (simp add: pool_handle_publish_def)
qed

text \<open>The registry's publications at the pool: a registration is followed; the removal of a
  provider is published under a key made of its address, which no pool has subscribed.\<close>

lemma published_content: "m_content (create t cs n) = cs"
  by (simp add: create_def set_message_type_def Let_def)

lemma registration_reaches_pool:
  assumes "handle_register_service live rg p (Some a) = Inr (response, out, rg')" "(i, q) \<in> set out"
    and "address_to_string a = Inr addr" "length (m_content q) < 4096" "length addr < 2 ^ 64"
    and "map_find (<) (RPC_SERVICE_SUBSCRIBE @ m_content p) (pl_sub_handle pl) = Some (Service_events (m_content p))"
    and "sorted_wrt (\<lambda>a b. fst a < fst b) (pl_service_cache pl)"
  shows "\<exists>pl'. pool_handle_publish q pl s = Inr (pl', s) \<and>
    cache_of pl' = (cache_of pl)(m_content p := cache_of pl (m_content p) @ [to_bytes addr])"
proof -
  from assms(1,3) obtain rg0 where "publish live rg0 (RPC_SERVICE_SUBSCRIBE @ m_content p)
      (service_data True (to_bytes addr)) = Inr out"
    by (auto simp: handle_register_service_def Let_def res_simps)
  from publish_to [OF this assms(2)]
  have q: "m_content q = venc Big (Str (RPC_SERVICE_SUBSCRIBE @ m_content p)) @
      venc Big (service_data True (to_bytes addr))"
    by (simp add: published_content)
  show ?thesis
    using pool_publish_event [OF q assms(4) _ assms(6,7)] assms(5)
    by (simp add: cache_event_def to_bytes_def)
qed

lemma unregister_loop_out:
  "unregister_loop live addr is rg = Inr (out, rg') \<Longrightarrow> (i, q) \<in> set out \<Longrightarrow>
     m_content q = venc Big (Str (RPC_SERVICE_SUBSCRIBE @ addr)) @ venc Big (service_data False addr)"
proof (induction "is" arbitrary: rg out)
  case (Cons j "is")
  let ?rg = "rg\<lparr>rg_services := filter (\<lambda>e. snd (snd e) \<noteq> j) (rg_services rg)\<rparr>"
  from Cons.prems(1) obtain o1 o2 where
    o: "publish live ?rg (RPC_SERVICE_SUBSCRIBE @ addr) (service_data False addr) = Inr o1"
    "unregister_loop live addr is ?rg = Inr (o2, rg')" "out = o1 @ o2"
    by (auto simp: Let_def res_simps)
  from Cons.prems(2) o(3) consider "(i, q) \<in> set o1" | "(i, q) \<in> set o2" by auto
  then show ?case
  proof cases
    case 1
    from publish_to [OF o(1) this] show ?thesis by (simp add: published_content)
  next
    case 2
    from Cons.IH [OF o(2) this] show ?thesis .
  qed
qed simp

lemma unregistration_misses_pool:
  assumes "handle_unregister_service live rg a = Inr (out, rg')" "(i, q) \<in> set out"
    and "address_to_string a = Inr addr" "length (m_content q) < 4096"
    and "map_find (<) (RPC_SERVICE_SUBSCRIBE @ to_bytes addr) (pl_sub_handle pl) = None"
  shows "pool_handle_publish q pl s = Inr (pl, s)"
proof -
  from assms(1-3) obtain its rg1 where "unregister_loop live (to_bytes addr) its rg = Inr (out, rg1)"
    by (auto simp: handle_unregister_service_def Let_def res_simps split: option.splits)
  from unregister_loop_out [OF this assms(2)] show ?thesis
    by (rule pool_publish_unknown [OF _ assms(4,5)])
qed

section \<open>Two discoveries at once\<close>

text \<open>A second discovery of a name that is still waiting keeps its channel to itself: no
  response reaches it.\<close>

lemma second_discovery_waits:
  assumes "map_find (<) name (pl_discover_handle pl) = Some d" "d \<noteq> c" "pl_registry pl"
    and "sorted_wrt (\<lambda>a b. fst a < fst b) (pl_discover_handle pl)"
    and "begin_discover f c name pl = Some (it, pl1)"
    and "handle_service_discover g p pl1 = Inr pl2" "m_content p = venc Big (Str name) @ rest"
    and "length (m_content p) < 4096"
  shows "finish_discover h c it name pl2 = None"
proof -
  let ?k = "venc Big (Str name)"
  obtain ba where i: "serializer_of (m_content p) = Inr ba" "at_input ba (?k @ rest)"
    "m_position ba = 0" "m_base_size ba = 4096" "m_endian ba = Big"
    using serializer_of_input [of "m_content p"] assms(7,8) by auto
  have l: "length ?k < 4096" using assms(7,8) by simp
  have "length name \<le> length ?k" by simp
  then have "length name < 2 ^ 64" using l by simp
  then have r: "read_string_vint ba = Inr (name, consumed ba (length ?k))"
    using str_vint.reads [where x = name and ba = ba and rest = rest] i l by simp
  have E: "map_find (<) name (map_emplace (<) name c (pl_discover_handle pl)) = Some d"
    using std_less.emplace_present [OF assms(4)] assms(1) by simp
  have 1: "pl_channels pl1 = (pl_channels pl)(c := response_channel_new)"
    "map_find (<) name (pl_discover_handle pl1) = Some d"
    using assms(3,5) E by (auto simp: begin_discover_def Let_def pool_send_def)
  have "pl_channels pl2 = push_to g (Some p) d (pl_channels pl1)"
    using assms(6) i(1) r 1(2) by (auto simp: handle_service_discover_def)
  then have "pl_channels pl2 c = response_channel_new" using assms(2) 1(1) by (simp add: push_to_def)
  then show ?thesis
    by (simp add: finish_discover_def response_channel_new_def Channel.pop_def pop_round_def channel_new_def)
qed

section \<open>Calls through the pool\<close>

text \<open>A new connection to the address \<open>ip\<close>, kept for later calls.\<close>

definition call_at ::
  "('s, 'c) pool_ops \<Rightarrow> val \<Rightarrow> bytes \<Rightarrow> ('s, 'c) pool \<Rightarrow> bytes \<Rightarrow> 's \<Rightarrow> (rpc_result \<times> ('s, 'c) pool \<times> 's) res" where
  "call_at ops v0 name pl ip s =
     (case po_connect ops ip s of
        (Some client, s) \<Rightarrow>
          let (r, s) = po_call ops client s
          in Inr (r, pl\<lparr>pl_connections := map_emplace (<) name client (pl_connections pl)\<rparr>, s)
      | (None, s) \<Rightarrow> Inr (failed v0 RPC_FAIL call_fail_text, pl, s))"

lemma fresh_call_connects:
  assumes "cache_of pl name \<noteq> []" "length (cache_of pl name) < 2 ^ 31"
  shows "\<exists>ip \<in> set (cache_of pl name).
    call_fresh ops rnd v0 name pl s = call_at ops v0 name (set_cache name (cache_of pl name) pl) ip s"
proof -
  have ok: "index_ok (query_strategy RANDOM)" by (simp add: index_ok_def query_strategy_def)
  have "call_fresh ops rnd v0 name pl s =
      bindR (fst (select rnd (query_strategy RANDOM) (cache_of pl name)))
        (\<lambda>ip. call_at ops v0 name (set_cache name (cache_of pl name) pl) ip s)"
    using assms(1) by (simp add: call_fresh_def call_at_def Let_def cong: option.case_cong prod.case_cong)
  with engine.pick_bind [OF assms ok, of rnd] show ?thesis by simp
qed

text \<open>When the pooled connection turns out to be closed, its address is given up and the call goes
  to another provider of the service.\<close>

lemma closed_connection_replaced:
  fixes pl :: "('s, 'c) pool" and ops :: "('s, 'c) pool_ops"
  defines "rest \<equiv> \<lambda>name conn. filter (\<lambda>a. a \<noteq> po_remote ops conn) (cache_of pl name)"
  assumes "map_find (<) name (pl_connections pl) = Some conn" "std_less.map_ordered (pl_service_cache pl)"
    and "po_call ops conn s = (r, s')" "r_code r = state_code RPC_CLOSED"
    and "rest name conn \<noteq> []" "length (cache_of pl name) < 2 ^ 31"
  shows "\<exists>ip \<in> set (cache_of pl name) - {po_remote ops conn}. \<exists>pl'.
    pool_call ops rnd v0 name pl s = call_at ops v0 name pl' ip s' \<and> cache_of pl' name = rest name conn \<and>
    map_find (<) name (pl_connections pl') = None"
proof -
  let ?pl = "(set_cache name (rest name conn) pl)\<lparr>pl_connections := map_erase (<) name (pl_connections pl)\<rparr>"
  have c: "cache_of ?pl name = rest name conn"
    using cache_of_set [OF assms(3)] by (simp add: cache_of_def)
  have n: "length (rest name conn) < 2 ^ 31"
    unfolding rest_def by (rule order.strict_trans1 [OF length_filter_le assms(7)])
  obtain ip where ip: "ip \<in> set (rest name conn)"
    "call_fresh ops rnd v0 name ?pl s' = call_at ops v0 name (set_cache name (rest name conn) ?pl) ip s'"
    using fresh_call_connects [of ?pl name ops rnd v0 s'] assms(6) n unfolding c by blast
  have "pool_call ops rnd v0 name pl s = call_fresh ops rnd v0 name ?pl s'"
    using assms(2,4,5) by (simp add: pool_call_def rest_def set_cache_def Let_def)
  moreover have "map_find (<) name (pl_connections (set_cache name (rest name conn) ?pl)) = None"
    using std_less.find_erase [of name name "pl_connections pl"] by (simp add: set_cache_def)
  moreover have "cache_of (set_cache name (rest name conn) ?pl) name = rest name conn"
  proof -
    have "std_less.map_ordered (pl_service_cache ?pl)"
      using std_less.assign_ordered [OF assms(3)] by (simp add: set_cache_def)
    from cache_of_set [OF this] show ?thesis by simp
  qed
  ultimately show ?thesis using ip by (auto simp: rest_def)
qed

end
