(* ===== verification/CoMutex.thy ===== *)
theory CoMutex
  imports Prelude
begin

text \<open>
  The coroutine mutex of \<open>acid/common/co_mutex.cpp\<close> as an interleaving of fibers. Each
  fiber is at a program point of \<open>lock\<close> or \<open>unlock\<close>; \<open>mutex_step c f s\<close> is the next step
  of fiber \<open>f\<close>, \<open>None\<close> while it is blocked, and \<open>c\<close> is the call it makes when it is between
  two calls. A fiber that is inside a scope may call \<open>lock\<close> again, as
  \<open>RpcServiceRegistry::handle_unregister_service\<close> does through \<open>publish\<close>: the holder returns at
  once, and \<open>ms_depth\<close> counts the scopes it is inside. Only a fiber inside a scope calls
  \<open>unlock\<close>, since every user of the class is a scoped lock. A fiber is named by its id; \<open>0\<close> is
  what \<open>Fiber::get_fiber_id\<close> returns outside any fiber. Everything done while \<open>m_guard\<close> is
  held between two uses of the other lock is one step. A fiber handed to \<open>schedule\<close> becomes
  eligible to run once it has yielded.
\<close>

section \<open>State and steps\<close>

datatype mutex_call = Call_lock | Call_unlock

datatype pc =
    Idle                          \<comment> \<open>outside every scope\<close>
  | Try_first                     \<comment> \<open>\<open>while (!try_lock())\<close>\<close>
  | Take_guard                    \<comment> \<open>\<open>LockGuard lock(m_guard)\<close> in \<open>lock\<close>\<close>
  | Try_again                     \<comment> \<open>the second \<open>try_lock()\<close>, guard held\<close>
  | Own_guarded                   \<comment> \<open>\<open>m_fiber_id = ...; return\<close>, guard held\<close>
  | Enqueue                       \<comment> \<open>\<open>m_wait_queue.push(self)\<close>, guard held\<close>
  | Yield                         \<comment> \<open>\<open>self->yield()\<close>\<close>
  | Parked                        \<comment> \<open>yielded, waiting to be scheduled\<close>
  | Set_id                        \<comment> \<open>\<open>m_fiber_id = ...\<close> after the loop\<close>
  | Critical                      \<comment> \<open>inside a scope, between two calls\<close>
  | Un_guard                      \<comment> \<open>\<open>LockGuard lock(m_guard)\<close> in \<open>unlock\<close>\<close>
  | Un_take                       \<comment> \<open>the guarded block of \<open>unlock\<close>\<close>
  | Un_unlock "nat option"        \<comment> \<open>\<open>m_mutex.unlock()\<close>\<close>
  | Un_schedule "nat option"      \<comment> \<open>\<open>schedule(fiber)\<close>\<close>

record mutex_state =
  ms_locked :: bool
  ms_guard :: "nat option"
  ms_fiber_id :: nat
  ms_wait_queue :: "nat list"
  ms_woken :: "nat list"
  ms_depth :: "nat \<Rightarrow> nat"
  ms_pc :: "nat \<Rightarrow> pc"

definition mutex_new :: "nat \<Rightarrow> mutex_state" where
  "mutex_new fiber_id =
     \<lparr>ms_locked = False, ms_guard = None, ms_fiber_id = fiber_id, ms_wait_queue = [],
      ms_woken = [], ms_depth = (\<lambda>_. 0), ms_pc = (\<lambda>_. Idle)\<rparr>"

definition goto :: "nat \<Rightarrow> pc \<Rightarrow> mutex_state \<Rightarrow> mutex_state" where
  "goto f p s = s\<lparr>ms_pc := (ms_pc s)(f := p)\<rparr>"

definition enter :: "nat \<Rightarrow> mutex_state \<Rightarrow> mutex_state" where
  "enter f s = goto f Critical (s\<lparr>ms_depth := (ms_depth s)(f := ms_depth s f + 1)\<rparr>)"

definition leave :: "nat \<Rightarrow> mutex_state \<Rightarrow> mutex_state" where
  "leave f s = goto f (if ms_depth s f \<le> 1 then Idle else Critical)
     (s\<lparr>ms_depth := (ms_depth s)(f := ms_depth s f - 1)\<rparr>)"

definition mutex_step :: "mutex_call \<Rightarrow> nat \<Rightarrow> mutex_state \<Rightarrow> mutex_state option" where
  "mutex_step c f s =
     (case ms_pc s f of
        Idle \<Rightarrow>
          (case c of
             Call_lock \<Rightarrow> Some (if f = ms_fiber_id s then enter f s else goto f Try_first s)
           | Call_unlock \<Rightarrow> None)
      | Try_first \<Rightarrow>
          (if \<not> ms_locked s then Some (goto f Set_id (s\<lparr>ms_locked := True\<rparr>))
           else Some (goto f Take_guard s))
      | Take_guard \<Rightarrow>
          (if ms_guard s = None then Some (goto f Try_again (s\<lparr>ms_guard := Some f\<rparr>)) else None)
      | Try_again \<Rightarrow>
          (if \<not> ms_locked s then Some (goto f Own_guarded (s\<lparr>ms_locked := True\<rparr>))
           else Some (goto f Enqueue s))
      | Own_guarded \<Rightarrow> Some (enter f (s\<lparr>ms_fiber_id := f, ms_guard := None\<rparr>))
      | Enqueue \<Rightarrow>
          Some (goto f Yield (s\<lparr>ms_wait_queue := ms_wait_queue s @ [f], ms_guard := None\<rparr>))
      | Yield \<Rightarrow> Some (goto f Parked s)
      | Parked \<Rightarrow>
          (if f \<in> set (ms_woken s)
           then Some (goto f Try_first (s\<lparr>ms_woken := remove1 f (ms_woken s)\<rparr>)) else None)
      | Set_id \<Rightarrow> Some (enter f (s\<lparr>ms_fiber_id := f\<rparr>))
      | Critical \<Rightarrow>
          (case c of
             Call_lock \<Rightarrow> Some (if f = ms_fiber_id s then enter f s else goto f Try_first s)
           | Call_unlock \<Rightarrow> Some (goto f Un_guard s))
      | Un_guard \<Rightarrow>
          (if ms_guard s = None then Some (goto f Un_take (s\<lparr>ms_guard := Some f\<rparr>)) else None)
      | Un_take \<Rightarrow>
          (case ms_wait_queue s of
             [] \<Rightarrow> Some (goto f (Un_unlock None) (s\<lparr>ms_fiber_id := 0, ms_guard := None\<rparr>))
           | w # q \<Rightarrow> Some (goto f (Un_unlock (Some w))
                 (s\<lparr>ms_fiber_id := 0, ms_wait_queue := q, ms_guard := None\<rparr>)))
      | Un_unlock w \<Rightarrow> Some (goto f (Un_schedule w) (s\<lparr>ms_locked := False\<rparr>))
      | Un_schedule w \<Rightarrow>
          Some (leave f
            (case w of None \<Rightarrow> s | Some g \<Rightarrow> s\<lparr>ms_woken := ms_woken s @ [g]\<rparr>)))"

text \<open>States reachable when the fibers of \<open>F\<close> take part, in any order and with any calls, and
  the runs in which no fiber calls \<open>lock\<close> again while it is inside a scope.\<close>

inductive reachable :: "nat set \<Rightarrow> nat \<Rightarrow> mutex_state \<Rightarrow> bool" for F v where
  init: "reachable F v (mutex_new v)"
| step: "reachable F v s \<Longrightarrow> f \<in> F \<Longrightarrow> mutex_step c f s = Some s' \<Longrightarrow> reachable F v s'"

definition locks_again :: "mutex_call \<Rightarrow> nat \<Rightarrow> mutex_state \<Rightarrow> bool" where
  "locks_again c f s \<longleftrightarrow> c = Call_lock \<and> ms_pc s f = Critical"

inductive reachable_once :: "nat set \<Rightarrow> nat \<Rightarrow> mutex_state \<Rightarrow> bool" for F v where
  init: "reachable_once F v (mutex_new v)"
| step: "reachable_once F v s \<Longrightarrow> f \<in> F \<Longrightarrow> \<not> locks_again c f s \<Longrightarrow>
    mutex_step c f s = Some s' \<Longrightarrow> reachable_once F v s'"

fun run :: "(mutex_call \<times> nat) list \<Rightarrow> mutex_state \<Rightarrow> mutex_state option" where
  "run [] s = Some s"
| "run ((c, f) # fs) s = (case mutex_step c f s of None \<Rightarrow> None | Some s' \<Rightarrow> run fs s')"

fun keeps_once :: "(mutex_call \<times> nat) list \<Rightarrow> mutex_state \<Rightarrow> bool" where
  "keeps_once [] s = True"
| "keeps_once ((c, f) # fs) s \<longleftrightarrow> \<not> locks_again c f s \<and>
     (case mutex_step c f s of None \<Rightarrow> True | Some s' \<Rightarrow> keeps_once fs s')"

lemma run_reachable:
  "run fs s = Some s' \<Longrightarrow> snd ` set fs \<subseteq> F \<Longrightarrow> reachable F v s \<Longrightarrow> reachable F v s'"
proof (induction fs arbitrary: s)
  case (Cons x fs)
  then obtain c f s1 where 1: "x = (c, f)" "mutex_step c f s = Some s1" "run fs s1 = Some s'"
    by (cases x) (auto split: option.splits)
  have "reachable F v s1" using reachable.step [OF Cons.prems(3) _ 1(2)] Cons.prems(2) 1(1) by simp
  from Cons.IH [OF 1(3) _ this] Cons.prems(2) show ?case by simp
qed simp

lemma run_once:
  "run fs s = Some s' \<Longrightarrow> keeps_once fs s \<Longrightarrow> snd ` set fs \<subseteq> F \<Longrightarrow> reachable_once F v s \<Longrightarrow>
    reachable_once F v s'"
proof (induction fs arbitrary: s)
  case (Cons x fs)
  then obtain c f s1 where 1: "x = (c, f)" "mutex_step c f s = Some s1" "run fs s1 = Some s'"
    by (cases x) (auto split: option.splits)
  have "reachable_once F v s1"
    using reachable_once.step [OF Cons.prems(4) _ _ 1(2)] Cons.prems(2,3) 1(1) by simp
  from Cons.IH [OF 1(3) _ _ this] Cons.prems(2,3) 1 show ?case by simp
qed simp

lemmas steps_simps = mutex_step_def mutex_new_def goto_def enter_def leave_def

section \<open>Invariant\<close>

fun holds :: "pc \<Rightarrow> bool" where
  "holds Set_id = True"
| "holds Own_guarded = True"
| "holds Critical = True"
| "holds Un_guard = True"
| "holds Un_take = True"
| "holds (Un_unlock w) = True"
| "holds _ = False"

fun guarded :: "pc \<Rightarrow> bool" where
  "guarded Try_again = True"
| "guarded Own_guarded = True"
| "guarded Enqueue = True"
| "guarded Un_take = True"
| "guarded _ = False"

fun named :: "pc \<Rightarrow> bool" where
  "named Critical = True"
| "named Un_guard = True"
| "named Un_take = True"
| "named _ = False"

fun inside :: "pc \<Rightarrow> bool" where
  "inside Critical = True"
| "inside Un_guard = True"
| "inside Un_take = True"
| "inside (Un_unlock w) = True"
| "inside (Un_schedule w) = True"
| "inside _ = False"

definition holders :: "mutex_state \<Rightarrow> nat set" where
  "holders s = {f. holds (ms_pc s f)}"

definition guardians :: "mutex_state \<Rightarrow> nat set" where
  "guardians s = {f. guarded (ms_pc s f)}"

definition mutex_inv :: "nat set \<Rightarrow> nat \<Rightarrow> mutex_state \<Rightarrow> bool" where
  "mutex_inv F v s \<longleftrightarrow>
     (if ms_locked s then \<exists>h. holders s = {h} else holders s = {}) \<and>
     guardians s = set_option (ms_guard s) \<and>
     (ms_fiber_id s = 0 \<or> ms_fiber_id s = v \<or> named (ms_pc s (ms_fiber_id s))) \<and>
     (\<forall>f. ms_depth s f = of_bool (inside (ms_pc s f))) \<and>
     (\<forall>f. f \<notin> F \<longrightarrow> ms_pc s f = Idle)"

lemma goto_simps [simp]:
  "ms_pc (goto f p s) = (ms_pc s)(f := p)" "ms_locked (goto f p s) = ms_locked s"
  "ms_guard (goto f p s) = ms_guard s" "ms_fiber_id (goto f p s) = ms_fiber_id s"
  "ms_wait_queue (goto f p s) = ms_wait_queue s" "ms_woken (goto f p s) = ms_woken s"
  "ms_depth (goto f p s) = ms_depth s"
  by (simp_all add: goto_def)

lemma holders_simps [simp]:
  "holders (goto f p s) = (if holds p then insert f (holders s) else holders s - {f})"
  "holders (s\<lparr>ms_locked := b\<rparr>) = holders s" "holders (s\<lparr>ms_guard := g\<rparr>) = holders s"
  "holders (s\<lparr>ms_fiber_id := n\<rparr>) = holders s" "holders (s\<lparr>ms_wait_queue := q\<rparr>) = holders s"
  "holders (s\<lparr>ms_woken := w\<rparr>) = holders s" "holders (s\<lparr>ms_depth := d\<rparr>) = holders s"
  by (auto simp: holders_def)

lemma guardians_simps [simp]:
  "guardians (goto f p s) = (if guarded p then insert f (guardians s) else guardians s - {f})"
  "guardians (s\<lparr>ms_locked := b\<rparr>) = guardians s" "guardians (s\<lparr>ms_guard := g\<rparr>) = guardians s"
  "guardians (s\<lparr>ms_fiber_id := n\<rparr>) = guardians s" "guardians (s\<lparr>ms_wait_queue := q\<rparr>) = guardians s"
  "guardians (s\<lparr>ms_woken := w\<rparr>) = guardians s" "guardians (s\<lparr>ms_depth := d\<rparr>) = guardians s"
  by (auto simp: guardians_def)

lemma in_holders: "f \<in> holders s \<longleftrightarrow> holds (ms_pc s f)"
  by (simp add: holders_def)

lemma in_guardians: "f \<in> guardians s \<longleftrightarrow> guarded (ms_pc s f)"
  by (simp add: guardians_def)

lemma mutex_new_inv: "mutex_inv F v (mutex_new v)"
  by (auto simp: mutex_inv_def mutex_new_def holders_def guardians_def)

lemma holder_unique: "mutex_inv F v s \<Longrightarrow> holds (ms_pc s f) \<Longrightarrow> holders s = {f} \<and> ms_locked s"
  using in_holders [of f s] by (auto simp: mutex_inv_def split: if_splits)

lemma guardian_unique: "mutex_inv F v s \<Longrightarrow> guarded (ms_pc s f) \<Longrightarrow> ms_guard s = Some f"
  using in_guardians [of f s] by (cases "ms_guard s") (auto simp: mutex_inv_def)

lemma keep_simps [simp]:
  "\<not> holds (ms_pc s f) \<Longrightarrow> holders s - {f} = holders s"
  "holds (ms_pc s f) \<Longrightarrow> insert f (holders s) = holders s"
  "\<not> guarded (ms_pc s f) \<Longrightarrow> guardians s - {f} = guardians s"
  "guarded (ms_pc s f) \<Longrightarrow> insert f (guardians s) = guardians s"
  by (auto simp: in_holders in_guardians)

definition lock_inv :: "mutex_state \<Rightarrow> bool" where
  "lock_inv s \<longleftrightarrow> (if ms_locked s then \<exists>h. holders s = {h} else holders s = {})"

definition id_inv :: "nat \<Rightarrow> mutex_state \<Rightarrow> bool" where
  "id_inv v s \<longleftrightarrow> ms_fiber_id s = 0 \<or> ms_fiber_id s = v \<or> named (ms_pc s (ms_fiber_id s))"

definition depth_inv :: "mutex_state \<Rightarrow> bool" where
  "depth_inv s \<longleftrightarrow> (\<forall>f. ms_depth s f = of_bool (inside (ms_pc s f)))"

lemma mutex_inv_alt:
  "mutex_inv F v s \<longleftrightarrow> lock_inv s \<and> guardians s = set_option (ms_guard s) \<and> id_inv v s \<and>
     depth_inv s \<and> (\<forall>f. f \<notin> F \<longrightarrow> ms_pc s f = Idle)"
  by (simp add: mutex_inv_def lock_inv_def id_inv_def depth_inv_def)

lemma named_holds: "named p \<Longrightarrow> holds p"
  by (cases p) simp_all

text \<open>What a step can do to the lock, the guard, the other fibers, the id and the scopes.
  \<open>plain c f s\<close> is a step of a fiber that neither locks again nor carries the id from
  outside.\<close>

definition plain :: "mutex_call \<Rightarrow> nat \<Rightarrow> mutex_state \<Rightarrow> bool" where
  "plain c f s \<longleftrightarrow> \<not> locks_again c f s \<and> (ms_pc s f = Idle \<longrightarrow> f \<noteq> ms_fiber_id s) \<and>
     ms_depth s f = of_bool (inside (ms_pc s f))"

lemma step_others:
  assumes "mutex_step c f s = Some s'" "g \<noteq> f"
  shows "ms_pc s' g = ms_pc s g" "ms_depth s' g = ms_depth s g"
  using assms
  by (cases "ms_pc s f"; cases c; auto simp: mutex_step_def enter_def leave_def
        split: if_splits list.splits option.splits)+

lemma step_lock:
  assumes "mutex_step c f s = Some s'" "plain c f s"
  shows "holds (ms_pc s' f) = holds (ms_pc s f) \<and> ms_locked s' = ms_locked s \<or>
    \<not> ms_locked s \<and> ms_locked s' \<and> holds (ms_pc s' f) \<or>
    holds (ms_pc s f) \<and> \<not> ms_locked s' \<and> \<not> holds (ms_pc s' f)"
  using assms
  by (cases "ms_pc s f"; cases c)
     (auto simp: mutex_step_def enter_def leave_def plain_def locks_again_def
        split: if_splits list.splits option.splits)

lemma step_guard:
  assumes "mutex_step c f s = Some s'"
  shows "guarded (ms_pc s' f) = guarded (ms_pc s f) \<and> ms_guard s' = ms_guard s \<or>
    ms_guard s = None \<and> ms_guard s' = Some f \<and> guarded (ms_pc s' f) \<or>
    guarded (ms_pc s f) \<and> ms_guard s' = None \<and> \<not> guarded (ms_pc s' f)"
  using assms
  by (cases "ms_pc s f"; cases c)
     (auto simp: mutex_step_def enter_def leave_def split: if_splits list.splits option.splits)

lemma step_id:
  assumes "mutex_step c f s = Some s'" "plain c f s"
  shows "ms_fiber_id s' = 0 \<or> ms_fiber_id s' = f \<and> named (ms_pc s' f) \<or>
    ms_fiber_id s' = ms_fiber_id s \<and> (named (ms_pc s f) \<longrightarrow> named (ms_pc s' f))"
  using assms
  by (cases "ms_pc s f"; cases c)
     (auto simp: mutex_step_def enter_def leave_def plain_def locks_again_def
        split: if_splits list.splits option.splits)

lemma step_depth:
  assumes "mutex_step c f s = Some s'" "plain c f s"
  shows "ms_depth s' f = of_bool (inside (ms_pc s' f))"
  using assms
  by (cases "ms_pc s f"; cases c)
     (auto simp: mutex_step_def enter_def leave_def plain_def locks_again_def
        split: if_splits list.splits option.splits)

lemma holders_step:
  assumes "mutex_step c f s = Some s'"
  shows "holders s' = (if holds (ms_pc s' f) then insert f (holders s) else holders s - {f})"
    and "guardians s' = (if guarded (ms_pc s' f) then insert f (guardians s) else guardians s - {f})"
  unfolding holders_def guardians_def using step_others(1) [OF assms]
  by (auto; metis)+

lemma plain_step:
  assumes "id_inv v s" "depth_inv s" "f \<noteq> 0" "f \<noteq> v" "\<not> locks_again c f s"
  shows "plain c f s"
  using assms by (auto simp: id_inv_def depth_inv_def plain_def)

lemma holders_change:
  assumes "lock_inv s" "mutex_step c f s = Some s'" "plain c f s"
  shows "ms_locked s' = ms_locked s \<and> holders s' = holders s \<or>
    \<not> ms_locked s \<and> ms_locked s' \<and> holders s = {} \<and> holders s' = {f} \<or>
    ms_locked s \<and> \<not> ms_locked s' \<and> holders s = {f} \<and> holders s' = {}"
proof -
  have f: "f \<in> holders s \<longleftrightarrow> holds (ms_pc s f)" by (rule in_holders)
  have E: "\<not> ms_locked s \<Longrightarrow> holders s = {}" and H: "f \<in> holders s \<Longrightarrow> holders s = {f} \<and> ms_locked s"
    using assms(1) by (auto simp: lock_inv_def split: if_splits)
  note h = holders_step(1) [OF assms(2)]
  from step_lock [OF assms(2,3)] show ?thesis
  proof (elim disjE conjE)
    assume "holds (ms_pc s' f) = holds (ms_pc s f)" "ms_locked s' = ms_locked s"
    with f show ?thesis unfolding h by auto
  next
    assume a: "\<not> ms_locked s" "ms_locked s'" "holds (ms_pc s' f)"
    with E show ?thesis unfolding h by simp
  next
    assume a: "holds (ms_pc s f)" "\<not> ms_locked s'" "\<not> holds (ms_pc s' f)"
    with f H show ?thesis unfolding h by simp
  qed
qed

lemma mutex_step_inv:
  assumes I: "mutex_inv F v s" and f: "f \<in> F" "0 \<notin> F" "v \<notin> F" and once: "\<not> locks_again c f s"
    and S: "mutex_step c f s = Some s'"
  shows "mutex_inv F v s'"
  unfolding mutex_inv_alt
proof (intro conjI)
  have nz: "f \<noteq> 0" "f \<noteq> v" using f by metis+
  have L: "lock_inv s" and G: "guardians s = set_option (ms_guard s)" and N: "id_inv v s"
    and D: "depth_inv s" and P: "\<forall>f. f \<notin> F \<longrightarrow> ms_pc s f = Idle"
    using I by (simp_all add: mutex_inv_alt)
  note pl = plain_step [OF N D nz once]
  show "lock_inv s'"
    using holders_change [OF L S pl] L by (auto simp: lock_inv_def)
  show "guardians s' = set_option (ms_guard s')"
    using step_guard [OF S] holders_step(2) [OF S] G in_guardians [of f s]
    by (cases "ms_guard s") auto
  show "depth_inv s'"
    using step_depth [OF S pl] step_others [OF S] D unfolding depth_inv_def by metis
  show "\<forall>f. f \<notin> F \<longrightarrow> ms_pc s' f = Idle"
    using step_others(1) [OF S] P f(1) by metis
  show "id_inv v s'"
  proof (cases "ms_fiber_id s = f")
    case True
    with step_id [OF S pl] N nz show ?thesis by (auto simp: id_inv_def)
  next
    case False
    with step_id [OF S pl] step_others(1) [OF S False] N show ?thesis by (auto simp: id_inv_def)
  qed
qed

lemma reachable_inv: "reachable_once F v s \<Longrightarrow> 0 \<notin> F \<Longrightarrow> v \<notin> F \<Longrightarrow> mutex_inv F v s"
  by (induction rule: reachable_once.induct) (auto intro: mutex_new_inv mutex_step_inv)

section \<open>The abstract mutex\<close>

text \<open>What the mutex promises: the set of fibers that have it is changed by taking a free
  mutex and by giving it back, and by nothing else.\<close>

inductive spec_step :: "nat \<Rightarrow> nat set \<Rightarrow> nat set \<Rightarrow> bool" where
  stutter: "spec_step f H H"
| acquire: "spec_step f {} {f}"
| release: "spec_step f {f} {}"

inductive_simps spec_step_simps: "spec_step f H H'"

lemma mutex_step_refines:
  assumes I: "mutex_inv F v s" and f: "f \<in> F" "0 \<notin> F" "v \<notin> F" and once: "\<not> locks_again c f s"
    and S: "mutex_step c f s = Some s'"
  shows "spec_step f (holders s) (holders s')"
proof -
  have nz: "f \<noteq> 0" "f \<noteq> v" using f by metis+
  have L: "lock_inv s" and N: "id_inv v s" and D: "depth_inv s"
    using I by (simp_all add: mutex_inv_alt)
  from holders_change [OF L S plain_step [OF N D nz once]] show ?thesis
    unfolding spec_step_simps by blast
qed

section \<open>Waiters\<close>

text \<open>A fiber that waits is in the queue, on its way out of it, or woken.\<close>

definition handed :: "pc \<Rightarrow> nat list" where
  "handed p = (case p of Un_unlock (Some w) \<Rightarrow> [w] | Un_schedule (Some w) \<Rightarrow> [w] | _ \<Rightarrow> [])"

definition waiting :: "pc \<Rightarrow> bool" where
  "waiting p \<longleftrightarrow> p = Yield \<or> p = Parked"

definition waiters_inv :: "mutex_state \<Rightarrow> bool" where
  "waiters_inv s \<longleftrightarrow> (\<forall>f. waiting (ms_pc s f) \<longrightarrow>
     f \<in> set (ms_wait_queue s) \<union> set (ms_woken s) \<union> (\<Union>g. set (handed (ms_pc s g))))"

lemma handed_simps [simp]:
  "handed (Un_unlock (Some w)) = [w]" "handed (Un_schedule (Some w)) = [w]"
  "handed (Un_unlock None) = []" "handed (Un_schedule None) = []"
  "handed Idle = []" "handed Try_first = []" "handed Take_guard = []" "handed Try_again = []"
  "handed Own_guarded = []" "handed Enqueue = []" "handed Yield = []" "handed Parked = []"
  "handed Set_id = []" "handed Critical = []" "handed Un_guard = []" "handed Un_take = []"
  by (simp_all add: handed_def)

lemma handed_set [simp]:
  "set (handed (Un_unlock w)) = set_option w" "set (handed (Un_schedule w)) = set_option w"
  by (cases w; simp)+

definition pool :: "mutex_state \<Rightarrow> nat set" where
  "pool s = set (ms_wait_queue s) \<union> set (ms_woken s)"

lemma step_pool:
  assumes "mutex_step c f s = Some s'"
  shows "pool s \<union> set (handed (ms_pc s f)) \<subseteq> insert f (pool s' \<union> set (handed (ms_pc s' f)))"
  using assms
  by (cases "ms_pc s f"; cases c)
     (auto simp: mutex_step_def enter_def leave_def pool_def split: if_splits list.splits option.splits)

lemma step_wait:
  assumes "mutex_step c f s = Some s'" "waiting (ms_pc s' f)"
  shows "f \<in> pool s' \<or> waiting (ms_pc s f) \<and> pool s' = pool s"
  using assms
  by (cases "ms_pc s f"; cases c)
     (auto simp: mutex_step_def enter_def leave_def pool_def waiting_def split: if_splits list.splits option.splits)

lemma waiters_inv_alt:
  "waiters_inv s \<longleftrightarrow>
     (\<forall>f. waiting (ms_pc s f) \<longrightarrow> f \<in> pool s \<or> (\<exists>g. f \<in> set (handed (ms_pc s g))))"
  by (auto simp: waiters_inv_def pool_def)

lemma waiters_inv_step:
  assumes W: "waiters_inv s" and S: "mutex_step c f s = Some s'"
  shows "waiters_inv s'"
  unfolding waiters_inv_alt
proof (intro allI impI)
  fix g assume g: "waiting (ms_pc s' g)"
  note O = step_others(1) [OF S]
  show "g \<in> pool s' \<or> (\<exists>h. g \<in> set (handed (ms_pc s' h)))"
  proof (cases "g = f")
    case True
    with step_wait [OF S] g have "f \<in> pool s' \<or> waiting (ms_pc s f) \<and> pool s' = pool s" by simp
    then show ?thesis
    proof
      assume a: "waiting (ms_pc s f) \<and> pool s' = pool s"
      then have "handed (ms_pc s f) = []" by (auto simp: waiting_def)
      moreover have "f \<in> pool s \<or> (\<exists>h. f \<in> set (handed (ms_pc s h)))"
        using W a by (simp add: waiters_inv_alt)
      ultimately have "f \<in> pool s \<or> (\<exists>h. h \<noteq> f \<and> f \<in> set (handed (ms_pc s h)))"
        by (metis empty_iff empty_set)
      then show ?thesis
      proof (elim disjE exE conjE)
        fix h assume "h \<noteq> f" "f \<in> set (handed (ms_pc s h))"
        then show ?thesis using O True by metis
      qed (use a True in simp)
    qed (use True in simp)
  next
    case False
    then have "g \<in> pool s \<or> (\<exists>h. g \<in> set (handed (ms_pc s h)))"
      using W g O by (simp add: waiters_inv_alt)
    then show ?thesis
    proof (elim disjE exE)
      assume "g \<in> pool s"
      then show ?thesis using step_pool [OF S] False by blast
    next
      fix h assume h: "g \<in> set (handed (ms_pc s h))"
      show ?thesis
      proof (cases "h = f")
        case True
        then show ?thesis using h step_pool [OF S] False by blast
      next
        case hf: False
        then show ?thesis using h O [OF hf] by metis
      qed
    qed
  qed
qed

lemma reachable_waiters: "reachable F v s \<Longrightarrow> waiters_inv s"
proof (induction rule: reachable.induct)
  case init
  show ?case by (simp add: waiters_inv_def mutex_new_def waiting_def)
qed (rule waiters_inv_step)

section \<open>Asleep\<close>

text \<open>A fiber that is parked and that nobody is about to wake stays so as long as no fiber
  calls \<open>unlock\<close>: the steps of the other fibers may lock and wait, and none of them wakes
  it.\<close>

fun unlocking :: "pc \<Rightarrow> bool" where
  "unlocking Un_guard = True"
| "unlocking Un_take = True"
| "unlocking (Un_unlock w) = True"
| "unlocking (Un_schedule w) = True"
| "unlocking _ = False"

definition stranded :: "nat \<Rightarrow> mutex_state \<Rightarrow> bool" where
  "stranded f s \<longleftrightarrow> ms_pc s f = Parked \<and> f \<notin> set (ms_woken s) \<and> (\<forall>g. \<not> unlocking (ms_pc s g))"

definition calls_unlock :: "mutex_call \<Rightarrow> nat \<Rightarrow> mutex_state \<Rightarrow> bool" where
  "calls_unlock c f s \<longleftrightarrow> c = Call_unlock \<and> ms_pc s f = Critical"

inductive without_unlock :: "mutex_state \<Rightarrow> mutex_state \<Rightarrow> bool" for s where
  stay: "without_unlock s s"
| go_on: "without_unlock s s1 \<Longrightarrow> \<not> calls_unlock c f s1 \<Longrightarrow> mutex_step c f s1 = Some s2 \<Longrightarrow>
    without_unlock s s2"

lemma step_unlocking:
  assumes "mutex_step c f s = Some s'" "\<not> unlocking (ms_pc s f)" "\<not> calls_unlock c f s"
  shows "\<not> unlocking (ms_pc s' f) \<and> set (ms_woken s') \<subseteq> set (ms_woken s)"
  using assms
  by (cases "ms_pc s f"; cases c)
     (auto simp: mutex_step_def enter_def leave_def calls_unlock_def split: if_splits
        dest: notin_set_remove1 in_set_remove1 [THEN iffD1, rotated])

lemma stranded_step:
  assumes A: "stranded f s" and S: "mutex_step c g s = Some s'" and U: "\<not> calls_unlock c g s"
  shows "stranded f s'"
proof -
  have g: "\<not> unlocking (ms_pc s g)" using A by (simp add: stranded_def)
  have "g \<noteq> f" using A S by (auto simp: stranded_def mutex_step_def)
  then show ?thesis
    using A step_unlocking [OF S g U] step_others(1) [OF S] unfolding stranded_def by (metis subsetD)
qed

lemma stranded_without_unlock: "without_unlock s s' \<Longrightarrow> stranded f s \<Longrightarrow> stranded f s'"
  by (induction rule: without_unlock.induct) (auto intro: stranded_step)

end
