(* ===== verification/Http.thy ===== *)
theory Http
  imports StdMap Text
begin

text \<open>
  The HTTP messages of \<open>acid/http/http.h\<close> and \<open>acid/http/http.cpp\<close>: the tables of methods,
  status codes and content types, the case-insensitive header maps, requests and responses
  with their accessors, and their text form. A \<open>std::map\<close> is the list of its entries in
  the order of its comparator. A \<open>std::string\<close> is a list of characters; \<open>c_str\<close> is what a
  C function sees of it. The functions of the C library work in the "C" locale.
\<close>

section \<open>Text\<close>

definition to_lower :: "char \<Rightarrow> nat" where
  "to_lower c = (let n = of_char c in if 65 \<le> n \<and> n \<le> 90 then n + 32 else n)"

definition ci_key :: "string \<Rightarrow> nat list" where
  "ci_key s = map to_lower (c_str s)"

definition strcasecmp_eq :: "string \<Rightarrow> string \<Rightarrow> bool" where
  "strcasecmp_eq a b \<longleftrightarrow> ci_key a = ci_key b"

definition crlf :: string where
  "crlf = [CHR 0x0D, CHR 0x0A]"

section \<open>Methods, status codes, content types\<close>

datatype http_method =
    DELETE | GET | HEAD | POST | PUT | CONNECT | OPTIONS | TRACE | COPY | LOCK | MKCOL |
    MOVE | PROPFIND | PROPPATCH | SEARCH | UNLOCK | BIND | REBIND | UNBIND | ACL | REPORT |
    MKACTIVITY | CHECKOUT | MERGE | MSEARCH | NOTIFY | SUBSCRIBE | UNSUBSCRIBE | PATCH |
    PURGE | MKCALENDAR | LINK | UNLINK | SOURCE | INVALID_METHOD

definition method_table :: "(http_method \<times> string) list" where
  "method_table =
     [(DELETE, ''DELETE''), (GET, ''GET''), (HEAD, ''HEAD''), (POST, ''POST''),
      (PUT, ''PUT''), (CONNECT, ''CONNECT''), (OPTIONS, ''OPTIONS''), (TRACE, ''TRACE''),
      (COPY, ''COPY''), (LOCK, ''LOCK''), (MKCOL, ''MKCOL''), (MOVE, ''MOVE''),
      (PROPFIND, ''PROPFIND''), (PROPPATCH, ''PROPPATCH''), (SEARCH, ''SEARCH''),
      (UNLOCK, ''UNLOCK''), (BIND, ''BIND''), (REBIND, ''REBIND''), (UNBIND, ''UNBIND''),
      (ACL, ''ACL''), (REPORT, ''REPORT''), (MKACTIVITY, ''MKACTIVITY''),
      (CHECKOUT, ''CHECKOUT''), (MERGE, ''MERGE''), (MSEARCH, ''M - SEARCH''),
      (NOTIFY, ''NOTIFY''), (SUBSCRIBE, ''SUBSCRIBE''), (UNSUBSCRIBE, ''UNSUBSCRIBE''),
      (PATCH, ''PATCH''), (PURGE, ''PURGE''), (MKCALENDAR, ''MKCALENDAR''), (LINK, ''LINK''),
      (UNLINK, ''UNLINK''), (SOURCE, ''SOURCE'')]"

definition string_to_method :: "string \<Rightarrow> http_method" where
  "string_to_method s =
     (case find (\<lambda>(m, d). c_str s = d) method_table of
        Some (m, d) \<Rightarrow> m | None \<Rightarrow> INVALID_METHOD)"

text \<open>The enumerator of a number, as \<open>static_cast<HttpMethod>\<close> gives it for the numbers of
  the table; the array of names is indexed by the same number.\<close>

definition method_of_num :: "nat \<Rightarrow> http_method" where
  "method_of_num n = (if n < length method_table then fst (method_table ! n) else INVALID_METHOD)"

definition http_method_to_string :: "http_method \<Rightarrow> string" where
  "http_method_to_string m =
     (case find (\<lambda>(m', d). m' = m) method_table of Some (m', d) \<Rightarrow> d | None \<Rightarrow> ''<unknown>'')"

text \<open>A status is its number, since \<open>set_status\<close> casts any number.\<close>

definition status_table :: "(nat \<times> string) list" where
  "status_table =
     [(100, ''Continue''), (101, ''Switching Protocols''), (102, ''Processing''),
      (200, ''OK''), (201, ''Created''), (202, ''Accepted''),
      (203, ''Non - Authoritative Information''), (204, ''No Content''),
      (205, ''Reset Content''), (206, ''Partial Content''), (207, ''Multi - Status''),
      (208, ''Already Reported''), (226, ''IM Used''), (300, ''Multiple Choices''),
      (301, ''Moved Permanently''), (302, ''Found''), (303, ''See Other''),
      (304, ''Not Modified''), (305, ''Use Proxy''), (307, ''Temporary Redirect''),
      (308, ''Permanent Redirect''), (400, ''Bad Request''), (401, ''Unauthorized''),
      (402, ''Payment Required''), (403, ''Forbidden''), (404, ''Not Found''),
      (405, ''Method Not Allowed''), (406, ''Not Acceptable''),
      (407, ''Proxy Authentication Required''), (408, ''Request Timeout''),
      (409, ''Conflict''), (410, ''Gone''), (411, ''Length Required''),
      (412, ''Precondition Failed''), (413, ''Payload Too Large''), (414, ''URI Too Long''),
      (415, ''Unsupported Media Type''), (416, ''Range Not Satisfiable''),
      (417, ''Expectation Failed''), (421, ''Misdirected Request''),
      (422, ''Unprocessable Entity''), (423, ''Locked''), (424, ''Failed Dependency''),
      (426, ''Upgrade Required''), (428, ''Precondition Required''),
      (429, ''Too Many Requests''), (431, ''Request Header Fields Too Large''),
      (451, ''Unavailable For Legal Reasons''), (500, ''Internal Server Error''),
      (501, ''Not Implemented''), (502, ''Bad Gateway''), (503, ''Service Unavailable''),
      (504, ''Gateway Timeout''), (505, ''HTTP Version Not Supported''),
      (506, ''Variant Also Negotiates''), (507, ''Insufficient Storage''),
      (508, ''Loop Detected''), (510, ''Not Extended''),
      (511, ''Network Authentication Required'')]"

definition http_status_to_string :: "nat \<Rightarrow> string" where
  "http_status_to_string status =
     (case map_of status_table status of Some msg \<Rightarrow> msg | None \<Rightarrow> ''<unknown>'')"

datatype http_content_type =
    TEXT_HTML | TEXT_PLAIN | TEXT_XML | IMAGE_GIF | IMAGE_JPEG | IMAGE_PNG |
    APPLICATION_XHTML | APPLICATION_ATOM | APPLICATION_JSON | APPLICATION_PDF |
    APPLICATION_MSWORD | APPLICATION_STREAM | APPLICATION_URLENCODED | APPLICATION_FORM_DATA |
    INVALID_TYPE

definition content_type_table :: "(http_content_type \<times> string) list" where
  "content_type_table =
     [(TEXT_HTML, ''text/html''), (TEXT_PLAIN, ''text/plain''), (TEXT_XML, ''text/xml''),
      (IMAGE_GIF, ''image/gif''), (IMAGE_JPEG, ''image/jpeg''), (IMAGE_PNG, ''image/png''),
      (APPLICATION_XHTML, ''application/xhtml+xml''),
      (APPLICATION_ATOM, ''application/atom+xml''), (APPLICATION_JSON, ''application/json''),
      (APPLICATION_PDF, ''application/pdf''), (APPLICATION_MSWORD, ''application/msword''),
      (APPLICATION_STREAM, ''application/octet-stream''),
      (APPLICATION_URLENCODED, ''application/x-www-form-urlencoded''),
      (APPLICATION_FORM_DATA, ''application/form-data'')]"

definition string_to_content_type :: "string \<Rightarrow> http_content_type" where
  "string_to_content_type s =
     (case find (\<lambda>(t, d). c_str s = d) content_type_table of
        Some (t, d) \<Rightarrow> t | None \<Rightarrow> APPLICATION_URLENCODED)"

definition http_context_type_to_string :: "http_content_type \<Rightarrow> string" where
  "http_context_type_to_string t =
     (case find (\<lambda>(t', d). t' = t) content_type_table of Some (t', d) \<Rightarrow> d | None \<Rightarrow> ''text/plain'')"

section \<open>Header maps\<close>

type_synonym headers = "(string \<times> string) list"

definition case_insensitive_less :: "string \<Rightarrow> string \<Rightarrow> bool" where
  "case_insensitive_less lhs rhs \<longleftrightarrow> ci_key lhs < ci_key rhs"

text \<open>\<open>get_as\<close> and \<open>check_and_get_as\<close>; \<open>cast\<close> is the \<open>lexical_cast\<close> to the requested type,
  \<open>None\<close> when it throws. The second function does not return a value on success.\<close>

definition get_as :: "(string \<Rightarrow> 'a option) \<Rightarrow> headers \<Rightarrow> string \<Rightarrow> 'a \<Rightarrow> 'a" where
  "get_as cast m key def =
     (case map_find case_insensitive_less key m of
        None \<Rightarrow> def
      | Some v \<Rightarrow> (case cast v of Some x \<Rightarrow> x | None \<Rightarrow> def))"

definition check_and_get_as :: "(string \<Rightarrow> 'a option) \<Rightarrow> headers \<Rightarrow> string \<Rightarrow> 'a \<Rightarrow> (bool \<times> 'a) res" where
  "check_and_get_as cast m key def =
     (case map_find case_insensitive_less key m of
        None \<Rightarrow> Inr (False, def)
      | Some v \<Rightarrow> (case cast v of Some x \<Rightarrow> Inl Undefined | None \<Rightarrow> Inr (False, def)))"

text \<open>The accessors shared by headers, parameters and cookies.\<close>

definition get_entry :: "headers \<Rightarrow> string \<Rightarrow> string \<Rightarrow> string" where
  "get_entry m key def =
     (case map_find case_insensitive_less key m of None \<Rightarrow> def | Some v \<Rightarrow> v)"

definition set_entry :: "headers \<Rightarrow> string \<Rightarrow> string \<Rightarrow> headers" where
  "set_entry m key v = map_assign case_insensitive_less key v m"

definition del_entry :: "headers \<Rightarrow> string \<Rightarrow> headers" where
  "del_entry m key = map_erase case_insensitive_less key m"

definition has_entry :: "headers \<Rightarrow> string \<Rightarrow> bool" where
  "has_entry m key \<longleftrightarrow> map_find case_insensitive_less key m \<noteq> None"

section \<open>Requests\<close>

record http_request =
  rq_method :: http_method
  rq_version :: u8
  rq_close :: bool
  rq_websocket :: bool
  rq_path :: string
  rq_query :: string
  rq_fragment :: string
  rq_body :: string
  rq_headers :: headers
  rq_params :: headers
  rq_cookies :: headers

definition http_request_new :: "u8 \<Rightarrow> bool \<Rightarrow> http_request" where
  "http_request_new version close' =
     \<lparr>rq_method = GET, rq_version = version, rq_close = close', rq_websocket = False,
      rq_path = ''/'', rq_query = [], rq_fragment = [], rq_body = [],
      rq_headers = [], rq_params = [], rq_cookies = []\<rparr>"

definition http_request_default :: http_request where
  "http_request_default = http_request_new 0x11 True"

definition get_header :: "http_request \<Rightarrow> string \<Rightarrow> string \<Rightarrow> string" where
  "get_header r key def = get_entry (rq_headers r) key def"

definition get_param :: "http_request \<Rightarrow> string \<Rightarrow> string \<Rightarrow> string" where
  "get_param r key def = get_entry (rq_params r) key def"

definition get_cookie :: "http_request \<Rightarrow> string \<Rightarrow> string \<Rightarrow> string" where
  "get_cookie r key def = get_entry (rq_cookies r) key def"

definition set_header :: "http_request \<Rightarrow> string \<Rightarrow> string \<Rightarrow> http_request" where
  "set_header r key v = r\<lparr>rq_headers := set_entry (rq_headers r) key v\<rparr>"

definition set_param :: "http_request \<Rightarrow> string \<Rightarrow> string \<Rightarrow> http_request" where
  "set_param r key v = r\<lparr>rq_params := set_entry (rq_params r) key v\<rparr>"

definition set_cookie :: "http_request \<Rightarrow> string \<Rightarrow> string \<Rightarrow> http_request" where
  "set_cookie r key v = r\<lparr>rq_cookies := set_entry (rq_cookies r) key v\<rparr>"

definition del_header :: "http_request \<Rightarrow> string \<Rightarrow> http_request" where
  "del_header r key = r\<lparr>rq_headers := del_entry (rq_headers r) key\<rparr>"

definition del_param :: "http_request \<Rightarrow> string \<Rightarrow> http_request" where
  "del_param r key = r\<lparr>rq_params := del_entry (rq_params r) key\<rparr>"

definition del_cookie :: "http_request \<Rightarrow> string \<Rightarrow> http_request" where
  "del_cookie r key = r\<lparr>rq_cookies := del_entry (rq_cookies r) key\<rparr>"

definition has_header :: "http_request \<Rightarrow> string \<Rightarrow> bool" where
  "has_header r key = has_entry (rq_headers r) key"

definition has_param :: "http_request \<Rightarrow> string \<Rightarrow> bool" where
  "has_param r key = has_entry (rq_params r) key"

definition has_cookie :: "http_request \<Rightarrow> string \<Rightarrow> bool" where
  "has_cookie r key = has_entry (rq_cookies r) key"

definition get_content_type :: "http_request \<Rightarrow> http_content_type" where
  "get_content_type r = string_to_content_type (get_header r ''Content-Type'' [])"

definition set_content_type :: "http_request \<Rightarrow> http_content_type \<Rightarrow> http_request" where
  "set_content_type r t = set_header r ''Content-Type'' (http_context_type_to_string t)"

text \<open>The pieces of text the two \<open>dump\<close> functions share.\<close>

definition show_version :: "u8 \<Rightarrow> string" where
  "show_version v = ''HTTP/'' @ show_nat (unat v div 16) @ ''.'' @ show_nat (unat v mod 16)"

definition header_line :: "string \<times> string \<Rightarrow> string" where
  "header_line h = fst h @ '': '' @ snd h @ crlf"

definition header_lines :: "bool \<Rightarrow> headers \<Rightarrow> string" where
  "header_lines websocket hs =
     concat (map header_line
       (filter (\<lambda>h. \<not> (\<not> websocket \<and> strcasecmp_eq (fst h) ''connection'')) hs))"

definition request_to_string :: "http_request \<Rightarrow> string" where
  "request_to_string r =
     http_method_to_string (rq_method r) @ '' '' @ rq_path r @
     (if rq_query r = [] then [] else ''?'') @ rq_query r @
     (if rq_fragment r = [] then [] else ''#'') @ rq_fragment r @ '' '' @
     show_version (rq_version r) @ crlf @
     (if \<not> rq_websocket r
      then ''connection: '' @ (if rq_close r then ''close'' else ''keep-alive'') @ crlf else []) @
     header_lines (rq_websocket r) (rq_headers r) @
     (if rq_body r = [] then crlf
      else ''Content-Length: '' @ show_nat (length (rq_body r)) @ crlf @ crlf @ rq_body r)"

definition request_init :: "http_request \<Rightarrow> http_request" where
  "request_init r =
     (let connection = get_header r ''Connection'' [] in
      if connection = [] then
        if strcasecmp_eq connection ''keep-alive'' then r\<lparr>rq_close := False\<rparr>
        else r\<lparr>rq_close := True\<rparr>
      else r)"

section \<open>Responses\<close>

record http_response =
  rs_status :: nat
  rs_version :: u8
  rs_close :: bool
  rs_websocket :: bool
  rs_body :: string
  rs_reason :: string
  rs_headers :: headers
  rs_cookies :: "string list"

definition http_response_new :: "u8 \<Rightarrow> bool \<Rightarrow> http_response" where
  "http_response_new version close' =
     \<lparr>rs_status = 200, rs_version = version, rs_close = close', rs_websocket = False,
      rs_body = [], rs_reason = [], rs_headers = [], rs_cookies = []\<rparr>"

definition response_get_header :: "http_response \<Rightarrow> string \<Rightarrow> string \<Rightarrow> string" where
  "response_get_header r key def = get_entry (rs_headers r) key def"

definition response_set_header :: "http_response \<Rightarrow> string \<Rightarrow> string \<Rightarrow> http_response" where
  "response_set_header r key v = r\<lparr>rs_headers := set_entry (rs_headers r) key v\<rparr>"

definition response_del_header :: "http_response \<Rightarrow> string \<Rightarrow> http_response" where
  "response_del_header r key = r\<lparr>rs_headers := del_entry (rs_headers r) key\<rparr>"

definition response_has_header :: "http_response \<Rightarrow> string \<Rightarrow> bool" where
  "response_has_header r key = has_entry (rs_headers r) key"

definition response_to_string :: "http_response \<Rightarrow> string" where
  "response_to_string r =
     show_version (rs_version r) @ '' '' @ show_nat (rs_status r) @ '' '' @
     (if rs_reason r = [] then http_status_to_string (rs_status r) else rs_reason r) @ crlf @
     (if \<not> rs_websocket r
      then ''Connection: '' @ (if rs_close r then ''close'' else ''keep-alive'') @ crlf else []) @
     header_lines (rs_websocket r) (rs_headers r) @
     (if rs_body r = [] then crlf
      else (if response_get_header r ''Content-Length'' [] = []
            then ''Content-Length: '' @ show_nat (length (rs_body r)) @ crlf else []) @
           crlf @ rs_body r)"

section \<open>Laws of the header maps\<close>

interpretation ci_less: strict_weak case_insensitive_less
  by unfold_locales (auto simp: case_insensitive_less_def equiv_key_def)

lemma equiv_ci: "equiv_key case_insensitive_less a b \<longleftrightarrow> ci_key a = ci_key b"
  by (auto simp: equiv_key_def case_insensitive_less_def)

abbreviation headers_ok :: "headers \<Rightarrow> bool" where
  "headers_ok hs \<equiv> ci_less.map_ordered hs"

lemma get_set_entry:
  "headers_ok hs \<Longrightarrow> get_entry (set_entry hs k v) k' def =
     (if ci_key k = ci_key k' then v else get_entry hs k' def)"
  by (simp add: get_entry_def set_entry_def ci_less.find_assign equiv_ci)

lemma get_del_entry:
  "get_entry (del_entry hs k) k' def = (if ci_key k = ci_key k' then def else get_entry hs k' def)"
  by (simp add: get_entry_def del_entry_def ci_less.find_erase equiv_ci)

lemma entries_ok:
  "headers_ok hs \<Longrightarrow> headers_ok (set_entry hs k v)"
  "headers_ok hs \<Longrightarrow> headers_ok (del_entry hs k)"
  by (simp_all add: set_entry_def del_entry_def ci_less.assign_ordered ci_less.erase_ordered)

lemma has_set_entry:
  "headers_ok hs \<Longrightarrow> has_entry (set_entry hs k v) k' \<longleftrightarrow> ci_key k = ci_key k' \<or> has_entry hs k'"
  by (simp add: has_entry_def set_entry_def ci_less.find_assign equiv_ci)

end
