(* ===== verification/HttpParse.thy ===== *)
theory HttpParse
  imports Http Streams
begin

text \<open>
  Parsing (\<open>acid/http/http_parse.cpp\<close>) and the session that receives requests and sends
  responses (\<open>acid/http/http_session.cpp\<close>). The tokeniser \<open>http_parser\<close> is a library: it is
  the parameter \<open>'p hp_lib\<close>, which says for its state and some input which callbacks it
  makes, how it ends (after the callback with the given index has failed, or after all of
  them), and how it splits a URL. The callbacks and \<open>execute\<close> are the code's.
\<close>

section \<open>The tokeniser\<close>

datatype hp_event =
    Message_begin | Url string | Status nat string | Header_field string | Header_value string
  | Headers_complete nat nat nat   \<comment> \<open>\<open>http_major\<close>, \<open>method\<close>, \<open>status_code\<close>\<close>
  | Body string | Message_complete | Chunk_header | Chunk_complete

text \<open>\<open>lib_end\<close> gives the new state, the number of parsed bytes, \<open>http_errno\<close> and
  \<open>upgrade\<close>; \<open>lib_url\<close> the path, the query and the fragment of a URL.\<close>

record 'p hp_lib =
  lib_init :: 'p
  lib_events :: "'p \<Rightarrow> string \<Rightarrow> hp_event list"
  lib_end :: "'p \<Rightarrow> string \<Rightarrow> nat option \<Rightarrow> 'p \<times> nat \<times> nat \<times> bool"
  lib_url :: "string \<Rightarrow> (string option \<times> string option \<times> string option) option"

section \<open>Requests\<close>

record 'p request_parser =
  qp_parser :: 'p
  qp_data :: http_request
  qp_error :: bool
  qp_finished :: bool
  qp_field :: string

definition request_parser_new :: "'p hp_lib \<Rightarrow> 'p request_parser" where
  "request_parser_new lib =
     \<lparr>qp_parser = lib_init lib, qp_data = http_request_default, qp_error = False,
      qp_finished = False, qp_field = []\<rparr>"

definition buffer_size :: nat where
  "buffer_size = 1024"

text \<open>A callback: the flag is a non-zero return value.\<close>

fun on_request :: "'p hp_lib \<Rightarrow> hp_event \<Rightarrow> 'p request_parser \<Rightarrow> bool \<times> 'p request_parser" where
  "on_request lib (Headers_complete major meth status) p =
     (False, p\<lparr>qp_data := (qp_data p)
        \<lparr>rq_version := push_bit 4 (of_nat major) OR of_nat major, rq_method := method_of_num meth\<rparr>\<rparr>)"
| "on_request lib Message_complete p = (False, p\<lparr>qp_finished := True\<rparr>)"
| "on_request lib (Url url) p =
     (case lib_url lib url of
        None \<Rightarrow> (True, p)
      | Some (path, query, fragment) \<Rightarrow>
          let r = qp_data p;
              r = (case path of Some s \<Rightarrow> r\<lparr>rq_path := s\<rparr> | None \<Rightarrow> r);
              r = (case query of Some s \<Rightarrow> r\<lparr>rq_query := s\<rparr> | None \<Rightarrow> r);
              r = (case fragment of Some s \<Rightarrow> r\<lparr>rq_fragment := s\<rparr> | None \<Rightarrow> r)
          in (False, p\<lparr>qp_data := r\<rparr>))"
| "on_request lib (Header_field s) p = (False, p\<lparr>qp_field := s\<rparr>)"
| "on_request lib (Header_value s) p =
     (False, p\<lparr>qp_data := set_header (qp_data p) (qp_field p) s\<rparr>)"
| "on_request lib (Body s) p = (False, p\<lparr>qp_data := (qp_data p)\<lparr>rq_body := s\<rparr>\<rparr>)"
| "on_request lib _ p = (False, p)"

text \<open>The callbacks in order, up to and including the first that fails.\<close>

fun deliver :: "(hp_event \<Rightarrow> 'c \<Rightarrow> bool \<times> 'c) \<Rightarrow> nat \<Rightarrow> hp_event list \<Rightarrow> 'c \<Rightarrow> nat option \<times> 'c" where
  "deliver cb i [] p = (None, p)"
| "deliver cb i (ev # evs) p =
     (case cb ev p of (True, p) \<Rightarrow> (Some i, p) | (False, p) \<Rightarrow> deliver cb (Suc i) evs p)"

text \<open>The result is \<open>nparsed\<close>, the buffer and the parser; \<open>set_error\<close> takes a \<open>bool\<close>.\<close>

definition request_execute ::
  "'p hp_lib \<Rightarrow> 'p request_parser \<Rightarrow> string \<Rightarrow> nat \<times> string \<times> 'p request_parser" where
  "request_execute lib p data =
     (let (failed, p) = deliver (on_request lib) 0 (lib_events lib (qp_parser p) data) p;
          (st, nparsed, errno, upgrade) = lib_end lib (qp_parser p) data failed;
          p = p\<lparr>qp_parser := st\<rparr>
      in if upgrade then (nparsed, data, p\<lparr>qp_error := True\<rparr>)
         else if errno \<noteq> 0 then (nparsed, data, p\<lparr>qp_error := (errno mod 256 \<noteq> 0)\<rparr>)
         else if nparsed < length data then (nparsed, splice_at data 0 (drop nparsed data), p)
         else (nparsed, data, p))"

section \<open>Responses\<close>

record 'p response_parser =
  sp_parser :: 'p
  sp_data :: http_response
  sp_error :: bool
  sp_finished :: bool
  sp_field :: string

definition response_parser_new :: "'p hp_lib \<Rightarrow> 'p response_parser" where
  "response_parser_new lib =
     \<lparr>sp_parser = lib_init lib, sp_data = http_response_new 0x11 True, sp_error = False,
      sp_finished = False, sp_field = []\<rparr>"

fun on_response :: "hp_event \<Rightarrow> 'p response_parser \<Rightarrow> bool \<times> 'p response_parser" where
  "on_response (Headers_complete major meth status) p =
     (False, p\<lparr>sp_data := (sp_data p)
        \<lparr>rs_version := push_bit 4 (of_nat major) OR of_nat major, rs_status := status\<rparr>\<rparr>)"
| "on_response Message_complete p = (False, p\<lparr>sp_finished := True\<rparr>)"
| "on_response (Status code s) p = (False, p\<lparr>sp_data := (sp_data p)\<lparr>rs_status := code\<rparr>\<rparr>)"
| "on_response (Header_field s) p = (False, p\<lparr>sp_field := s\<rparr>)"
| "on_response (Header_value s) p =
     (False, p\<lparr>sp_data := response_set_header (sp_data p) (sp_field p) s\<rparr>)"
| "on_response (Body s) p = (False, p\<lparr>sp_data := (sp_data p)\<lparr>rs_body := s\<rparr>\<rparr>)"
| "on_response _ p = (False, p)"

definition response_execute ::
  "'p hp_lib \<Rightarrow> 'p response_parser \<Rightarrow> string \<Rightarrow> nat \<times> string \<times> 'p response_parser" where
  "response_execute lib p data =
     (let (failed, p) = deliver on_response 0 (lib_events lib (sp_parser p) data) p;
          (st, nparsed, errno, upgrade) = lib_end lib (sp_parser p) data failed;
          p = p\<lparr>sp_parser := st\<rparr>
      in if errno \<noteq> 0 then (nparsed, data, p\<lparr>sp_error := (errno mod 256 \<noteq> 0)\<rparr>)
         else if nparsed < length data then (nparsed, splice_at data 0 (drop nparsed data), p)
         else (nparsed, data, p))"

section \<open>Session\<close>

text \<open>
  \<open>recv_request\<close>: \<open>buf\<close> is the buffer of 1024 characters, \<open>rd\<close> the virtual \<open>read\<close>. The
  result is the request or the null pointer, whether the stream was closed, and the outside
  state; \<open>None\<close> means that the fuel did not suffice.
\<close>

fun recv_loop ::
  "nat \<Rightarrow> 'p hp_lib \<Rightarrow> 's reader \<Rightarrow> 's \<Rightarrow> 'p request_parser \<Rightarrow> string \<Rightarrow> nat \<Rightarrow>
   (http_request option \<times> bool \<times> 's) res option" where
  "recv_loop 0 lib rd s p buf offset = None"
| "recv_loop (Suc fuel) lib rd s p buf offset =
     (let (len, data, s) = rd s (of_nat (buffer_size - offset)) in
      if buffer_size < offset + length data then Some (Inl Heap_overflow)
      else if len = 0 then Some (Inr (None, True, s))
      else
        let buf = splice_at buf offset (map (\<lambda>b. char_of (unat b)) data);
            len = unat (len + of_nat offset) in
        if buffer_size < len then Some (Inl Heap_overflow)
        else
          let (nparsed, rest, p) = request_execute lib p (take len buf);
              buf = rest @ drop len buf in
          if qp_error p then Some (Inr (None, True, s))
          else
            let offset = ssub len nparsed in
            if offset = buffer_size then Some (Inr (None, True, s))
            else if qp_finished p then Some (Inr (Some (request_init (qp_data p)), False, s))
            else recv_loop fuel lib rd s p buf offset)"

definition recv_request ::
  "nat \<Rightarrow> 'p hp_lib \<Rightarrow> 's reader \<Rightarrow> 's \<Rightarrow> string \<Rightarrow> (http_request option \<times> bool \<times> 's) res option" where
  "recv_request fuel lib rd s buf = recv_loop fuel lib rd s (request_parser_new lib) buf 0"

definition send_response ::
  "nat \<Rightarrow> 's writer \<Rightarrow> 's \<Rightarrow> http_response \<Rightarrow> (u64 \<times> 's) res option" where
  "send_response fuel wr s r =
     (let data = to_bytes (response_to_string r) in write_fix_size fuel wr s data (of_nat (length data)))"

section \<open>Properties of the callbacks\<close>

lemma on_request_close: "rq_close (qp_data (snd (on_request lib ev p))) = rq_close (qp_data p)"
  by (cases ev) (auto simp: set_header_def Let_def split: option.splits)

lemma deliver_request_close:
  "rq_close (qp_data (snd (deliver (on_request lib) i evs p))) = rq_close (qp_data p)"
proof (induction evs arbitrary: i p)
  case (Cons ev evs)
  then show ?case
    using on_request_close [of lib ev p] by (auto split: prod.splits bool.splits)
qed simp

lemma request_execute_close:
  "rq_close (qp_data (snd (snd (request_execute lib p data)))) = rq_close (qp_data p)"
  using deliver_request_close [of lib 0 "lib_events lib (qp_parser p) data" p]
  by (auto simp: request_execute_def Let_def split: prod.splits)

lemma request_init_close: "rq_close r \<Longrightarrow> rq_close (request_init r)"
  by (auto simp: request_init_def Let_def strcasecmp_eq_def ci_key_def c_str_def)

lemma recv_loop_close:
  "rq_close (qp_data p) \<Longrightarrow> recv_loop fuel lib rd s p buf offset = Some (Inr (Some r, b, s')) \<Longrightarrow>
   rq_close r"
proof (induction fuel arbitrary: s p buf offset)
  case (Suc fuel)
  obtain len data s1 where rd: "rd s (of_nat (buffer_size - offset)) = (len, data, s1)"
    by (rule prod_cases3)
  let ?buf = "splice_at buf offset (map (\<lambda>b. char_of (unat b)) data)"
  let ?len = "unat (len + of_nat offset)"
  obtain n rest p1 where ex: "request_execute lib p (take ?len ?buf) = (n, rest, p1)"
    by (rule prod_cases3)
  have c: "rq_close (qp_data p1)"
    using request_execute_close [of lib p "take ?len ?buf"] Suc.prems(1) ex by simp
  show ?case
    using Suc.prems(2) Suc.IH [OF c] request_init_close [OF c] by (auto simp: rd ex Let_def split: if_splits)
qed simp

lemma recv_request_close:
  "recv_request fuel lib rd s buf = Some (Inr (Some r, b, s')) \<Longrightarrow> rq_close r"
  unfolding recv_request_def
  by (erule recv_loop_close [rotated])
     (simp add: request_parser_new_def http_request_default_def http_request_new_def)

text \<open>A read error is \<open>-1\<close>; as a length it is beyond the buffer.\<close>

lemma recv_request_error:
  assumes "\<And>n. rd s n = (- 1, [], s)"
  shows "recv_request (Suc fuel) lib rd s buf = Some (Inl Heap_overflow)"
proof -
  have "unat (- 1 :: u64) = 2 ^ 64 - 1"
    by (simp add: unsigned_minus_1_eq_mask mask_eq_exp_minus_1)
  then show ?thesis by (simp add: recv_request_def assms buffer_size_def Let_def)
qed

text \<open>Header callbacks: the last value given for a name is the one stored.\<close>

fun header_events :: "(string \<times> string) list \<Rightarrow> hp_event list" where
  "header_events [] = []"
| "header_events ((k, v) # hs) = Header_field k # Header_value v # header_events hs"

definition last_value :: "(string \<times> string) list \<Rightarrow> string \<Rightarrow> string \<Rightarrow> string" where
  "last_value hs k def =
     (case find (\<lambda>h. ci_key (fst h) = ci_key k) (rev hs) of None \<Rightarrow> def | Some h \<Rightarrow> snd h)"

lemma last_value_Cons:
  "last_value (h # hs) k def =
     last_value hs k (if ci_key (fst h) = ci_key k then snd h else def)"
  unfolding last_value_def by (induction hs rule: rev_induct) auto

lemma deliver_headers:
  "headers_ok (rq_headers (qp_data p)) \<Longrightarrow>
   headers_ok (rq_headers (qp_data (snd (deliver (on_request lib) i (header_events hs) p)))) \<and>
   get_header (qp_data (snd (deliver (on_request lib) i (header_events hs) p))) k def =
     last_value hs k (get_header (qp_data p) k def)"
proof (induction hs arbitrary: i p)
  case Nil
  then show ?case by (simp add: last_value_def)
next
  case (Cons h hs)
  obtain k' v where h: "h = (k', v)" by (rule prod.exhaust)
  let ?p = "p\<lparr>qp_field := k', qp_data := set_header (qp_data p) k' v\<rparr>"
  have ok: "headers_ok (rq_headers (qp_data ?p))"
    using Cons.prems by (simp add: set_header_def entries_ok)
  have "get_header (qp_data ?p) k def = (if ci_key k' = ci_key k then v else get_header (qp_data p) k def)"
    using Cons.prems by (simp add: get_header_def set_header_def get_set_entry)
  then show ?case
    using Cons.IH [OF ok, of "Suc (Suc i)"] by (simp add: h last_value_Cons)
qed

end
