(* ===== verification/Servlet.thy ===== *)
theory Servlet
  imports HttpParse
begin

text \<open>
  Dispatching requests to servlets (\<open>acid/http/servlet.cpp\<close>) and the connection loop of the
  server (\<open>acid/http/http_server.cpp\<close>). A servlet is a function on response and session, or
  the built-in one that answers 404. \<open>fnmatch\<close> is a function of the C library and a
  parameter. The read-write lock makes each operation atomic. A null pointer in place of a
  servlet is not representable: the operations are called with servlets.
\<close>

section \<open>Servlets and dispatch\<close>

datatype 's servlet =
    Function_servlet "http_request \<Rightarrow> http_response \<Rightarrow> 's \<Rightarrow> http_response \<times> 's"
  | Not_found_servlet string

text \<open>A creator holds a servlet or makes one of a fixed type.\<close>

datatype 's creator = Hold_creator "'s servlet" | New_creator "'s servlet"

fun creator_get :: "'s creator \<Rightarrow> 's servlet" where
  "creator_get (Hold_creator sv) = sv"
| "creator_get (New_creator sv) = sv"

record 's dispatch =
  sd_datas :: "string \<Rightarrow> 's creator option"
  sd_globs :: "(string \<times> 's creator) list"
  sd_default :: "'s servlet"

definition dispatch_new :: "'s dispatch" where
  "dispatch_new =
     \<lparr>sd_datas = (\<lambda>_. None), sd_globs = [], sd_default = Not_found_servlet ''acid''\<rparr>"

definition not_found_content :: "string \<Rightarrow> string" where
  "not_found_content name =
     ''<html><head><title>404 Not Found</title></head><body><center><h1>404 Not Found</h1></center><hr><center>''
     @ name @ ''</center></body></html>''"

definition not_found_handle :: "string \<Rightarrow> http_response \<Rightarrow> http_response" where
  "not_found_handle name r =
     (let r = r\<lparr>rs_status := 404\<rparr>;
          r = response_set_header r ''Server'' ''acid/1.0'';
          r = response_set_header r ''Content-Type'' (http_context_type_to_string TEXT_HTML)
      in r\<lparr>rs_body := not_found_content name\<rparr>)"

fun servlet_handle ::
  "'s servlet \<Rightarrow> http_request \<Rightarrow> http_response \<Rightarrow> 's \<Rightarrow> http_response \<times> 's" where
  "servlet_handle (Function_servlet cb) rq rs s = cb rq rs s"
| "servlet_handle (Not_found_servlet name) rq rs s = (not_found_handle name rs, s)"

definition add_servlet :: "'s dispatch \<Rightarrow> string \<Rightarrow> 's servlet \<Rightarrow> 's dispatch" where
  "add_servlet d uri sv = d\<lparr>sd_datas := (sd_datas d)(uri \<mapsto> Hold_creator sv)\<rparr>"

definition add_servlet_creator :: "'s dispatch \<Rightarrow> string \<Rightarrow> 's creator \<Rightarrow> 's dispatch" where
  "add_servlet_creator d uri cr = d\<lparr>sd_datas := (sd_datas d)(uri \<mapsto> cr)\<rparr>"

text \<open>The loop that erases the first entry of a URI.\<close>

fun erase_glob :: "string \<Rightarrow> (string \<times> 'c) list \<Rightarrow> (string \<times> 'c) list" where
  "erase_glob uri [] = []"
| "erase_glob uri (g # gs) = (if fst g = uri then gs else g # erase_glob uri gs)"

definition add_glob_servlet_creator :: "'s dispatch \<Rightarrow> string \<Rightarrow> 's creator \<Rightarrow> 's dispatch" where
  "add_glob_servlet_creator d uri cr = d\<lparr>sd_globs := erase_glob uri (sd_globs d) @ [(uri, cr)]\<rparr>"

definition add_glob_servlet :: "'s dispatch \<Rightarrow> string \<Rightarrow> 's servlet \<Rightarrow> 's dispatch" where
  "add_glob_servlet d uri sv = d\<lparr>sd_globs := erase_glob uri (sd_globs d) @ [(uri, Hold_creator sv)]\<rparr>"

definition del_servlet :: "'s dispatch \<Rightarrow> string \<Rightarrow> 's dispatch" where
  "del_servlet d uri = d\<lparr>sd_datas := (sd_datas d)(uri := None)\<rparr>"

definition del_glob_servlet :: "'s dispatch \<Rightarrow> string \<Rightarrow> 's dispatch" where
  "del_glob_servlet d uri = d\<lparr>sd_globs := erase_glob uri (sd_globs d)\<rparr>"

definition get_servlet :: "'s dispatch \<Rightarrow> string \<Rightarrow> 's servlet option" where
  "get_servlet d uri = map_option creator_get (sd_datas d uri)"

definition get_glob_servlet :: "'s dispatch \<Rightarrow> string \<Rightarrow> 's servlet option" where
  "get_glob_servlet d uri =
     map_option (creator_get \<circ> snd) (find (\<lambda>g. fst g = uri) (sd_globs d))"

definition get_matched_servlet ::
  "(string \<Rightarrow> string \<Rightarrow> bool) \<Rightarrow> 's dispatch \<Rightarrow> string \<Rightarrow> 's servlet" where
  "get_matched_servlet fnmatch d uri =
     (case sd_datas d uri of
        Some cr \<Rightarrow> creator_get cr
      | None \<Rightarrow>
          (case find (\<lambda>g. fnmatch (c_str (fst g)) (c_str uri)) (sd_globs d) of
             Some g \<Rightarrow> creator_get (snd g)
           | None \<Rightarrow> sd_default d))"

definition list_all_servlet_creator ::
  "'s dispatch \<Rightarrow> (string \<Rightarrow> 's creator option) \<Rightarrow> string \<Rightarrow> 's creator option" where
  "list_all_servlet_creator d infos = infos ++ sd_datas d"

definition list_all_glob_servlet_creator ::
  "'s dispatch \<Rightarrow> (string \<Rightarrow> 's creator option) \<Rightarrow> string \<Rightarrow> 's creator option" where
  "list_all_glob_servlet_creator d infos = fold (\<lambda>g m. m(fst g \<mapsto> snd g)) (sd_globs d) infos"

text \<open>The pointers that can be stored are not null, so the test of \<open>handle\<close> succeeds.\<close>

definition dispatch_handle ::
  "(string \<Rightarrow> string \<Rightarrow> bool) \<Rightarrow> 's dispatch \<Rightarrow> http_request \<Rightarrow> http_response \<Rightarrow> 's \<Rightarrow> http_response \<times> 's" where
  "dispatch_handle fnmatch d rq rs s =
     servlet_handle (get_matched_servlet fnmatch d (rq_path rq)) rq rs s"

section \<open>The server\<close>

record 's http_server =
  hs_name :: string
  hs_keep_alive :: bool
  hs_dispatch :: "'s dispatch"

definition http_server_new :: "bool \<Rightarrow> 's http_server" where
  "http_server_new keep_alive =
     \<lparr>hs_name = ''acid/1.0'', hs_keep_alive = keep_alive, hs_dispatch = dispatch_new\<rparr>"

definition set_name :: "'s http_server \<Rightarrow> string \<Rightarrow> 's http_server" where
  "set_name hs name =
     hs\<lparr>hs_name := name, hs_dispatch := (hs_dispatch hs)\<lparr>sd_default := Not_found_servlet name\<rparr>\<rparr>"

text \<open>
  \<open>handle_client\<close>: \<open>recv\<close> stands for \<open>recv_request\<close> on the session, \<open>send\<close> for
  \<open>send_response\<close>. The result lists the responses sent.
\<close>

fun handle_client ::
  "nat \<Rightarrow> ('s \<Rightarrow> http_request option \<times> 's) \<Rightarrow> (http_response \<Rightarrow> 's \<Rightarrow> 's) \<Rightarrow>
   (string \<Rightarrow> string \<Rightarrow> bool) \<Rightarrow> 's http_server \<Rightarrow> 's \<Rightarrow> (http_response list \<times> 's) option" where
  "handle_client 0 recv send fnmatch hs s = None"
| "handle_client (Suc fuel) recv send fnmatch hs s =
     (case recv s of
        (None, s) \<Rightarrow> Some ([], s)
      | (Some rq, s) \<Rightarrow>
          let rs = http_response_new (rq_version rq) (rq_close rq \<or> \<not> hs_keep_alive hs);
              rs = response_set_header rs ''Server'' (hs_name hs);
              (rs, s) = dispatch_handle fnmatch (hs_dispatch hs) rq rs s;
              s = send rs s
          in if \<not> hs_keep_alive hs \<or> rq_close rq then Some ([rs], s)
             else map_option (\<lambda>(rss, s). (rs # rss, s)) (handle_client fuel recv send fnmatch hs s))"

text \<open>The session as the server sees it: a request or the null pointer.\<close>

definition session_recv ::
  "nat \<Rightarrow> 'p hp_lib \<Rightarrow> 's reader \<Rightarrow> string \<Rightarrow> 's \<Rightarrow> http_request option \<times> 's" where
  "session_recv fuel lib rd buf s =
     (case recv_request fuel lib rd s buf of
        Some (Inr (r, closed, s)) \<Rightarrow> (r, s) | _ \<Rightarrow> (None, s))"

section \<open>Laws of the dispatch\<close>

lemma erase_glob_set: "set (erase_glob uri gs) \<subseteq> set gs"
  by (induction gs) auto

lemma erase_glob_distinct:
  "distinct (map fst gs) \<Longrightarrow>
   distinct (map fst (erase_glob uri gs)) \<and> uri \<notin> fst ` set (erase_glob uri gs)"
proof (induction gs)
  case (Cons g gs)
  then show ?case using erase_glob_set [of uri gs] by auto
qed simp

definition globs_ok :: "'s dispatch \<Rightarrow> bool" where
  "globs_ok d \<longleftrightarrow> distinct (map fst (sd_globs d))"

lemma globs_ok_ops:
  "globs_ok dispatch_new"
  "globs_ok d \<Longrightarrow> globs_ok (add_glob_servlet_creator d uri cr)"
  "globs_ok d \<Longrightarrow> globs_ok (add_glob_servlet d uri sv)"
  "globs_ok d \<Longrightarrow> globs_ok (del_glob_servlet d uri)"
  "globs_ok d \<Longrightarrow> globs_ok (add_servlet d uri sv)"
  "globs_ok d \<Longrightarrow> globs_ok (del_servlet d uri)"
  using erase_glob_distinct [of "sd_globs d" uri]
  by (auto simp: globs_ok_def dispatch_new_def add_glob_servlet_creator_def add_glob_servlet_def
      del_glob_servlet_def add_servlet_def del_servlet_def)

lemma find_absent: "uri \<notin> fst ` set gs \<Longrightarrow> find (\<lambda>g. fst g = uri) gs = None"
  by (force simp: find_None_iff image_iff)

lemma find_append:
  "find P (xs @ ys) = (case find P xs of None \<Rightarrow> find P ys | Some x \<Rightarrow> Some x)"
  by (induction xs) auto

lemma find_append_None: "find P xs = None \<Longrightarrow> find P (xs @ ys) = find P ys"
  by (induction xs) (auto split: if_splits)

lemma get_add_glob:
  "globs_ok d \<Longrightarrow> get_glob_servlet (add_glob_servlet d uri sv) uri = Some sv"
  "globs_ok d \<Longrightarrow> get_glob_servlet (del_glob_servlet d uri) uri = None"
  using erase_glob_distinct [of "sd_globs d" uri]
  by (auto simp: globs_ok_def get_glob_servlet_def add_glob_servlet_def del_glob_servlet_def
      find_absent find_append_None)

lemma find_erase_other: "uri \<noteq> uri' \<Longrightarrow>
    find (\<lambda>g. fst g = uri') (erase_glob uri gs) = find (\<lambda>g. fst g = uri') gs"
  by (induction gs) auto

lemma handle_client_once:
  assumes "\<And>s rq s'. recv s = (Some rq, s') \<Longrightarrow> rq_close rq"
  shows "\<exists>rss s'. handle_client (Suc fuel) recv send fnmatch hs s = Some (rss, s') \<and> length rss \<le> 1"
proof (cases "recv s")
  case (Pair r s1)
  show ?thesis
  proof (cases r)
    case (Some rq)
    with Pair have "rq_close rq" using assms by simp
    then show ?thesis using Pair Some by (auto simp: Let_def split: prod.splits)
  qed (use Pair in simp)
qed

lemma session_recv_close: "session_recv fuel lib rd buf s = (Some rq, s') \<Longrightarrow> rq_close rq"
  using recv_request_close [of fuel lib rd s buf rq]
  by (auto simp: session_recv_def split: option.splits sum.splits)

end
