(* ===== verification/FdManager.thy ===== *)
theory FdManager
  imports Prelude
begin

unbundle bit_operations_syntax

text \<open>
  Descriptor contexts (\<open>acid/common/fd_manager.cpp\<close>): what the hooks remember of a
  descriptor, and the table that holds the contexts. The system calls \<open>fstat\<close> and the
  original \<open>fcntl\<close> are arguments over a kernel state \<open>'w\<close>. A context is shared by pointer;
  nobody keeps one across a wait, so the table holds it by value. Each operation of the
  table holds its lock.
\<close>

section \<open>System calls\<close>

text \<open>A system call returns its result and \<open>errno\<close>, which only counts when the result is
  -1.\<close>

type_synonym 'w sys_call = "'w \<Rightarrow> int \<times> int \<times> 'w"

text \<open>The commands of \<open>fcntl\<close>: the two on the status flags, those with an argument, those
  without, and those the hook does not know, which may come with an argument.\<close>

datatype fcntl_cmd = F_SETFL u32 | F_GETFL | Cmd_arg int nat | Cmd int | Cmd_unknown int nat

definition O_NONBLOCK :: u32 where "O_NONBLOCK = 0x800"
definition SO_RCVTIMEO :: int where "SO_RCVTIMEO = 20"
definition SO_SNDTIMEO :: int where "SO_SNDTIMEO = 21"

abbreviation nonblocking :: "u32 \<Rightarrow> bool" where
  "nonblocking flags \<equiv> flags AND O_NONBLOCK \<noteq> 0"

section \<open>Contexts\<close>

record fd_ctx =
  fd_is_init :: bool
  fd_is_socket :: bool
  fd_sys_nonblock :: bool
  fd_user_nonblock :: bool
  fd_is_closed :: bool
  fd_fd :: int
  fd_recv_timeout :: u64
  fd_send_timeout :: u64

text \<open>\<open>fstat\<close>: whether the descriptor is a socket, \<open>None\<close> when the call fails.\<close>

definition fd_init ::
  "(int \<Rightarrow> 'w \<Rightarrow> bool option) \<Rightarrow> (int \<Rightarrow> fcntl_cmd \<Rightarrow> 'w sys_call) \<Rightarrow> fd_ctx \<times> 'w \<Rightarrow> bool \<times> fd_ctx \<times> 'w" where
  "fd_init fstat fcntl_f = (\<lambda>(c, w).
     if fd_is_init c then (True, c, w)
     else
       let c = c\<lparr>fd_recv_timeout := - 1, fd_send_timeout := - 1\<rparr>;
           c = (case fstat (fd_fd c) w of
                  None \<Rightarrow> c\<lparr>fd_is_init := False, fd_is_socket := False\<rparr>
                | Some sock \<Rightarrow> c\<lparr>fd_is_init := True, fd_is_socket := sock\<rparr>);
           (c, w) =
             (if fd_is_socket c then
                let (n, e, w) = fcntl_f (fd_fd c) F_GETFL w;
                    flags = word_of_int n :: u32;
                    w = (if \<not> nonblocking flags
                         then snd (snd (fcntl_f (fd_fd c) (F_SETFL (flags OR O_NONBLOCK)) w)) else w)
                in (c\<lparr>fd_sys_nonblock := True\<rparr>, w)
              else (c\<lparr>fd_sys_nonblock := False\<rparr>, w))
       in (fd_is_init c, c\<lparr>fd_user_nonblock := False, fd_is_closed := False\<rparr>, w))"

definition fd_ctx_new ::
  "(int \<Rightarrow> 'w \<Rightarrow> bool option) \<Rightarrow> (int \<Rightarrow> fcntl_cmd \<Rightarrow> 'w sys_call) \<Rightarrow> int \<Rightarrow> 'w \<Rightarrow> fd_ctx \<times> 'w" where
  "fd_ctx_new fstat fcntl_f fd w =
     snd (fd_init fstat fcntl_f
       (\<lparr>fd_is_init = False, fd_is_socket = False, fd_sys_nonblock = False, fd_user_nonblock = False,
         fd_is_closed = False, fd_fd = fd, fd_recv_timeout = - 1, fd_send_timeout = - 1\<rparr>, w))"

definition set_timeout :: "int \<Rightarrow> u64 \<Rightarrow> fd_ctx \<Rightarrow> fd_ctx" where
  "set_timeout type ms c =
     (if type = SO_RCVTIMEO then c\<lparr>fd_recv_timeout := ms\<rparr> else c\<lparr>fd_send_timeout := ms\<rparr>)"

definition get_timeout :: "int \<Rightarrow> fd_ctx \<Rightarrow> u64" where
  "get_timeout type c = (if type = SO_RCVTIMEO then fd_recv_timeout c else fd_send_timeout c)"

section \<open>The table\<close>

type_synonym fd_manager = "fd_ctx option list"

definition fd_manager_new :: fd_manager where
  "fd_manager_new = replicate 64 None"

text \<open>What the table has at a descriptor, and putting a context there, after making the
  table long enough.\<close>

definition fd_entry :: "fd_manager \<Rightarrow> int \<Rightarrow> fd_ctx option" where
  "fd_entry m fd = (if 0 \<le> fd \<and> nat fd < length m then m ! nat fd else None)"

definition fd_put :: "fd_manager \<Rightarrow> int \<Rightarrow> fd_ctx option \<Rightarrow> fd_manager res" where
  "fd_put m fd c =
     (let m = (if nat fd \<ge> length m then m @ replicate (nat fd * 3 div 2 - length m) None else m)
      in ensureR (nat fd < length m) Heap_overflow (Inr (m[nat fd := c])))"

definition fd_get ::
  "(int \<Rightarrow> 'w \<Rightarrow> bool option) \<Rightarrow> (int \<Rightarrow> fcntl_cmd \<Rightarrow> 'w sys_call) \<Rightarrow> int \<Rightarrow> bool \<Rightarrow> fd_manager \<Rightarrow> 'w \<Rightarrow>
   (fd_ctx option \<times> fd_manager \<times> 'w) res" where
  "fd_get fstat fcntl_f fd auto_create m w =
     (if fd = - 1 then Inr (None, m, w)
      else if fd < 0 then Inl Undefined
      else if length m \<le> nat fd \<and> \<not> auto_create then Inr (None, m, w)
      else if nat fd < length m \<and> (m ! nat fd \<noteq> None \<or> \<not> auto_create) then Inr (m ! nat fd, m, w)
      else
        let (c, w) = fd_ctx_new fstat fcntl_f fd w
        in bindR (fd_put m fd (Some c)) (\<lambda>m. Inr (Some c, m, w)))"

definition fd_del :: "int \<Rightarrow> fd_manager \<Rightarrow> fd_manager res" where
  "fd_del fd m =
     (if fd < 0 then Inl Undefined
      else if length m \<le> nat fd then Inr m
      else Inr (m[nat fd := None]))"

section \<open>Laws\<close>

text \<open>A table of descriptors: looking up what was put, and what was removed.\<close>

locale descriptor_table =
  fixes entry :: "'t \<Rightarrow> int \<Rightarrow> 'c option"
    and put :: "'t \<Rightarrow> int \<Rightarrow> 'c \<Rightarrow> 't res"
    and del :: "int \<Rightarrow> 't \<Rightarrow> 't res"
    and ok :: "'t \<Rightarrow> bool"
  assumes put_ok: "ok t \<Longrightarrow> 0 \<le> fd \<Longrightarrow> \<exists>t'. put t fd c = Inr t' \<and> ok t'"
    and entry_put: "ok t \<Longrightarrow> 0 \<le> fd \<Longrightarrow> put t fd c = Inr t' \<Longrightarrow> entry t' = (entry t)(fd := Some c)"
    and del_ok: "ok t \<Longrightarrow> 0 \<le> fd \<Longrightarrow> \<exists>t'. del fd t = Inr t' \<and> ok t'"
    and entry_del: "ok t \<Longrightarrow> 0 \<le> fd \<Longrightarrow> del fd t = Inr t' \<Longrightarrow> entry t' = (entry t)(fd := None)"
begin

definition managed :: "'t \<Rightarrow> int set" where
  "managed t = {fd. entry t fd \<noteq> None}"

lemma managed_put:
  "ok t \<Longrightarrow> 0 \<le> fd \<Longrightarrow> put t fd c = Inr t' \<Longrightarrow> managed t' = insert fd (managed t)"
  by (auto simp: managed_def entry_put)

lemma managed_del:
  "ok t \<Longrightarrow> 0 \<le> fd \<Longrightarrow> del fd t = Inr t' \<Longrightarrow> managed t' = managed t - {fd}"
  by (auto simp: managed_def entry_del)

lemma del_put:
  assumes "ok t" "0 \<le> fd" "entry t fd = None"
  shows "\<exists>t1 t2. put t fd c = Inr t1 \<and> del fd t1 = Inr t2 \<and> entry t2 = entry t"
proof -
  obtain t1 where 1: "put t fd c = Inr t1" "ok t1" using put_ok [OF assms(1,2)] by blast
  obtain t2 where 2: "del fd t1 = Inr t2" using del_ok [OF 1(2) assms(2)] by blast
  have "entry t2 = entry t"
    using entry_del [OF 1(2) assms(2) 2] entry_put [OF assms(1,2) 1(1)] assms(3) by (simp add: fun_upd_idem)
  with 1 2 show ?thesis by blast
qed

end

definition table_ok :: "fd_manager \<Rightarrow> bool" where
  "table_ok m \<longleftrightarrow> 64 \<le> length m"

lemma table_ok_new [simp]: "table_ok fd_manager_new" "fd_entry fd_manager_new fd = None"
  by (simp_all add: table_ok_def fd_manager_new_def fd_entry_def)

lemma fd_put_total:
  assumes "table_ok m" "0 \<le> fd"
  shows "\<exists>m'. fd_put m fd c = Inr m' \<and> table_ok m' \<and> fd_entry m' = (fd_entry m)(fd := c)"
proof (cases "nat fd < length m")
  case True
  with assms show ?thesis by (auto simp: fd_put_def table_ok_def fd_entry_def fun_eq_iff nth_list_update)
next
  case False
  then have len: "length m \<le> nat fd" "nat fd < nat fd * 3 div 2"
    using assms(1) by (simp_all add: table_ok_def)
  let ?m = "m @ replicate (nat fd * 3 div 2 - length m) None"
  have P: "fd_put m fd c = Inr (?m[nat fd := c])" using len by (simp add: fd_put_def)
  have none: "?m ! j = None" if "length m \<le> j" "j < length ?m" for j
  proof -
    have "j - length m < nat fd * 3 div 2 - length m" using that len(1) by (simp add: diff_less_mono)
    with that(1) show ?thesis by (simp add: nth_append)
  qed
  have old: "?m ! j = m ! j" if "j < length m" for j using that by (simp add: nth_append)
  have ent: "fd_entry (?m[nat fd := c]) i = ((fd_entry m)(fd := c)) i" for i
  proof (cases "0 \<le> i \<and> nat i < length ?m \<and> i \<noteq> fd")
    case True
    then have "nat i \<noteq> nat fd" using assms(2) by auto
    with True none [of "nat i"] old [of "nat i"] show ?thesis by (auto simp: fd_entry_def)
  next
    case False
    with len assms(2) show ?thesis by (auto simp: fd_entry_def)
  qed
  from P ent show ?thesis using assms(1) by (auto simp: table_ok_def)
qed

lemma fd_del_total:
  assumes "table_ok m" "0 \<le> fd"
  shows "\<exists>m'. fd_del fd m = Inr m' \<and> table_ok m' \<and> fd_entry m' = (fd_entry m)(fd := None)"
  using assms by (auto simp: fd_del_def table_ok_def fd_entry_def fun_eq_iff nth_list_update)

interpretation fdt: descriptor_table fd_entry "\<lambda>m fd c. fd_put m fd (Some c)" fd_del table_ok
proof
  show "\<exists>t'. fd_put t fd (Some c) = Inr t' \<and> table_ok t'" if "table_ok t" "0 \<le> fd" for t fd c
    using fd_put_total [OF that] by blast
  show "\<exists>t'. fd_del fd t = Inr t' \<and> table_ok t'" if "table_ok t" "0 \<le> fd" for t fd
    using fd_del_total [OF that] by blast
  show "fd_entry t' = (fd_entry t)(fd := Some c)" if "table_ok t" "0 \<le> fd" "fd_put t fd (Some c) = Inr t'" for t fd c t'
    using fd_put_total [OF that(1,2), of "Some c"] that(3) by auto
  show "fd_entry t' = (fd_entry t)(fd := None)" if "table_ok t" "0 \<le> fd" "fd_del fd t = Inr t'" for t fd t'
    using fd_del_total [OF that(1,2)] that(3) by auto
qed

text \<open>\<open>get\<close> in terms of the table.\<close>

lemma fd_get_found:
  "0 \<le> fd \<Longrightarrow> fd_entry m fd = Some c \<Longrightarrow> fd_get fstat fcntl_f fd auto_create m w = Inr (Some c, m, w)"
  by (simp add: fd_get_def fd_entry_def split: if_splits)

lemma fd_get_missing:
  "0 \<le> fd \<Longrightarrow> fd_entry m fd = None \<Longrightarrow> fd_get fstat fcntl_f fd False m w = Inr (None, m, w)"
  by (auto simp: fd_get_def fd_entry_def split: if_splits)

lemma fd_get_look: "0 \<le> fd \<Longrightarrow> fd_get fstat fcntl_f fd False m w = Inr (fd_entry m fd, m, w)"
  by (cases "fd_entry m fd") (simp_all add: fd_get_found fd_get_missing)

lemma fd_get_create:
  assumes "table_ok m" "0 \<le> fd" "fd_entry m fd = None" "fd_ctx_new fstat fcntl_f fd w = (c, w')"
  shows "\<exists>m'. fd_get fstat fcntl_f fd True m w = Inr (Some c, m', w') \<and> table_ok m' \<and>
    fd_entry m' = (fd_entry m)(fd := Some c)"
proof -
  obtain m' where p: "fd_put m fd (Some c) = Inr m'" "table_ok m'" "fd_entry m' = (fd_entry m)(fd := Some c)"
    using fd_put_total [OF assms(1,2), of "Some c"] by blast
  have "fd_get fstat fcntl_f fd True m w = Inr (Some c, m', w')"
    using assms p(1) by (simp add: fd_get_def fd_entry_def split: if_splits)
  with p show ?thesis by blast
qed

text \<open>A context made for a socket has blocking semantics for the user and a non-blocking
  descriptor, and no timeout.\<close>

lemma fd_ctx_new_socket:
  assumes "fstat fd w = Some True"
  shows "fst (fd_ctx_new fstat fcntl_f fd w) =
    \<lparr>fd_is_init = True, fd_is_socket = True, fd_sys_nonblock = True, fd_user_nonblock = False,
     fd_is_closed = False, fd_fd = fd, fd_recv_timeout = - 1, fd_send_timeout = - 1\<rparr>"
  using assms by (simp add: fd_ctx_new_def fd_init_def Let_def split: prod.split)

lemma fd_ctx_new_file:
  assumes "fstat fd w \<noteq> Some True"
  shows "fd_ctx_new fstat fcntl_f fd w =
    (\<lparr>fd_is_init = (fstat fd w \<noteq> None), fd_is_socket = False, fd_sys_nonblock = False, fd_user_nonblock = False,
     fd_is_closed = False, fd_fd = fd, fd_recv_timeout = - 1, fd_send_timeout = - 1\<rparr>, w)"
  using assms by (auto simp: fd_ctx_new_def fd_init_def Let_def split: option.splits)

lemma get_set_timeout:
  "type = SO_RCVTIMEO \<or> type = SO_SNDTIMEO \<Longrightarrow> type' = SO_RCVTIMEO \<or> type' = SO_SNDTIMEO \<Longrightarrow>
   get_timeout type' (set_timeout type ms c) = (if type' = type then ms else get_timeout type' c)"
  by (auto simp: get_timeout_def set_timeout_def SO_RCVTIMEO_def SO_SNDTIMEO_def)

end
