(* ===== verification/Fiber.thy ===== *)
theory Fiber
  imports Prelude
begin

text \<open>
  Fibers (\<open>acid/common/fiber.cpp\<close>): the state of each fiber, the thread-local pointers, and
  the transfer of control by \<open>swapcontext\<close>. A fiber is a cell of a heap. A context is the
  fiber whose code it continues: \<open>fs_ctx\<close> is what is saved in the context of a fiber,
  \<open>fs_cur\<close> the code a thread is executing. \<open>'cb\<close> is the type of callbacks; what a callback
  does between two transfers is outside.
\<close>

section \<open>State\<close>

datatype fiber_state = READY | RUNNING | TERM_STATE

record 'cb fiber =
  fb_id :: u64
  fb_stack_size :: u32
  fb_state :: fiber_state
  fb_stack :: bool
  fb_callback :: "'cb option"
  fb_in_scheduler :: bool

text \<open>The thread-local variables \<open>t_fiber\<close>, \<open>t_main_fiber\<close> and \<open>t_scheduler_fiber\<close>.\<close>

record thread_local =
  tl_fiber :: "nat option"
  tl_main_fiber :: "nat option"
  tl_scheduler_fiber :: "nat option"

record 'cb fibers =
  fs_heap :: "nat \<Rightarrow> 'cb fiber"
  fs_ctx :: "nat \<Rightarrow> nat"
  fs_cur :: "nat \<Rightarrow> nat"
  fs_tls :: "nat \<Rightarrow> thread_local"
  fs_fiber_id :: u64
  fs_fiber_count :: u64

definition set_this :: "nat \<Rightarrow> nat option \<Rightarrow> 'cb fibers \<Rightarrow> 'cb fibers" where
  "set_this t f s = s\<lparr>fs_tls := (fs_tls s)(t := (fs_tls s t)\<lparr>tl_fiber := f\<rparr>)\<rparr>"

definition set_state :: "nat \<Rightarrow> fiber_state \<Rightarrow> 'cb fibers \<Rightarrow> 'cb fibers" where
  "set_state a st s = s\<lparr>fs_heap := (fs_heap s)(a := (fs_heap s a)\<lparr>fb_state := st\<rparr>)\<rparr>"

section \<open>Construction\<close>

definition get_fiber_id :: "nat \<Rightarrow> 'cb fibers \<Rightarrow> u64" where
  "get_fiber_id t s = (case tl_fiber (fs_tls s t) of Some a \<Rightarrow> fb_id (fs_heap s a) | None \<Rightarrow> 0)"

text \<open>The main fiber of thread \<open>t\<close> at the address \<open>a\<close>; it has no stack of its own and is
  the code the thread is executing.\<close>

definition main_fiber_new :: "nat \<Rightarrow> nat \<Rightarrow> 'cb fibers \<Rightarrow> 'cb fibers" where
  "main_fiber_new t a s =
     (let n = fs_fiber_id s + 1 in
      (set_this t (Some a) s)
        \<lparr>fs_heap := (fs_heap s)(a := \<lparr>fb_id = n, fb_stack_size = 0, fb_state = RUNNING, fb_stack = False,
                                     fb_callback = None, fb_in_scheduler = False\<rparr>),
         fs_ctx := (fs_ctx s)(a := a), fs_cur := (fs_cur s)(t := a),
         fs_fiber_id := n, fs_fiber_count := fs_fiber_count s + 1\<rparr>)"

text \<open>\<open>default_size\<close> is the configured stack size; \<open>m_stack_size\<close> has 32 bits.\<close>

definition fiber_new :: "u32 \<Rightarrow> nat \<Rightarrow> 'cb \<Rightarrow> u64 \<Rightarrow> bool \<Rightarrow> 'cb fibers \<Rightarrow> 'cb fibers" where
  "fiber_new default_size a callback stack_size run_in_scheduler s =
     (let n = fs_fiber_id s + 1 in
      s\<lparr>fs_heap := (fs_heap s)(a := \<lparr>fb_id = n,
            fb_stack_size = (if stack_size \<noteq> 0 then ucast stack_size else default_size),
            fb_state = READY, fb_stack = True, fb_callback = Some callback,
            fb_in_scheduler = run_in_scheduler\<rparr>),
        fs_ctx := (fs_ctx s)(a := a),
        fs_fiber_id := n, fs_fiber_count := fs_fiber_count s + 1\<rparr>)"

text \<open>\<open>get_this\<close>, with the address \<open>a\<close> for the main fiber that may have to be made.\<close>

definition get_this :: "nat \<Rightarrow> nat \<Rightarrow> 'cb fibers \<Rightarrow> nat \<times> 'cb fibers" where
  "get_this t a s =
     (case tl_fiber (fs_tls s t) of
        Some f \<Rightarrow> (f, s)
      | None \<Rightarrow>
          let s = main_fiber_new t a s in
          (a, s\<lparr>fs_tls := (fs_tls s)(t := (fs_tls s t)\<lparr>tl_main_fiber := Some a\<rparr>)\<rparr>))"

definition fiber_destroy :: "nat \<Rightarrow> nat \<Rightarrow> 'cb fibers \<Rightarrow> 'cb fibers res" where
  "fiber_destroy t a s =
     (let s = s\<lparr>fs_fiber_count := fs_fiber_count s - 1\<rparr>; f = fs_heap s a in
      if fb_stack f then ensureR (fb_state f = TERM_STATE) Assert_failed (Inr s)
      else
        ensureR (fb_callback f = None) Assert_failed
          (ensureR (fb_state f = RUNNING) Assert_failed
            (Inr (if tl_fiber (fs_tls s t) = Some a then set_this t None s else s))))"

definition fiber_reset :: "nat \<Rightarrow> 'cb \<Rightarrow> 'cb fibers \<Rightarrow> 'cb fibers res" where
  "fiber_reset a callback s =
     ensureR (fb_stack (fs_heap s a)) Assert_failed
       (ensureR (fb_state (fs_heap s a) = TERM_STATE) Assert_failed
         (Inr (s\<lparr>fs_heap := (fs_heap s)(a := (fs_heap s a)\<lparr>fb_callback := Some callback, fb_state := READY\<rparr>),
                fs_ctx := (fs_ctx s)(a := a)\<rparr>)))"

section \<open>Transfer of control\<close>

text \<open>The fiber in whose context the resuming code is saved: the scheduling fiber of the
  thread or its main fiber.\<close>

definition home :: "nat \<Rightarrow> nat \<Rightarrow> 'cb fibers \<Rightarrow> nat option" where
  "home t a s =
     (if fb_in_scheduler (fs_heap s a) then tl_scheduler_fiber (fs_tls s t) else tl_main_fiber (fs_tls s t))"

text \<open>\<open>swapcontext(&from->m_ctx, &to->m_ctx)\<close> on the thread \<open>t\<close>.\<close>

definition swapcontext :: "nat \<Rightarrow> nat \<Rightarrow> nat \<Rightarrow> 'cb fibers \<Rightarrow> 'cb fibers" where
  "swapcontext t src dst s =
     (let ctx = (fs_ctx s)(src := fs_cur s t) in
      s\<lparr>fs_ctx := ctx, fs_cur := (fs_cur s)(t := ctx dst)\<rparr>)"

definition resume :: "nat \<Rightarrow> nat \<Rightarrow> 'cb fibers \<Rightarrow> 'cb fibers res" where
  "resume t a s =
     ensureR (fb_state (fs_heap s a) \<noteq> TERM_STATE \<and> fb_state (fs_heap s a) \<noteq> RUNNING) Assert_failed
       (let s = set_state a RUNNING (set_this t (Some a) s) in
        case home t a s of None \<Rightarrow> Inl Null_deref | Some h \<Rightarrow> Inr (swapcontext t h a s))"

definition yield :: "nat \<Rightarrow> nat \<Rightarrow> 'cb fibers \<Rightarrow> 'cb fibers res" where
  "yield t a s =
     ensureR (fb_state (fs_heap s a) = RUNNING \<or> fb_state (fs_heap s a) = TERM_STATE) Assert_failed
       (let s = set_this t (tl_main_fiber (fs_tls s t)) s;
            s = (if fb_state (fs_heap s a) \<noteq> TERM_STATE then set_state a READY s else s)
        in case home t a s of None \<Rightarrow> Inl Null_deref | Some h \<Rightarrow> Inr (swapcontext t a h s))"

text \<open>\<open>main_func\<close> after the callback has returned; the fiber is the one \<open>get_this\<close> found at
  its start.\<close>

definition main_func_end :: "nat \<Rightarrow> nat \<Rightarrow> 'cb fibers \<Rightarrow> 'cb fibers res" where
  "main_func_end t a s =
     yield t a (s\<lparr>fs_heap := (fs_heap s)(a := (fs_heap s a)\<lparr>fb_callback := None, fb_state := TERM_STATE\<rparr>)\<rparr>)"

section \<open>Laws\<close>

lemma set_this_simps [simp]:
  "fs_heap (set_this t f s) = fs_heap s" "fs_ctx (set_this t f s) = fs_ctx s"
  "fs_cur (set_this t f s) = fs_cur s" "tl_fiber (fs_tls (set_this t f s) t) = f"
  "tl_main_fiber (fs_tls (set_this t f s) u) = tl_main_fiber (fs_tls s u)"
  "tl_scheduler_fiber (fs_tls (set_this t f s) u) = tl_scheduler_fiber (fs_tls s u)"
  by (simp_all add: set_this_def)

lemma set_state_simps [simp]:
  "fs_ctx (set_state a st s) = fs_ctx s" "fs_cur (set_state a st s) = fs_cur s"
  "fs_tls (set_state a st s) = fs_tls s"
  "fs_heap (set_state a st s) b = (if b = a then (fs_heap s a)\<lparr>fb_state := st\<rparr> else fs_heap s b)"
  by (simp_all add: set_state_def)

lemma swapcontext_simps [simp]:
  "fs_heap (swapcontext t x y s) = fs_heap s" "fs_tls (swapcontext t x y s) = fs_tls s"
  "fs_ctx (swapcontext t x y s) = (fs_ctx s)(x := fs_cur s t)"
  "fs_cur (swapcontext t x y s) = (fs_cur s)(t := ((fs_ctx s)(x := fs_cur s t)) y)"
  by (simp_all add: swapcontext_def Let_def)

lemma home_simps [simp]:
  "home t b (set_this u f s) = home t b s" "home t b (set_state a st s) = home t b s"
  "home t b (swapcontext u x y s) = home t b s"
  by (simp_all add: home_def)

text \<open>The fiber \<open>a\<close> rests: its context is its own code.\<close>

definition rests :: "nat \<Rightarrow> 'cb fibers \<Rightarrow> bool" where
  "rests a s \<longleftrightarrow> fb_state (fs_heap s a) = READY \<and> fs_ctx s a = a"

lemma resume_spec:
  assumes "rests a s" "home t a s = Some h" "fs_cur s t = h" "a \<noteq> h"
  shows "\<exists>s'. resume t a s = Inr s' \<and> fs_cur s' t = a \<and> fb_state (fs_heap s' a) = RUNNING \<and>
    tl_fiber (fs_tls s' t) = Some a \<and> fs_ctx s' h = h \<and> home t a s' = Some h \<and>
    (\<forall>b. b \<noteq> a \<longrightarrow> fs_heap s' b = fs_heap s b) \<and> (\<forall>u. u \<noteq> t \<longrightarrow> fs_cur s' u = fs_cur s u) \<and>
    tl_main_fiber (fs_tls s' t) = tl_main_fiber (fs_tls s t)"
  using assms by (simp add: resume_def rests_def Let_def)

lemma yield_spec:
  assumes "fs_cur s t = a" "home t a s = Some h" "fs_ctx s h = h" "a \<noteq> h"
    and "fb_state (fs_heap s a) = RUNNING"
  shows "\<exists>s'. yield t a s = Inr s' \<and> fs_cur s' t = h \<and> rests a s' \<and>
    tl_fiber (fs_tls s' t) = tl_main_fiber (fs_tls s t) \<and> (\<forall>b. b \<noteq> a \<longrightarrow> fs_heap s' b = fs_heap s b)"
  using assms by (simp add: yield_def rests_def Let_def)

lemma finish_spec:
  assumes "fs_cur s t = a" "home t a s = Some h" "fs_ctx s h = h" "a \<noteq> h"
  shows "\<exists>s'. main_func_end t a s = Inr s' \<and> fs_cur s' t = h \<and> fb_state (fs_heap s' a) = TERM_STATE \<and>
    fb_callback (fs_heap s' a) = None \<and> (\<forall>b. b \<noteq> a \<longrightarrow> fs_heap s' b = fs_heap s b)"
proof -
  let ?s = "s\<lparr>fs_heap := (fs_heap s)(a := (fs_heap s a)\<lparr>fb_callback := None, fb_state := TERM_STATE\<rparr>)\<rparr>"
  have "home t a ?s = Some h" using assms(2) by (simp add: home_def split: if_splits)
  with assms show ?thesis by (simp add: main_func_end_def yield_def Let_def)
qed

text \<open>A fiber that is resumed by another scheduled fiber overwrites the context of the
  scheduling fiber: when the outer fiber yields, it continues itself.\<close>

lemma nested_resume:
  assumes h: "tl_scheduler_fiber (fs_tls s t) = Some h"
    and a: "fb_in_scheduler (fs_heap s a)" "fb_state (fs_heap s a) = RUNNING" "fs_cur s t = a" "a \<noteq> h"
    and b: "fb_in_scheduler (fs_heap s b)" "rests b s" "b \<noteq> a" "b \<noteq> h"
  shows "\<exists>s1 s2 s3. resume t b s = Inr s1 \<and> yield t b s1 = Inr s2 \<and> fs_cur s2 t = a \<and>
    yield t a s2 = Inr s3 \<and> fs_cur s3 t = a"
  using assms by (simp add: resume_def yield_def rests_def home_def Let_def)

end
