(* ===== verification/Scheduler.thy ===== *)
theory Scheduler
  imports Fiber "HOL-Library.Multiset"
begin

text \<open>
  The scheduler (\<open>acid/common/scheduler.cpp\<close>): the task list, the scan of a worker thread,
  and \<open>run\<close> as a step relation over all threads. The counters and the list change under
  the mutex or atomically, so a step is a stretch of code between two points where another
  thread can interfere; leaving a fiber is two steps, because \<open>yield\<close> sets the state before
  the context is saved. The idle fiber is a parameter: \<open>idle_ends\<close> says when it returns. The
  thread that calls \<open>stop\<close> has no steps while it joins the workers, and the assertion of the
  destructor of a fiber that has not ended is not modelled.
\<close>

section \<open>State\<close>

text \<open>A task has a fiber, a callback or, when it was made from null pointers, neither.\<close>

record 'cb schedule_task =
  tk_fiber :: "nat option"
  tk_callback :: "'cb option"
  tk_thread :: int

text \<open>Where a thread is in \<open>run\<close>: before the scan, with a task taken from the list, on the
  fiber of the task, on it but with its state already changed by \<open>yield\<close>, on the idle
  fiber, or behind the loop.\<close>

datatype 'cb sched_pc =
    Scanning
  | Picked "'cb schedule_task"
  | In_fiber "'cb schedule_task" nat
  | Leaving "'cb schedule_task" nat
  | Idling
  | Exited

record 'cb scheduler =
  sc_tasklist :: "'cb schedule_task list"
  sc_active_thread_count :: nat
  sc_idle_thread_count :: nat
  sc_stopping :: bool
  sc_threads :: "int set"
  sc_fiber_state :: "nat \<Rightarrow> fiber_state"
  sc_next_fiber :: nat
  sc_pc :: "int \<Rightarrow> 'cb sched_pc"
  sc_idle_term :: "int \<Rightarrow> bool"

section \<open>Tasks\<close>

definition fiber_task :: "nat \<Rightarrow> int \<Rightarrow> 'cb schedule_task" where
  "fiber_task f thread = \<lparr>tk_fiber = Some f, tk_callback = None, tk_thread = thread\<rparr>"

definition callback_task :: "'cb \<Rightarrow> int \<Rightarrow> 'cb schedule_task" where
  "callback_task c thread = \<lparr>tk_fiber = None, tk_callback = Some c, tk_thread = thread\<rparr>"

definition has_work :: "'cb schedule_task \<Rightarrow> bool" where
  "has_work x \<longleftrightarrow> tk_fiber x \<noteq> None \<or> tk_callback x \<noteq> None"

definition schedule_without_lock ::
  "'cb schedule_task \<Rightarrow> 'cb schedule_task list \<Rightarrow> bool \<times> 'cb schedule_task list" where
  "schedule_without_lock x xs = (xs = [], if has_work x then xs @ [x] else xs)"

text \<open>The scan of the task list by the thread \<open>me\<close>: whether another thread has to be
  notified, the task that was taken, and the list.\<close>

fun scan_loop ::
  "(nat \<Rightarrow> fiber_state) \<Rightarrow> int \<Rightarrow> 'cb schedule_task list \<Rightarrow>
   (bool \<times> 'cb schedule_task option \<times> 'cb schedule_task list) res" where
  "scan_loop st me [] = Inr (False, None, [])"
| "scan_loop st me (x # xs) =
     (if tk_thread x \<noteq> -1 \<and> tk_thread x \<noteq> me then
        bindR (scan_loop st me xs) (\<lambda>(tickle, task, ys). Inr (True, task, x # ys))
      else ensureR (has_work x) Assert_failed
        (if (case tk_fiber x of Some f \<Rightarrow> st f = RUNNING | None \<Rightarrow> False) then
           bindR (scan_loop st me xs) (\<lambda>(tickle, task, ys). Inr (tickle, task, x # ys))
         else Inr (xs \<noteq> [], Some x, xs)))"

section \<open>Starting and stopping\<close>

text \<open>The constructor: the number of threads \<open>start\<close> will create. Then \<open>start\<close>, whose
  threads have the numbers \<open>ids\<close>, \<open>Scheduler::stopping\<close> and the part of \<open>stop\<close> before
  the threads are joined, with the number of times it tickles.\<close>

definition scheduler_new :: "nat \<Rightarrow> bool \<Rightarrow> int \<Rightarrow> (nat \<times> 'cb scheduler) res" where
  "scheduler_new threads use_caller caller =
     ensureR (threads > 0) Assert_failed
       (Inr (if use_caller then threads - 1 else threads,
         \<lparr>sc_tasklist = [], sc_active_thread_count = 0, sc_idle_thread_count = 0, sc_stopping = False,
          sc_threads = {}, sc_fiber_state = (\<lambda>_. READY), sc_next_fiber = 0, sc_pc = (\<lambda>_. Exited),
          sc_idle_term = (\<lambda>_. False)\<rparr>))"

definition start_threads :: "int set \<Rightarrow> 'cb scheduler \<Rightarrow> 'cb scheduler res" where
  "start_threads ids s =
     (if sc_stopping s then Inr s
      else ensureR (sc_threads s = {}) Assert_failed
        (Inr (s\<lparr>sc_threads := ids, sc_pc := (\<lambda>t. if t \<in> ids then Scanning else sc_pc s t)\<rparr>)))"

definition sched_stopping :: "'cb scheduler \<Rightarrow> bool" where
  "sched_stopping s \<longleftrightarrow> sc_stopping s \<and> sc_tasklist s = [] \<and> sc_active_thread_count s = 0"

text \<open>\<open>on_own\<close>: the calling thread belongs to this scheduler.\<close>

definition stop ::
  "bool \<Rightarrow> bool \<Rightarrow> nat \<Rightarrow> int \<Rightarrow> 'cb scheduler \<Rightarrow> (nat \<times> 'cb scheduler) res" where
  "stop use_caller on_own thread_count caller s =
     (if sched_stopping s then Inr (0, s)
      else
        let s = s\<lparr>sc_stopping := True\<rparr> in
        ensureR (use_caller = on_own) Assert_failed
          (Inr (thread_count + (if use_caller then 1 else 0),
            if use_caller then s\<lparr>sc_threads := insert caller (sc_threads s), sc_pc := (sc_pc s)(caller := Scanning)\<rparr>
            else s)))"

text \<open>\<open>Scheduler::idle\<close>: the loop runs while the scheduler is stopping.\<close>

definition base_idle_ends :: "'cb scheduler \<Rightarrow> bool" where
  "base_idle_ends s \<longleftrightarrow> \<not> sc_stopping s"

section \<open>Running\<close>

abbreviation at :: "int \<Rightarrow> 'cb sched_pc \<Rightarrow> 'cb scheduler \<Rightarrow> 'cb scheduler" where
  "at t p s \<equiv> s\<lparr>sc_pc := (sc_pc s)(t := p)\<rparr>"

text \<open>
  The fiber that runs a task: its own, or a new one for a callback (\<open>callback_fiber\<close> is
  null whenever a task is taken, since it is reset after each task). \<open>resume\<close> fails its
  assertion on a fiber that is not \<open>READY\<close>.
\<close>

definition enter :: "int \<Rightarrow> 'cb schedule_task \<Rightarrow> 'cb scheduler \<Rightarrow> 'cb scheduler res" where
  "enter t x s =
     (let (f, s) = (case tk_fiber x of
                      Some f \<Rightarrow> (f, s)
                    | None \<Rightarrow> (sc_next_fiber s,
                        s\<lparr>sc_fiber_state := (sc_fiber_state s)(sc_next_fiber s := READY),
                          sc_next_fiber := sc_next_fiber s + 1\<rparr>))
      in ensureR (sc_fiber_state s f \<noteq> TERM_STATE \<and> sc_fiber_state s f \<noteq> RUNNING) Assert_failed
           (Inr (at t (In_fiber x f) (s\<lparr>sc_fiber_state := (sc_fiber_state s)(f := RUNNING)\<rparr>))))"

inductive sched_step ::
  "('cb scheduler \<Rightarrow> bool) \<Rightarrow> ('cb schedule_task \<Rightarrow> 'cb scheduler \<Rightarrow> bool) \<Rightarrow>
   'cb scheduler \<Rightarrow> 'cb scheduler \<Rightarrow> bool" for idle_ends may where
  schedule: "may x s \<Longrightarrow>
    sched_step idle_ends may s (s\<lparr>sc_tasklist := snd (schedule_without_lock x (sc_tasklist s))\<rparr>)"
| stop: "sched_step idle_ends may s (s\<lparr>sc_stopping := True\<rparr>)"
| pick: "t \<in> sc_threads s \<Longrightarrow> sc_pc s t = Scanning \<Longrightarrow>
    scan_loop (sc_fiber_state s) t (sc_tasklist s) = Inr (tickle, Some x, xs) \<Longrightarrow>
    sched_step idle_ends may s (at t (Picked x) (s\<lparr>sc_tasklist := xs,
      sc_active_thread_count := sc_active_thread_count s + 1\<rparr>))"
| resume: "t \<in> sc_threads s \<Longrightarrow> sc_pc s t = Picked x \<Longrightarrow> enter t x s = Inr s' \<Longrightarrow>
    sched_step idle_ends may s s'"
| yield: "t \<in> sc_threads s \<Longrightarrow> sc_pc s t = In_fiber x f \<Longrightarrow>
    sched_step idle_ends may s (at t (Leaving x f) (s\<lparr>sc_fiber_state := (sc_fiber_state s)(f := READY)\<rparr>))"
| finish: "t \<in> sc_threads s \<Longrightarrow> sc_pc s t = In_fiber x f \<Longrightarrow>
    sched_step idle_ends may s (at t (Leaving x f) (s\<lparr>sc_fiber_state := (sc_fiber_state s)(f := TERM_STATE)\<rparr>))"
| switch: "t \<in> sc_threads s \<Longrightarrow> sc_pc s t = Leaving x f \<Longrightarrow>
    sched_step idle_ends may s (at t Scanning (s\<lparr>sc_active_thread_count := sc_active_thread_count s - 1\<rparr>))"
| exit: "t \<in> sc_threads s \<Longrightarrow> sc_pc s t = Scanning \<Longrightarrow>
    scan_loop (sc_fiber_state s) t (sc_tasklist s) = Inr (tickle, None, xs) \<Longrightarrow> sc_idle_term s t \<Longrightarrow>
    sched_step idle_ends may s (at t Exited s)"
| idle: "t \<in> sc_threads s \<Longrightarrow> sc_pc s t = Scanning \<Longrightarrow>
    scan_loop (sc_fiber_state s) t (sc_tasklist s) = Inr (tickle, None, xs) \<Longrightarrow> \<not> sc_idle_term s t \<Longrightarrow>
    sched_step idle_ends may s (at t Idling (s\<lparr>sc_idle_thread_count := sc_idle_thread_count s + 1\<rparr>))"
| idle_yield: "t \<in> sc_threads s \<Longrightarrow> sc_pc s t = Idling \<Longrightarrow> \<not> idle_ends s \<Longrightarrow>
    sched_step idle_ends may s (at t Scanning (s\<lparr>sc_idle_thread_count := sc_idle_thread_count s - 1\<rparr>))"
| idle_end: "t \<in> sc_threads s \<Longrightarrow> sc_pc s t = Idling \<Longrightarrow> idle_ends s \<Longrightarrow>
    sched_step idle_ends may s (at t Scanning (s\<lparr>sc_idle_thread_count := sc_idle_thread_count s - 1,
      sc_idle_term := (sc_idle_term s)(t := True)\<rparr>))"

inductive sched_run ::
  "('cb scheduler \<Rightarrow> bool) \<Rightarrow> ('cb schedule_task \<Rightarrow> 'cb scheduler \<Rightarrow> bool) \<Rightarrow>
   'cb scheduler \<Rightarrow> 'cb scheduler \<Rightarrow> bool" for idle_ends may s0 where
  none: "sched_run idle_ends may s0 s0"
| step: "sched_run idle_ends may s0 s \<Longrightarrow> sched_step idle_ends may s s' \<Longrightarrow> sched_run idle_ends may s0 s'"

inductive_cases sched_stepE: "sched_step idle_ends may s s'"

end
