(* ===== verification/IOManager.thy ===== *)
theory IOManager
  imports Scheduler Timer
begin

unbundle bit_operations_syntax

text \<open>
  The I/O manager (\<open>acid/common/iomanager.cpp\<close>): the table of descriptors with the events
  registered for them, registering, deleting, cancelling and triggering events, and the
  idle fiber that waits in \<open>epoll_wait\<close>. What \<open>epoll_ctl\<close> answers is the argument \<open>ctl\<close>;
  the calls that succeeded are logged. Scheduling an event's fiber or callback appends a
  task to the output. Events are bit sets of 32 bits. A new context's \<open>events\<close> has no
  initial value: it is what \<open>junk\<close> says. Each operation holds the context's mutex.
\<close>

section \<open>State\<close>

datatype event = NONE | READ | WRITE

definition ev_code :: "event \<Rightarrow> u32" where
  "ev_code e = (case e of NONE \<Rightarrow> 0 | READ \<Rightarrow> 1 | WRITE \<Rightarrow> 4)"

definition EPOLLIN :: u32 where "EPOLLIN = 1"
definition EPOLLOUT :: u32 where "EPOLLOUT = 4"
definition EPOLLERR :: u32 where "EPOLLERR = 8"
definition EPOLLHUP :: u32 where "EPOLLHUP = 16"
definition EPOLLET :: u32 where "EPOLLET = 0x80000000"

text \<open>\<open>ec_scheduler\<close>: the pointer to the scheduler is not null.\<close>

record 'cb event_context =
  ec_scheduler :: bool
  ec_fiber :: "nat option"
  ec_callback :: "'cb callback option"

record 'cb fd_context =
  fc_read :: "'cb event_context"
  fc_write :: "'cb event_context"
  fc_fd :: nat
  fc_events :: u32

datatype ctl_op = CTL_ADD | CTL_MOD | CTL_DEL

type_synonym ctl_log = "(ctl_op \<times> nat \<times> u32) list"

record 'cb io_manager =
  im_pending_event_count :: nat
  im_fd_contexts :: "'cb fd_context list"
  im_log :: ctl_log

type_synonym 'cb tasks = "'cb callback schedule_task list"

definition event_context_new :: "'cb event_context" where
  "event_context_new = \<lparr>ec_scheduler = False, ec_fiber = None, ec_callback = None\<rparr>"

definition fd_context_new :: "(nat \<Rightarrow> u32) \<Rightarrow> nat \<Rightarrow> 'cb fd_context" where
  "fd_context_new junk i =
     \<lparr>fc_read = event_context_new, fc_write = event_context_new, fc_fd = i, fc_events = junk i\<rparr>"

text \<open>\<open>context_resize\<close>: the vector is resized, the null pointers get contexts.\<close>

definition context_resize :: "(nat \<Rightarrow> u32) \<Rightarrow> nat \<Rightarrow> 'cb io_manager \<Rightarrow> 'cb io_manager" where
  "context_resize junk n m =
     m\<lparr>im_fd_contexts := take n (im_fd_contexts m) @
        map (fd_context_new junk) [length (im_fd_contexts m)..<n]\<rparr>"

definition io_manager_new :: "(nat \<Rightarrow> u32) \<Rightarrow> 'cb io_manager" where
  "io_manager_new junk =
     context_resize junk 32 \<lparr>im_pending_event_count = 0, im_fd_contexts = [], im_log = []\<rparr>"

section \<open>Event contexts\<close>

definition get_event_context :: "event \<Rightarrow> 'cb fd_context \<Rightarrow> 'cb event_context res" where
  "get_event_context e c = (case e of READ \<Rightarrow> Inr (fc_read c) | WRITE \<Rightarrow> Inr (fc_write c) | NONE \<Rightarrow> Inl Assert_failed)"

definition set_event_context :: "event \<Rightarrow> 'cb event_context \<Rightarrow> 'cb fd_context \<Rightarrow> 'cb fd_context" where
  "set_event_context e x c =
     (case e of READ \<Rightarrow> c\<lparr>fc_read := x\<rparr> | WRITE \<Rightarrow> c\<lparr>fc_write := x\<rparr> | NONE \<Rightarrow> c)"

definition reset_event_context :: "event \<Rightarrow> 'cb fd_context \<Rightarrow> 'cb fd_context" where
  "reset_event_context e c = set_event_context e event_context_new c"

text \<open>The task an event schedules; nothing is pushed for a null fiber.\<close>

definition event_task :: "'cb event_context \<Rightarrow> 'cb tasks" where
  "event_task x =
     (case ec_callback x of
        Some cb \<Rightarrow> [callback_task cb (- 1)]
      | None \<Rightarrow> (case ec_fiber x of Some f \<Rightarrow> [fiber_task f (- 1)] | None \<Rightarrow> []))"

definition trigger_event :: "event \<Rightarrow> 'cb fd_context \<Rightarrow> ('cb tasks \<times> 'cb fd_context) res" where
  "trigger_event e c =
     ensureR (fc_events c AND ev_code e \<noteq> 0) Assert_failed
       (let c = c\<lparr>fc_events := fc_events c AND NOT (ev_code e)\<rparr> in
        bindR (get_event_context e c) (\<lambda>x.
          ensureR (ec_scheduler x) Null_deref
            (Inr (event_task x, reset_event_context e c))))"

section \<open>Registering\<close>

text \<open>\<open>fd_ctx\<close> of an operation; a negative descriptor is an index out of bounds. \<open>None\<close>:
  the table is too short.\<close>

definition fd_context_at :: "int \<Rightarrow> 'cb io_manager \<Rightarrow> 'cb fd_context option res" where
  "fd_context_at fd m =
     (if fd < 0 then Inl Undefined
      else if nat fd < length (im_fd_contexts m) then Inr (Some (im_fd_contexts m ! nat fd))
      else Inr None)"

definition put_context :: "int \<Rightarrow> 'cb fd_context \<Rightarrow> 'cb io_manager \<Rightarrow> 'cb io_manager" where
  "put_context fd c m = m\<lparr>im_fd_contexts := (im_fd_contexts m)[nat fd := c]\<rparr>"

definition log_ctl :: "ctl_op \<Rightarrow> int \<Rightarrow> u32 \<Rightarrow> 'cb io_manager \<Rightarrow> 'cb io_manager" where
  "log_ctl op fd evs m = m\<lparr>im_log := im_log m @ [(op, nat fd, evs)]\<rparr>"

text \<open>The table is made long enough. \<open>cb\<close> is the callback, if any; \<open>cur\<close> the current fiber, which is running, and
  \<open>on_scheduler\<close> whether the thread has a scheduler.\<close>

definition grow_contexts :: "(nat \<Rightarrow> u32) \<Rightarrow> int \<Rightarrow> 'cb io_manager \<Rightarrow> 'cb io_manager res" where
  "grow_contexts junk fd m =
     bindR (fd_context_at fd m) (\<lambda>found.
       Inr (case found of Some c \<Rightarrow> m | None \<Rightarrow> context_resize junk (nat fd * 3 div 2) m))"

definition add_event ::
  "(ctl_op \<Rightarrow> int \<Rightarrow> u32 \<Rightarrow> bool) \<Rightarrow> (nat \<Rightarrow> u32) \<Rightarrow> bool \<Rightarrow> nat \<Rightarrow> int \<Rightarrow> event \<Rightarrow> 'cb callback option \<Rightarrow>
   'cb io_manager \<Rightarrow> (int \<times> 'cb io_manager) res" where
  "add_event ctl junk on_scheduler cur fd e cb m =
     bindR (grow_contexts junk fd m) (\<lambda>m.
       bindR (fd_context_at fd m) (\<lambda>found.
         case found of
           None \<Rightarrow> Inl Heap_overflow
         | Some c \<Rightarrow>
             ensureR (fc_events c AND ev_code e = 0) Assert_failed
               (let op = (if fc_events c \<noteq> 0 then CTL_MOD else CTL_ADD);
                    evs = EPOLLET OR fc_events c OR ev_code e
                in if \<not> ctl op fd evs then Inr (- 1, m)
                   else
                     let m = (log_ctl op fd evs m)\<lparr>im_pending_event_count := im_pending_event_count m + 1\<rparr>;
                         c = c\<lparr>fc_events := fc_events c OR ev_code e\<rparr>
                     in bindR (get_event_context e c) (\<lambda>x.
                          ensureR (\<not> ec_scheduler x \<and> ec_fiber x = None \<and> ec_callback x = None) Assert_failed
                            (let x = (case cb of
                                        Some cb \<Rightarrow> \<lparr>ec_scheduler = on_scheduler, ec_fiber = None, ec_callback = Some cb\<rparr>
                                      | None \<Rightarrow> \<lparr>ec_scheduler = on_scheduler, ec_fiber = Some cur, ec_callback = None\<rparr>)
                             in Inr (0, put_context fd (set_event_context e x c) m))))))"

text \<open>\<open>del_event\<close> and \<open>cancel_event\<close> begin alike; only the first keeps the edge-triggered
  flag of what is left.\<close>

definition del_event ::
  "(ctl_op \<Rightarrow> int \<Rightarrow> u32 \<Rightarrow> bool) \<Rightarrow> int \<Rightarrow> event \<Rightarrow> 'cb io_manager \<Rightarrow> (bool \<times> 'cb io_manager) res" where
  "del_event ctl fd e m =
     bindR (fd_context_at fd m) (\<lambda>found.
       case found of
         None \<Rightarrow> Inr (False, m)
       | Some c \<Rightarrow>
           if fc_events c AND ev_code e = 0 then Inr (False, m)
           else
             let new_events = fc_events c AND NOT (ev_code e);
                 op = (if new_events \<noteq> 0 then CTL_MOD else CTL_DEL);
                 evs = EPOLLET OR new_events
             in if \<not> ctl op fd evs then Inr (False, m)
                else
                  let m = (log_ctl op fd evs m)\<lparr>im_pending_event_count := ssub (im_pending_event_count m) 1\<rparr>
                  in Inr (True, put_context fd (reset_event_context e (c\<lparr>fc_events := new_events\<rparr>)) m))"

definition cancel_event ::
  "(ctl_op \<Rightarrow> int \<Rightarrow> u32 \<Rightarrow> bool) \<Rightarrow> int \<Rightarrow> event \<Rightarrow> 'cb io_manager \<Rightarrow> (bool \<times> 'cb tasks \<times> 'cb io_manager) res" where
  "cancel_event ctl fd e m =
     bindR (fd_context_at fd m) (\<lambda>found.
       case found of
         None \<Rightarrow> Inr (False, [], m)
       | Some c \<Rightarrow>
           if fc_events c AND ev_code e = 0 then Inr (False, [], m)
           else
             let new_events = fc_events c AND NOT (ev_code e);
                 op = (if new_events \<noteq> 0 then CTL_MOD else CTL_DEL)
             in if \<not> ctl op fd new_events then Inr (False, [], m)
                else bindR (trigger_event e c) (\<lambda>(ts, c).
                  let m = (log_ctl op fd new_events m)\<lparr>im_pending_event_count := ssub (im_pending_event_count m) 1\<rparr>
                  in Inr (True, ts, put_context fd c m)))"

text \<open>\<open>if (events & e) { trigger_event(e); --m_pending_event_count; }\<close>, where the events
  asked are \<open>evs\<close>.\<close>

definition trigger_if ::
  "u32 \<Rightarrow> event \<Rightarrow> 'cb fd_context \<Rightarrow> nat \<Rightarrow> ('cb tasks \<times> 'cb fd_context \<times> nat) res" where
  "trigger_if evs e c pending =
     (if evs AND ev_code e \<noteq> 0
      then bindR (trigger_event e c) (\<lambda>(ts, c). Inr (ts, c, ssub pending 1))
      else Inr ([], c, pending))"

definition cancel_all ::
  "(ctl_op \<Rightarrow> int \<Rightarrow> u32 \<Rightarrow> bool) \<Rightarrow> int \<Rightarrow> 'cb io_manager \<Rightarrow> (bool \<times> 'cb tasks \<times> 'cb io_manager) res" where
  "cancel_all ctl fd m =
     bindR (fd_context_at fd m) (\<lambda>found.
       case found of
         None \<Rightarrow> Inr (False, [], m)
       | Some c \<Rightarrow>
           if fc_events c = 0 then Inr (False, [], m)
           else if \<not> ctl CTL_DEL fd 0 then Inr (False, [], m)
           else
             bindR (trigger_if (fc_events c) READ c (im_pending_event_count m)) (\<lambda>(ts, c, n).
             bindR (trigger_if (fc_events c) WRITE c n) (\<lambda>(ts', c, n).
               ensureR (fc_events c = 0) Assert_failed
                 (Inr (True, ts @ ts', put_context fd c
                    ((log_ctl CTL_DEL fd 0 m)\<lparr>im_pending_event_count := n\<rparr>))))))"

section \<open>Waiting\<close>

definition io_stopping :: "u64 \<Rightarrow> 'c scheduler \<Rightarrow> 'cb io_manager \<Rightarrow> bool" where
  "io_stopping timeout s m \<longleftrightarrow> timeout = - 1 \<and> im_pending_event_count m = 0 \<and> sched_stopping s"

text \<open>The argument of \<open>epoll_wait\<close>, in milliseconds: \<open>next_timeout\<close> is cast to \<open>int\<close>.\<close>

definition MAX_TIMEOUT :: int where "MAX_TIMEOUT = 5000"

definition epoll_timeout :: "u64 \<Rightarrow> int" where
  "epoll_timeout next_timeout =
     (let next_timeout =
            (if next_timeout \<noteq> - 1
             then word_of_int (min (sint (ucast next_timeout :: u32)) MAX_TIMEOUT) else word_of_int MAX_TIMEOUT) :: u64
      in sint (ucast next_timeout :: u32))"

text \<open>One descriptor that \<open>epoll_wait\<close> reported, with the flags \<open>evs\<close>.\<close>

definition real_events :: "u32 \<Rightarrow> u32 \<Rightarrow> u32" where
  "real_events registered evs =
     (let evs = (if evs AND (EPOLLERR OR EPOLLHUP) \<noteq> 0
                 then evs OR ((EPOLLIN OR EPOLLOUT) AND registered) else evs)
      in (if evs AND EPOLLIN \<noteq> 0 then ev_code READ else 0) OR
         (if evs AND EPOLLOUT \<noteq> 0 then ev_code WRITE else 0))"

definition handle_ready ::
  "(ctl_op \<Rightarrow> int \<Rightarrow> u32 \<Rightarrow> bool) \<Rightarrow> int \<Rightarrow> u32 \<Rightarrow> 'cb io_manager \<Rightarrow> ('cb tasks \<times> 'cb io_manager) res" where
  "handle_ready ctl fd evs m =
     bindR (fd_context_at fd m) (\<lambda>found.
       case found of
         None \<Rightarrow> Inl Heap_overflow
       | Some c \<Rightarrow>
           let real = real_events (fc_events c) evs in
           if fc_events c AND real = 0 then Inr ([], m)
           else
             let left = fc_events c AND NOT real;
                 op = (if left \<noteq> 0 then CTL_MOD else CTL_DEL)
             in if \<not> ctl op fd (left OR EPOLLET) then Inr ([], m)
                else
                  bindR (trigger_if real READ c (im_pending_event_count m)) (\<lambda>(ts, c, n).
                  bindR (trigger_if real WRITE c n) (\<lambda>(ts', c, n).
                    Inr (ts @ ts', put_context fd c
                      ((log_ctl op fd (left OR EPOLLET) m)\<lparr>im_pending_event_count := n\<rparr>)))))"

fun handle_all ::
  "(ctl_op \<Rightarrow> int \<Rightarrow> u32 \<Rightarrow> bool) \<Rightarrow> (int \<times> u32) option list \<Rightarrow> 'cb io_manager \<Rightarrow> ('cb tasks \<times> 'cb io_manager) res" where
  "handle_all ctl [] m = Inr ([], m)"
| "handle_all ctl (None # es) m = handle_all ctl es m"
| "handle_all ctl (Some (fd, evs) # es) m =
     bindR (handle_ready ctl fd evs m) (\<lambda>(ts, m).
     bindR (handle_all ctl es m) (\<lambda>(ts', m). Inr (ts @ ts', m)))"

text \<open>One round of the idle fiber: \<open>None\<close> when it ends, otherwise the tasks it schedules.
  \<open>now1\<close> and \<open>now2\<close> are the times read before and after waiting, \<open>wait\<close> gives what
  \<open>epoll_wait\<close> reports for a timeout, \<open>None\<close> standing for the pipe, and \<open>na\<close> is the
  address of the timer that \<open>list_expired_callback\<close> makes.\<close>

definition idle_round ::
  "(ctl_op \<Rightarrow> int \<Rightarrow> u32 \<Rightarrow> bool) \<Rightarrow> (int \<Rightarrow> (int \<times> u32) option list) \<Rightarrow> u64 \<Rightarrow> u64 \<Rightarrow> nat \<Rightarrow> 'c scheduler \<Rightarrow>
   'cb io_manager \<times> 'cb timer_manager \<Rightarrow> ('cb tasks \<times> 'cb io_manager \<times> 'cb timer_manager) option res" where
  "idle_round ctl wait now1 now2 na s = (\<lambda>(m, tm).
     (let (next_timeout, tm) = get_next_timer tm now1 in
      if io_stopping next_timeout s m then Inr None
      else
        let ready = wait (epoll_timeout next_timeout);
            (cbs, tm) = list_expired_callback tm now2 na;
            expired = concat (map (\<lambda>cb. case cb of Some cb \<Rightarrow> [callback_task cb (- 1)] | None \<Rightarrow> []) cbs)
        in bindR (handle_all ctl ready m) (\<lambda>(ts, m). Inr (Some (expired @ ts, m, tm)))))"

text \<open>\<open>tickle\<close> writes to the pipe only when a thread is idle.\<close>

definition tickle_writes :: "'c scheduler \<Rightarrow> nat" where
  "tickle_writes s = (if sc_idle_thread_count s > 0 then 1 else 0)"

end
