(* ===== verification/Hook.thy ===== *)
theory Hook
  imports FdManager IOManager "HOL-Library.Signed_Division"
begin

unbundle bit_operations_syntax

text \<open>
  The hooked system calls (\<open>acid/common/hook.cpp\<close>): blocking calls of a fiber that become a
  non-blocking call, a registered event, a timer and a wait. A call is split where its
  fiber yields: it returns or is suspended, and a suspended one is continued. The original
  calls are arguments over a kernel state \<open>'w\<close>. Fresh addresses, the clock, the current
  fiber and the answers of \<open>epoll_ctl\<close> come from an environment. The log lines between an
  original call and the look at \<open>errno\<close> are taken to leave \<open>errno\<close> alone.
\<close>

section \<open>State\<close>

definition EINTR :: int where "EINTR = 4"
definition EBADF :: int where "EBADF = 9"
definition EAGAIN :: int where "EAGAIN = 11"
definition ETIMEDOUT :: int where "ETIMEDOUT = 110"
definition EINPROGRESS :: int where "EINPROGRESS = 115"

text \<open>The functions the hooks give to timers: the timeout of a call, with the address of its
  \<open>timer_info\<close>, and waking a fiber.\<close>

datatype hook_cb = Timed_out nat int event | Wake nat

text \<open>\<open>hk_infos\<close>: \<open>cancelled\<close> of each live \<open>timer_info\<close>.\<close>

record 'w hook =
  hk_enable :: bool
  hk_fds :: fd_manager
  hk_io :: "hook_cb io_manager"
  hk_timers :: "hook_cb timer_manager"
  hk_infos :: "nat \<Rightarrow> int option"
  hk_errno :: int
  hk_kernel :: 'w

record hook_env =
  he_now :: u64
  he_timer :: nat
  he_info :: nat
  he_fiber :: nat
  he_iom :: bool
  he_junk :: "nat \<Rightarrow> u32"
  he_ctl :: "ctl_op \<Rightarrow> int \<Rightarrow> u32 \<Rightarrow> bool"
  he_ctl_errno :: int

datatype outcome = Returned int | Suspended "nat option"

definition sys :: "'w sys_call \<Rightarrow> 'w hook \<Rightarrow> int \<times> 'w hook" where
  "sys f s =
     (let (n, e, w) = f (hk_kernel s)
      in (n, s\<lparr>hk_kernel := w, hk_errno := (if n = - 1 then e else hk_errno s)\<rparr>))"

text \<open>\<open>FdMgr::instance()->get(fd)\<close>.\<close>

definition ctx_of :: "int \<Rightarrow> 'w hook \<Rightarrow> fd_ctx option res" where
  "ctx_of fd s =
     (if fd < - 1 then Inl Undefined else Inr (fd_entry (hk_fds s) fd))"

definition put_ctx :: "int \<Rightarrow> fd_ctx \<Rightarrow> 'w hook \<Rightarrow> 'w hook" where
  "put_ctx fd c s = s\<lparr>hk_fds := (hk_fds s)[nat fd := Some c]\<rparr>"

section \<open>Waiting for a descriptor\<close>

definition free_info :: "nat \<Rightarrow> 'w hook \<Rightarrow> 'w hook" where
  "free_info i s = s\<lparr>hk_infos := (hk_infos s)(i := None)\<rparr>"

definition cancel_timer :: "nat option \<Rightarrow> 'w hook \<Rightarrow> 'w hook res" where
  "cancel_timer timer s =
     (case timer of
        None \<Rightarrow> Inr s
      | Some a \<Rightarrow> bindR (Timer.cancel (hk_timers s) a) (\<lambda>(b, tm). Inr (s\<lparr>hk_timers := tm\<rparr>)))"

definition timeout_timer :: "hook_env \<Rightarrow> int \<Rightarrow> event \<Rightarrow> u64 \<Rightarrow> nat \<Rightarrow> 'w hook \<Rightarrow> nat option \<times> 'w hook" where
  "timeout_timer E fd e to i s =
     (if to \<noteq> - 1
      then (Some (he_timer E), s\<lparr>hk_timers := snd (add_condition_timer (hk_timers s) (he_now E) (he_timer E) to
              (Timed_out i fd e) i False)\<rparr>)
      else (None, s))"

definition watch :: "hook_env \<Rightarrow> int \<Rightarrow> event \<Rightarrow> 'w hook \<Rightarrow> (int \<times> 'w hook) res" where
  "watch E fd e s =
     bindR (add_event (he_ctl E) (he_junk E) True (he_fiber E) fd e None (hk_io s)) (\<lambda>(ret, io).
       Inr (ret, s\<lparr>hk_io := io, hk_errno := (if ret \<noteq> 0 then he_ctl_errno E else hk_errno s)\<rparr>))"

text \<open>The lambda given to the timer, run while the timer's weak pointer is alive.\<close>

definition run_timed_out ::
  "(ctl_op \<Rightarrow> int \<Rightarrow> u32 \<Rightarrow> bool) \<Rightarrow> nat \<Rightarrow> int \<Rightarrow> event \<Rightarrow> 'w hook \<Rightarrow> (hook_cb tasks \<times> 'w hook) res" where
  "run_timed_out ctl i fd e s =
     (case hk_infos s i of
        None \<Rightarrow> Inr ([], s)
      | Some cancelled \<Rightarrow>
          if cancelled \<noteq> 0 then Inr ([], s)
          else bindR (cancel_event ctl fd e (hk_io s)) (\<lambda>(b, ts, io).
            Inr (ts, s\<lparr>hk_infos := (hk_infos s)(i \<mapsto> ETIMEDOUT), hk_io := io\<rparr>)))"

definition run_hook_cb ::
  "(ctl_op \<Rightarrow> int \<Rightarrow> u32 \<Rightarrow> bool) \<Rightarrow> hook_cb \<Rightarrow> 'w hook \<Rightarrow> (hook_cb tasks \<times> 'w hook) res" where
  "run_hook_cb ctl cb s =
     (case cb of
        Timed_out i fd e \<Rightarrow> run_timed_out ctl i fd e s
      | Wake f \<Rightarrow> Inr ([fiber_task f (- 1)], s))"

section \<open>Reading and writing\<close>

text \<open>The call, repeated while it is interrupted; \<open>None\<close>: for ever.\<close>

partial_function (option) restarting :: "'w sys_call \<Rightarrow> 'w hook \<Rightarrow> (int \<times> 'w hook) option" where
  "restarting f s =
     (let (n, s) = sys f s
      in if n = - 1 \<and> hk_errno s = EINTR then restarting f s else Some (n, s))"

text \<open>What follows \<open>EAGAIN\<close>, up to the yield.\<close>

definition suspend_io ::
  "hook_env \<Rightarrow> int \<Rightarrow> event \<Rightarrow> u64 \<Rightarrow> nat \<Rightarrow> 'w hook \<Rightarrow> (outcome \<times> 'w hook) res" where
  "suspend_io E fd e to i s =
     ensureR (he_iom E) Null_deref
       (let (timer, s) = timeout_timer E fd e to i s in
        bindR (watch E fd e s) (\<lambda>(ret, s).
          if ret \<noteq> 0 then bindR (cancel_timer timer s) (\<lambda>s. Inr (Returned (- 1), free_info i s))
          else Inr (Suspended timer, s)))"

text \<open>From \<open>retry\<close>; the \<open>timer_info\<close> dies when the call returns.\<close>

definition attempt_io ::
  "hook_env \<Rightarrow> int \<Rightarrow> 'w sys_call \<Rightarrow> event \<Rightarrow> u64 \<Rightarrow> nat \<Rightarrow> 'w hook \<Rightarrow> (outcome \<times> 'w hook) res option" where
  "attempt_io E fd f e to i s =
     (case restarting f s of
        None \<Rightarrow> None
      | Some (n, s) \<Rightarrow>
          Some (if n = - 1 \<and> hk_errno s = EAGAIN then suspend_io E fd e to i s
                else Inr (Returned n, free_info i s)))"

definition do_io ::
  "hook_env \<Rightarrow> int \<Rightarrow> 'w sys_call \<Rightarrow> event \<Rightarrow> int \<Rightarrow> 'w hook \<Rightarrow> (outcome \<times> 'w hook) res option" where
  "do_io E fd f e timeout_so s =
     (let direct = (let (n, s) = sys f s in Some (Inr (Returned n, s))) in
      if \<not> hk_enable s then direct
      else case ctx_of fd s of
        Inl err \<Rightarrow> Some (Inl err)
      | Inr None \<Rightarrow> direct
      | Inr (Some c) \<Rightarrow>
          if fd_is_closed c then Some (Inr (Returned (- 1), s\<lparr>hk_errno := EBADF\<rparr>))
          else if \<not> fd_is_socket c \<or> fd_user_nonblock c then direct
          else attempt_io E fd f e (get_timeout timeout_so c) (he_info E)
            (s\<lparr>hk_infos := (hk_infos s)(he_info E \<mapsto> 0)\<rparr>))"

text \<open>What follows the yield, for the call whose \<open>timer_info\<close> is at \<open>i\<close>.\<close>

definition resume_io ::
  "hook_env \<Rightarrow> int \<Rightarrow> 'w sys_call \<Rightarrow> event \<Rightarrow> u64 \<Rightarrow> nat \<Rightarrow> nat option \<Rightarrow> 'w hook \<Rightarrow> (outcome \<times> 'w hook) res option" where
  "resume_io E fd f e to i timer s =
     (case cancel_timer timer s of
        Inl err \<Rightarrow> Some (Inl err)
      | Inr s \<Rightarrow>
          (case hk_infos s i of
             None \<Rightarrow> Some (Inl Undefined)
           | Some cancelled \<Rightarrow>
               if cancelled \<noteq> 0 then Some (Inr (Returned (- 1), free_info i (s\<lparr>hk_errno := cancelled\<rparr>)))
               else attempt_io E fd f e to i s))"

text \<open>The calls made through \<open>do_io\<close>, each with its original.\<close>

definition hk_reading ::
  "hook_env \<Rightarrow> int \<Rightarrow> 'w sys_call \<Rightarrow> 'w hook \<Rightarrow> (outcome \<times> 'w hook) res option" where
  "hk_reading E fd f s = do_io E fd f READ SO_RCVTIMEO s"

definition hk_writing ::
  "hook_env \<Rightarrow> int \<Rightarrow> 'w sys_call \<Rightarrow> 'w hook \<Rightarrow> (outcome \<times> 'w hook) res option" where
  "hk_writing E fd f s = do_io E fd f WRITE SO_SNDTIMEO s"

section \<open>Sleeping\<close>

text \<open>The timer that wakes the fiber after \<open>ms\<close>; with the hooks off the original is called.\<close>

definition sleep_ms :: "hook_env \<Rightarrow> u64 \<Rightarrow> 'w hook \<Rightarrow> (outcome \<times> 'w hook) res" where
  "sleep_ms E ms s =
     ensureR (he_iom E) Null_deref
       (Inr (Suspended None, s\<lparr>hk_timers := snd (add_timer (hk_timers s) (he_now E) (he_timer E) ms
          (Some (Plain (Wake (he_fiber E)))) False)\<rparr>))"

definition original :: "'w sys_call \<Rightarrow> 'w hook \<Rightarrow> (outcome \<times> 'w hook) res" where
  "original f s = (let (n, s) = sys f s in Inr (Returned n, s))"

definition hk_sleep :: "(u32 \<Rightarrow> 'w sys_call) \<Rightarrow> hook_env \<Rightarrow> u32 \<Rightarrow> 'w hook \<Rightarrow> (outcome \<times> 'w hook) res" where
  "hk_sleep sleep_f E seconds s =
     (if \<not> hk_enable s then original (sleep_f seconds) s
      else sleep_ms E (ucast (seconds * 1000)) s)"

definition hk_usleep :: "(u32 \<Rightarrow> 'w sys_call) \<Rightarrow> hook_env \<Rightarrow> u32 \<Rightarrow> 'w hook \<Rightarrow> (outcome \<times> 'w hook) res" where
  "hk_usleep usleep_f E usec s =
     (if \<not> hk_enable s then original (usleep_f usec) s
      else sleep_ms E (ucast (usec div 1000)) s)"

text \<open>The time is a pair of seconds and nanoseconds; the milliseconds pass through an \<open>int\<close>.\<close>

definition hk_nanosleep ::
  "(int \<times> int \<Rightarrow> 'w sys_call) \<Rightarrow> hook_env \<Rightarrow> int \<times> int \<Rightarrow> 'w hook \<Rightarrow> (outcome \<times> 'w hook) res" where
  "hk_nanosleep nanosleep_f E req s =
     (if \<not> hk_enable s then original (nanosleep_f req) s
      else
        let ms = fst req * 1000 + (snd req sdiv 1000) sdiv 1000
        in ensureR (- (2 ^ 63) \<le> ms \<and> ms < 2 ^ 63 \<and> - (2 ^ 63) \<le> fst req * 1000 \<and> fst req * 1000 < 2 ^ 63) Undefined
             (sleep_ms E (word_of_int (sint (word_of_int ms :: u32))) s))"

section \<open>Sockets\<close>

text \<open>\<open>FdMgr::instance()->get(fd, true)\<close>.\<close>

definition manage ::
  "(int \<Rightarrow> 'w \<Rightarrow> bool option) \<Rightarrow> (int \<Rightarrow> fcntl_cmd \<Rightarrow> 'w sys_call) \<Rightarrow> int \<Rightarrow> 'w hook \<Rightarrow> 'w hook res" where
  "manage fstat fcntl_f fd s =
     bindR (fd_get fstat fcntl_f fd True (hk_fds s) (hk_kernel s)) (\<lambda>(c, m, w).
       Inr (s\<lparr>hk_fds := m, hk_kernel := w\<rparr>))"

definition hk_socket ::
  "(int \<Rightarrow> 'w \<Rightarrow> bool option) \<Rightarrow> (int \<Rightarrow> fcntl_cmd \<Rightarrow> 'w sys_call) \<Rightarrow> 'w sys_call \<Rightarrow> 'w hook \<Rightarrow> (int \<times> 'w hook) res" where
  "hk_socket fstat fcntl_f socket_f s =
     (let (fd, s) = sys socket_f s
      in if \<not> hk_enable s \<or> fd = - 1 then Inr (fd, s)
         else bindR (manage fstat fcntl_f fd s) (\<lambda>s. Inr (fd, s)))"

text \<open>\<open>accept\<close>: what follows \<open>do_io\<close>, whether it returned at once or after waiting.\<close>

definition accepted ::
  "(int \<Rightarrow> 'w \<Rightarrow> bool option) \<Rightarrow> (int \<Rightarrow> fcntl_cmd \<Rightarrow> 'w sys_call) \<Rightarrow> outcome \<times> 'w hook \<Rightarrow> (outcome \<times> 'w hook) res" where
  "accepted fstat fcntl_f = (\<lambda>(r, s).
     case r of
       Suspended timer \<Rightarrow> Inr (r, s)
     | Returned fd \<Rightarrow>
         if fd \<ge> 0 then bindR (manage fstat fcntl_f fd s) (\<lambda>s. Inr (r, s)) else Inr (r, s))"

definition hk_accept ::
  "(int \<Rightarrow> 'w \<Rightarrow> bool option) \<Rightarrow> (int \<Rightarrow> fcntl_cmd \<Rightarrow> 'w sys_call) \<Rightarrow> hook_env \<Rightarrow> int \<Rightarrow> 'w sys_call \<Rightarrow>
   'w hook \<Rightarrow> (outcome \<times> 'w hook) res option" where
  "hk_accept fstat fcntl_f E fd accept_f s =
     map_option (\<lambda>m. bindR m (accepted fstat fcntl_f)) (do_io E fd accept_f READ SO_RCVTIMEO s)"

text \<open>\<open>connect_with_timeout\<close>, up to the yield. \<open>so_error\<close> is \<open>getsockopt(SO_ERROR)\<close>: its result,
  the error it stored and \<open>errno\<close>.\<close>

definition connect_result ::
  "('w \<Rightarrow> int \<times> int \<times> int \<times> 'w) \<Rightarrow> 'w hook \<Rightarrow> int \<times> 'w hook" where
  "connect_result so_error s =
     (let (r, err, e, w) = so_error (hk_kernel s); s = s\<lparr>hk_kernel := w\<rparr>
      in if r = - 1 then (- 1, s\<lparr>hk_errno := e\<rparr>)
         else if err = 0 then (0, s)
         else (- 1, s\<lparr>hk_errno := err\<rparr>))"

definition connect_with_timeout ::
  "hook_env \<Rightarrow> int \<Rightarrow> 'w sys_call \<Rightarrow> ('w \<Rightarrow> int \<times> int \<times> int \<times> 'w) \<Rightarrow> u64 \<Rightarrow> 'w hook \<Rightarrow> (outcome \<times> 'w hook) res" where
  "connect_with_timeout E fd connect_f so_error timeout s =
     (if \<not> hk_enable s then original connect_f s
      else bindR (ctx_of fd s) (\<lambda>found.
        case found of
          None \<Rightarrow> Inr (Returned (- 1), s\<lparr>hk_errno := EBADF\<rparr>)
        | Some c \<Rightarrow>
            if fd_is_closed c then Inr (Returned (- 1), s\<lparr>hk_errno := EBADF\<rparr>)
            else if \<not> fd_is_socket c then original connect_f s
            else if fd_user_nonblock c then original connect_f s
            else
              let (n, s) = sys connect_f s in
              if n = 0 then Inr (Returned 0, s)
              else if n \<noteq> - 1 \<or> hk_errno s \<noteq> EINPROGRESS then Inr (Returned n, s)
              else ensureR (he_iom E) Null_deref
                (let s = s\<lparr>hk_infos := (hk_infos s)(he_info E \<mapsto> 0)\<rparr>;
                     (timer, s) = timeout_timer E fd WRITE timeout (he_info E) s
                 in bindR (watch E fd WRITE s) (\<lambda>(ret, s).
                      if ret = 0 then Inr (Suspended timer, s)
                      else bindR (cancel_timer timer s) (\<lambda>s.
                        let (n, s) = connect_result so_error s
                        in Inr (Returned n, free_info (he_info E) s))))))"

definition resume_connect ::
  "('w \<Rightarrow> int \<times> int \<times> int \<times> 'w) \<Rightarrow> nat \<Rightarrow> nat option \<Rightarrow> 'w hook \<Rightarrow> (outcome \<times> 'w hook) res" where
  "resume_connect so_error i timer s =
     bindR (cancel_timer timer s) (\<lambda>s.
       case hk_infos s i of
         None \<Rightarrow> Inl Undefined
       | Some cancelled \<Rightarrow>
           if cancelled \<noteq> 0 then Inr (Returned (- 1), free_info i (s\<lparr>hk_errno := cancelled\<rparr>))
           else let (n, s) = connect_result so_error s in Inr (Returned n, free_info i s))"

text \<open>\<open>connect\<close>: the default timeout is five seconds.\<close>

definition s_connect_timeout :: u64 where "s_connect_timeout = 5000"

definition hk_connect ::
  "hook_env \<Rightarrow> int \<Rightarrow> 'w sys_call \<Rightarrow> ('w \<Rightarrow> int \<times> int \<times> int \<times> 'w) \<Rightarrow> 'w hook \<Rightarrow> (outcome \<times> 'w hook) res" where
  "hk_connect E fd connect_f so_error s = connect_with_timeout E fd connect_f so_error s_connect_timeout s"

definition hk_close ::
  "hook_env \<Rightarrow> int \<Rightarrow> 'w sys_call \<Rightarrow> 'w hook \<Rightarrow> (int \<times> hook_cb tasks \<times> 'w hook) res" where
  "hk_close E fd close_f s =
     (if \<not> hk_enable s then (let (n, s) = sys close_f s in Inr (n, [], s))
      else bindR (ctx_of fd s) (\<lambda>found.
        case found of
          None \<Rightarrow> (let (n, s) = sys close_f s in Inr (n, [], s))
        | Some c \<Rightarrow>
            bindR (if he_iom E then bindR (cancel_all (he_ctl E) fd (hk_io s)) (\<lambda>(b, ts, io). Inr (ts, io))
                   else Inr ([], hk_io s)) (\<lambda>(ts, io).
            bindR (fd_del fd (hk_fds s)) (\<lambda>m.
              let (n, s) = sys close_f (s\<lparr>hk_io := io, hk_fds := m\<rparr>) in Inr (n, ts, s)))))"

section \<open>Options of a descriptor\<close>

definition hk_fcntl ::
  "(int \<Rightarrow> fcntl_cmd \<Rightarrow> 'w sys_call) \<Rightarrow> int \<Rightarrow> fcntl_cmd \<Rightarrow> 'w hook \<Rightarrow> (int \<times> 'w hook) res" where
  "hk_fcntl fcntl_f fd cmd s =
     (case cmd of
        F_SETFL arg \<Rightarrow>
          bindR (ctx_of fd s) (\<lambda>found.
            case found of
              None \<Rightarrow> Inr (sys (fcntl_f fd (F_SETFL arg)) s)
            | Some c \<Rightarrow>
                if fd_is_closed c \<or> \<not> fd_is_socket c then Inr (sys (fcntl_f fd (F_SETFL arg)) s)
                else
                  let s = put_ctx fd (c\<lparr>fd_user_nonblock := nonblocking arg\<rparr>) s;
                      arg = (if fd_sys_nonblock c then arg OR O_NONBLOCK else arg AND NOT O_NONBLOCK)
                  in Inr (sys (fcntl_f fd (F_SETFL arg)) s))
      | F_GETFL \<Rightarrow>
          (let (arg, s) = sys (fcntl_f fd F_GETFL) s in
           bindR (ctx_of fd s) (\<lambda>found.
             case found of
               None \<Rightarrow> Inr (arg, s)
             | Some c \<Rightarrow>
                 if fd_is_closed c \<or> \<not> fd_is_socket c then Inr (arg, s)
                 else if fd_user_nonblock c then Inr (sint (word_of_int arg OR O_NONBLOCK), s)
                 else Inr (sint (word_of_int arg AND NOT O_NONBLOCK), s)))
      | Cmd_unknown c arg \<Rightarrow> Inr (sys (fcntl_f fd (Cmd c)) s)
      | _ \<Rightarrow> Inr (sys (fcntl_f fd cmd) s))"

text \<open>\<open>ioctl\<close> ends in a call of itself, not of the original. \<open>arg\<close> is what the argument points
  to; \<open>None\<close>: the call does not return.\<close>

definition FIONBIO :: int where "FIONBIO = 0x5421"

partial_function (option) hk_ioctl ::
  "(int \<Rightarrow> int \<Rightarrow> int \<Rightarrow> 'w sys_call) \<Rightarrow> int \<Rightarrow> int \<Rightarrow> int \<Rightarrow> 'w hook \<Rightarrow> (int \<times> 'w hook) res option" where
  "hk_ioctl ioctl_f fd request arg s =
     (if request = FIONBIO then
        (case ctx_of fd s of
           Inl err \<Rightarrow> Some (Inl err)
         | Inr found \<Rightarrow>
             (case found of
                None \<Rightarrow> Some (Inr (sys (ioctl_f fd request arg) s))
              | Some c \<Rightarrow>
                  if fd_is_closed c \<or> \<not> fd_is_socket c then Some (Inr (sys (ioctl_f fd request arg) s))
                  else hk_ioctl ioctl_f fd request arg (put_ctx fd (c\<lparr>fd_user_nonblock := (arg \<noteq> 0)\<rparr>) s)))
      else hk_ioctl ioctl_f fd request arg s)"

definition hk_getsockopt :: "'w sys_call \<Rightarrow> 'w hook \<Rightarrow> int \<times> 'w hook" where
  "hk_getsockopt getsockopt_f s = sys getsockopt_f s"

text \<open>\<open>setsockopt\<close>: \<open>tv\<close> is the time a timeout option carries, in seconds and microseconds.\<close>

definition SOL_SOCKET :: int where "SOL_SOCKET = 1"

definition hk_setsockopt ::
  "int \<Rightarrow> int \<Rightarrow> int \<Rightarrow> int \<times> int \<Rightarrow> 'w sys_call \<Rightarrow> 'w hook \<Rightarrow> (int \<times> 'w hook) res" where
  "hk_setsockopt fd level optname tv setsockopt_f s =
     (if \<not> hk_enable s then Inr (sys setsockopt_f s)
      else if level = SOL_SOCKET \<and> (optname = SO_RCVTIMEO \<or> optname = SO_SNDTIMEO) then
        bindR (ctx_of fd s) (\<lambda>found.
          let s = (case found of
                     None \<Rightarrow> s
                   | Some c \<Rightarrow> put_ctx fd (set_timeout optname
                       (word_of_int (fst tv * 1000 + snd tv sdiv 1000)) c) s)
          in Inr (sys setsockopt_f s))
      else Inr (sys setsockopt_f s))"

end
