(* ===== verification/Scheduler_Spec.thy ===== *)
theory Scheduler_Spec
  imports Scheduler
begin

text \<open>
  What the scheduler promises. The scan takes the first task the thread may run. The
  counters count the threads on a task and on the idle fiber, so a scheduler that says it
  may stop has no task left anywhere. When a fiber is scheduled only while it is at rest it
  is never on two threads; when it is scheduled while it is still running, as the waiting
  operations do, it can be. The idle fiber of the base class keeps the wrong hours.
\<close>

section \<open>The scan\<close>

definition foreign :: "int \<Rightarrow> 'cb schedule_task \<Rightarrow> bool" where
  "foreign me x \<longleftrightarrow> tk_thread x \<noteq> -1 \<and> tk_thread x \<noteq> me"

definition eligible :: "(nat \<Rightarrow> fiber_state) \<Rightarrow> int \<Rightarrow> 'cb schedule_task \<Rightarrow> bool" where
  "eligible st me x \<longleftrightarrow> \<not> foreign me x \<and> (\<forall>f. tk_fiber x = Some f \<longrightarrow> st f \<noteq> RUNNING)"

lemma scan_foreign:
  "foreign me x \<Longrightarrow> scan_loop st me (x # xs) =
     bindR (scan_loop st me xs) (\<lambda>(tickle, task, ys). Inr (True, task, x # ys))"
  by (simp add: foreign_def)

lemma scan_running:
  "\<not> foreign me x \<Longrightarrow> \<not> eligible st me x \<Longrightarrow> has_work x \<Longrightarrow> scan_loop st me (x # xs) =
     bindR (scan_loop st me xs) (\<lambda>(tickle, task, ys). Inr (tickle, task, x # ys))"
  by (auto simp: foreign_def eligible_def split: option.splits)

lemma scan_eligible:
  "eligible st me x \<Longrightarrow> has_work x \<Longrightarrow> scan_loop st me (x # xs) = Inr (xs \<noteq> [], Some x, xs)"
  by (auto simp: foreign_def eligible_def split: option.splits)

lemma scan_skip:
  assumes "\<not> eligible st me x" "has_work x" "scan_loop st me xs = Inr (tickle, task, ys)"
  shows "scan_loop st me (x # xs) = Inr (foreign me x \<or> tickle, task, x # ys)"
  by (cases "foreign me x") (simp_all add: assms scan_foreign scan_running del: scan_loop.simps)

lemma scan_none:
  "list_all has_work xs \<Longrightarrow> (\<forall>x \<in> set xs. \<not> eligible st me x) \<Longrightarrow>
   scan_loop st me xs = Inr (list_ex (foreign me) xs, None, xs)"
  by (induction xs) (simp_all add: scan_skip del: scan_loop.simps(2))

lemma scan_first:
  "list_all has_work (us @ x # vs) \<Longrightarrow> (\<forall>u \<in> set us. \<not> eligible st me u) \<Longrightarrow> eligible st me x \<Longrightarrow>
   scan_loop st me (us @ x # vs) = Inr (list_ex (foreign me) us \<or> vs \<noteq> [], Some x, us @ vs)"
proof (induction us)
  case Nil
  then show ?case unfolding append_Nil by (subst scan_eligible) simp_all
next
  case (Cons u us)
  then have "scan_loop st me (us @ x # vs) = Inr (list_ex (foreign me) us \<or> vs \<noteq> [], Some x, us @ vs)"
    by simp
  from scan_skip [OF _ _ this, of u] Cons.prems show ?case by simp
qed

lemma scan_cases:
  assumes "list_all has_work xs"
  obtains "\<forall>x \<in> set xs. \<not> eligible st me x" "scan_loop st me xs = Inr (list_ex (foreign me) xs, None, xs)"
  | us x vs where "xs = us @ x # vs" "\<forall>u \<in> set us. \<not> eligible st me u" "eligible st me x"
      "scan_loop st me xs = Inr (list_ex (foreign me) us \<or> vs \<noteq> [], Some x, us @ vs)"
proof (cases "\<exists>x \<in> set xs. eligible st me x")
  case True
  from split_list_first_propE [OF this] obtain us x vs
    where 1: "xs = us @ x # vs" "eligible st me x" "\<forall>u \<in> set us. \<not> eligible st me u"
    by blast
  show ?thesis
    by (rule that(2) [OF 1(1,3,2)]) (unfold 1(1), rule scan_first [OF _ 1(3,2)], use assms 1(1) in simp)
next
  case False
  then have "\<forall>x \<in> set xs. \<not> eligible st me x" by blast
  from that(1) [OF this scan_none [OF assms this]] show ?thesis .
qed

lemma scan_some:
  assumes "list_all has_work xs" "scan_loop st me xs = Inr (tickle, Some x, ys)"
  shows "\<exists>us vs. xs = us @ x # vs \<and> ys = us @ vs \<and> eligible st me x"
  by (rule scan_cases [OF assms(1), of st me]) (use assms(2) in auto)

section \<open>Invariant\<close>

fun busy :: "'cb sched_pc \<Rightarrow> bool" where
  "busy (Picked x) = True"
| "busy (In_fiber x f) = True"
| "busy (Leaving x f) = True"
| "busy _ = False"

fun task_of :: "'cb sched_pc \<Rightarrow> 'cb schedule_task option" where
  "task_of (Picked x) = Some x"
| "task_of (In_fiber x f) = Some x"
| "task_of (Leaving x f) = Some x"
| "task_of _ = None"

fun on_fiber :: "'cb sched_pc \<Rightarrow> nat option" where
  "on_fiber (Picked x) = tk_fiber x"
| "on_fiber (In_fiber x f) = Some f"
| "on_fiber (Leaving x f) = Some f"
| "on_fiber _ = None"

definition busy_threads :: "'cb scheduler \<Rightarrow> int set" where
  "busy_threads s = {t \<in> sc_threads s. busy (sc_pc s t)}"

definition idle_threads :: "'cb scheduler \<Rightarrow> int set" where
  "idle_threads s = {t \<in> sc_threads s. sc_pc s t = Idling}"

definition sched_inv :: "'cb scheduler \<Rightarrow> bool" where
  "sched_inv s \<longleftrightarrow>
     finite (sc_threads s) \<and> list_all has_work (sc_tasklist s) \<and>
     sc_active_thread_count s = card (busy_threads s) \<and>
     sc_idle_thread_count s = card (idle_threads s) \<and>
     (\<forall>t \<in> sc_threads s. \<forall>x. task_of (sc_pc s t) = Some x \<longrightarrow> has_work x \<and> \<not> foreign t x)"

lemma in_threads [simp]:
  "t \<in> busy_threads s \<longleftrightarrow> t \<in> sc_threads s \<and> busy (sc_pc s t)"
  "t \<in> idle_threads s \<longleftrightarrow> t \<in> sc_threads s \<and> sc_pc s t = Idling"
  by (simp_all add: busy_threads_def idle_threads_def)

lemma finite_threads [simp]:
  "finite (sc_threads s) \<Longrightarrow> finite (busy_threads s)" "finite (sc_threads s) \<Longrightarrow> finite (idle_threads s)"
  by (simp_all add: busy_threads_def idle_threads_def)

lemma enter_fiber:
  "tk_fiber x = Some f \<Longrightarrow> enter t x s =
     ensureR (sc_fiber_state s f \<noteq> TERM_STATE \<and> sc_fiber_state s f \<noteq> RUNNING) Assert_failed
       (Inr (at t (In_fiber x f) (s\<lparr>sc_fiber_state := (sc_fiber_state s)(f := RUNNING)\<rparr>)))"
  by (simp add: enter_def)

lemma enter_callback:
  "tk_fiber x = None \<Longrightarrow> enter t x s =
     Inr (at t (In_fiber x (sc_next_fiber s)) (s\<lparr>sc_fiber_state := (sc_fiber_state s)(sc_next_fiber s := RUNNING),
       sc_next_fiber := sc_next_fiber s + 1\<rparr>))"
  by (simp add: enter_def)

lemma enter_cases:
  assumes "enter t x s = Inr s'"
  obtains f where "tk_fiber x = Some f" "sc_fiber_state s f = READY"
      "s' = at t (In_fiber x f) (s\<lparr>sc_fiber_state := (sc_fiber_state s)(f := RUNNING)\<rparr>)"
  | "tk_fiber x = None" "s' = at t (In_fiber x (sc_next_fiber s))
      (s\<lparr>sc_fiber_state := (sc_fiber_state s)(sc_next_fiber s := RUNNING), sc_next_fiber := sc_next_fiber s + 1\<rparr>)"
proof (cases "tk_fiber x")
  case None
  with assms that(2) show ?thesis by (simp add: enter_callback)
next
  case (Some f)
  with assms that(1) [of f] show ?thesis
    by (cases "sc_fiber_state s f") (auto simp: enter_fiber res_simps)
qed

lemma busy_moved:
  assumes "sc_threads s' = sc_threads s" "sc_pc s' = (sc_pc s)(t := p)" "t \<in> sc_threads s"
  shows "busy_threads s' = (if busy p then insert t (busy_threads s) else busy_threads s - {t})"
    and "idle_threads s' = (if p = Idling then insert t (idle_threads s) else idle_threads s - {t})"
  using assms by (auto simp: busy_threads_def idle_threads_def)

text \<open>One thread moves; the counters follow.\<close>

lemma sched_inv_move:
  assumes "sched_inv s" "t \<in> sc_threads s" "sc_threads s' = sc_threads s" "sc_pc s' = (sc_pc s)(t := p)"
    and "list_all has_work (sc_tasklist s')"
    and "sc_active_thread_count s' = sc_active_thread_count s - of_bool (busy (sc_pc s t)) + of_bool (busy p)"
    and "sc_idle_thread_count s' = sc_idle_thread_count s - of_bool (sc_pc s t = Idling) + of_bool (p = Idling)"
    and "\<And>x. task_of p = Some x \<Longrightarrow> has_work x \<and> \<not> foreign t x"
  shows "sched_inv s'"
proof -
  have f: "finite (busy_threads s)" "finite (idle_threads s)"
    and c: "sc_active_thread_count s = card (busy_threads s)" "sc_idle_thread_count s = card (idle_threads s)"
    using assms(1) by (simp_all add: sched_inv_def)
  note M = busy_moved [OF assms(3,4,2)]
  have "sc_active_thread_count s' = card (busy_threads s')"
    using f c M(1) assms(2,6) by (auto simp: card_insert_if card_Diff_singleton_if)
       (metis Suc_pred card_gt_0_iff empty_iff in_threads(1))+
  moreover have "sc_idle_thread_count s' = card (idle_threads s')"
    using f c M(2) assms(2,7) by (auto simp: card_insert_if card_Diff_singleton_if)
       (metis Suc_pred card_gt_0_iff empty_iff in_threads(2))+
  ultimately show ?thesis
    using assms by (auto simp: sched_inv_def)
qed

lemma sched_invD:
  "sched_inv s \<Longrightarrow> list_all has_work (sc_tasklist s)"
  "sched_inv s \<Longrightarrow> t \<in> sc_threads s \<Longrightarrow> task_of (sc_pc s t) = Some x \<Longrightarrow> has_work x \<and> \<not> foreign t x"
  by (simp_all add: sched_inv_def)

lemma busy_active:
  assumes "sched_inv s" "t \<in> sc_threads s" "busy (sc_pc s t)"
  shows "0 < sc_active_thread_count s"
proof -
  have "finite (busy_threads s)" "t \<in> busy_threads s" using assms by (simp_all add: sched_inv_def)
  then have "0 < card (busy_threads s)" unfolding card_gt_0_iff by blast
  then show ?thesis using assms(1) by (simp add: sched_inv_def)
qed

lemma sched_inv_list:
  assumes "sched_inv s" "list_all has_work xs"
  shows "sched_inv (s\<lparr>sc_tasklist := xs\<rparr>)" "sched_inv (s\<lparr>sc_stopping := b\<rparr>)"
  using assms by (simp_all add: sched_inv_def busy_threads_def idle_threads_def)

lemma sched_inv_step:
  assumes "sched_step ends may s s'" "sched_inv s"
  shows "sched_inv s'"
proof -
  note L = sched_invD(1) [OF assms(2)]
  note B = busy_active [OF assms(2)]
  note M = sched_inv_move [OF assms(2)]
  from assms(1) show ?thesis
  proof cases
    case (schedule x)
    have "list_all has_work (snd (schedule_without_lock x (sc_tasklist s)))"
      using L by (simp add: schedule_without_lock_def)
    from sched_inv_list(1) [OF assms(2) this] schedule show ?thesis by simp
  next
    case stop
    with sched_inv_list(2) [OF assms(2) L] show ?thesis by simp
  next
    case (pick t tickle x xs)
    from scan_some [OF L pick(4)] L have "list_all has_work xs" "has_work x" "\<not> foreign t x"
      by (auto simp: eligible_def)
    with pick show ?thesis by (intro M [where t = t and p = "Picked x"]) simp_all
  next
    case (resume t x)
    have w: "has_work x" "\<not> foreign t x" "0 < sc_active_thread_count s"
      using sched_invD(2) [OF assms(2) resume(1), of x] B [OF resume(1)] resume(2) by simp_all
    from resume(3) show ?thesis
    proof (cases rule: enter_cases)
      case (1 f)
      with w L resume(1,2) show ?thesis
        by (intro M [where t = t and p = "In_fiber x f"]) simp_all
    next
      case 2
      with w L resume(1,2) show ?thesis
        by (intro M [where t = t and p = "In_fiber x (sc_next_fiber s)"]) simp_all
    qed
  next
    case (yield t x f)
    have "has_work x \<and> \<not> foreign t x" "0 < sc_active_thread_count s"
      using sched_invD(2) [OF assms(2) yield(2), of x] B [OF yield(2)] yield(3) by simp_all
    with L yield show ?thesis by (intro M [where t = t and p = "Leaving x f"]) simp_all
  next
    case (finish t x f)
    have "has_work x \<and> \<not> foreign t x" "0 < sc_active_thread_count s"
      using sched_invD(2) [OF assms(2) finish(2), of x] B [OF finish(2)] finish(3) by simp_all
    with L finish show ?thesis by (intro M [where t = t and p = "Leaving x f"]) simp_all
  next
    case (switch t x f)
    with L show ?thesis by (intro M [where t = t and p = Scanning]) simp_all
  next
    case (exit t tickle xs)
    with L show ?thesis by (intro M [where t = t and p = Exited]) simp_all
  next
    case (idle t tickle xs)
    with L show ?thesis by (intro M [where t = t and p = Idling]) simp_all
  next
    case (idle_yield t)
    with L show ?thesis by (intro M [where t = t and p = Scanning]) simp_all
  next
    case (idle_end t)
    with L show ?thesis by (intro M [where t = t and p = Scanning]) simp_all
  qed
qed

lemma sched_inv_run: "sched_run ends may s s' \<Longrightarrow> sched_inv s \<Longrightarrow> sched_inv s'"
  by (induction rule: sched_run.induct) (auto intro: sched_inv_step)

text \<open>A started scheduler.\<close>

lemma start_inv:
  assumes "scheduler_new n use_caller caller = Inr (k, s0)" "start_threads ids s0 = Inr s" "finite ids"
  shows "sched_inv s"
proof -
  from assms(1) have s0: "sc_threads s0 = {}" "sc_tasklist s0 = []" "sc_active_thread_count s0 = 0"
    "sc_idle_thread_count s0 = 0" "\<not> sc_stopping s0" "sc_pc s0 = (\<lambda>_. Exited)"
    by (auto simp: scheduler_new_def res_simps)
  from assms(2) s0 have "s = s0\<lparr>sc_threads := ids, sc_pc := (\<lambda>t. if t \<in> ids then Scanning else sc_pc s0 t)\<rparr>"
    by (simp add: start_threads_def)
  then have "busy_threads s = {}" "idle_threads s = {}" "sc_active_thread_count s = 0" "sc_idle_thread_count s = 0"
    "sc_tasklist s = []" "sc_threads s = ids" "\<forall>t \<in> ids. sc_pc s t = Scanning"
    using s0 by (auto simp: busy_threads_def idle_threads_def)
  with assms(3) show ?thesis by (simp add: sched_inv_def)
qed

text \<open>A scheduler that may stop has no task left, neither in the list nor on a thread.\<close>

lemma stopping_quiet:
  assumes "sched_inv s" "sched_stopping s" "t \<in> sc_threads s"
  shows "\<not> busy (sc_pc s t)"
proof -
  have "card (busy_threads s) = 0" "finite (busy_threads s)"
    using assms by (auto simp: sched_inv_def sched_stopping_def)
  then have "busy_threads s = {}" by simp
  with assms(3) in_threads(1) [of t s] show ?thesis by (auto simp del: in_threads)
qed

section \<open>One thread per fiber\<close>

definition fibers_of :: "'cb schedule_task list \<Rightarrow> nat list" where
  "fibers_of xs = concat (map (\<lambda>x. case tk_fiber x of Some f \<Rightarrow> [f] | None \<Rightarrow> []) xs)"

lemma fibers_of_simps [simp]:
  "fibers_of [] = []" "fibers_of (xs @ ys) = fibers_of xs @ fibers_of ys"
  "fibers_of (x # xs) = (case tk_fiber x of Some f \<Rightarrow> [f] | None \<Rightarrow> []) @ fibers_of xs"
  by (simp_all add: fibers_of_def)

text \<open>A fiber may be scheduled while it is at rest, neither queued nor on a thread; the
  code schedules it while it is merely not queued.\<close>

definition task_at_rest :: "'cb schedule_task \<Rightarrow> 'cb scheduler \<Rightarrow> bool" where
  "task_at_rest x s \<longleftrightarrow>
     (\<forall>f. tk_fiber x = Some f \<longrightarrow> f < sc_next_fiber s \<and> f \<notin> set (fibers_of (sc_tasklist s)) \<and>
        (\<forall>t \<in> sc_threads s. on_fiber (sc_pc s t) \<noteq> Some f))"

definition task_not_queued :: "'cb schedule_task \<Rightarrow> 'cb scheduler \<Rightarrow> bool" where
  "task_not_queued x s \<longleftrightarrow>
     (\<forall>f. tk_fiber x = Some f \<longrightarrow> f < sc_next_fiber s \<and> f \<notin> set (fibers_of (sc_tasklist s)))"

definition excl_inv :: "'cb scheduler \<Rightarrow> bool" where
  "excl_inv s \<longleftrightarrow>
     distinct (fibers_of (sc_tasklist s)) \<and>
     (\<forall>f \<in> set (fibers_of (sc_tasklist s)). f < sc_next_fiber s \<and> (\<forall>t \<in> sc_threads s. on_fiber (sc_pc s t) \<noteq> Some f)) \<and>
     (\<forall>t \<in> sc_threads s. \<forall>f. on_fiber (sc_pc s t) = Some f \<longrightarrow> f < sc_next_fiber s \<and>
        (\<forall>u \<in> sc_threads s. on_fiber (sc_pc s u) = Some f \<longrightarrow> u = t))"

lemma excl_move:
  assumes "excl_inv s" "sc_threads s' = sc_threads s" "sc_pc s' = (sc_pc s)(t := p)"
    and "distinct (fibers_of (sc_tasklist s'))" "set (fibers_of (sc_tasklist s')) \<subseteq> set (fibers_of (sc_tasklist s))"
    and "sc_next_fiber s \<le> sc_next_fiber s'"
    and "\<And>f. on_fiber p = Some f \<Longrightarrow> f < sc_next_fiber s' \<and> f \<notin> set (fibers_of (sc_tasklist s')) \<and>
      (\<forall>u \<in> sc_threads s. u \<noteq> t \<longrightarrow> on_fiber (sc_pc s u) \<noteq> Some f)"
  shows "excl_inv s'"
proof -
  have lt: "f < sc_next_fiber s'" if "f < sc_next_fiber s" for f using that assms(6) by simp
  have Q: "f < sc_next_fiber s'" "\<forall>u \<in> sc_threads s'. on_fiber (sc_pc s' u) \<noteq> Some f"
    if "f \<in> set (fibers_of (sc_tasklist s'))" for f
  proof -
    have "f \<in> set (fibers_of (sc_tasklist s))" using assms(5) that by blast
    then show "f < sc_next_fiber s'" "\<forall>u \<in> sc_threads s'. on_fiber (sc_pc s' u) \<noteq> Some f"
      using assms(1,2,3) assms(7) [of f] that lt by (auto simp: excl_inv_def)
  qed
  have T: "f < sc_next_fiber s' \<and> (\<forall>w \<in> sc_threads s'. on_fiber (sc_pc s' w) = Some f \<longrightarrow> w = u)"
    if "u \<in> sc_threads s'" "on_fiber (sc_pc s' u) = Some f" for u f
  proof (cases "u = t")
    case True
    with that assms(2,3) assms(7) [of f] show ?thesis by auto
  next
    case False
    then have "on_fiber (sc_pc s u) = Some f" "u \<in> sc_threads s" using that assms(2,3) by simp_all
    then show ?thesis using assms(1,2,3) assms(7) [of f] False lt by (auto simp: excl_inv_def)
  qed
  show ?thesis using assms(4) Q T unfolding excl_inv_def by blast
qed

lemma excl_thread:
  assumes "excl_inv s" "t \<in> sc_threads s" "on_fiber (sc_pc s t) = Some f"
  shows "f < sc_next_fiber s \<and> f \<notin> set (fibers_of (sc_tasklist s)) \<and>
    (\<forall>u \<in> sc_threads s. u \<noteq> t \<longrightarrow> on_fiber (sc_pc s u) \<noteq> Some f)"
  using assms by (auto simp: excl_inv_def)

lemma excl_schedule:
  assumes "excl_inv s" "task_at_rest x s"
  shows "excl_inv (s\<lparr>sc_tasklist := snd (schedule_without_lock x (sc_tasklist s))\<rparr>)"
  using assms by (auto simp: excl_inv_def task_at_rest_def schedule_without_lock_def split: option.splits)

lemma excl_stay:
  assumes "excl_inv s" "t \<in> sc_threads s" "on_fiber p = None \<or> on_fiber p = on_fiber (sc_pc s t)"
    and "sc_threads s' = sc_threads s" "sc_pc s' = (sc_pc s)(t := p)" "sc_tasklist s' = sc_tasklist s"
    and "sc_next_fiber s' = sc_next_fiber s"
  shows "excl_inv s'"
proof (rule excl_move [OF assms(1,4,5)])
  show "distinct (fibers_of (sc_tasklist s'))" using assms(1,6) by (simp add: excl_inv_def)
  fix f assume "on_fiber p = Some f"
  then have "on_fiber (sc_pc s t) = Some f" using assms(3) by auto
  from excl_thread [OF assms(1,2) this] assms(6,7)
  show "f < sc_next_fiber s' \<and> f \<notin> set (fibers_of (sc_tasklist s')) \<and>
      (\<forall>u \<in> sc_threads s. u \<noteq> t \<longrightarrow> on_fiber (sc_pc s u) \<noteq> Some f)" by simp
qed (use assms(6,7) in simp_all)

lemma excl_pick:
  assumes "excl_inv s" "sc_tasklist s = us @ x # vs" "t \<in> sc_threads s"
  shows "excl_inv (at t (Picked x) (s\<lparr>sc_tasklist := us @ vs, sc_active_thread_count := n\<rparr>))"
proof (rule excl_move [OF assms(1), where t = t and p = "Picked x"])
  fix f assume "on_fiber (Picked x) = Some f"
  then have f: "tk_fiber x = Some f" by simp
  then have "f \<in> set (fibers_of (sc_tasklist s))" using assms(2) by simp
  then show "f < sc_next_fiber (at t (Picked x) (s\<lparr>sc_tasklist := us @ vs, sc_active_thread_count := n\<rparr>)) \<and>
      f \<notin> set (fibers_of (sc_tasklist (at t (Picked x) (s\<lparr>sc_tasklist := us @ vs, sc_active_thread_count := n\<rparr>)))) \<and>
      (\<forall>u \<in> sc_threads s. u \<noteq> t \<longrightarrow> on_fiber (sc_pc s u) \<noteq> Some f)"
    using assms(1,2) f by (auto simp: excl_inv_def)
qed (use assms in \<open>auto simp: excl_inv_def\<close>)

lemma excl_enter_new:
  assumes "excl_inv s" "t \<in> sc_threads s"
  shows "excl_inv (at t (In_fiber x (sc_next_fiber s)) (s\<lparr>sc_fiber_state := g, sc_next_fiber := sc_next_fiber s + 1\<rparr>))"
proof (rule excl_move [OF assms(1), where t = t and p = "In_fiber x (sc_next_fiber s)"])
  fix f assume "on_fiber (In_fiber x (sc_next_fiber s)) = Some f"
  then have "f = sc_next_fiber s" by simp
  then show "f < sc_next_fiber (at t (In_fiber x (sc_next_fiber s)) (s\<lparr>sc_fiber_state := g, sc_next_fiber := sc_next_fiber s + 1\<rparr>)) \<and>
      f \<notin> set (fibers_of (sc_tasklist (at t (In_fiber x (sc_next_fiber s)) (s\<lparr>sc_fiber_state := g, sc_next_fiber := sc_next_fiber s + 1\<rparr>)))) \<and>
      (\<forall>u \<in> sc_threads s. u \<noteq> t \<longrightarrow> on_fiber (sc_pc s u) \<noteq> Some f)"
    using assms(1) by (force simp: excl_inv_def)
qed (use assms in \<open>auto simp: excl_inv_def\<close>)

lemma excl_step:
  assumes "sched_step ends task_at_rest s s'" "sched_inv s" "excl_inv s"
  shows "excl_inv s'"
proof -
  note S = excl_stay [OF assms(3)]
  from assms(1) show ?thesis
  proof cases
    case (schedule x)
    with excl_schedule [OF assms(3)] show ?thesis by simp
  next
    case stop
    with assms(3) show ?thesis by (simp add: excl_inv_def)
  next
    case (pick t tickle x xs)
    from scan_some [OF sched_invD(1) [OF assms(2)] pick(4)] obtain us vs
      where "sc_tasklist s = us @ x # vs" "xs = us @ vs" by blast
    with excl_pick [OF assms(3) this(1) pick(2)] pick(1) show ?thesis by simp
  next
    case (resume t x)
    from resume(3) show ?thesis
    proof (cases rule: enter_cases)
      case (1 f)
      with resume(1,2) show ?thesis by (intro S [where t = t and p = "In_fiber x f"]) simp_all
    next
      case 2
      with excl_enter_new [OF assms(3) resume(1)] show ?thesis by simp
    qed
  next
    case (yield t x f)
    then show ?thesis by (intro S [where t = t and p = "Leaving x f"]) simp_all
  next
    case (finish t x f)
    then show ?thesis by (intro S [where t = t and p = "Leaving x f"]) simp_all
  next
    case (switch t x f)
    then show ?thesis by (intro S [where t = t and p = Scanning]) simp_all
  next
    case (exit t tickle xs)
    then show ?thesis by (intro S [where t = t and p = Exited]) simp_all
  next
    case (idle t tickle xs)
    then show ?thesis by (intro S [where t = t and p = Idling]) simp_all
  next
    case (idle_yield t)
    then show ?thesis by (intro S [where t = t and p = Scanning]) simp_all
  next
    case (idle_end t)
    then show ?thesis by (intro S [where t = t and p = Scanning]) simp_all
  qed
qed

lemma excl_run:
  "sched_run ends task_at_rest s s' \<Longrightarrow> sched_inv s \<Longrightarrow> excl_inv s \<Longrightarrow> sched_inv s' \<and> excl_inv s'"
  by (induction rule: sched_run.induct) (auto intro: sched_inv_step excl_step)

text \<open>Only a fiber that a thread is on is \<open>RUNNING\<close>, so a fiber that was scheduled at
  rest can be resumed unless it has ended.\<close>

definition running_inv :: "'cb scheduler \<Rightarrow> bool" where
  "running_inv s \<longleftrightarrow>
     (\<forall>f. sc_fiber_state s f = RUNNING \<longrightarrow> (\<exists>t \<in> sc_threads s. \<exists>x. sc_pc s t = In_fiber x f))"

lemma running_other:
  assumes "running_inv s" "sc_threads s' = sc_threads s" "sc_pc s' = (sc_pc s)(t := p)" "t \<in> sc_threads s"
    and "\<And>f. sc_fiber_state s' f = RUNNING \<Longrightarrow>
      (\<exists>x. p = In_fiber x f) \<or> (sc_fiber_state s f = RUNNING \<and> (\<forall>x. sc_pc s t \<noteq> In_fiber x f))"
  shows "running_inv s'"
  unfolding running_inv_def
proof (intro allI impI)
  fix f assume "sc_fiber_state s' f = RUNNING"
  from assms(5) [OF this] show "\<exists>t \<in> sc_threads s'. \<exists>x. sc_pc s' t = In_fiber x f"
  proof
    assume "\<exists>x. p = In_fiber x f"
    with assms(2-4) show ?thesis by auto
  next
    assume f: "sc_fiber_state s f = RUNNING \<and> (\<forall>x. sc_pc s t \<noteq> In_fiber x f)"
    with assms(1) obtain u x where "u \<in> sc_threads s" "sc_pc s u = In_fiber x f"
      by (auto simp: running_inv_def)
    moreover from this f have "u \<noteq> t" by auto
    ultimately show ?thesis using assms(2,3) by auto
  qed
qed

lemma running_step:
  assumes "sched_step ends may s s'" "running_inv s"
  shows "running_inv s'"
proof -
  note R = running_other [OF assms(2)]
  from assms(1) show ?thesis
  proof cases
    case (schedule x)
    with assms(2) show ?thesis by (simp add: running_inv_def)
  next
    case stop
    with assms(2) show ?thesis by (simp add: running_inv_def)
  next
    case (pick t tickle x xs)
    then show ?thesis by (intro R [where t = t and p = "Picked x"]) simp_all
  next
    case (resume t x)
    from resume(3) show ?thesis
    proof (cases rule: enter_cases)
      case (1 f)
      with resume(1,2) show ?thesis
        by (intro R [where t = t and p = "In_fiber x f"]) (auto split: if_splits)
    next
      case 2
      with resume(1,2) show ?thesis
        by (intro R [where t = t and p = "In_fiber x (sc_next_fiber s)"]) (auto split: if_splits)
    qed
  next
    case (yield t x f)
    then show ?thesis by (intro R [where t = t and p = "Leaving x f"]) (auto split: if_splits)
  next
    case (finish t x f)
    then show ?thesis by (intro R [where t = t and p = "Leaving x f"]) (auto split: if_splits)
  next
    case (switch t x f)
    then show ?thesis by (intro R [where t = t and p = Scanning]) simp_all
  next
    case (exit t tickle xs)
    then show ?thesis by (intro R [where t = t and p = Exited]) simp_all
  next
    case (idle t tickle xs)
    then show ?thesis by (intro R [where t = t and p = Idling]) simp_all
  next
    case (idle_yield t)
    then show ?thesis by (intro R [where t = t and p = Scanning]) simp_all
  next
    case (idle_end t)
    then show ?thesis by (intro R [where t = t and p = Scanning]) simp_all
  qed
qed

lemma running_run: "sched_run ends may s s' \<Longrightarrow> running_inv s \<Longrightarrow> running_inv s'"
  by (induction rule: sched_run.induct) (auto intro: running_step)

lemma resume_ok:
  assumes "excl_inv s" "running_inv s" "t \<in> sc_threads s" "sc_pc s t = Picked x"
    and "\<And>f. tk_fiber x = Some f \<Longrightarrow> sc_fiber_state s f \<noteq> TERM_STATE"
  shows "\<exists>s'. enter t x s = Inr s'"
proof (cases "tk_fiber x")
  case None
  then show ?thesis by (simp add: enter_callback)
next
  case (Some f)
  have "sc_fiber_state s f \<noteq> RUNNING"
  proof
    assume "sc_fiber_state s f = RUNNING"
    with assms(2) obtain u y where u: "u \<in> sc_threads s" "sc_pc s u = In_fiber y f"
      by (auto simp: running_inv_def)
    have "on_fiber (sc_pc s t) = Some f" using assms(4) Some by simp
    with excl_thread [OF assms(1,3) this] u assms(4) show False by fastforce
  qed
  with Some assms(5) show ?thesis by (simp add: enter_fiber)
qed

section \<open>The idle fiber of the base class\<close>

text \<open>While the scheduler is not stopping, a thread that finds nothing to do is gone after
  its second look, and never comes back.\<close>

lemma base_worker_quits:
  assumes "\<not> sc_stopping s" "sc_tasklist s = []" "t \<in> sc_threads s" "sc_pc s t = Scanning"
  shows "\<exists>s'. sched_run base_idle_ends may s s' \<and> sc_pc s' t = Exited \<and> \<not> sc_stopping s'"
proof -
  let ?s1 = "at t Idling (s\<lparr>sc_idle_thread_count := sc_idle_thread_count s + 1\<rparr>)"
  let ?s2 = "at t Scanning (?s1\<lparr>sc_idle_thread_count := sc_idle_thread_count ?s1 - 1,
      sc_idle_term := (sc_idle_term ?s1)(t := True)\<rparr>)"
  let ?s3 = "at t Exited ?s2"
  show ?thesis
  proof (cases "sc_idle_term s t")
    case True
    have "sched_step base_idle_ends may s (at t Exited s)"
      using assms True by (intro sched_step.exit) simp_all
    then have "sched_run base_idle_ends may s (at t Exited s)"
      by (rule sched_run.step [OF sched_run.none])
    with assms(1) show ?thesis by (intro exI [of _ "at t Exited s"]) simp
  next
    case False
    have 1: "sched_step base_idle_ends may s ?s1"
      using assms False by (intro sched_step.idle) simp_all
    have 2: "sched_step base_idle_ends may ?s1 ?s2"
      using assms by (intro sched_step.idle_end) (simp_all add: base_idle_ends_def)
    have 3: "sched_step base_idle_ends may ?s2 ?s3"
      using assms by (intro sched_step.exit) simp_all
    have "sched_run base_idle_ends may s ?s3"
      by (rule sched_run.step [OF sched_run.step [OF sched_run.step [OF sched_run.none 1] 2] 3])
    with assms(1) show ?thesis by (intro exI [of _ ?s3]) simp
  qed
qed

lemma exited_stays: "sched_run ends may s s' \<Longrightarrow> sc_pc s t = Exited \<Longrightarrow> sc_pc s' t = Exited"
proof (induction rule: sched_run.induct)
  case (step s' s'')
  from step.hyps(2) step.IH [OF step.prems] show ?case
    by cases (auto elim!: enter_cases)
qed

text \<open>Once it is stopping, the idle fiber never ends, and no thread that was not on its way
  out leaves the loop.\<close>

lemma base_stop_hangs:
  assumes "sched_run base_idle_ends may s s'" "sc_stopping s" "\<not> sc_idle_term s t" "sc_pc s t \<noteq> Exited"
  shows "sc_stopping s' \<and> \<not> sc_idle_term s' t \<and> sc_pc s' t \<noteq> Exited"
  using assms
proof (induction rule: sched_run.induct)
  case (step s' s'')
  from step.hyps(2) step.IH [OF step.prems] show ?case
    by cases (auto simp: base_idle_ends_def elim!: enter_cases split: if_splits)
qed simp

section \<open>A fiber on two threads\<close>

text \<open>A fiber that is scheduled while it runs, as an event does that fires early, waits in
  the list until \<open>yield\<close> has made it \<open>READY\<close>; then another thread may enter it before
  the first has saved its context.\<close>

definition two_threads :: "'cb scheduler" where
  "two_threads = \<lparr>sc_tasklist = [], sc_active_thread_count = 0, sc_idle_thread_count = 0, sc_stopping = False,
     sc_threads = {1, 2}, sc_fiber_state = (\<lambda>_. READY), sc_next_fiber = 1, sc_pc = (\<lambda>_. Scanning),
     sc_idle_term = (\<lambda>_. False)\<rparr>"

definition raced :: "'cb scheduler \<Rightarrow> bool" where
  "raced s \<longleftrightarrow> (\<exists>x y. sc_pc s 1 = Leaving x 0 \<and> sc_pc s 2 = In_fiber y 0)"

lemma woken_while_running:
  "\<exists>s' :: 'cb scheduler. sched_run ends task_not_queued two_threads s' \<and> raced s'"
proof -
  let ?x = "fiber_task 0 (- 1) :: 'cb schedule_task"
  let ?s0 = "two_threads :: 'cb scheduler"
  let ?s1 = "?s0\<lparr>sc_tasklist := snd (schedule_without_lock ?x (sc_tasklist ?s0))\<rparr>"
  let ?s2 = "at 1 (Picked ?x) (?s1\<lparr>sc_tasklist := [], sc_active_thread_count := sc_active_thread_count ?s1 + 1\<rparr>)"
  let ?s3 = "at 1 (In_fiber ?x 0) (?s2\<lparr>sc_fiber_state := (sc_fiber_state ?s2)(0 := RUNNING)\<rparr>)"
  let ?s4 = "?s3\<lparr>sc_tasklist := snd (schedule_without_lock ?x (sc_tasklist ?s3))\<rparr>"
  let ?s5 = "at 1 (Leaving ?x 0) (?s4\<lparr>sc_fiber_state := (sc_fiber_state ?s4)(0 := READY)\<rparr>)"
  let ?s6 = "at 2 (Picked ?x) (?s5\<lparr>sc_tasklist := [], sc_active_thread_count := sc_active_thread_count ?s5 + 1\<rparr>)"
  let ?s7 = "at 2 (In_fiber ?x 0) (?s6\<lparr>sc_fiber_state := (sc_fiber_state ?s6)(0 := RUNNING)\<rparr>)"
  note D = two_threads_def fiber_task_def schedule_without_lock_def has_work_def task_not_queued_def
  have 1: "sched_step ends task_not_queued ?s0 ?s1"
    by (rule sched_step.schedule) (simp add: D)
  have 2: "sched_step ends task_not_queued ?s1 ?s2"
    by (rule sched_step.pick [where tickle = False]) (simp_all add: D)
  have 3: "sched_step ends task_not_queued ?s2 ?s3"
    by (rule sched_step.resume [where t = 1 and x = ?x]) (simp_all add: D enter_def)
  have 4: "sched_step ends task_not_queued ?s3 ?s4"
    by (rule sched_step.schedule) (simp add: D)
  have 5: "sched_step ends task_not_queued ?s4 ?s5"
    by (rule sched_step.yield) (simp_all add: D)
  have 6: "sched_step ends task_not_queued ?s5 ?s6"
    by (rule sched_step.pick [where tickle = False]) (simp_all add: D)
  have 7: "sched_step ends task_not_queued ?s6 ?s7"
    by (rule sched_step.resume [where t = 2 and x = ?x]) (simp_all add: D enter_def)
  note S = sched_run.step
  have "sched_run ends task_not_queued ?s0 ?s7"
    by (rule S [OF S [OF S [OF S [OF S [OF S [OF S [OF sched_run.none 1] 2] 3] 4] 5] 6] 7])
  moreover have "raced ?s7" by (simp add: raced_def D)
  ultimately show ?thesis by blast
qed

end
