(* ===== verification/IOManager_Spec.thy ===== *)
theory IOManager_Spec
  imports IOManager Scheduler_Spec
begin

unbundle bit_operations_syntax

text \<open>
  What the I/O manager promises, against the set of registered events: each operation adds
  to it or removes from it, the pending counter is its size, a cancelled or reported event
  schedules its own task exactly once, and the calls of \<open>epoll_ctl\<close> follow the protocol
  of the kernel (\<open>replay\<close>): a descriptor is added when it is unknown, and modified or
  deleted when it is known.
\<close>

section \<open>Event sets\<close>

definition event_sets :: "u32 set" where
  "event_sets = {0, 1, 4, 5}"

lemma event_sets_cases:
  assumes "e \<in> event_sets"
  obtains "e = 0" | "e = 1" | "e = 4" | "e = 5"
  using assms by (auto simp: event_sets_def)

lemma event_sets_closed:
  assumes "a \<in> event_sets" "b \<in> event_sets"
  shows "a OR b \<in> event_sets" "a AND NOT b \<in> event_sets" "a AND b \<in> event_sets"
  using assms by (auto simp: event_sets_def)

lemma ev_code_simps [simp]: "ev_code READ = 1" "ev_code WRITE = 4" "ev_code NONE = 0"
  by (simp_all add: ev_code_def)

lemma ev_code_sets [simp]: "ev_code e \<in> event_sets"
  by (cases e) (simp_all add: event_sets_def)

lemma event_sets_mem [simp]: "0 \<in> event_sets" "1 \<in> event_sets" "4 \<in> event_sets" "5 \<in> event_sets"
  by (simp_all add: event_sets_def)

text \<open>The tests, after setting or clearing an event.\<close>

lemma test_or:
  "a \<in> event_sets \<Longrightarrow> e \<noteq> NONE \<Longrightarrow> d \<noteq> NONE \<Longrightarrow>
   ((a OR ev_code e) AND ev_code d \<noteq> 0) = (d = e \<or> a AND ev_code d \<noteq> 0)"
  by (cases e; cases d) (auto elim!: event_sets_cases)

lemma test_clear:
  "a \<in> event_sets \<Longrightarrow> e \<noteq> NONE \<Longrightarrow> d \<noteq> NONE \<Longrightarrow>
   ((a AND NOT (ev_code e)) AND ev_code d \<noteq> 0) = (d \<noteq> e \<and> a AND ev_code d \<noteq> 0)"
  by (cases e; cases d) (auto elim!: event_sets_cases)

lemma sets_zero: "a \<in> event_sets \<Longrightarrow> a = 0 \<longleftrightarrow> a AND 1 = 0 \<and> a AND 4 = 0"
  by (auto elim!: event_sets_cases)

lemma clear_ET:
  "a \<in> event_sets \<Longrightarrow> (EPOLLET OR a) AND NOT EPOLLET = a" "a \<in> event_sets \<Longrightarrow> a AND NOT EPOLLET = a"
  by (auto simp: EPOLLET_def elim!: event_sets_cases)

section \<open>Invariant\<close>

abbreviation has_event :: "'cb fd_context \<Rightarrow> event \<Rightarrow> bool" where
  "has_event c e \<equiv> fc_events c AND ev_code e \<noteq> 0"

definition armed :: "'cb event_context \<Rightarrow> bool" where
  "armed x \<longleftrightarrow> ec_scheduler x \<and> (ec_fiber x = None) \<noteq> (ec_callback x = None)"

definition fd_ok :: "'cb fd_context \<Rightarrow> bool" where
  "fd_ok c \<longleftrightarrow> fc_events c \<in> event_sets \<and>
     (if has_event c READ then armed (fc_read c) else fc_read c = event_context_new) \<and>
     (if has_event c WRITE then armed (fc_write c) else fc_write c = event_context_new)"

definition registered_events :: "'cb io_manager \<Rightarrow> (nat \<times> event) set" where
  "registered_events m = {(i, e). i < length (im_fd_contexts m) \<and> has_event (im_fd_contexts m ! i) e}"

text \<open>What the kernel watches after the logged calls; \<open>None\<close> when one of them breaks the
  protocol.\<close>

fun replay_call :: "ctl_op \<times> nat \<times> u32 \<Rightarrow> (nat \<Rightarrow> u32 option) option \<Rightarrow> (nat \<Rightarrow> u32 option) option" where
  "replay_call (op, fd, evs) None = None"
| "replay_call (op, fd, evs) (Some k) =
     (if (op = CTL_ADD) = (k fd = None)
      then Some (k(fd := if op = CTL_DEL then None else Some evs)) else None)"

definition replay :: "ctl_log \<Rightarrow> (nat \<Rightarrow> u32 option) option" where
  "replay l = fold replay_call l (Some (\<lambda>_. None))"

definition watched :: "u32 option \<Rightarrow> u32" where
  "watched w = (case w of None \<Rightarrow> 0 | Some evs \<Rightarrow> evs AND NOT EPOLLET)"

definition in_step :: "(nat \<Rightarrow> u32 option) \<Rightarrow> 'cb io_manager \<Rightarrow> bool" where
  "in_step k m \<longleftrightarrow>
     (\<forall>i < length (im_fd_contexts m). watched (k i) = fc_events (im_fd_contexts m ! i) \<and>
        (k i = None \<longleftrightarrow> fc_events (im_fd_contexts m ! i) = 0)) \<and>
     (\<forall>i \<ge> length (im_fd_contexts m). k i = None)"

definition io_inv :: "'cb io_manager \<Rightarrow> bool" where
  "io_inv m \<longleftrightarrow> 32 \<le> length (im_fd_contexts m) \<and>
     list_all fd_ok (im_fd_contexts m) \<and> im_pending_event_count m = card (registered_events m) \<and>
     (\<exists>k. replay (im_log m) = Some k \<and> in_step k m)"

lemma replay_snoc [simp]: "replay (l @ [c]) = replay_call c (replay l)"
  by (simp add: replay_def)

lemma finite_registered [simp]: "finite (registered_events m)"
proof -
  have "registered_events m \<subseteq> {..< length (im_fd_contexts m)} \<times> {READ, WRITE}"
    by (auto simp: registered_events_def) (metis event.exhaust ev_code_simps(3) and_zero_eq)
  then show ?thesis by (rule finite_subset) simp
qed

lemma has_event_none [simp]: "\<not> has_event c NONE"
  by simp

text \<open>A context is replaced by one with other events; what was told to the kernel agrees.\<close>

lemma registered_put:
  assumes "fd_context_at fd m = Inr (Some c)"
  shows "registered_events (put_context fd c' m) =
    {(i, e) \<in> registered_events m. i \<noteq> nat fd} \<union> {(nat fd, e) | e. has_event c' e}"
  using assms by (auto simp: registered_events_def put_context_def fd_context_at_def nth_list_update split: if_splits)

lemma fd_context_ok:
  "io_inv m \<Longrightarrow> fd_context_at fd m = Inr (Some c) \<Longrightarrow> fd_ok c"
  by (auto simp: io_inv_def fd_context_at_def list_all_length split: if_splits)

lemma registered_at:
  "fd_context_at fd m = Inr (Some c) \<Longrightarrow> (nat fd, e) \<in> registered_events m \<longleftrightarrow> has_event c e"
  by (auto simp: registered_events_def fd_context_at_def split: if_splits)

lemma io_inv_put:
  assumes inv: "io_inv m" and c: "fd_context_at fd m = Inr (Some c)" and ok: "fd_ok c'"
    and log: "im_log m' = im_log m @ [(op, nat fd, evs)]"
    and ctx: "im_fd_contexts m' = (im_fd_contexts m)[nat fd := c']"
    and pend: "im_pending_event_count m' = card (registered_events m')"
    and op: "(op = CTL_ADD) = (fc_events c = 0)" "(op = CTL_DEL) = (fc_events c' = 0)"
      "op \<noteq> CTL_DEL \<Longrightarrow> evs AND NOT EPOLLET = fc_events c'"
  shows "io_inv m'"
proof -
  have i: "nat fd < length (im_fd_contexts m)" "im_fd_contexts m ! nat fd = c"
    using c by (auto simp: fd_context_at_def split: if_splits)
  obtain k where k: "replay (im_log m) = Some k" "in_step k m" using inv by (auto simp: io_inv_def)
  have n: "k (nat fd) = None \<longleftrightarrow> fc_events c = 0" using k(2) i by (auto simp: in_step_def)
  let ?k = "k(nat fd := if op = CTL_DEL then None else Some evs)"
  have "replay (im_log m') = Some ?k" using k(1) n log op(1) by simp
  moreover have "in_step ?k m'"
    using k(2) i op(2,3) by (auto simp: in_step_def ctx nth_list_update watched_def)
  moreover have "list_all fd_ok (im_fd_contexts m')"
    using inv ok i(1) by (auto simp: io_inv_def ctx list_all_length nth_list_update)
  moreover have "32 \<le> length (im_fd_contexts m')" using inv by (simp add: io_inv_def ctx)
  ultimately show ?thesis using pend by (auto simp: io_inv_def)
qed

section \<open>Triggering\<close>

abbreviation event_at :: "event \<Rightarrow> 'cb fd_context \<Rightarrow> 'cb event_context" where
  "event_at e c \<equiv> (case e of READ \<Rightarrow> fc_read c | _ \<Rightarrow> fc_write c)"

text \<open>The context without the event \<open>e\<close>.\<close>

definition dropped :: "event \<Rightarrow> 'cb fd_context \<Rightarrow> 'cb fd_context" where
  "dropped e c = reset_event_context e (c\<lparr>fc_events := fc_events c AND NOT (ev_code e)\<rparr>)"

lemma dropped_simps [simp]:
  "fc_events (dropped e c) = fc_events c AND NOT (ev_code e)"
  "fc_fd (dropped e c) = fc_fd c"
  "d \<noteq> e \<Longrightarrow> d \<noteq> NONE \<Longrightarrow> e \<noteq> NONE \<Longrightarrow> event_at d (dropped e c) = event_at d c"
  by (cases e; simp add: dropped_def reset_event_context_def set_event_context_def split: event.split)+

lemma dropped_ok: "fd_ok c \<Longrightarrow> fd_ok (dropped e c)"
  by (cases e)
     (auto simp: fd_ok_def dropped_def reset_event_context_def set_event_context_def elim!: event_sets_cases
       split: if_splits)

lemma fd_ok_armed: "fd_ok c \<Longrightarrow> has_event c e \<Longrightarrow> armed (event_at e c)"
  by (cases e) (auto simp: fd_ok_def split: if_splits)

text \<open>An armed event schedules exactly one task, its callback or its fiber.\<close>

lemma event_task_one: "armed x \<Longrightarrow> length (event_task x) = 1 \<and> list_all has_work (event_task x)"
  by (auto simp: armed_def event_task_def callback_task_def fiber_task_def has_work_def split: option.splits)

lemma trigger_ok:
  assumes "fd_ok c" "has_event c e"
  shows "trigger_event e c = Inr (event_task (event_at e c), dropped e c)"
proof -
  have "e \<noteq> NONE" using assms(2) by auto
  with fd_ok_armed [OF assms] assms(2) show ?thesis
    by (cases e) (simp_all add: trigger_event_def get_event_context_def dropped_def armed_def)
qed

lemma has_event_dropped:
  "fd_ok c \<Longrightarrow> e \<noteq> NONE \<Longrightarrow> has_event (dropped e c) d \<longleftrightarrow> d \<noteq> e \<and> has_event c d"
  using test_clear [of "fc_events c" e d] by (cases "d = NONE") (auto simp: fd_ok_def)

lemma dropped_zero:
  "fd_ok c \<Longrightarrow> e \<noteq> NONE \<Longrightarrow> fc_events (dropped e c) \<in> event_sets"
  using dropped_ok [of c e] by (simp add: fd_ok_def)

lemma registered_dropped:
  assumes "io_inv m" "fd_context_at fd m = Inr (Some c)" "has_event c e"
  shows "registered_events (put_context fd (dropped e c) m) = registered_events m - {(nat fd, e)}"
    and "card (registered_events m - {(nat fd, e)}) = card (registered_events m) - 1" "0 < card (registered_events m)"
proof -
  have ok: "fd_ok c" by (rule fd_context_ok [OF assms(1,2)])
  have "e \<noteq> NONE" using assms(3) by auto
  have r: "(nat fd, d) \<in> registered_events m \<longleftrightarrow> has_event c d" for d by (rule registered_at [OF assms(2)])
  have "registered_events (put_context fd (dropped e c) m) =
      {(i, d) \<in> registered_events m. i \<noteq> nat fd} \<union> {(nat fd, d) | d. d \<noteq> e \<and> has_event c d}"
    using registered_put [OF assms(2), of "dropped e c"] has_event_dropped [OF ok \<open>e \<noteq> NONE\<close>] by simp
  also have "\<dots> = registered_events m - {(nat fd, e)}" using r by auto
  finally show "registered_events (put_context fd (dropped e c) m) = registered_events m - {(nat fd, e)}" .
  have "(nat fd, e) \<in> registered_events m" using r assms(3) by simp
  then show "card (registered_events m - {(nat fd, e)}) = card (registered_events m) - 1" "0 < card (registered_events m)"
    by (simp_all add: card_gt_0_iff) blast
qed

lemma registered_cong [simp]:
  "registered_events (m\<lparr>im_pending_event_count := n\<rparr>) = registered_events m" "registered_events (log_ctl op fd evs m) = registered_events m"
  "registered_events (put_context fd c (m\<lparr>im_pending_event_count := n\<rparr>)) = registered_events (put_context fd c m)"
  "registered_events (put_context fd c (log_ctl op fd' evs m)) = registered_events (put_context fd c m)"
  by (simp_all add: registered_events_def log_ctl_def put_context_def)

lemma fd_context_at_cong [simp]:
  "fd_context_at fd (log_ctl op fd' evs m) = fd_context_at fd m"
  "fd_context_at fd (m\<lparr>im_pending_event_count := n\<rparr>) = fd_context_at fd m"
  by (simp_all add: fd_context_at_def log_ctl_def)

section \<open>Adding\<close>

definition new_event :: "bool \<Rightarrow> nat \<Rightarrow> 'cb callback option \<Rightarrow> 'cb event_context" where
  "new_event on_scheduler cur cb =
     \<lparr>ec_scheduler = on_scheduler, ec_fiber = (if cb = None then Some cur else None), ec_callback = cb\<rparr>"

definition with_event :: "event \<Rightarrow> 'cb event_context \<Rightarrow> 'cb fd_context \<Rightarrow> 'cb fd_context" where
  "with_event e x c = set_event_context e x (c\<lparr>fc_events := fc_events c OR ev_code e\<rparr>)"

lemma with_event_ok:
  assumes "fd_ok c" "\<not> has_event c e" "armed x" "e \<noteq> NONE"
  shows "fd_ok (with_event e x c)"
proof (cases e)
  case READ
  with assms show ?thesis
    by (auto simp: fd_ok_def with_event_def set_event_context_def elim!: event_sets_cases split: if_splits)
next
  case WRITE
  with assms show ?thesis
    by (auto simp: fd_ok_def with_event_def set_event_context_def elim!: event_sets_cases split: if_splits)
qed (use assms in simp)

lemma resize_at:
  assumes "io_inv m" "length (im_fd_contexts m) \<le> n"
  shows "io_inv (context_resize (\<lambda>_. 0) n m)" "registered_events (context_resize (\<lambda>_. 0) n m) = registered_events m"
proof -
  let ?m = "context_resize (\<lambda>_. 0) n m"
  have len: "length (im_fd_contexts ?m) = n" using assms(2) by (simp add: context_resize_def)
  have old: "im_fd_contexts ?m ! i = im_fd_contexts m ! i" if "i < length (im_fd_contexts m)" for i
    using that assms(2) by (simp add: context_resize_def nth_append)
  have new: "im_fd_contexts ?m ! i = fd_context_new (\<lambda>_. 0) i" if "length (im_fd_contexts m) \<le> i" "i < n" for i
    using that assms(2) by (simp add: context_resize_def nth_append)
  have ok: "fd_ok (fd_context_new (\<lambda>_. 0) i)" for i by (simp add: fd_ok_def fd_context_new_def)
  show r: "registered_events ?m = registered_events m"
  proof (rule set_eqI, clarify)
    fix i e
    show "(i, e) \<in> registered_events ?m \<longleftrightarrow> (i, e) \<in> registered_events m"
    proof (cases "i < length (im_fd_contexts m)")
      case True
      then show ?thesis using old [OF True] assms(2) by (simp add: registered_events_def len)
    next
      case False
      then show ?thesis using new [of i] by (cases "i < n") (simp_all add: registered_events_def len fd_context_new_def)
    qed
  qed
  have l: "list_all fd_ok (im_fd_contexts ?m)"
    using assms ok by (auto simp: io_inv_def context_resize_def list_all_iff dest: in_set_takeD)
  obtain k where k: "replay (im_log m) = Some k" "in_step k m" using assms(1) by (auto simp: io_inv_def)
  have "in_step k ?m"
    unfolding in_step_def len
  proof (intro conjI allI impI)
    fix i assume i: "i < n"
    show "watched (k i) = fc_events (im_fd_contexts ?m ! i)"
      "(k i = None) = (fc_events (im_fd_contexts ?m ! i) = 0)"
      using k(2) old [of i] new [of i] i
      by (cases "i < length (im_fd_contexts m)"; simp add: in_step_def fd_context_new_def watched_def)+
  qed (use k(2) assms(2) in \<open>simp add: in_step_def\<close>)
  moreover have "32 \<le> length (im_fd_contexts ?m)" using assms unfolding len by (simp add: io_inv_def)
  ultimately show "io_inv ?m" using l k(1) r assms(1) by (auto simp: io_inv_def context_resize_def)
qed

text \<open>The context of a descriptor after the table was made long enough.\<close>

lemma found_or_grown:
  assumes "io_inv m" "0 \<le> fd"
  obtains m1 c where "grow_contexts (\<lambda>_. 0) fd m = Inr m1" "fd_context_at fd m1 = Inr (Some c)"
    "io_inv m1" "registered_events m1 = registered_events m"
proof (cases "nat fd < length (im_fd_contexts m)")
  case True
  with assms that [of m "im_fd_contexts m ! nat fd"] show ?thesis
    by (simp add: grow_contexts_def fd_context_at_def)
next
  case False
  let ?m = "context_resize (\<lambda>_. 0) (nat fd * 3 div 2) m"
  have "32 \<le> length (im_fd_contexts m)" using assms(1) by (simp add: io_inv_def)
  then have g: "length (im_fd_contexts m) \<le> nat fd * 3 div 2" "nat fd < nat fd * 3 div 2"
    using False by simp_all
  have "length (im_fd_contexts ?m) = nat fd * 3 div 2" using g(1) by (simp add: context_resize_def)
  with resize_at [OF assms(1) g(1)] g(2) assms(2) False that [of ?m "im_fd_contexts ?m ! nat fd"]
  show ?thesis by (simp add: grow_contexts_def fd_context_at_def)
qed

lemma add_event_spec:
  assumes "io_inv m" "0 \<le> fd" "e \<noteq> NONE" "(nat fd, e) \<notin> registered_events m"
  shows "\<exists>r m'. add_event ctl (\<lambda>_. 0) True cur fd e cb m = Inr (r, m') \<and> io_inv m' \<and>
    (r = -1 \<and> registered_events m' = registered_events m \<or>
     r = 0 \<and> registered_events m' = insert (nat fd, e) (registered_events m) \<and>
       event_at e (im_fd_contexts m' ! nat fd) = new_event True cur cb)"
proof -
  obtain m1 c where G1: "grow_contexts (\<lambda>_. 0) fd m = Inr m1" and c: "fd_context_at fd m1 = Inr (Some c)"
    and G2: "io_inv m1" "registered_events m1 = registered_events m"
    by (rule found_or_grown [OF assms(1,2)])
  have ok: "fd_ok c" by (rule fd_context_ok [OF G2(1) c])
  have free: "\<not> has_event c e" using registered_at [OF c, of e] G2(2) assms(4) by simp
  let ?op = "if fc_events c \<noteq> 0 then CTL_MOD else CTL_ADD"
  let ?evs = "EPOLLET OR fc_events c OR ev_code e"
  let ?x = "new_event True cur cb"
  let ?m2 = "put_context fd (with_event e ?x c) ((log_ctl ?op fd ?evs m1)
      \<lparr>im_pending_event_count := im_pending_event_count m1 + 1\<rparr>)"
  have empty: "get_event_context e (c\<lparr>fc_events := fc_events c OR ev_code e\<rparr>) = Inr event_context_new"
    using ok free assms(3) by (cases e) (simp_all add: get_event_context_def fd_ok_def split: if_splits)
  have R: "add_event ctl (\<lambda>_. 0) True cur fd e cb m =
      (if \<not> ctl ?op fd ?evs then Inr (- 1, m1) else Inr (0, ?m2))"
    using G1 c free empty
    by (simp add: add_event_def event_context_new_def new_event_def with_event_def split: option.split)
  have reg: "registered_events ?m2 = insert (nat fd, e) (registered_events m)"
  proof -
    have "has_event (with_event e ?x c) d \<longleftrightarrow> d = e \<or> has_event c d" for d
      using test_or [of "fc_events c" e d] ok assms(3)
      by (cases "d = NONE") (auto simp: fd_ok_def with_event_def set_event_context_def split: event.split)
    then have "registered_events ?m2 = {(i, d) \<in> registered_events m1. i \<noteq> nat fd} \<union> {(nat fd, d) | d. d = e \<or> has_event c d}"
      using registered_put [OF c, of "with_event e ?x c"] unfolding registered_cong by simp
    with registered_at [OF c] G2(2) show ?thesis by auto
  qed
  have ev: "fc_events (with_event e ?x c) = fc_events c OR ev_code e"
    by (simp add: with_event_def set_event_context_def split: event.split)
  have e: "fc_events c \<in> event_sets" "fc_events c OR ev_code e \<noteq> 0"
    using ok assms(3) by (cases e; auto simp: fd_ok_def elim!: event_sets_cases)+
  have inv2: "io_inv ?m2"
  proof (rule io_inv_put [OF G2(1) c])
    show "fd_ok (with_event e ?x c)"
      by (rule with_event_ok [OF ok free _ assms(3)]) (simp add: armed_def new_event_def)
    show "im_log ?m2 = im_log m1 @ [(?op, nat fd, ?evs)]"
      "im_fd_contexts ?m2 = (im_fd_contexts m1)[nat fd := with_event e ?x c]"
      by (simp_all add: put_context_def log_ctl_def)
    have "im_pending_event_count m1 = card (registered_events m)" using G2 by (simp add: io_inv_def)
    then show "im_pending_event_count ?m2 = card (registered_events ?m2)"
      unfolding reg using assms(4) by (simp add: put_context_def)
    show "?evs AND NOT EPOLLET = fc_events (with_event e ?x c)" if "?op \<noteq> CTL_DEL"
      unfolding ev using clear_ET(1) [of "fc_events c OR ev_code e"] event_sets_closed(1) e(1)
      by (simp add: or.assoc)
  qed (use e ev in simp_all)
  have at: "event_at e (im_fd_contexts ?m2 ! nat fd) = ?x"
    using c assms(3)
    by (cases e) (auto simp: put_context_def log_ctl_def fd_context_at_def with_event_def set_event_context_def split: if_splits)
  show ?thesis
  proof (cases "ctl ?op fd ?evs")
    case True
    then have "add_event ctl (\<lambda>_. 0) True cur fd e cb m = Inr (0, ?m2)" unfolding R by simp
    with inv2 reg at show ?thesis by blast
  next
    case False
    then have "add_event ctl (\<lambda>_. 0) True cur fd e cb m = Inr (- 1, m1)" unfolding R by simp
    with G2 show ?thesis by blast
  qed
qed

section \<open>Deleting and cancelling\<close>

lemma drop_inv:
  assumes "io_inv m" "fd_context_at fd m = Inr (Some c)" "has_event c e"
    and "op = (if fc_events (dropped e c) \<noteq> 0 then CTL_MOD else CTL_DEL)"
    and "evs AND NOT EPOLLET = fc_events (dropped e c)"
  shows "io_inv (put_context fd (dropped e c)
    ((log_ctl op fd evs m)\<lparr>im_pending_event_count := ssub (im_pending_event_count m) 1\<rparr>))"
proof (rule io_inv_put [OF assms(1,2)])
  note D = registered_dropped [OF assms(1-3)]
  let ?m = "put_context fd (dropped e c) ((log_ctl op fd evs m)\<lparr>im_pending_event_count := ssub (im_pending_event_count m) 1\<rparr>)"
  show "fd_ok (dropped e c)" by (rule dropped_ok [OF fd_context_ok [OF assms(1,2)]])
  show "im_log ?m = im_log m @ [(op, nat fd, evs)]"
    "im_fd_contexts ?m = (im_fd_contexts m)[nat fd := dropped e c]"
    by (simp_all add: put_context_def log_ctl_def)
  have "im_pending_event_count m = card (registered_events m)" using assms(1) by (simp add: io_inv_def)
  moreover have "registered_events ?m = registered_events m - {(nat fd, e)}" using D(1) by simp
  moreover have "im_pending_event_count ?m = ssub (im_pending_event_count m) 1" by (simp add: put_context_def)
  ultimately show "im_pending_event_count ?m = card (registered_events ?m)" using D(2,3) by simp
  show "(op = CTL_ADD) = (fc_events c = 0)" using assms(3,4) by auto
qed (use assms(4,5) in simp_all)

lemma events_in: "fd_ok c \<Longrightarrow> fc_events c \<in> event_sets"
  by (simp add: fd_ok_def)

lemma del_event_spec:
  assumes "io_inv m" "0 \<le> fd"
  shows "\<exists>r m'. del_event ctl fd e m = Inr (r, m') \<and> io_inv m' \<and>
    (r \<longrightarrow> (nat fd, e) \<in> registered_events m) \<and>
    registered_events m' = (if r then registered_events m - {(nat fd, e)} else registered_events m)"
proof (cases "nat fd < length (im_fd_contexts m)")
  case False
  with assms show ?thesis
    by (intro exI [of _ False] exI [of _ m]) (simp add: del_event_def fd_context_at_def)
next
  case True
  let ?c = "im_fd_contexts m ! nat fd"
  have c: "fd_context_at fd m = Inr (Some ?c)" using True assms(2) by (simp add: fd_context_at_def)
  have ok: "fd_ok ?c" by (rule fd_context_ok [OF assms(1) c])
  let ?n = "fc_events ?c AND NOT (ev_code e)"
  let ?op = "if ?n \<noteq> 0 then CTL_MOD else CTL_DEL"
  show ?thesis
  proof (cases "has_event ?c e \<and> ctl ?op fd (EPOLLET OR ?n)")
    case False
    then have "del_event ctl fd e m = Inr (False, m)" using c by (auto simp: del_event_def Let_def)
    with assms(1) show ?thesis by (intro exI [of _ False] exI [of _ m]) simp
  next
    case True
    let ?m = "put_context fd (dropped e ?c) ((log_ctl ?op fd (EPOLLET OR ?n) m)
        \<lparr>im_pending_event_count := ssub (im_pending_event_count m) 1\<rparr>)"
    have "del_event ctl fd e m = Inr (True, ?m)"
      using c True by (simp add: del_event_def Let_def dropped_def)
    moreover have "io_inv ?m"
      by (rule drop_inv [OF assms(1) c])
         (use True clear_ET(1) event_sets_closed(2) [OF events_in [OF ok] ev_code_sets [of e]] in simp_all)
    moreover have "registered_events ?m = registered_events m - {(nat fd, e)}"
      using registered_dropped(1) [OF assms(1) c, of e] True by simp
    ultimately show ?thesis using registered_at [OF c, of e] True by auto
  qed
qed

lemma cancel_event_spec:
  assumes "io_inv m" "0 \<le> fd"
  shows "\<exists>r ts m'. cancel_event ctl fd e m = Inr (r, ts, m') \<and> io_inv m' \<and>
    (r \<longrightarrow> (nat fd, e) \<in> registered_events m) \<and>
    registered_events m' = (if r then registered_events m - {(nat fd, e)} else registered_events m) \<and>
    ts = (if r then event_task (event_at e (im_fd_contexts m ! nat fd)) else [])"
proof (cases "nat fd < length (im_fd_contexts m)")
  case False
  with assms show ?thesis
    by (intro exI [of _ False] exI [of _ "[]"] exI [of _ m]) (simp add: cancel_event_def fd_context_at_def)
next
  case True
  let ?c = "im_fd_contexts m ! nat fd"
  have c: "fd_context_at fd m = Inr (Some ?c)" using True assms(2) by (simp add: fd_context_at_def)
  have ok: "fd_ok ?c" by (rule fd_context_ok [OF assms(1) c])
  let ?n = "fc_events ?c AND NOT (ev_code e)"
  let ?op = "if ?n \<noteq> 0 then CTL_MOD else CTL_DEL"
  show ?thesis
  proof (cases "has_event ?c e \<and> ctl ?op fd ?n")
    case False
    then have "cancel_event ctl fd e m = Inr (False, [], m)" using c by (auto simp: cancel_event_def Let_def)
    with assms(1) show ?thesis by (intro exI [of _ False] exI [of _ "[]"] exI [of _ m]) simp
  next
    case True
    let ?m = "put_context fd (dropped e ?c) ((log_ctl ?op fd ?n m)
        \<lparr>im_pending_event_count := ssub (im_pending_event_count m) 1\<rparr>)"
    have "cancel_event ctl fd e m = Inr (True, event_task (event_at e ?c), ?m)"
      using c True trigger_ok [OF ok, of e] by (simp add: cancel_event_def Let_def)
    moreover have "io_inv ?m"
      by (rule drop_inv [OF assms(1) c])
         (use True clear_ET(2) event_sets_closed(2) [OF events_in [OF ok] ev_code_sets [of e]] in simp_all)
    moreover have "registered_events ?m = registered_events m - {(nat fd, e)}"
      using registered_dropped(1) [OF assms(1) c, of e] True by simp
    ultimately show ?thesis using registered_at [OF c, of e] True by auto
  qed
qed

section \<open>Several events at once\<close>

text \<open>What \<open>trigger_if\<close> does for a set of events that are registered.\<close>

definition drop_if :: "u32 \<Rightarrow> event \<Rightarrow> 'cb fd_context \<Rightarrow> 'cb fd_context" where
  "drop_if evs e c = (if evs AND ev_code e \<noteq> 0 then dropped e c else c)"

lemma trigger_if_ok:
  assumes "fd_ok c" "evs AND ev_code e \<noteq> 0 \<Longrightarrow> has_event c e"
  shows "trigger_if evs e c n =
    Inr (if evs AND ev_code e \<noteq> 0 then event_task (event_at e c) else [], drop_if evs e c,
      if evs AND ev_code e \<noteq> 0 then ssub n 1 else n)"
  using trigger_ok [OF assms(1), of e] assms(2) by (simp add: trigger_if_def drop_if_def)

lemma drop_if_ok: "fd_ok c \<Longrightarrow> fd_ok (drop_if evs e c)"
  by (simp add: drop_if_def dropped_ok)

text \<open>Both events, for events \<open>evs\<close> among the registered ones.\<close>

definition drop_both :: "u32 \<Rightarrow> 'cb fd_context \<Rightarrow> 'cb fd_context" where
  "drop_both evs c = drop_if evs WRITE (drop_if evs READ c)"

definition both_tasks :: "u32 \<Rightarrow> 'cb fd_context \<Rightarrow> 'cb tasks" where
  "both_tasks evs c =
     (if evs AND 1 \<noteq> 0 then event_task (fc_read c) else []) @
     (if evs AND 4 \<noteq> 0 then event_task (fc_write c) else [])"

definition both_count :: "u32 \<Rightarrow> nat" where
  "both_count evs = of_bool (evs AND 1 \<noteq> 0) + of_bool (evs AND 4 \<noteq> 0)"

lemma drop_both_events:
  assumes "fd_ok c" "evs \<in> event_sets"
  shows "fc_events (drop_both evs c) = fc_events c AND NOT evs" "fd_ok (drop_both evs c)"
proof -
  show "fc_events (drop_both evs c) = fc_events c AND NOT evs"
    using assms(2) events_in [OF assms(1)]
    by (auto simp: drop_both_def drop_if_def elim!: event_sets_cases)
qed (simp add: drop_both_def drop_if_ok assms(1))

lemma write_kept: "evs \<in> event_sets \<Longrightarrow> fc_write (drop_if evs READ c) = fc_write c"
  using dropped_simps(3) [of WRITE READ c] by (simp add: drop_if_def)

lemma has_write_kept: "fd_ok c \<Longrightarrow> has_event (drop_if evs READ c) WRITE \<longleftrightarrow> has_event c WRITE"
  using has_event_dropped [of c READ WRITE] by (simp add: drop_if_def)

text \<open>Dropping the events \<open>evs\<close> of a descriptor.\<close>

lemma registered_both:
  assumes "io_inv m" "fd_context_at fd m = Inr (Some c)" "evs \<in> event_sets"
    and "\<And>e. evs AND ev_code e \<noteq> 0 \<Longrightarrow> has_event c e"
  defines "D \<equiv> {(nat fd, e) | e. evs AND ev_code e \<noteq> 0}"
  shows "registered_events (put_context fd (drop_both evs c) m) = registered_events m - D"
    and "card (registered_events m - D) + both_count evs = card (registered_events m)"
proof -
  have ok: "fd_ok c" by (rule fd_context_ok [OF assms(1,2)])
  note E = drop_both_events [OF ok assms(3)]
  have h: "has_event (drop_both evs c) e \<longleftrightarrow> has_event c e \<and> evs AND ev_code e = 0" for e
    unfolding E(1) using events_in [OF ok] assms(3) by (cases e) (auto elim!: event_sets_cases)
  have r: "(nat fd, d) \<in> registered_events m \<longleftrightarrow> has_event c d" for d by (rule registered_at [OF assms(2)])
  show "registered_events (put_context fd (drop_both evs c) m) = registered_events m - D"
    unfolding registered_put [OF assms(2)] h using r by (auto simp: D_def)
  have "D \<subseteq> registered_events m" using r assms(4) by (auto simp: D_def)
  moreover have "D = (if evs AND 1 \<noteq> 0 then {(nat fd, READ)} else {}) \<union> (if evs AND 4 \<noteq> 0 then {(nat fd, WRITE)} else {})"
    unfolding D_def by (auto, (metis ev_code_simps event.exhaust and_zero_eq)+)
  then have "card D = both_count evs" "finite D" by (auto simp: both_count_def)
  ultimately show "card (registered_events m - D) + both_count evs = card (registered_events m)"
    using card_mono [OF finite_registered, of D m] by (simp add: card_Diff_subset)
qed

lemma both_inv:
  assumes "io_inv m" "fd_context_at fd m = Inr (Some c)" "evs \<in> event_sets" "evs \<noteq> 0"
    and "\<And>e. evs AND ev_code e \<noteq> 0 \<Longrightarrow> has_event c e"
    and "op = (if fc_events c AND NOT evs \<noteq> 0 then CTL_MOD else CTL_DEL)"
    and "w AND NOT EPOLLET = fc_events c AND NOT evs"
    and "n + both_count evs = im_pending_event_count m"
  shows "io_inv (put_context fd (drop_both evs c) ((log_ctl op fd w m)\<lparr>im_pending_event_count := n\<rparr>))"
    (is "io_inv ?m")
proof (rule io_inv_put [OF assms(1,2)])
  have ok: "fd_ok c" by (rule fd_context_ok [OF assms(1,2)])
  note E = drop_both_events [OF ok assms(3)]
  note R = registered_both [OF assms(1-3,5)]
  show "fd_ok (drop_both evs c)" by (rule E(2))
  show "im_log ?m = im_log m @ [(op, nat fd, w)]"
    "im_fd_contexts ?m = (im_fd_contexts m)[nat fd := drop_both evs c]"
    by (simp_all add: put_context_def log_ctl_def)
  have "registered_events ?m = registered_events m - {(nat fd, e) | e. evs AND ev_code e \<noteq> 0}" using R(1) by simp
  moreover have "im_pending_event_count ?m = n" "im_pending_event_count m = card (registered_events m)"
    using assms(1) by (simp_all add: put_context_def io_inv_def)
  ultimately show "im_pending_event_count ?m = card (registered_events ?m)" using R(2) assms(8) by simp
  have "fc_events c \<noteq> 0"
  proof
    assume "fc_events c = 0"
    then have "\<not> has_event c READ" "\<not> has_event c WRITE" by simp_all
    then have "evs AND ev_code READ = 0" "evs AND ev_code WRITE = 0" using assms(5) by blast+
    with sets_zero [OF assms(3)] assms(4) show False by simp
  qed
  then show "(op = CTL_ADD) = (fc_events c = 0)" using assms(6) by simp
  show "(op = CTL_DEL) = (fc_events (drop_both evs c) = 0)" using E(1) assms(6) by simp
  show "w AND NOT EPOLLET = fc_events (drop_both evs c)" using E(1) assms(7) by simp
qed

lemma pending_count:
  assumes "io_inv m" "fd_context_at fd m = Inr (Some c)" "evs \<in> event_sets"
    and "\<And>e. evs AND ev_code e \<noteq> 0 \<Longrightarrow> has_event c e"
  shows "both_count evs \<le> im_pending_event_count m"
  using registered_both(2) [OF assms] assms(1) by (simp add: io_inv_def)

text \<open>The two \<open>trigger_if\<close> in a row, for a second test that agrees with the first.\<close>

lemma trigger_both:
  assumes "fd_ok c" "evs \<in> event_sets" "\<And>e. evs AND ev_code e \<noteq> 0 \<Longrightarrow> has_event c e"
    and "both_count evs \<le> n" "(evs' AND 4 = 0) = (evs AND 4 = 0)"
  shows "bindR (trigger_if evs READ c n) (\<lambda>(ts, c, n).
      bindR (trigger_if evs' WRITE c n) (\<lambda>(ts', c, n). F (ts @ ts') c n)) =
    F (both_tasks evs c) (drop_both evs c) (n - both_count evs)"
proof -
  let ?c = "drop_if evs READ c"
  have 1: "trigger_if evs READ c n = Inr (if evs AND ev_code READ \<noteq> 0 then event_task (event_at READ c) else [], ?c,
      if evs AND ev_code READ \<noteq> 0 then ssub n 1 else n)"
    by (rule trigger_if_ok [OF assms(1)]) (use assms(3) in blast)
  have w: "has_event ?c WRITE" if "evs' AND ev_code WRITE \<noteq> 0"
    using that assms(5) assms(3) [of WRITE] has_write_kept [OF assms(1)] by simp
  have 2: "trigger_if evs' WRITE ?c n' = Inr (if evs' AND ev_code WRITE \<noteq> 0 then event_task (event_at WRITE ?c) else [],
      drop_if evs' WRITE ?c, if evs' AND ev_code WRITE \<noteq> 0 then ssub n' 1 else n')" for n'
    by (rule trigger_if_ok [OF drop_if_ok [OF assms(1)] w])
  have "drop_if evs' WRITE ?c = drop_both evs c" using assms(5) by (simp add: drop_both_def drop_if_def)
  with 1 2 assms(4,5) show ?thesis
    by (auto simp: both_tasks_def both_count_def write_kept [OF assms(2)])
qed

lemma cancel_all_spec:
  assumes "io_inv m" "0 \<le> fd"
  shows "\<exists>r ts m'. cancel_all ctl fd m = Inr (r, ts, m') \<and> io_inv m' \<and>
    registered_events m' = (if r then {(i, e) \<in> registered_events m. i \<noteq> nat fd} else registered_events m) \<and>
    ts = (if r then both_tasks (fc_events (im_fd_contexts m ! nat fd)) (im_fd_contexts m ! nat fd) else [])"
proof (cases "nat fd < length (im_fd_contexts m) \<and> fc_events (im_fd_contexts m ! nat fd) \<noteq> 0 \<and> ctl CTL_DEL fd 0")
  case False
  then have "cancel_all ctl fd m = Inr (False, [], m)"
    using assms(2) by (auto simp: cancel_all_def fd_context_at_def)
  with assms(1) show ?thesis by (intro exI [of _ False] exI [of _ "[]"] exI [of _ m]) simp
next
  case True
  let ?c = "im_fd_contexts m ! nat fd"
  let ?evs = "fc_events ?c"
  have c: "fd_context_at fd m = Inr (Some ?c)" using True assms(2) by (simp add: fd_context_at_def)
  have ok: "fd_ok ?c" by (rule fd_context_ok [OF assms(1) c])
  note S = events_in [OF ok]
  have p: "both_count ?evs \<le> im_pending_event_count m" by (rule pending_count [OF assms(1) c S])
  have z: "fc_events (drop_both ?evs ?c) = 0"
    using drop_both_events(1) [OF ok S] S by (auto elim!: event_sets_cases)
  let ?m = "put_context fd (drop_both ?evs ?c) ((log_ctl CTL_DEL fd 0 m)
      \<lparr>im_pending_event_count := im_pending_event_count m - both_count ?evs\<rparr>)"
  have "cancel_all ctl fd m = Inr (True, both_tasks ?evs ?c, ?m)"
  proof -
    have t: "trigger_if ?evs READ ?c (im_pending_event_count m) =
        Inr (if ?evs AND ev_code READ \<noteq> 0 then event_task (event_at READ ?c) else [], drop_if ?evs READ ?c,
          if ?evs AND ev_code READ \<noteq> 0 then ssub (im_pending_event_count m) 1 else im_pending_event_count m)"
      by (rule trigger_if_ok [OF ok]) simp
    have "(fc_events (drop_if ?evs READ ?c) AND 4 = 0) = (?evs AND 4 = 0)"
      using has_write_kept [OF ok, of ?evs] by simp
    note B = trigger_both [OF ok S _ p this]
    show ?thesis
      using c True z B [of "\<lambda>ts c n. ensureR (fc_events c = 0) Assert_failed
          (Inr (True, ts, put_context fd c ((log_ctl CTL_DEL fd 0 m)\<lparr>im_pending_event_count := n\<rparr>)))"] t
      by (simp add: cancel_all_def)
  qed
  moreover have "io_inv ?m"
  proof (rule both_inv [OF assms(1) c S])
    show "CTL_DEL = (if ?evs AND NOT ?evs \<noteq> 0 then CTL_MOD else CTL_DEL)" by simp
  qed (use True p in simp_all)
  moreover have "registered_events ?m = {(i, e) \<in> registered_events m. i \<noteq> nat fd}"
    using registered_both(1) [OF assms(1) c S] registered_at [OF c] by auto
  ultimately show ?thesis
    by (intro exI [of _ True] exI [of _ "both_tasks ?evs ?c"] exI [of _ ?m]) simp
qed

section \<open>Reported events\<close>

lemma both_tasks_length:
  assumes "fd_ok c" "\<And>e. evs AND ev_code e \<noteq> 0 \<Longrightarrow> has_event c e"
  shows "length (both_tasks evs c) = both_count evs"
proof -
  have "length (event_task (event_at e c)) = 1" if "evs AND ev_code e \<noteq> 0" for e
    using event_task_one [OF fd_ok_armed [OF assms(1) assms(2) [OF that]]] by simp
  from this [of READ] this [of WRITE] show ?thesis by (simp add: both_tasks_def both_count_def)
qed

lemma cancel_all_count:
  assumes "io_inv m" "0 \<le> fd" "cancel_all ctl fd m = Inr (r, ts, m')" "nat fd < length (im_fd_contexts m)"
  shows "im_pending_event_count m' + length ts = im_pending_event_count m"
proof -
  let ?c = "im_fd_contexts m ! nat fd"
  have c: "fd_context_at fd m = Inr (Some ?c)" using assms(2,4) by (simp add: fd_context_at_def)
  have ok: "fd_ok ?c" by (rule fd_context_ok [OF assms(1) c])
  from cancel_all_spec [OF assms(1,2), of ctl] assms(3)
  have inv: "io_inv m'" and r: "registered_events m' = (if r then {(i, e) \<in> registered_events m. i \<noteq> nat fd} else registered_events m)"
    and ts: "ts = (if r then both_tasks (fc_events ?c) ?c else [])" by simp_all
  have n: "im_pending_event_count m' = card (registered_events m')" "im_pending_event_count m = card (registered_events m)"
    using inv assms(1) by (simp_all add: io_inv_def)
  show ?thesis
  proof (cases r)
    case True
    have "registered_events m - {(nat fd, e) | e. has_event ?c e} = registered_events m'"
      using registered_at [OF c] True by (auto simp: r)
    with registered_both(2) [OF assms(1) c events_in [OF ok]]
    have "card (registered_events m') + both_count (fc_events ?c) = card (registered_events m)" by simp
    with True both_tasks_length [OF ok, of "fc_events ?c"] show ?thesis by (simp add: n ts)
  qed (simp add: n ts r)
qed

text \<open>The tasks of the events \<open>evs\<close>, as a list over both events.\<close>

lemma both_tasks_list:
  "both_tasks evs c = concat (map (\<lambda>e. if evs AND ev_code e \<noteq> 0 then event_task (event_at e c) else []) [READ, WRITE])"
  by (simp add: both_tasks_def)

lemma real_events_sets: "real_events a evs \<in> event_sets"
  by (simp add: real_events_def Let_def)

lemma handle_ready_spec:
  fixes m :: "'cb io_manager" and fd :: int and evs :: u32
  assumes "io_inv m" "0 \<le> fd" "nat fd < length (im_fd_contexts m)"
  defines "c \<equiv> im_fd_contexts m ! nat fd"
  defines "real \<equiv> real_events (fc_events c) evs"
  assumes "real AND NOT (fc_events c) = 0"
  shows "\<exists>r m'. r = (fc_events c AND real \<noteq> 0 \<and> ctl (if fc_events c AND NOT real \<noteq> 0 then CTL_MOD else CTL_DEL)
      fd (fc_events c AND NOT real OR EPOLLET)) \<and>
    handle_ready ctl fd evs m = Inr (if r then both_tasks real c else [], m') \<and> io_inv m' \<and>
    registered_events m' = (if r then registered_events m - {(nat fd, e) | e. real AND ev_code e \<noteq> 0} else registered_events m)"
proof -
  have c: "fd_context_at fd m = Inr (Some c)" using assms(2,3) by (simp add: fd_context_at_def c_def)
  have ok: "fd_ok c" by (rule fd_context_ok [OF assms(1) c])
  note S = events_in [OF ok] and R = real_events_sets [of "fc_events c" evs, folded real_def]
  have sub: "has_event c e" if "real AND ev_code e \<noteq> 0" for e
    using assms(6) S R that by (cases e) (auto elim!: event_sets_cases)
  let ?left = "fc_events c AND NOT real"
  let ?op = "if ?left \<noteq> 0 then CTL_MOD else CTL_DEL"
  show ?thesis
  proof (cases "fc_events c AND real \<noteq> 0 \<and> ctl ?op fd (?left OR EPOLLET)")
    case False
    then have "handle_ready ctl fd evs m = Inr ([], m)"
      using c by (auto simp: handle_ready_def real_def Let_def)
    with assms(1) False show ?thesis by (intro exI [of _ False] exI [of _ m]) simp
  next
    case True
    have p: "both_count real \<le> im_pending_event_count m" by (rule pending_count [OF assms(1) c R sub])
    let ?m = "put_context fd (drop_both real c) ((log_ctl ?op fd (?left OR EPOLLET) m)
      \<lparr>im_pending_event_count := im_pending_event_count m - both_count real\<rparr>)"
    have "handle_ready ctl fd evs m = Inr (both_tasks real c, ?m)"
      using c True trigger_both [OF ok R sub p refl, of "\<lambda>ts c n. Inr (ts, put_context fd c
          ((log_ctl ?op fd (?left OR EPOLLET) m)\<lparr>im_pending_event_count := n\<rparr>))"]
      by (simp add: handle_ready_def real_def [symmetric] Let_def)
    moreover have "io_inv ?m"
    proof (rule both_inv [OF assms(1) c R _ sub])
      show "(?left OR EPOLLET) AND NOT EPOLLET = ?left"
        using clear_ET(1) [OF event_sets_closed(2) [OF S R]] by (simp add: or.commute)
    qed (use True p in auto)
    moreover have "registered_events ?m = registered_events m - {(nat fd, e) | e. real AND ev_code e \<noteq> 0}"
      using registered_both(1) [OF assms(1) c R sub] by simp
    ultimately show ?thesis using True by (intro exI [of _ True] exI [of _ ?m]) simp
  qed
qed

text \<open>An error or a hangup counts as every registered event.\<close>

lemma bit_four: "bit (4 :: int) n \<longleftrightarrow> n = 2"
proof -
  have "bit (4 :: int) n \<longleftrightarrow> bit (2 ^ 2 :: int) n" by simp
  also have "\<dots> \<longleftrightarrow> n = 2" unfolding bit_exp_iff by simp
  finally show ?thesis .
qed

lemma and_five: "(x :: u32) AND 5 \<in> event_sets"
proof -
  have "x AND 4 = (if bit x 2 then 4 else 0)"
    by (rule bit_word_eqI) (auto simp: bit_four bit_and_iff)
  moreover have "x AND 1 = (if odd x then 1 else 0)" by (simp add: and_one_eq mod_2_eq_odd)
  moreover have "x AND 5 = (x AND 1) OR (x AND 4)"
    using bit.conj_disj_distrib [of x 1 4] by simp
  ultimately show ?thesis by simp
qed

lemma and_five_split: "(x :: u32) AND 5 = (if x AND 1 \<noteq> 0 then 1 else 0) OR (if x AND 4 \<noteq> 0 then 4 else 0)"
proof -
  have "(x AND 5) AND 1 = x AND 1" "(x AND 5) AND 4 = x AND 4" by (simp_all add: and.assoc)
  with and_five [of x] show ?thesis by (auto elim!: event_sets_cases)
qed

lemma real_events_plain:
  assumes "evs AND (EPOLLERR OR EPOLLHUP) = 0"
  shows "real_events a evs = evs AND 5"
  using assms by (simp add: real_events_def EPOLLIN_def EPOLLOUT_def and_five_split)

lemma real_events_error:
  assumes "a \<in> event_sets" "evs AND (EPOLLERR OR EPOLLHUP) \<noteq> 0" "(evs AND 5) AND NOT a = 0"
  shows "real_events a evs = a"
proof -
  let ?e = "evs AND 5"
  have m: "(evs OR (5 AND a)) AND 1 = (?e OR a) AND 1" "(evs OR (5 AND a)) AND 4 = (?e OR a) AND 4"
    by (simp_all add: bit.conj_disj_distrib2 and.assoc and.commute [of a] flip: and.assoc [of 5])
  have "?e \<in> event_sets" by (rule and_five)
  with assms m show ?thesis
    by (auto simp: real_events_def EPOLLIN_def EPOLLOUT_def elim!: event_sets_cases)
qed

text \<open>An event that was reported but cancelled before the report is handled fails the
  assertion of \<open>trigger_event\<close>, when the other event of the descriptor is still there.\<close>

lemma stale_report:
  assumes "io_inv m" "0 \<le> fd" "fd_context_at fd m = Inr (Some c)" "fc_events c = 1" "evs = 5"
    and "\<And>op evs. ctl op fd evs"
  shows "handle_ready ctl fd evs m = Inl Assert_failed"
proof -
  have ok: "fd_ok c" by (rule fd_context_ok [OF assms(1,3)])
  have r: "real_events (fc_events c) evs = 5"
    using assms(4,5) by (simp add: real_events_def EPOLLERR_def EPOLLHUP_def EPOLLIN_def EPOLLOUT_def)
  have 1: "trigger_if 5 READ c n = Inr (event_task (event_at READ c), dropped READ c, ssub n 1)" for n
    using trigger_if_ok [OF ok, of 5 READ n] assms(4) by (simp add: drop_if_def)
  have 2: "trigger_if 5 WRITE (dropped READ c) n = Inl Assert_failed" for n
    using assms(4) by (simp add: trigger_if_def trigger_event_def)
  show ?thesis
    using assms(3,4,6) r 1 2 by (simp add: handle_ready_def Let_def)
qed

section \<open>When the kernel grants every call\<close>

lemma add_event_granted:
  assumes "add_event ctl junk b cur fd e cb m = Inr (r, m')" "\<And>op w. ctl op fd w"
  shows "r = 0"
  using assms by (auto simp: add_event_def bindR_Inr_iff ensureR_Inr_iff Let_def split: option.splits)

lemma registered_context:
  assumes "(nat fd, e) \<in> registered_events m" "0 \<le> fd"
  shows "nat fd < length (im_fd_contexts m)" "fd_context_at fd m = Inr (Some (im_fd_contexts m ! nat fd))"
    "has_event (im_fd_contexts m ! nat fd) e" "e \<noteq> NONE"
  using assms by (auto simp: registered_events_def fd_context_at_def)

lemma cancel_event_granted:
  assumes "io_inv m" "0 \<le> fd" "(nat fd, e) \<in> registered_events m" "\<And>op w. ctl op fd w"
  shows "\<exists>m'. cancel_event ctl fd e m = Inr (True, event_task (event_at e (im_fd_contexts m ! nat fd)), m') \<and>
    io_inv m' \<and> registered_events m' = registered_events m - {(nat fd, e)}"
proof -
  note C = registered_context [OF assms(3,2)]
  obtain r ts m' where x: "cancel_event ctl fd e m = Inr (r, ts, m')" "io_inv m'"
    "registered_events m' = (if r then registered_events m - {(nat fd, e)} else registered_events m)"
    "ts = (if r then event_task (event_at e (im_fd_contexts m ! nat fd)) else [])"
    using cancel_event_spec [OF assms(1,2), of ctl e] by blast
  have r
    using x(1) C(2,3) assms(4) trigger_ok [OF fd_context_ok [OF assms(1) C(2)] C(3)]
    by (simp add: cancel_event_def Let_def)
  with x show ?thesis by simp
qed

text \<open>A report of one registered event.\<close>

lemma handle_ready_one:
  assumes "io_inv m" "0 \<le> fd" "(nat fd, e) \<in> registered_events m" "\<And>op w. ctl op fd w"
  shows "\<exists>m'. handle_ready ctl fd (ev_code e) m = Inr (event_task (event_at e (im_fd_contexts m ! nat fd)), m') \<and>
    io_inv m' \<and> registered_events m' = registered_events m - {(nat fd, e)}"
proof -
  let ?c = "im_fd_contexts m ! nat fd"
  note C = registered_context [OF assms(3,2)]
  have ok: "fd_ok ?c" by (rule fd_context_ok [OF assms(1) C(2)])
  have r: "real_events (fc_events ?c) (ev_code e) = ev_code e"
    using C(4) by (cases e) (simp_all add: real_events_plain EPOLLERR_def EPOLLHUP_def)
  have sub: "real_events (fc_events ?c) (ev_code e) AND NOT (fc_events ?c) = 0"
    unfolding r using C(3,4) events_in [OF ok] by (cases e) (auto elim!: event_sets_cases)
  have both: "both_tasks (ev_code e) ?c = event_task (event_at e ?c)"
    using C(4) by (cases e) (simp_all add: both_tasks_def)
  have one: "{(nat fd, d) | d. ev_code e AND ev_code d \<noteq> 0} = {(nat fd, e)}"
  proof -
    have "ev_code e AND ev_code d \<noteq> 0 \<longleftrightarrow> d = e" for d using C(4) by (cases e; cases d) simp_all
    then show ?thesis by auto
  qed
  from handle_ready_spec [OF assms(1,2) C(1) sub, of ctl] C(3) assms(4)
  show ?thesis unfolding r both one by auto
qed

section \<open>Waiting\<close>

lemma sint_low:
  assumes "uint (t :: u64) < 2 ^ 31"
  shows "sint (ucast t :: u32) = uint t"
proof -
  have "sint (ucast t :: u32) = signed_take_bit 31 (uint t)" by (simp add: signed_ucast_eq)
  also have "\<dots> = uint t"
  proof (rule signed_take_bit_int_eq_self)
    show "- (2 ^ 31) \<le> uint t" by (rule order_trans [OF _ uint_ge_0]) simp
  qed (rule assms)
  finally show ?thesis .
qed

text \<open>Up to half the range of an \<open>int\<close> the wait is the time to the next timer, at most
  five seconds; with no timer it is five seconds.\<close>

lemma epoll_timeout_small:
  assumes "uint t < 2 ^ 31"
  shows "epoll_timeout t = min (uint t) 5000"
proof -
  have "uint (- 1 :: u64) = 2 ^ 64 - 1" by (simp add: unsigned_minus_1_eq_mask mask_eq_exp_minus_1)
  then have "t \<noteq> - 1" using assms by auto
  moreover have "uint (word_of_int (min (uint t) 5000) :: u64) = min (uint t) 5000"
    by (simp add: uint_word_of_int take_bit_int_eq_self)
  ultimately show ?thesis
    using sint_low [OF assms] sint_low [of "word_of_int (min (uint t) 5000)"]
    by (simp add: epoll_timeout_def MAX_TIMEOUT_def)
qed

lemma epoll_timeout_none: "epoll_timeout (- 1) = 5000"
  by (simp add: epoll_timeout_def MAX_TIMEOUT_def)

text \<open>Beyond it the cast makes the timeout negative, and \<open>epoll_wait\<close> waits for ever.\<close>

lemma epoll_timeout_negative: "epoll_timeout (2 ^ 31) < 0"
  by (simp add: epoll_timeout_def MAX_TIMEOUT_def)

section \<open>Histories\<close>

text \<open>What has happened to a manager: \<open>junk\<close> is what memory holds where the code leaves \<open>events\<close>
  of a new context uninitialised, and \<open>sched\<close> whether events are added by threads that have a
  scheduler. Anything may be reported; an operation that fails ends the program.\<close>

inductive io_run :: "(nat \<Rightarrow> u32) \<Rightarrow> bool \<Rightarrow> 'cb io_manager \<Rightarrow> bool" for junk sched where
  new: "io_run junk sched (io_manager_new junk)"
| add: "io_run junk sched m \<Longrightarrow> 0 \<le> fd \<Longrightarrow> e \<noteq> NONE \<Longrightarrow>
    add_event ctl junk sched cur fd e cb m = Inr (r, m') \<Longrightarrow> io_run junk sched m'"
| del: "io_run junk sched m \<Longrightarrow> 0 \<le> fd \<Longrightarrow> del_event ctl fd e m = Inr (b, m') \<Longrightarrow> io_run junk sched m'"
| cancel: "io_run junk sched m \<Longrightarrow> 0 \<le> fd \<Longrightarrow> cancel_event ctl fd e m = Inr (b, ts, m') \<Longrightarrow>
    io_run junk sched m'"
| cancel_all: "io_run junk sched m \<Longrightarrow> 0 \<le> fd \<Longrightarrow> cancel_all ctl fd m = Inr (b, ts, m') \<Longrightarrow>
    io_run junk sched m'"
| ready: "io_run junk sched m \<Longrightarrow> 0 \<le> fd \<Longrightarrow> handle_ready ctl fd evs m = Inr (ts, m') \<Longrightarrow>
    io_run junk sched m'"

lemma add_event_unregistered:
  assumes "io_inv m" "add_event ctl junk b cur fd e cb m = Inr (r, m')" "0 \<le> fd"
  shows "(nat fd, e) \<notin> registered_events m"
proof
  assume "(nat fd, e) \<in> registered_events m"
  note C = registered_context [OF this assms(3)]
  from C(3) have "fc_events (im_fd_contexts m ! nat fd) AND ev_code e \<noteq> 0" .
  with assms(2) C(2) show False by (simp add: add_event_def grow_contexts_def ensureR_Inr_iff)
qed

text \<open>A report that does not fail is about registered events, or changes nothing.\<close>

lemma handle_ready_inv:
  assumes "io_inv m" "0 \<le> fd" "handle_ready ctl fd evs m = Inr (ts, m')"
  shows "io_inv m'"
proof -
  obtain c where c: "fd_context_at fd m = Inr (Some c)"
    using assms(3) by (auto simp: handle_ready_def bindR_Inr_iff split: option.splits)
  then have i: "nat fd < length (im_fd_contexts m)" "c = im_fd_contexts m ! nat fd"
    by (auto simp: fd_context_at_def split: if_splits)
  have ok: "fd_ok c" by (rule fd_context_ok [OF assms(1) c])
  let ?real = "real_events (fc_events c) evs"
  let ?left = "fc_events c AND NOT ?real"
  have S: "fc_events c \<in> event_sets" "?real \<in> event_sets"
    using events_in [OF ok] real_events_sets by blast+
  show ?thesis
  proof (cases "?real AND NOT (fc_events c) = 0")
    case True
    from handle_ready_spec [OF assms(1,2) i(1) True [unfolded i(2)], of ctl] assms(3) show ?thesis by auto
  next
    case False
    have stale: "trigger_if ?real READ c n = Inl Assert_failed \<or>
        (\<exists>ts c' n'. trigger_if ?real READ c n = Inr (ts, c', n') \<and> trigger_if ?real WRITE c' n' = Inl Assert_failed)" for n
    proof (cases "?real AND 1 \<noteq> 0 \<and> fc_events c AND 1 = 0")
      case True
      then have "trigger_if ?real READ c n = Inl Assert_failed" by (simp add: trigger_if_def trigger_event_def)
      then show ?thesis ..
    next
      case f: False
      with False S have w: "?real AND 4 \<noteq> 0" "fc_events c AND 4 = 0" by (auto elim!: event_sets_cases)
      have "trigger_if ?real READ c n = Inr (if ?real AND ev_code READ \<noteq> 0 then event_task (event_at READ c) else [],
          drop_if ?real READ c, if ?real AND ev_code READ \<noteq> 0 then ssub n 1 else n)"
        by (rule trigger_if_ok [OF ok]) (use f in simp)
      moreover have "fc_events (drop_if ?real READ c) AND 4 = 0"
        using S(1) w(2) by (auto simp: drop_if_def elim!: event_sets_cases)
      then have "trigger_if ?real WRITE (drop_if ?real READ c) n' = Inl Assert_failed" for n'
        using w(1) by (simp add: trigger_if_def trigger_event_def)
      ultimately show ?thesis by blast
    qed
    have "m' = m"
    proof (rule ccontr)
      assume ne: "m' \<noteq> m"
      let ?F = "\<lambda>op. bindR (trigger_if ?real READ c (im_pending_event_count m)) (\<lambda>(ts, c, n).
        bindR (trigger_if ?real WRITE c n) (\<lambda>(ts', c, n).
          Inr (ts @ ts', put_context fd c ((log_ctl op fd (?left OR EPOLLET) m)\<lparr>im_pending_event_count := n\<rparr>))))"
      from assms(3) ne c have "\<exists>op. ?F op = Inr (ts, m')"
        by (auto simp: handle_ready_def Let_def split: if_splits)
      with stale [of "im_pending_event_count m"] show False by auto
    qed
    with assms(1) show ?thesis by simp
  qed
qed

lemma io_new_inv:
  "io_inv (io_manager_new (\<lambda>_. 0) :: 'cb io_manager)"
  "registered_events (io_manager_new (\<lambda>_. 0) :: 'cb io_manager) = {}"
proof -
  let ?m = "io_manager_new (\<lambda>_. 0) :: 'cb io_manager"
  have ctx: "im_fd_contexts ?m = map (fd_context_new (\<lambda>_. 0)) [0..<32]"
    "im_pending_event_count ?m = 0" "im_log ?m = []"
    by (simp_all add: io_manager_new_def context_resize_def del: upt_rec_numeral)
  have e: "fc_events (im_fd_contexts ?m ! i) = 0" if "i < 32" for i
    using that by (simp add: ctx fd_context_new_def del: upt_rec_numeral)
  show r: "registered_events ?m = {}"
    by (auto simp: registered_events_def e ctx simp del: upt_rec_numeral nth_map)
       (simp add: ctx fd_context_new_def del: upt_rec_numeral)
  have "list_all fd_ok (im_fd_contexts ?m)"
    by (simp add: ctx fd_ok_def fd_context_new_def list_all_iff del: upt_rec_numeral)
  moreover have "in_step (\<lambda>_. None) ?m"
    using e by (simp add: in_step_def watched_def ctx(1) del: upt_rec_numeral nth_map)
  moreover have "length (im_fd_contexts ?m) = 32" by (simp add: ctx del: upt_rec_numeral)
  ultimately show "io_inv ?m" using r ctx(2,3) by (simp add: io_inv_def replay_def)
qed

lemma io_run_inv:
  assumes "io_run junk sched m" "\<And>i. junk i = 0" "sched"
  shows "io_inv m"
proof -
  have j: "junk = (\<lambda>_. 0)" using assms(2) by blast
  from assms(1) show ?thesis
    unfolding j
  proof (induction rule: io_run.induct)
    case (add m fd e ctl cur cb r m')
    from add_event_spec [OF add.IH add.hyps(2,3) add_event_unregistered [OF add.IH add.hyps(4,2)], of ctl cur cb]
      add.hyps(4) assms(3) show ?case by auto
  next
    case (del m fd ctl e b m')
    from del_event_spec [OF del.IH del.hyps(2), of ctl e] del.hyps(3) show ?case by auto
  next
    case (cancel m fd ctl e b ts m')
    from cancel_event_spec [OF cancel.IH cancel.hyps(2), of ctl e] cancel.hyps(3) show ?case by auto
  next
    case (cancel_all m fd ctl b ts m')
    from cancel_all_spec [OF cancel_all.IH cancel_all.hyps(2), of ctl] cancel_all.hyps(3) show ?case by auto
  next
    case (ready m fd ctl evs ts m')
    from handle_ready_inv [OF ready.IH ready.hyps(2,3)] show ?case .
  qed (rule io_new_inv)
qed

text \<open>A context whose indeterminate events happen to hold a bit refuses that event.\<close>

lemma uninitialised_events:
  assumes "0 \<le> fd" "fd < 32" "junk (nat fd) AND ev_code e \<noteq> 0"
  shows "add_event ctl junk True cur fd e cb (io_manager_new junk :: 'cb io_manager) = Inl Assert_failed"
proof -
  have "nat fd < 32" using assms by linarith
  then have "fd_context_at fd (io_manager_new junk :: 'cb io_manager) = Inr (Some (fd_context_new junk (nat fd)))"
    using assms(1) by (simp add: fd_context_at_def io_manager_new_def context_resize_def del: upt_rec_numeral)
  with assms(3) show ?thesis by (simp add: add_event_def grow_contexts_def fd_context_new_def)
qed

text \<open>The idle fiber ends exactly when there is no timer, no registered event and the
  scheduler has nothing left.\<close>

lemma idle_ends:
  assumes "io_inv m" "handle_all ctl (wait (epoll_timeout (fst (get_next_timer tm now1)))) m = Inr r"
  shows "idle_round ctl wait now1 now2 na s (m, tm) = Inr None \<longleftrightarrow>
    fst (get_next_timer tm now1) = - 1 \<and> registered_events m = {} \<and> sched_stopping s"
proof -
  obtain nt tm' where n: "get_next_timer tm now1 = (nt, tm')" by (rule prod.exhaust)
  have "im_pending_event_count m = 0 \<longleftrightarrow> registered_events m = {}"
    using assms(1) by (auto simp: io_inv_def)
  moreover obtain ts m' where "handle_all ctl (wait (epoll_timeout nt)) m = Inr (ts, m')"
    using assms(2) n by (cases r) auto
  ultimately show ?thesis
    using n by (auto simp: idle_round_def io_stopping_def split: prod.split)
qed

end
