(* ===== verification/Hook_Spec.thy ===== *)
theory Hook_Spec
  imports Hook IOManager_Spec
begin

unbundle bit_operations_syntax

text \<open>
  What the hooks promise. A call on a blocking socket behaves like the blocking call: it
  waits with its event registered and its timer armed, is woken once, by the event or by
  the timer, and leaves neither behind; its caller never sees \<open>EINTR\<close> or \<open>EAGAIN\<close>. The
  status flags the user sees are the user's while the descriptor stays non-blocking.
\<close>

section \<open>Restarting\<close>

definition interrupted :: "'w sys_call \<Rightarrow> 'w \<Rightarrow> bool" where
  "interrupted f w = (case f w of (n, e, _) \<Rightarrow> n = - 1 \<and> e = EINTR)"

definition after :: "'w sys_call \<Rightarrow> 'w \<Rightarrow> 'w" where
  "after f w = snd (snd (f w))"

lemma sys_simps [simp]:
  "hk_io (snd (sys f s)) = hk_io s" "hk_timers (snd (sys f s)) = hk_timers s"
  "hk_infos (snd (sys f s)) = hk_infos s" "hk_fds (snd (sys f s)) = hk_fds s"
  "hk_enable (snd (sys f s)) = hk_enable s" "hk_kernel (snd (sys f s)) = after f (hk_kernel s)"
  "fst (sys f s) = fst (f (hk_kernel s))"
  by (simp_all add: sys_def after_def Let_def split: prod.split)

lemma sys_errno: "fst (sys f s) = - 1 \<Longrightarrow> hk_errno (snd (sys f s)) = fst (snd (f (hk_kernel s)))"
  by (simp add: sys_def split: prod.splits)

lemma restarting_step:
  "restarting f s = (if interrupted f (hk_kernel s) then restarting f (snd (sys f s)) else Some (sys f s))"
  by (subst restarting.simps) (auto simp: sys_def interrupted_def split: prod.split)

text \<open>The loop ends with the first call that is not interrupted.\<close>

lemma restarting_first:
  assumes "\<forall>j < k. interrupted f ((after f ^^ j) (hk_kernel s))" "\<not> interrupted f ((after f ^^ k) (hk_kernel s))"
  shows "\<exists>s'. restarting f s = Some (fst (f ((after f ^^ k) (hk_kernel s))), s') \<and>
    hk_kernel s' = (after f ^^ Suc k) (hk_kernel s) \<and> hk_io s' = hk_io s \<and> hk_timers s' = hk_timers s \<and>
    hk_infos s' = hk_infos s \<and> hk_fds s' = hk_fds s \<and> hk_enable s' = hk_enable s \<and>
    (fst (f ((after f ^^ k) (hk_kernel s))) = - 1 \<longrightarrow> hk_errno s' = fst (snd (f ((after f ^^ k) (hk_kernel s)))))"
  using assms
proof (induction k arbitrary: s)
  case 0
  then have "restarting f s = Some (sys f s)" by (simp add: restarting_step)
  then show ?case
    using sys_errno [of f s] by (intro exI [of _ "snd (sys f s)"]) (simp add: prod_eq_iff)
next
  case (Suc k)
  let ?s = "snd (sys f s)"
  have "interrupted f (hk_kernel s)" using Suc.prems(1) by (elim allE [of _ 0]) simp
  then have r: "restarting f s = restarting f ?s" by (simp add: restarting_step)
  have 1: "\<forall>j < k. interrupted f ((after f ^^ j) (hk_kernel ?s))"
  proof (intro allI impI)
    fix j assume "j < k"
    with Suc.prems(1) have "interrupted f ((after f ^^ Suc j) (hk_kernel s))" by blast
    then show "interrupted f ((after f ^^ j) (hk_kernel ?s))" by (simp add: funpow_swap1)
  qed
  have 2: "\<not> interrupted f ((after f ^^ k) (hk_kernel ?s))" using Suc.prems(2) by (simp add: funpow_swap1)
  show ?case using Suc.IH [OF 1 2] by (simp add: r funpow_swap1)
qed

lemma restarting_result:
  assumes "restarting f s = Some r"
  shows "fst r = - 1 \<longrightarrow> hk_errno (snd r) \<noteq> EINTR"
proof (rule restarting.raw_induct [where P = "\<lambda>f s r. fst r = - 1 \<longrightarrow> hk_errno (snd r) \<noteq> EINTR", OF _ assms])
  fix rest :: "'a sys_call \<Rightarrow> 'a hook \<Rightarrow> (int \<times> 'a hook) option"
    and f :: "'a sys_call" and s :: "'a hook" and r :: "int \<times> 'a hook"
  assume IH: "\<And>f s y. rest f s = Some y \<Longrightarrow> fst y = - 1 \<longrightarrow> hk_errno (snd y) \<noteq> EINTR"
    and r: "(let (n, s) = sys f s in if n = - 1 \<and> hk_errno s = EINTR then rest f s else Some (n, s)) = Some r"
  obtain n s1 where q: "sys f s = (n, s1)" by (rule prod.exhaust)
  show "fst r = - 1 \<longrightarrow> hk_errno (snd r) \<noteq> EINTR"
  proof (cases "n = - 1 \<and> hk_errno s1 = EINTR")
    case True
    then have "rest f s1 = Some r" using r q by simp
    then show ?thesis by (rule IH)
  next
    case False
    then have "r = (n, s1)" using r q by (simp split: if_splits)
    with False show ?thesis by auto
  qed
qed

lemma restarting_not_interrupted:
  "restarting f s = Some (n, s') \<Longrightarrow> n = - 1 \<Longrightarrow> hk_errno s' \<noteq> EINTR"
  using restarting_result [of f s "(n, s')"] by simp

section \<open>The outcome of a call\<close>

text \<open>The caller never sees \<open>EINTR\<close> or \<open>EAGAIN\<close> from a call that went through the event loop.\<close>

lemma cancel_timer_keeps:
  "cancel_timer timer s = Inr s' \<Longrightarrow> hk_errno s' = hk_errno s \<and> hk_kernel s' = hk_kernel s \<and> hk_io s' = hk_io s \<and>
     hk_infos s' = hk_infos s \<and> hk_fds s' = hk_fds s \<and> hk_enable s' = hk_enable s"
  by (auto simp: cancel_timer_def bindR_Inr_iff split: option.splits)

lemma suspend_errno:
  assumes "suspend_io E fd e to i s = Inr (Returned n, s')"
  shows "n = - 1 \<and> hk_errno s' = he_ctl_errno E"
proof -
  obtain timer s1 where t: "timeout_timer E fd e to i s = (timer, s1)" by (rule prod.exhaust)
  have b: "bindR (watch E fd e s1) (\<lambda>(ret, s).
      if ret \<noteq> 0 then bindR (cancel_timer timer s) (\<lambda>s. Inr (Returned (- 1), free_info i s))
      else Inr (Suspended timer, s)) = Inr (Returned n, s')"
    using assms unfolding suspend_io_def t by (simp only: ensureR_Inr_iff Let_def prod.case)
  then obtain p where w: "watch E fd e s1 = Inr p" by (cases "watch E fd e s1") simp_all
  obtain ret s2 where p: "p = (ret, s2)" by (rule prod.exhaust)
  from b have r: "(if ret \<noteq> 0 then bindR (cancel_timer timer s2) (\<lambda>s. Inr (Returned (- 1), free_info i s))
      else Inr (Suspended timer, s2)) = Inr (Returned n, s')" by (simp add: w p)
  have ret: "ret \<noteq> 0" using r by (auto split: if_splits)
  then have "hk_errno s2 = he_ctl_errno E"
    using w p by (cases "add_event (he_ctl E) (he_junk E) True (he_fiber E) fd e None (hk_io s1)") (auto simp: watch_def)
  moreover obtain s3 where "cancel_timer timer s2 = Inr s3" "n = - 1" "s' = free_info i s3"
    using r ret by (auto simp: bindR_Inr_iff)
  ultimately show ?thesis using cancel_timer_keeps [of timer s2 s3] by (simp add: free_info_def)
qed

lemma attempt_io_alt:
  "restarting f s = Some (n, s1) \<Longrightarrow> attempt_io E fd f e to i s =
     Some (if n = - 1 \<and> hk_errno s1 = EAGAIN then suspend_io E fd e to i s1 else Inr (Returned n, free_info i s1))"
  "restarting f s = None \<Longrightarrow> attempt_io E fd f e to i s = None"
  by (simp_all add: attempt_io_def)

lemma attempt_errno:
  assumes "attempt_io E fd f e to i s = Some (Inr (Returned n, s'))" "n = - 1"
    and "he_ctl_errno E \<noteq> EAGAIN" "he_ctl_errno E \<noteq> EINTR"
  shows "hk_errno s' \<noteq> EAGAIN \<and> hk_errno s' \<noteq> EINTR"
proof (cases "restarting f s")
  case None
  with assms(1) show ?thesis by (simp add: attempt_io_alt(2))
next
  case (Some p)
  obtain n1 s1 where p: "p = (n1, s1)" by (rule prod.exhaust)
  note A = assms(1) [unfolded attempt_io_alt(1) [OF Some [unfolded p]]]
  show ?thesis
  proof (cases "n1 = - 1 \<and> hk_errno s1 = EAGAIN")
    case True
    with A have "suspend_io E fd e to i s1 = Inr (Returned n, s')" by simp
    from suspend_errno [OF this] assms(3,4) show ?thesis by simp
  next
    case False
    with A have x: "n1 = n" "s' = free_info i s1" by (simp_all split: if_splits)
    with False restarting_not_interrupted [OF Some [unfolded p]] assms(2) show ?thesis by (simp add: free_info_def)
  qed
qed

text \<open>What \<open>do_io\<close> does with a managed blocking socket.\<close>

definition blocking_socket :: "int \<Rightarrow> fd_ctx \<Rightarrow> 'w hook \<Rightarrow> bool" where
  "blocking_socket fd c s \<longleftrightarrow> hk_enable s \<and> 0 \<le> fd \<and> fd_entry (hk_fds s) fd = Some c \<and>
     fd_is_socket c \<and> \<not> fd_user_nonblock c \<and> \<not> fd_is_closed c"

lemma do_io_blocking:
  assumes "blocking_socket fd c s"
  shows "do_io E fd f e so s = attempt_io E fd f e (get_timeout so c) (he_info E)
    (s\<lparr>hk_infos := (hk_infos s)(he_info E \<mapsto> 0)\<rparr>)"
  using assms by (simp add: do_io_def ctx_of_def blocking_socket_def)

section \<open>Waiting\<close>

text \<open>A call that has yielded: its event is registered for its fiber and its timer, if it has
  one, will cancel that event.\<close>

definition call_waits :: "nat \<Rightarrow> int \<Rightarrow> event \<Rightarrow> nat \<Rightarrow> nat option \<Rightarrow> 'w hook \<Rightarrow> bool" where
  "call_waits cur fd e i timer s \<longleftrightarrow>
     io_inv (hk_io s) \<and> timer_inv (hk_timers s) \<and> hk_infos s i = Some 0 \<and> 0 \<le> fd \<and>
     (nat fd, e) \<in> registered_events (hk_io s) \<and>
     event_at e (im_fd_contexts (hk_io s) ! nat fd) = new_event True cur None \<and>
     (\<forall>a. timer = Some a \<longrightarrow> a \<in> set (tm_timers (hk_timers s)) \<and>
        t_callback (tm_heap (hk_timers s) a) = Some (On_timer i (Timed_out i fd e)) \<and>
        \<not> t_recurring (tm_heap (hk_timers s) a))"

text \<open>What a suspended call has added to the state before it.\<close>

definition suspended_from :: "hook_env \<Rightarrow> int \<Rightarrow> event \<Rightarrow> u64 \<Rightarrow> 'w hook \<Rightarrow> 'w hook \<Rightarrow> bool" where
  "suspended_from E fd e to s s' \<longleftrightarrow>
     registered_events (hk_io s') = insert (nat fd, e) (registered_events (hk_io s)) \<and>
     set (tm_timers (hk_timers s')) =
       (if to \<noteq> - 1 then insert (he_timer E) else id) (set (tm_timers (hk_timers s))) \<and>
     (to \<noteq> - 1 \<longrightarrow> t_next (tm_heap (hk_timers s') (he_timer E)) = he_now E + to) \<and>
     hk_kernel s' = hk_kernel s \<and> hk_infos s' = hk_infos s \<and> hk_fds s' = hk_fds s \<and> hk_enable s' = hk_enable s"

abbreviation timer_of :: "hook_env \<Rightarrow> u64 \<Rightarrow> nat option" where
  "timer_of E to \<equiv> (if to \<noteq> - 1 then Some (he_timer E) else None)"

text \<open>An environment in which waiting is possible.\<close>

definition can_wait :: "hook_env \<Rightarrow> int \<Rightarrow> event \<Rightarrow> 'w hook \<Rightarrow> bool" where
  "can_wait E fd e s \<longleftrightarrow> he_iom E \<and> he_junk E = (\<lambda>_. 0) \<and> (\<forall>op w. he_ctl E op fd w) \<and> 0 \<le> fd \<and> e \<noteq> NONE \<and>
     he_timer E \<notin> set (tm_timers (hk_timers s)) \<and> io_inv (hk_io s) \<and> timer_inv (hk_timers s) \<and>
     (nat fd, e) \<notin> registered_events (hk_io s)"

lemma timeout_timer_spec:
  assumes "timer_inv (hk_timers s)" "he_timer E \<notin> set (tm_timers (hk_timers s))"
  shows "\<exists>tm. timeout_timer E fd e to i s = (timer_of E to, s\<lparr>hk_timers := tm\<rparr>) \<and> timer_inv tm \<and>
    set (tm_timers tm) = (if to \<noteq> - 1 then insert (he_timer E) else id) (set (tm_timers (hk_timers s))) \<and>
    (to \<noteq> - 1 \<longrightarrow> tm_heap tm (he_timer E) =
      new_timer (he_now E) to (Some (On_timer i (Timed_out i fd e))) False)"
proof (cases "to = - 1")
  case True
  with assms(1) show ?thesis by (intro exI [of _ "hk_timers s"]) (simp add: timeout_timer_def)
next
  case False
  let ?tm = "snd (add_timer (hk_timers s) (he_now E) (he_timer E) to (Some (On_timer i (Timed_out i fd e))) False)"
  have "tm_heap ?tm = (tm_heap (hk_timers s))(he_timer E :=
      new_timer (he_now E) to (Some (On_timer i (Timed_out i fd e))) False)"
    by (simp add: add_timer_def insert_timer_def Let_def)
  with False add_timer_inv [OF assms] show ?thesis
    by (intro exI [of _ ?tm]) (simp add: timeout_timer_def add_condition_timer_def)
qed

lemma watch_granted:
  assumes "can_wait E fd e s"
  obtains io where "watch E fd e s = Inr (0, s\<lparr>hk_io := io\<rparr>)" "io_inv io"
    "registered_events io = insert (nat fd, e) (registered_events (hk_io s))"
    "event_at e (im_fd_contexts io ! nat fd) = new_event True (he_fiber E) None"
proof -
  from assms have c: "io_inv (hk_io s)" "0 \<le> fd" "e \<noteq> NONE" "(nat fd, e) \<notin> registered_events (hk_io s)"
    and j: "he_junk E = (\<lambda>_. 0)" and g: "\<And>op w. he_ctl E op fd w"
    by (simp_all add: can_wait_def)
  obtain r io where a: "add_event (he_ctl E) (\<lambda>_. 0) True (he_fiber E) fd e None (hk_io s) = Inr (r, io)" "io_inv io"
    "r = -1 \<and> registered_events io = registered_events (hk_io s) \<or>
     r = 0 \<and> registered_events io = insert (nat fd, e) (registered_events (hk_io s)) \<and>
       event_at e (im_fd_contexts io ! nat fd) = new_event True (he_fiber E) None"
    using add_event_spec [OF c, of "he_ctl E" "he_fiber E" None] by blast
  have "r = 0" by (rule add_event_granted [OF a(1) g])
  with a j that [of io] show ?thesis by (simp add: watch_def)
qed

lemma suspend_io_waits:
  assumes "can_wait E fd e s" "hk_infos s i = Some 0"
  shows "\<exists>s'. suspend_io E fd e to i s = Inr (Suspended (timer_of E to), s') \<and>
    call_waits (he_fiber E) fd e i (timer_of E to) s' \<and> suspended_from E fd e to s s'"
proof -
  from assms(1) have c: "he_iom E" "timer_inv (hk_timers s)" "he_timer E \<notin> set (tm_timers (hk_timers s))" "0 \<le> fd"
    by (simp_all add: can_wait_def)
  from timeout_timer_spec [OF c(2,3), of fd e to i] obtain tm where
    t: "timeout_timer E fd e to i s = (timer_of E to, s\<lparr>hk_timers := tm\<rparr>)" "timer_inv tm"
    and ts: "set (tm_timers tm) = (if to \<noteq> - 1 then insert (he_timer E) else id) (set (tm_timers (hk_timers s)))"
    and h: "to \<noteq> - 1 \<longrightarrow> tm_heap tm (he_timer E) =
      new_timer (he_now E) to (Some (On_timer i (Timed_out i fd e))) False" by blast
  let ?s1 = "s\<lparr>hk_timers := tm\<rparr>"
  obtain io where w: "watch E fd e s = Inr (0, s\<lparr>hk_io := io\<rparr>)" and io: "io_inv io"
    "registered_events io = insert (nat fd, e) (registered_events (hk_io s))"
    "event_at e (im_fd_contexts io ! nat fd) = new_event True (he_fiber E) None"
    by (rule watch_granted [OF assms(1)])
  have w1: "watch E fd e ?s1 = Inr (0, ?s1\<lparr>hk_io := io\<rparr>)"
    using w by (auto simp: watch_def bindR_Inr_iff dest: arg_cong [of _ _ hk_io])
  have "suspend_io E fd e to i s = Inr (Suspended (timer_of E to), ?s1\<lparr>hk_io := io\<rparr>)"
    unfolding suspend_io_def t(1) using c(1) by (simp add: w1)
  moreover have "call_waits (he_fiber E) fd e i (timer_of E to) (?s1\<lparr>hk_io := io\<rparr>)"
    using t(2) io c(4) assms(2) ts h by (simp add: call_waits_def new_timer_def cong: event.case_cong)
  moreover have "suspended_from E fd e to s (?s1\<lparr>hk_io := io\<rparr>)"
    using io ts h by (simp add: suspended_from_def new_timer_def)
  ultimately show ?thesis by blast
qed

section \<open>Waking\<close>

lemma new_event_task: "event_task (new_event True cur None) = [fiber_task cur (- 1)]"
  by (simp add: event_task_def new_event_def)

text \<open>The event wakes the fiber once, and so does the timer, which also marks the call.\<close>

lemma event_wakes:
  assumes "call_waits cur fd e i timer s" "\<And>op w. ctl op fd w"
  shows "\<exists>io. handle_ready ctl fd (ev_code e) (hk_io s) = Inr ([fiber_task cur (- 1)], io) \<and> io_inv io \<and>
    registered_events io = registered_events (hk_io s) - {(nat fd, e)}"
  using handle_ready_one [of "hk_io s" fd e ctl] assms by (simp add: call_waits_def new_event_task)

lemma timeout_wakes:
  assumes "call_waits cur fd e i timer s" "\<And>op w. ctl op fd w"
  shows "\<exists>io. run_timed_out ctl i fd e s = Inr ([fiber_task cur (- 1)],
      s\<lparr>hk_infos := (hk_infos s)(i \<mapsto> ETIMEDOUT), hk_io := io\<rparr>) \<and> io_inv io \<and>
    registered_events io = registered_events (hk_io s) - {(nat fd, e)}"
proof -
  from assms have w: "io_inv (hk_io s)" "0 \<le> fd" "(nat fd, e) \<in> registered_events (hk_io s)" "hk_infos s i = Some 0"
    "event_at e (im_fd_contexts (hk_io s) ! nat fd) = new_event True cur None"
    by (simp_all add: call_waits_def)
  from cancel_event_granted [OF w(1-3), of ctl] assms(2) obtain io where
    "cancel_event ctl fd e (hk_io s) = Inr (True, [fiber_task cur (- 1)], io)" "io_inv io"
    "registered_events io = registered_events (hk_io s) - {(nat fd, e)}"
    unfolding w(5) new_event_task by blast
  with w(4) show ?thesis by (intro exI [of _ io]) (simp add: run_timed_out_def)
qed

text \<open>A timer that fires after its call has returned, or a second time, does nothing.\<close>

lemma timeout_stale:
  "hk_infos s i \<noteq> Some 0 \<Longrightarrow> run_timed_out ctl i fd e s = Inr ([], s)"
  by (auto simp: run_timed_out_def split: option.split)

text \<open>Continuing after the event: the timer goes, and the call is made again.\<close>

lemma cancel_timer_spec:
  assumes "timer_inv (hk_timers s)"
  shows "\<exists>tm. cancel_timer timer s = Inr (s\<lparr>hk_timers := tm\<rparr>) \<and> timer_inv tm \<and>
    (\<forall>a. timer = Some a \<longrightarrow> t_callback (tm_heap (hk_timers s) a) \<noteq> None \<longrightarrow>
      set (tm_timers tm) = set (tm_timers (hk_timers s)) - {a}) \<and>
    (timer = None \<longrightarrow> tm = hk_timers s)"
proof (cases timer)
  case None
  with assms show ?thesis by (intro exI [of _ "hk_timers s"]) (simp add: cancel_timer_def)
next
  case (Some a)
  note S = cancel_spec [OF assms, of a]
  obtain b tm where c: "Timer.cancel (hk_timers s) a = Inr (b, tm)"
    unfolding S by (cases "t_callback (tm_heap (hk_timers s) a) = None") auto
  have "set (tm_timers tm) = set (tm_timers (hk_timers s)) - {a}" if "t_callback (tm_heap (hk_timers s) a) \<noteq> None"
    using c that unfolding S by auto
  with Some c cancel_inv(1) [OF assms c] show ?thesis
    by (intro exI [of _ tm]) (simp add: cancel_timer_def)
qed

lemma resume_after_event:
  assumes "call_waits cur fd e i timer s"
  shows "\<exists>tm. resume_io E fd f e to i timer (s\<lparr>hk_io := io\<rparr>) =
      attempt_io E fd f e to i (s\<lparr>hk_io := io, hk_timers := tm\<rparr>) \<and> timer_inv tm \<and>
    set (tm_timers tm) = set (tm_timers (hk_timers s)) - set_option timer"
proof -
  from assms have w: "timer_inv (hk_timers (s\<lparr>hk_io := io\<rparr>))" "hk_infos s i = Some 0"
    "\<And>a. timer = Some a \<Longrightarrow> t_callback (tm_heap (hk_timers s) a) \<noteq> None"
    by (simp_all add: call_waits_def)
  from cancel_timer_spec [OF w(1), of timer] obtain tm where
    tm: "cancel_timer timer (s\<lparr>hk_io := io\<rparr>) = Inr (s\<lparr>hk_io := io, hk_timers := tm\<rparr>)" "timer_inv tm"
    "\<And>a. timer = Some a \<Longrightarrow> t_callback (tm_heap (hk_timers s) a) \<noteq> None \<Longrightarrow>
      set (tm_timers tm) = set (tm_timers (hk_timers s)) - {a}"
    "timer = None \<Longrightarrow> tm = hk_timers s"
    by auto
  have "set (tm_timers tm) = set (tm_timers (hk_timers s)) - set_option timer"
    using tm(3,4) w(3) by (cases timer) auto
  with tm(1,2) w(2) show ?thesis by (intro exI [of _ tm]) (simp add: resume_io_def)
qed

lemma resume_after_timeout:
  assumes "timer_inv (hk_timers s)" "hk_infos s i = Some ETIMEDOUT"
  shows "\<exists>s'. resume_io E fd f e to i timer s = Some (Inr (Returned (- 1), s')) \<and> hk_errno s' = ETIMEDOUT \<and>
    hk_kernel s' = hk_kernel s \<and> hk_io s' = hk_io s \<and> hk_infos s' = (hk_infos s)(i := None)"
proof -
  from cancel_timer_spec [OF assms(1), of timer] obtain tm where
    "cancel_timer timer s = Inr (s\<lparr>hk_timers := tm\<rparr>)" by blast
  with assms(2) show ?thesis by (simp add: resume_io_def ETIMEDOUT_def free_info_def)
qed

section \<open>A blocking call from end to end\<close>

text \<open>What a call waits for comes true: the first attempt finds nothing, the second is what
  the caller gets.\<close>

definition final :: "'w sys_call \<Rightarrow> 'w \<Rightarrow> bool" where
  "final f w \<longleftrightarrow> fst (f w) \<noteq> - 1 \<or> fst (snd (f w)) \<noteq> EINTR \<and> fst (snd (f w)) \<noteq> EAGAIN"

definition would_block :: "'w sys_call \<Rightarrow> 'w \<Rightarrow> bool" where
  "would_block f w \<longleftrightarrow> fst (f w) = - 1 \<and> fst (snd (f w)) = EAGAIN"

lemma restarting_once:
  assumes "\<not> interrupted f (hk_kernel s)"
  shows "restarting f s = Some (sys f s)"
  using assms by (simp add: restarting_step)

lemma attempt_final:
  assumes "final f (hk_kernel s)"
  shows "attempt_io E fd f e to i s =
    Some (Inr (Returned (fst (f (hk_kernel s))), free_info i (snd (sys f s))))"
proof -
  have "\<not> interrupted f (hk_kernel s)" using assms by (auto simp: final_def interrupted_def split: prod.split)
  then have r: "restarting f s = Some (fst (f (hk_kernel s)), snd (sys f s))"
    by (simp add: restarting_once prod_eq_iff)
  have "\<not> (fst (f (hk_kernel s)) = - 1 \<and> hk_errno (snd (sys f s)) = EAGAIN)"
    using assms sys_errno [of f s] by (auto simp: final_def)
  then show ?thesis unfolding attempt_io_alt(1) [OF r] by (subst if_not_P) simp_all
qed

lemma attempt_blocks:
  assumes "would_block f (hk_kernel s)"
  shows "attempt_io E fd f e to i s = Some (suspend_io E fd e to i (snd (sys f s)))"
proof -
  have "\<not> interrupted f (hk_kernel s)"
    using assms by (auto simp: would_block_def interrupted_def EINTR_def EAGAIN_def split: prod.splits)
  then have r: "restarting f s = Some (fst (f (hk_kernel s)), snd (sys f s))"
    by (simp add: restarting_once prod_eq_iff)
  have "fst (f (hk_kernel s)) = - 1 \<and> hk_errno (snd (sys f s)) = EAGAIN"
    using assms sys_errno [of f s] by (auto simp: would_block_def)
  then show ?thesis by (simp add: attempt_io_alt(1) [OF r])
qed

lemma can_wait_sys: "can_wait E fd e (snd (sys f s)) = can_wait E fd e s"
  "can_wait E fd e (s\<lparr>hk_infos := g\<rparr>) = can_wait E fd e s"
  by (simp_all add: can_wait_def)

lemma do_io_suspends:
  assumes "blocking_socket fd c s" "can_wait E fd e s" "would_block f (hk_kernel s)"
  shows "\<exists>s1. do_io E fd f e so s = Some (Inr (Suspended (timer_of E (get_timeout so c)), s1)) \<and>
    call_waits (he_fiber E) fd e (he_info E) (timer_of E (get_timeout so c)) s1 \<and>
    suspended_from E fd e (get_timeout so c)
      (snd (sys f (s\<lparr>hk_infos := (hk_infos s)(he_info E \<mapsto> 0)\<rparr>))) s1"
proof -
  let ?s = "s\<lparr>hk_infos := (hk_infos s)(he_info E \<mapsto> 0)\<rparr>"
  have "can_wait E fd e (snd (sys f ?s))" using assms(2) by (simp add: can_wait_sys)
  moreover have "hk_infos (snd (sys f ?s)) (he_info E) = Some 0" by simp
  moreover have "attempt_io E fd f e (get_timeout so c) (he_info E) ?s =
      Some (suspend_io E fd e (get_timeout so c) (he_info E) (snd (sys f ?s)))"
    by (rule attempt_blocks) (use assms(3) in simp)
  ultimately show ?thesis
    unfolding do_io_blocking [OF assms(1)] using suspend_io_waits by fastforce
qed

text \<open>The original call, made again while it is interrupted and after every wait: it settles with
  \<open>n\<close> and \<open>errno\<close> after \<open>k\<close> waits.\<close>

inductive settles :: "'w sys_call \<Rightarrow> 'w \<Rightarrow> nat \<Rightarrow> int \<Rightarrow> int \<Rightarrow> 'w \<Rightarrow> bool" for f where
  final: "final f w \<Longrightarrow> settles f w 0 (fst (f w)) (fst (snd (f w))) (after f w)"
| interrupted: "interrupted f w \<Longrightarrow> settles f (after f w) k n er w' \<Longrightarrow> settles f w k n er w'"
| blocks: "would_block f w \<Longrightarrow> settles f (after f w) k n er w' \<Longrightarrow> settles f w (Suc k) n er w'"

text \<open>
  The life of a call: while it is suspended the idle fiber reports its event, and it is
  continued, in the environments \<open>Es\<close>, one for each wait. The result holds the tasks that the
  reports put into the queue.
\<close>

fun awaited ::
  "(ctl_op \<Rightarrow> int \<Rightarrow> u32 \<Rightarrow> bool) \<Rightarrow> hook_env list \<Rightarrow> int \<Rightarrow> 'w sys_call \<Rightarrow> event \<Rightarrow> u64 \<Rightarrow> nat \<Rightarrow>
   (outcome \<times> 'w hook) res option \<Rightarrow> (hook_cb tasks \<times> outcome \<times> 'w hook) res option" where
  "awaited ctl Es fd f e to i None = None"
| "awaited ctl Es fd f e to i (Some (Inl err)) = Some (Inl err)"
| "awaited ctl Es fd f e to i (Some (Inr (Returned n, s))) = Some (Inr ([], Returned n, s))"
| "awaited ctl [] fd f e to i (Some (Inr (Suspended timer, s))) = Some (Inr ([], Suspended timer, s))"
| "awaited ctl (E # Es) fd f e to i (Some (Inr (Suspended timer, s))) =
     (case handle_ready ctl fd (ev_code e) (hk_io s) of
        Inl err \<Rightarrow> Some (Inl err)
      | Inr (ts, io) \<Rightarrow>
          map_option (map_sum id (apfst ((@) ts)))
            (awaited ctl Es fd f e to i (resume_io E fd f e to i timer (s\<lparr>hk_io := io\<rparr>))))"

lemma attempt_interrupted:
  "interrupted f (hk_kernel s) \<Longrightarrow> attempt_io E fd f e to i s = attempt_io E fd f e to i (snd (sys f s))"
  by (simp add: attempt_io_def restarting_step [of f s])

text \<open>What the call leaves of the state \<open>s\<close> it started from.\<close>

definition undisturbed :: "'w hook \<Rightarrow> 'w hook \<Rightarrow> bool" where
  "undisturbed s s' \<longleftrightarrow>
     registered_events (hk_io s') = registered_events (hk_io s) \<and>
     set (tm_timers (hk_timers s')) = set (tm_timers (hk_timers s))"

lemma can_wait_undisturbed:
  "undisturbed s s' \<Longrightarrow> io_inv (hk_io s') \<Longrightarrow> timer_inv (hk_timers s') \<Longrightarrow> can_wait E fd e s \<Longrightarrow> can_wait E fd e s'"
  by (simp add: can_wait_def undisturbed_def)

lemma undisturbed_sys [simp]: "undisturbed s (snd (sys f s)) = True" "undisturbed (snd (sys f s)) s' = undisturbed s s'"
  by (simp_all add: undisturbed_def)

text \<open>One wait: the report schedules the fiber, and the call is attempted again in a state that
  differs from the one before only in the kernel.\<close>

lemma attempt_waits:
  assumes "would_block f (hk_kernel s)" "can_wait E fd e s" "hk_infos s i = Some 0" "\<And>op w. ctl op fd w"
  shows "\<exists>timer s1 io s2. attempt_io E fd f e to i s = Some (Inr (Suspended timer, s1)) \<and>
    handle_ready ctl fd (ev_code e) (hk_io s1) = Inr ([fiber_task (he_fiber E) (- 1)], io) \<and>
    resume_io E' fd f e to i timer (s1\<lparr>hk_io := io\<rparr>) = attempt_io E' fd f e to i s2 \<and>
    undisturbed s s2 \<and> io_inv (hk_io s2) \<and> timer_inv (hk_timers s2) \<and>
    hk_infos s2 = hk_infos s \<and> hk_kernel s2 = after f (hk_kernel s)"
proof -
  let ?s = "snd (sys f s)" and ?t = "timer_of E to"
  have c: "can_wait E fd e ?s" "hk_infos ?s i = Some 0" using assms(2,3) by (simp_all add: can_wait_sys)
  from suspend_io_waits [OF c, of to] obtain s1 where
    p: "suspend_io E fd e to i ?s = Inr (Suspended ?t, s1)"
    and w: "call_waits (he_fiber E) fd e i ?t s1" and sf: "suspended_from E fd e to ?s s1" by blast
  from event_wakes [OF w, of ctl] assms(4) obtain io where h:
    "handle_ready ctl fd (ev_code e) (hk_io s1) = Inr ([fiber_task (he_fiber E) (- 1)], io)" "io_inv io"
    "registered_events io = registered_events (hk_io s1) - {(nat fd, e)}" by blast
  from resume_after_event [OF w, of E' f to io] obtain tm where r:
    "resume_io E' fd f e to i ?t (s1\<lparr>hk_io := io\<rparr>) = attempt_io E' fd f e to i (s1\<lparr>hk_io := io, hk_timers := tm\<rparr>)"
    "timer_inv tm" "set (tm_timers tm) = set (tm_timers (hk_timers s1)) - set_option ?t" by blast
  have "undisturbed s (s1\<lparr>hk_io := io, hk_timers := tm\<rparr>)"
    using h(3) r(3) sf assms(2) by (auto simp: undisturbed_def suspended_from_def can_wait_def)
  then show ?thesis
    using attempt_blocks [OF assms(1), of E fd e to i] p h r(1,2) sf
    by (intro exI [of _ ?t] exI [of _ s1] exI [of _ io] exI [of _ "s1\<lparr>hk_io := io, hk_timers := tm\<rparr>"])
       (simp add: suspended_from_def)
qed

lemma settles_awaited:
  assumes "settles f w k n er w'" "hk_kernel s = w" "can_wait E fd e s" "hk_infos s i = Some 0"
    and "\<And>op w. ctl op fd w" "length Es = k"
    and "\<forall>E' \<in> set Es. can_wait E' fd e s \<and> he_fiber E' = he_fiber E"
  shows "\<exists>s2. awaited ctl Es fd f e to i (attempt_io E fd f e to i s) =
      Some (Inr (replicate k (fiber_task (he_fiber E) (- 1)), Returned n, s2)) \<and>
    (n = - 1 \<longrightarrow> hk_errno s2 = er) \<and> hk_kernel s2 = w' \<and> undisturbed s s2 \<and> hk_infos s2 = (hk_infos s)(i := None)"
  using assms(1-4,6,7)
proof (induction arbitrary: s E Es rule: settles.induct)
  case (final w)
  have F: "final f (hk_kernel s)" using final.hyps final.prems(1) by simp
  let ?s = "free_info i (snd (sys f s))"
  have "fst (f w) = - 1 \<longrightarrow> hk_errno ?s = fst (snd (f w))"
    using sys_errno [of f s] final.prems(1) by (simp add: free_info_def)
  then show ?case
    using attempt_final [OF F, of E fd e to i] final.prems(1,4)
    by (simp add: free_info_def undisturbed_def fun_upd_def)
next
  case (interrupted w k n er w')
  have I: "interrupted f (hk_kernel s)" using interrupted.hyps interrupted.prems(1) by simp
  from interrupted.IH [of "snd (sys f s)" E Es] interrupted.prems show ?case
    unfolding attempt_interrupted [OF I] by (simp add: can_wait_sys)
next
  case (blocks w k n er w')
  have W: "would_block f (hk_kernel s)" using blocks.hyps blocks.prems(1) by simp
  obtain E' Es' where Es: "Es = E' # Es'" "length Es' = k" using blocks.prems(4) by (cases Es) auto
  from attempt_waits [OF W blocks.prems(2,3), of ctl to E'] assms(5) obtain timer s1 io s2 where
    d: "attempt_io E fd f e to i s = Some (Inr (Suspended timer, s1))"
    "handle_ready ctl fd (ev_code e) (hk_io s1) = Inr ([fiber_task (he_fiber E) (- 1)], io)"
    "resume_io E' fd f e to i timer (s1\<lparr>hk_io := io\<rparr>) = attempt_io E' fd f e to i s2"
    and u: "undisturbed s s2" "io_inv (hk_io s2)" "timer_inv (hk_timers s2)" "hk_infos s2 = hk_infos s"
    "hk_kernel s2 = after f (hk_kernel s)" by blast
  note C = can_wait_undisturbed [OF u(1-3)]
  have "\<exists>s3. awaited ctl Es' fd f e to i (attempt_io E' fd f e to i s2) =
      Some (Inr (replicate k (fiber_task (he_fiber E') (- 1)), Returned n, s3)) \<and>
    (n = - 1 \<longrightarrow> hk_errno s3 = er) \<and> hk_kernel s3 = w' \<and> undisturbed s2 s3 \<and> hk_infos s3 = (hk_infos s2)(i := None)"
    by (rule blocks.IH) (use u blocks.prems Es C in \<open>auto\<close>)
  then obtain s3 where s3: "awaited ctl Es' fd f e to i (attempt_io E' fd f e to i s2) =
      Some (Inr (replicate k (fiber_task (he_fiber E') (- 1)), Returned n, s3))"
    "n = - 1 \<longrightarrow> hk_errno s3 = er" "hk_kernel s3 = w'" "undisturbed s2 s3" "hk_infos s3 = (hk_infos s2)(i := None)"
    by blast
  have "he_fiber E' = he_fiber E" using blocks.prems(5) Es(1) by simp
  moreover have "undisturbed s s3" using s3(4) u(1) by (simp add: undisturbed_def)
  ultimately show ?case
    using d s3 u(4) by (intro exI [of _ s3]) (simp add: Es(1))
qed

lemma blocking_call_event:
  assumes "blocking_socket fd c s" "can_wait E fd e s" "settles f (hk_kernel s) k n er w"
    and "hk_infos s (he_info E) = None" "\<And>op w. ctl op fd w" "length Es = k"
    and "\<forall>E' \<in> set Es. can_wait E' fd e s \<and> he_fiber E' = he_fiber E"
  shows "\<exists>s2. awaited ctl Es fd f e (get_timeout so c) (he_info E) (do_io E fd f e so s) =
      Some (Inr (replicate k (fiber_task (he_fiber E) (- 1)), Returned n, s2)) \<and>
    (n = - 1 \<longrightarrow> hk_errno s2 = er) \<and> hk_kernel s2 = w \<and>
    registered_events (hk_io s2) = registered_events (hk_io s) \<and>
    set (tm_timers (hk_timers s2)) = set (tm_timers (hk_timers s)) \<and> hk_infos s2 = hk_infos s"
proof -
  let ?s = "s\<lparr>hk_infos := (hk_infos s)(he_info E \<mapsto> 0)\<rparr>"
  have c: "can_wait E fd e ?s" "\<forall>E' \<in> set Es. can_wait E' fd e ?s \<and> he_fiber E' = he_fiber E"
    using assms(2,7) by (simp_all add: can_wait_sys)
  from settles_awaited [where s = ?s and ctl = ctl and i = "he_info E" and to = "get_timeout so c",
      OF assms(3) _ c(1) _ _ assms(6) c(2)] assms(5)
  show ?thesis
    unfolding do_io_blocking [OF assms(1)]
    using assms(4) by (auto simp: undisturbed_def fun_upd_idem)
qed

lemma blocking_call_timeout:
  assumes "blocking_socket fd c s" "can_wait E fd e s" "would_block f (hk_kernel s)"
    and "get_timeout so c \<noteq> - 1" "hk_infos s (he_info E) = None" "\<And>op w. ctl op fd w"
    and "he_now E + get_timeout so c \<le> now" "na \<notin> insert (he_timer E) (set (tm_timers (hk_timers s)))"
  shows "\<exists>a s1 cb s2 s3. do_io E fd f e so s = Some (Inr (Suspended (Some a), s1)) \<and>
    Some (On_timer (he_info E) cb) \<in> set (fst (list_expired_callback (hk_timers s1) now na)) \<and>
    run_hook_cb ctl cb (s1\<lparr>hk_timers := snd (list_expired_callback (hk_timers s1) now na)\<rparr>) =
      Inr ([fiber_task (he_fiber E) (- 1)], s2) \<and>
    resume_io E' fd f e (get_timeout so c) (he_info E) (Some a) s2 = Some (Inr (Returned (- 1), s3)) \<and>
    hk_errno s3 = ETIMEDOUT \<and> hk_kernel s3 = after f (hk_kernel s) \<and>
    registered_events (hk_io s3) = registered_events (hk_io s) \<and> hk_infos s3 = hk_infos s"
proof -
  let ?to = "get_timeout so c" and ?a = "he_timer E" and ?i = "he_info E"
  obtain s1 where d: "do_io E fd f e so s = Some (Inr (Suspended (Some ?a), s1))"
    and w: "call_waits (he_fiber E) fd e ?i (Some ?a) s1"
    and sf: "suspended_from E fd e ?to (snd (sys f (s\<lparr>hk_infos := (hk_infos s)(?i \<mapsto> 0)\<rparr>))) s1"
    using do_io_suspends [OF assms(1-3), of so] assms(4) by auto
  let ?L = "list_expired_callback (hk_timers s1) now na"
  from w have a: "?a \<in> set (tm_timers (hk_timers s1))" "timer_inv (hk_timers s1)"
    "t_callback (tm_heap (hk_timers s1) ?a) = Some (On_timer ?i (Timed_out ?i fd e))"
    by (simp_all add: call_waits_def)
  have n: "t_next (tm_heap (hk_timers s1) ?a) = he_now E + ?to"
    "na \<notin> set (tm_timers (hk_timers s1))"
    using sf assms(4,8) by (simp_all add: suspended_from_def)
  note X = list_expired_spec [OF a(2) n(2), of now]
  have "Some (On_timer ?i (Timed_out ?i fd e)) \<in> set (fst ?L)"
    unfolding X(1) using a n(1) assms(7) by (auto simp: image_iff intro!: bexI [of _ ?a])
  moreover
  let ?s1 = "s1\<lparr>hk_timers := snd ?L\<rparr>"
  have w1: "call_waits (he_fiber E) fd e ?i None ?s1" using w X(2) by (simp add: call_waits_def cong: event.case_cong)
  from timeout_wakes [OF w1, of ctl] assms(6) obtain io where t:
    "run_timed_out ctl ?i fd e ?s1 = Inr ([fiber_task (he_fiber E) (- 1)],
      ?s1\<lparr>hk_infos := (hk_infos ?s1)(?i \<mapsto> ETIMEDOUT), hk_io := io\<rparr>)"
    "registered_events io = registered_events (hk_io ?s1) - {(nat fd, e)}" by blast
  let ?s2 = "?s1\<lparr>hk_infos := (hk_infos ?s1)(?i \<mapsto> ETIMEDOUT), hk_io := io\<rparr>"
  have "timer_inv (hk_timers ?s2)" "hk_infos ?s2 ?i = Some ETIMEDOUT" using X(2) by simp_all
  from resume_after_timeout [OF this, of E' fd f e ?to "Some ?a"] obtain s3 where r:
    "resume_io E' fd f e ?to ?i (Some ?a) ?s2 = Some (Inr (Returned (- 1), s3))" "hk_errno s3 = ETIMEDOUT"
    "hk_kernel s3 = hk_kernel ?s2" "hk_io s3 = io" "hk_infos s3 = (hk_infos ?s2)(?i := None)" by auto
  have "hk_kernel s3 = after f (hk_kernel s)" using r(3) sf by (simp add: suspended_from_def)
  moreover have "registered_events (hk_io s3) = registered_events (hk_io s)"
    using r(4) t(2) sf assms(2) by (auto simp: suspended_from_def can_wait_def)
  moreover have "hk_infos s3 = hk_infos s"
    using r(5) sf assms(5) by (simp add: suspended_from_def fun_upd_idem)
  moreover have "run_hook_cb ctl (Timed_out ?i fd e) ?s1 = Inr ([fiber_task (he_fiber E) (- 1)], ?s2)"
    using t(1) by (simp add: run_hook_cb_def)
  ultimately show ?thesis using d r(1,2) by blast
qed

section \<open>Sleeping\<close>

text \<open>A sleeping fiber is woken by a timer that is due after the time asked for, modulo
  \<open>2 ^ 32\<close> milliseconds.\<close>

lemma sleep_timer:
  assumes "hk_enable s" "he_iom E" "timer_inv (hk_timers s)" "he_timer E \<notin> set (tm_timers (hk_timers s))"
  shows "\<exists>s'. hk_sleep sleep_f E seconds s = Inr (Suspended None, s') \<and> timer_inv (hk_timers s') \<and>
    set (tm_timers (hk_timers s')) = insert (he_timer E) (set (tm_timers (hk_timers s))) \<and>
    tm_heap (hk_timers s') (he_timer E) = new_timer (he_now E)
      (word_of_int (uint seconds * 1000 mod 2 ^ 32)) (Some (Plain (Wake (he_fiber E)))) False"
proof -
  let ?ms = "ucast (seconds * 1000) :: u64"
  let ?tm = "snd (add_timer (hk_timers s) (he_now E) (he_timer E) ?ms (Some (Plain (Wake (he_fiber E)))) False)"
  have "uint (seconds * 1000) = uint seconds * 1000 mod 2 ^ 32" by (simp add: uint_word_ariths)
  then have ms: "?ms = word_of_int (uint seconds * 1000 mod 2 ^ 32)" unfolding ucast_eq by (rule arg_cong)
  have "tm_heap ?tm (he_timer E) = new_timer (he_now E) ?ms (Some (Plain (Wake (he_fiber E)))) False"
    by (simp add: add_timer_def insert_timer_def Let_def)
  then show ?thesis
    unfolding hk_sleep_def sleep_ms_def
    using add_timer_inv [OF assms(3,4)] assms(1,2) ms by simp
qed

section \<open>Options\<close>

text \<open>A managed socket that is not closed.\<close>

definition managed_socket :: "int \<Rightarrow> fd_ctx \<Rightarrow> 'w hook \<Rightarrow> bool" where
  "managed_socket fd c s \<longleftrightarrow> 0 \<le> fd \<and> fd_entry (hk_fds s) fd = Some c \<and> fd_is_socket c \<and> \<not> fd_is_closed c"

lemma put_ctx_entry:
  "managed_socket fd c s \<Longrightarrow> fd_entry (hk_fds (put_ctx fd c' s)) fd = Some c'"
  by (auto simp: managed_socket_def put_ctx_def fd_entry_def split: if_splits)

lemma put_ctx_simps [simp]:
  "hk_kernel (put_ctx fd c s) = hk_kernel s" "hk_enable (put_ctx fd c s) = hk_enable s"
  by (simp_all add: put_ctx_def)

text \<open>The status flags: the user reads back the \<open>O_NONBLOCK\<close> it has set, and the descriptor
  stays non-blocking.\<close>

lemma O_NONBLOCK_nonzero [simp]: "O_NONBLOCK \<noteq> 0"
  by (simp add: O_NONBLOCK_def)

lemma nonblocking_or [simp]: "nonblocking (v OR O_NONBLOCK)"
  by (simp add: O_NONBLOCK_def word_ao_absorbs)

lemma nonblocking_clear [simp]: "(v AND NOT O_NONBLOCK) AND O_NONBLOCK = 0"
  by (simp add: and.assoc)

lemma fcntl_flags:
  assumes "managed_socket fd c s" "fd_sys_nonblock c"
    and "\<And>v w. nonblocking (word_of_int (fst (fcntl_f fd F_GETFL (after (fcntl_f fd (F_SETFL v)) w)))) = nonblocking v"
  shows "\<exists>r s1 n s2. hk_fcntl fcntl_f fd (F_SETFL arg) s = Inr (r, s1) \<and>
    hk_fcntl fcntl_f fd F_GETFL s1 = Inr (n, s2) \<and> nonblocking (word_of_int n) = nonblocking arg \<and>
    nonblocking (word_of_int (fst (fcntl_f fd F_GETFL (hk_kernel s1))))"
proof -
  let ?c = "c\<lparr>fd_user_nonblock := nonblocking arg\<rparr>"
  let ?s1 = "snd (sys (fcntl_f fd (F_SETFL (arg OR O_NONBLOCK))) (put_ctx fd ?c s))"
  let ?n = "fst (fcntl_f fd F_GETFL (hk_kernel ?s1))"
  have set: "hk_fcntl fcntl_f fd (F_SETFL arg) s = Inr (fst (sys (fcntl_f fd (F_SETFL (arg OR O_NONBLOCK))) (put_ctx fd ?c s)), ?s1)"
    using assms(1,2) by (simp add: hk_fcntl_def ctx_of_def managed_socket_def prod_eq_iff)
  have e: "fd_entry (hk_fds ?s1) fd = Some ?c" using put_ctx_entry [OF assms(1)] by simp
  have get: "hk_fcntl fcntl_f fd F_GETFL ?s1 =
      Inr (if nonblocking arg then sint (word_of_int ?n OR O_NONBLOCK) else sint (word_of_int ?n AND NOT O_NONBLOCK),
        snd (sys (fcntl_f fd F_GETFL) ?s1))"
    using assms(1) e by (simp add: hk_fcntl_def ctx_of_def managed_socket_def case_prod_beta)
  have "nonblocking (word_of_int ?n)" using assms(3) [of "arg OR O_NONBLOCK"] by simp
  with set get show ?thesis by simp
qed

text \<open>Once the last line of \<open>ioctl\<close> is reached the call never returns.\<close>

lemma ioctl_hangs:
  assumes "request \<noteq> FIONBIO \<or> (\<exists>c. managed_socket fd c s)"
  shows "hk_ioctl ioctl_f fd request arg s = None"
proof -
  have "\<not> (request \<noteq> FIONBIO \<or> (\<exists>c. managed_socket fd c s))" if "hk_ioctl ioctl_f fd request arg s = Some r" for r
  proof (rule hk_ioctl.raw_induct [where P = "\<lambda>ioctl_f fd request arg s r.
      \<not> (request \<noteq> FIONBIO \<or> (\<exists>c. managed_socket fd c s))", OF _ that])
    fix rest :: "(int \<Rightarrow> int \<Rightarrow> int \<Rightarrow> 'a sys_call) \<Rightarrow> int \<Rightarrow> int \<Rightarrow> int \<Rightarrow> 'a hook \<Rightarrow> (int \<times> 'a hook) res option"
      and ioctl_f :: "int \<Rightarrow> int \<Rightarrow> int \<Rightarrow> 'a sys_call" and fd request arg :: int and s :: "'a hook"
      and r :: "(int \<times> 'a hook) res"
    assume IH: "\<And>ioctl_f fd request arg s y. rest ioctl_f fd request arg s = Some y \<Longrightarrow>
        \<not> (request \<noteq> FIONBIO \<or> (\<exists>c. managed_socket fd c s))"
      and r: "(if request = FIONBIO then
        (case ctx_of fd s of
           Inl err \<Rightarrow> Some (Inl err)
         | Inr found \<Rightarrow>
             (case found of
                None \<Rightarrow> Some (Inr (sys (ioctl_f fd request arg) s))
              | Some c \<Rightarrow>
                  if fd_is_closed c \<or> \<not> fd_is_socket c then Some (Inr (sys (ioctl_f fd request arg) s))
                  else rest ioctl_f fd request arg (put_ctx fd (c\<lparr>fd_user_nonblock := (arg \<noteq> 0)\<rparr>) s)))
      else rest ioctl_f fd request arg s) = Some r"
    show "\<not> (request \<noteq> FIONBIO \<or> (\<exists>c. managed_socket fd c s))"
    proof
      assume a: "request \<noteq> FIONBIO \<or> (\<exists>c. managed_socket fd c s)"
      show False
      proof (cases "request = FIONBIO")
        case False
        with r have "rest ioctl_f fd request arg s = Some r" by simp
        from IH [OF this] False show False by simp
      next
        case True
        with a obtain c where c: "managed_socket fd c s" by blast
        let ?c = "c\<lparr>fd_user_nonblock := (arg \<noteq> 0)\<rparr>"
        have "rest ioctl_f fd request arg (put_ctx fd ?c s) = Some r"
          using r True c by (simp add: ctx_of_def managed_socket_def)
        moreover have "managed_socket fd ?c (put_ctx fd ?c s)"
          using c put_ctx_entry [OF c, of ?c] by (simp add: managed_socket_def)
        ultimately show False using IH by blast
      qed
    qed
  qed
  with assms show ?thesis by (cases "hk_ioctl ioctl_f fd request arg s") auto
qed

text \<open>A timeout set with \<open>setsockopt\<close> is the timeout of the calls that follow.\<close>

lemma setsockopt_timeout:
  assumes "hk_enable s" "0 \<le> fd" "fd_entry (hk_fds s) fd = Some c" "optname = SO_RCVTIMEO \<or> optname = SO_SNDTIMEO"
  shows "\<exists>s'. hk_setsockopt fd SOL_SOCKET optname (sec, usec) f s = Inr (fst (f (hk_kernel s)), s') \<and>
    fd_entry (hk_fds s') fd = Some (set_timeout optname (word_of_int (sec * 1000 + usec sdiv 1000)) c) \<and>
    hk_kernel s' = after f (hk_kernel s)"
proof -
  let ?s = "put_ctx fd (set_timeout optname (word_of_int (sec * 1000 + usec sdiv 1000)) c) s"
  have "fd_entry (hk_fds ?s) fd = Some (set_timeout optname (word_of_int (sec * 1000 + usec sdiv 1000)) c)"
    using assms(2,3) by (auto simp: put_ctx_def fd_entry_def split: if_splits)
  moreover have "hk_setsockopt fd SOL_SOCKET optname (sec, usec) f s = Inr (sys f ?s)"
    using assms by (auto simp: hk_setsockopt_def ctx_of_def)
  ultimately show ?thesis by (intro exI [of _ "snd (sys f ?s)"]) (simp add: prod_eq_iff)
qed

section \<open>Closing and connecting\<close>

text \<open>Closing a managed descriptor takes its events and its context with it; fibers that wait
  for it are woken.\<close>

lemma close_forgets:
  assumes "hk_enable s" "he_iom E" "0 \<le> fd" "fd_entry (hk_fds s) fd = Some c" "table_ok (hk_fds s)" "io_inv (hk_io s)"
    and "he_ctl E CTL_DEL fd 0"
  shows "\<exists>n ts s'. hk_close E fd f s = Inr (n, ts, s') \<and> n = fst (f (hk_kernel s)) \<and>
    fd_entry (hk_fds s') = (fd_entry (hk_fds s))(fd := None) \<and> table_ok (hk_fds s') \<and> io_inv (hk_io s') \<and>
    registered_events (hk_io s') = {(i, e) \<in> registered_events (hk_io s). i \<noteq> nat fd} \<and>
    (\<forall>e. (nat fd, e) \<in> registered_events (hk_io s) \<longrightarrow>
      set (event_task (event_at e (im_fd_contexts (hk_io s) ! nat fd))) \<subseteq> set ts)"
proof -
  obtain r ts io where a: "cancel_all (he_ctl E) fd (hk_io s) = Inr (r, ts, io)" "io_inv io"
    "registered_events io = (if r then {(i, e) \<in> registered_events (hk_io s). i \<noteq> nat fd} else registered_events (hk_io s))"
    "ts = (if r then both_tasks (fc_events (im_fd_contexts (hk_io s) ! nat fd)) (im_fd_contexts (hk_io s) ! nat fd) else [])"
    using cancel_all_spec [OF assms(6,3), of "he_ctl E"] by blast
  obtain m where m: "fd_del fd (hk_fds s) = Inr m" "table_ok m" "fd_entry m = (fd_entry (hk_fds s))(fd := None)"
    using fd_del_total [OF assms(5,3)] by blast
  have none: "(nat fd, e) \<notin> registered_events (hk_io s)" if "\<not> r" for e
  proof
    assume "(nat fd, e) \<in> registered_events (hk_io s)"
    note C = registered_context [OF this assms(3)]
    from C(3) have "fc_events (im_fd_contexts (hk_io s) ! nat fd) \<noteq> 0" by auto
    with a(1) that C(2) assms(7) show False
      by (auto simp: cancel_all_def bindR_Inr_iff ensureR_Inr_iff split: if_splits)
  qed
  have tasks: "set (event_task (event_at e (im_fd_contexts (hk_io s) ! nat fd))) \<subseteq> set ts"
    if "(nat fd, e) \<in> registered_events (hk_io s)" for e
    using registered_context(3,4) [OF that assms(3)] none that a(4) by (cases e) (auto simp: both_tasks_def)
  let ?s = "snd (sys f (s\<lparr>hk_io := io, hk_fds := m\<rparr>))"
  have "hk_close E fd f s = Inr (fst (f (hk_kernel s)), ts, ?s)"
    using assms(1-4) a(1) m(1) by (simp add: hk_close_def ctx_of_def case_prod_beta)
  moreover have "registered_events (hk_io ?s) = {(i, e) \<in> registered_events (hk_io s). i \<noteq> nat fd}"
    using a(3) none by (cases r) auto
  ultimately show ?thesis using a(2) m(2,3) tasks by auto
qed

text \<open>When the event cannot be registered \<open>connect\<close> does not wait: it asks for the error of the
  connection in progress, and takes no error for success.\<close>

lemma connect_not_awaited:
  assumes "blocking_socket fd c s" "he_iom E" "fst (connect_f (hk_kernel s)) = - 1"
    "fst (snd (connect_f (hk_kernel s))) = EINPROGRESS"
    and "watch E fd WRITE (snd (timeout_timer E fd WRITE to (he_info E) (snd (sys connect_f s)\<lparr>hk_infos :=
      (hk_infos s)(he_info E \<mapsto> 0)\<rparr>))) = Inr (- 1, s1)"
    and "timer_inv (hk_timers s1)" "fst (so_error (hk_kernel s1)) = 0" "fst (snd (so_error (hk_kernel s1))) = 0"
  shows "\<exists>s'. connect_with_timeout E fd connect_f so_error to s = Inr (Returned 0, s')"
proof -
  obtain sc where sc: "sys connect_f s = (- 1, sc)" using assms(3) by (cases "sys connect_f s") (auto dest: arg_cong [of _ _ fst])
  then have e: "hk_errno sc = EINPROGRESS" "hk_infos sc = hk_infos s"
    using sys_errno [of connect_f s] assms(3,4) sys_simps(3) [of connect_f s] by simp_all
  let ?s = "sc\<lparr>hk_infos := (hk_infos s)(he_info E \<mapsto> 0)\<rparr>"
  obtain timer s0 where t: "timeout_timer E fd WRITE to (he_info E) ?s = (timer, s0)" by (rule prod.exhaust)
  obtain tm where k: "cancel_timer timer s1 = Inr (s1\<lparr>hk_timers := tm\<rparr>)"
    using cancel_timer_spec [OF assms(6), of timer] by blast
  have "connect_with_timeout E fd connect_f so_error to s =
      bindR (watch E fd WRITE s0) (\<lambda>(ret, s).
        if ret = 0 then Inr (Suspended timer, s)
        else bindR (cancel_timer timer s) (\<lambda>s.
          let (n, s) = connect_result so_error s in Inr (Returned n, free_info (he_info E) s)))"
    using assms(1,2) sc e t by (simp add: connect_with_timeout_def ctx_of_def blocking_socket_def)
  also have "\<dots> = (let (n, s) = connect_result so_error (s1\<lparr>hk_timers := tm\<rparr>) in Inr (Returned n, free_info (he_info E) s))"
    using assms(5) sc t k by simp
  finally show ?thesis using assms(7,8) by (simp add: connect_result_def case_prod_beta)
qed

end
