(* ===== verification/Socket.thy ===== *)
theory Socket
  imports Hook_Spec Address
begin

text \<open>
  Sockets (\<open>acid/net/socket.cpp\<close>) on top of the hooked system calls. The original system
  calls are the fields of a record; a call that may wait is given as the fiber sees it,
  from its start to its return. Closing a socket wakes the fibers that wait for it: their
  tasks are part of the result.
\<close>

section \<open>State\<close>

definition TCP :: int where "TCP = 1"
definition UDP :: int where "UDP = 2"
definition SO_REUSEADDR :: int where "SO_REUSEADDR = 2"
definition SO_ERROR :: int where "SO_ERROR = 4"
definition IPPROTO_TCP :: int where "IPPROTO_TCP = 6"
definition TCP_NODELAY :: int where "TCP_NODELAY = 1"

record socket =
  sk_fd :: int
  sk_family :: u16
  sk_type :: int
  sk_protocol :: int
  sk_connected :: bool
  sk_remote :: "address option"
  sk_local :: "address option"

text \<open>The value of an option: a number, or a time in seconds and microseconds.\<close>

datatype option_value = Number int | Time "int \<times> int"

text \<open>\<open>getpeername\<close> and \<open>getsockname\<close> give the bytes of an address, or nothing and \<open>errno\<close>.\<close>

record 'w os =
  os_fstat :: "int \<Rightarrow> 'w \<Rightarrow> bool option"
  os_fcntl :: "int \<Rightarrow> fcntl_cmd \<Rightarrow> 'w sys_call"
  os_socket :: "u16 \<Rightarrow> int \<Rightarrow> int \<Rightarrow> 'w sys_call"
  os_bind :: "int \<Rightarrow> address \<Rightarrow> 'w sys_call"
  os_listen :: "int \<Rightarrow> int \<Rightarrow> 'w sys_call"
  os_close :: "int \<Rightarrow> 'w sys_call"
  os_setsockopt :: "int \<Rightarrow> int \<Rightarrow> int \<Rightarrow> option_value \<Rightarrow> 'w sys_call"
  os_getsockopt :: "int \<Rightarrow> int \<Rightarrow> int \<Rightarrow> 'w \<Rightarrow> int \<times> int \<times> int \<times> 'w"
  os_getpeername :: "int \<Rightarrow> 'w \<Rightarrow> u8 list option \<times> int \<times> 'w"
  os_getsockname :: "int \<Rightarrow> 'w \<Rightarrow> u8 list option \<times> int \<times> 'w"

text \<open>A call as the fiber sees it.\<close>

type_synonym 'w fiber_call = "'w hook \<Rightarrow> (int \<times> 'w hook) res"

record 'w calls =
  call_connect :: "int \<Rightarrow> address \<Rightarrow> u64 option \<Rightarrow> 'w fiber_call"
  call_accept :: "int \<Rightarrow> 'w fiber_call"

definition socket_new :: "u16 \<Rightarrow> int \<Rightarrow> int \<Rightarrow> socket" where
  "socket_new family type protocol =
     \<lparr>sk_fd = - 1, sk_family = family, sk_type = type, sk_protocol = protocol, sk_connected = False,
      sk_remote = None, sk_local = None\<rparr>"

definition is_valid :: "socket \<Rightarrow> bool" where
  "is_valid sk \<longleftrightarrow> sk_fd sk \<noteq> - 1"

section \<open>Options\<close>

definition set_option ::
  "'w os \<Rightarrow> socket \<Rightarrow> int \<Rightarrow> int \<Rightarrow> option_value \<Rightarrow> 'w hook \<Rightarrow> (bool \<times> 'w hook) res" where
  "set_option os sk level opt val s =
     bindR (hk_setsockopt (sk_fd sk) level opt (case val of Time tv \<Rightarrow> tv | Number n \<Rightarrow> (0, 0))
         (os_setsockopt os (sk_fd sk) level opt val) s) (\<lambda>(ret, s).
       Inr (ret = 0, s))"

text \<open>The result of \<open>get_option\<close>, and the number stored.\<close>

definition get_option :: "'w os \<Rightarrow> socket \<Rightarrow> int \<Rightarrow> int \<Rightarrow> 'w hook \<Rightarrow> bool \<times> int \<times> 'w hook" where
  "get_option os sk level opt s =
     (let (ret, val, e, w) = os_getsockopt os (sk_fd sk) level opt (hk_kernel s)
      in (ret = 0, val, s\<lparr>hk_kernel := w, hk_errno := (if ret = - 1 then e else hk_errno s)\<rparr>))"

definition get_error :: "'w os \<Rightarrow> socket \<Rightarrow> 'w hook \<Rightarrow> int \<times> 'w hook" where
  "get_error os sk s =
     (let (ok, val, s) = get_option os sk SOL_SOCKET SO_ERROR s
      in (if ok then val else hk_errno s, s))"

definition timeval :: "int \<Rightarrow> int \<times> int" where
  "timeval timeout = (timeout sdiv 1000, timeout smod 1000 * 1000)"

definition set_send_timeout :: "'w os \<Rightarrow> socket \<Rightarrow> int \<Rightarrow> 'w hook \<Rightarrow> 'w hook res" where
  "set_send_timeout os sk timeout s =
     bindR (set_option os sk SOL_SOCKET SO_SNDTIMEO (Time (timeval timeout)) s) (\<lambda>(ok, s). Inr s)"

definition set_recv_timeout :: "'w os \<Rightarrow> socket \<Rightarrow> int \<Rightarrow> 'w hook \<Rightarrow> 'w hook res" where
  "set_recv_timeout os sk timeout s =
     bindR (set_option os sk SOL_SOCKET SO_RCVTIMEO (Time (timeval timeout)) s) (\<lambda>(ok, s). Inr s)"

definition get_send_timeout :: "socket \<Rightarrow> 'w hook \<Rightarrow> u64 res" where
  "get_send_timeout sk s =
     bindR (ctx_of (sk_fd sk) s) (\<lambda>found.
       Inr (case found of Some c \<Rightarrow> get_timeout SO_SNDTIMEO c | None \<Rightarrow> - 1))"

definition get_recv_timeout :: "socket \<Rightarrow> 'w hook \<Rightarrow> u64 res" where
  "get_recv_timeout sk s =
     bindR (ctx_of (sk_fd sk) s) (\<lambda>found.
       Inr (case found of Some c \<Rightarrow> get_timeout SO_RCVTIMEO c | None \<Rightarrow> - 1))"

section \<open>Addresses\<close>

text \<open>Both getters: the address that is kept, or what the system says; a family that is
  neither IPv4 nor IPv6 has no object to ask for.\<close>

definition address_object :: "u16 \<Rightarrow> u8 list \<Rightarrow> address res" where
  "address_object family raw =
     (if family = AF_INET then Inr (IPv4 (to_sockaddr_in raw))
      else if family = AF_INET6 then Inr (IPv6 (to_sockaddr_in6 raw))
      else Inl Null_deref)"

definition get_remote_address :: "'w os \<Rightarrow> socket \<Rightarrow> 'w hook \<Rightarrow> (address option \<times> socket \<times> 'w hook) res" where
  "get_remote_address os sk s =
     (case sk_remote sk of
        Some a \<Rightarrow> Inr (Some a, sk, s)
      | None \<Rightarrow>
          bindR (address_object (sk_family sk) []) (\<lambda>_.
            let (raw, e, w) = os_getpeername os (sk_fd sk) (hk_kernel s); s = s\<lparr>hk_kernel := w\<rparr>
            in case raw of
                 None \<Rightarrow> Inr (None, sk, s\<lparr>hk_errno := e\<rparr>)
               | Some raw \<Rightarrow> bindR (address_object (sk_family sk) raw) (\<lambda>a.
                   Inr (Some a, sk\<lparr>sk_remote := Some a\<rparr>, s))))"

definition get_local_address :: "'w os \<Rightarrow> socket \<Rightarrow> 'w hook \<Rightarrow> (address option \<times> socket \<times> 'w hook) res" where
  "get_local_address os sk s =
     (case sk_local sk of
        Some a \<Rightarrow> Inr (Some a, sk, s)
      | None \<Rightarrow>
          bindR (address_object (sk_family sk) []) (\<lambda>_.
            let (raw, e, w) = os_getsockname os (sk_fd sk) (hk_kernel s); s = s\<lparr>hk_kernel := w\<rparr>
            in case raw of
                 None \<Rightarrow> Inr (None, sk, s\<lparr>hk_errno := e\<rparr>)
               | Some raw \<Rightarrow> bindR (address_object (sk_family sk) raw) (\<lambda>a.
                   Inr (Some a, sk\<lparr>sk_local := Some a\<rparr>, s))))"

section \<open>Opening and closing\<close>

definition init_socket :: "'w os \<Rightarrow> socket \<Rightarrow> 'w hook \<Rightarrow> 'w hook res" where
  "init_socket os sk s =
     bindR (set_option os sk SOL_SOCKET SO_REUSEADDR (Number 1) s) (\<lambda>(ok, s).
       if sk_type sk = TCP
       then bindR (set_option os sk IPPROTO_TCP TCP_NODELAY (Number 1) s) (\<lambda>(ok, s). Inr s)
       else Inr s)"

definition new_socket :: "'w os \<Rightarrow> socket \<Rightarrow> 'w hook \<Rightarrow> (socket \<times> 'w hook) res" where
  "new_socket os sk s =
     bindR (hk_socket (os_fstat os) (os_fcntl os) (os_socket os (sk_family sk) (sk_type sk) (sk_protocol sk)) s)
       (\<lambda>(fd, s).
         let sk = sk\<lparr>sk_fd := fd\<rparr> in
         if fd \<noteq> - 1 then bindR (init_socket os sk s) (\<lambda>s. Inr (sk, s)) else Inr (sk, s))"

definition create_tcp :: "u16 \<Rightarrow> socket" where
  "create_tcp family = socket_new family TCP 0"

text \<open>The UDP sockets of the IP families are opened at once, and counted as connected.\<close>

definition create_udp :: "'w os \<Rightarrow> u16 \<Rightarrow> 'w hook \<Rightarrow> (socket \<times> 'w hook) res" where
  "create_udp os family s =
     bindR (new_socket os (socket_new family UDP 0) s) (\<lambda>(sk, s). Inr (sk\<lparr>sk_connected := True\<rparr>, s))"

text \<open>The variants of a fixed family; only those of UDP over IP make the descriptor at once.\<close>

definition create_tcp_socket :: socket where
  "create_tcp_socket = socket_new AF_INET TCP 0"

definition create_udp_socket :: "'w os \<Rightarrow> 'w hook \<Rightarrow> (socket \<times> 'w hook) res" where
  "create_udp_socket os s = create_udp os AF_INET s"

definition create_tcp_socket6 :: socket where
  "create_tcp_socket6 = socket_new AF_INET6 TCP 0"

definition create_udp_socket6 :: "'w os \<Rightarrow> 'w hook \<Rightarrow> (socket \<times> 'w hook) res" where
  "create_udp_socket6 os s = create_udp os AF_INET6 s"

definition create_unix_tcp_socket :: socket where
  "create_unix_tcp_socket = socket_new AF_UNIX TCP 0"

definition create_unix_udp_socket :: socket where
  "create_unix_udp_socket = socket_new AF_UNIX UDP 0"

definition init :: "'w os \<Rightarrow> socket \<Rightarrow> int \<Rightarrow> 'w hook \<Rightarrow> (bool \<times> socket \<times> 'w hook) res" where
  "init os sk sock s =
     bindR (ctx_of sock s) (\<lambda>found.
       case found of
         None \<Rightarrow> Inr (False, sk, s)
       | Some c \<Rightarrow>
           if fd_is_socket c \<and> \<not> fd_is_closed c then
             let sk = sk\<lparr>sk_fd := sock, sk_connected := True\<rparr> in
             bindR (init_socket os sk s) (\<lambda>s.
             bindR (get_local_address os sk s) (\<lambda>(a, sk, s).
             bindR (get_remote_address os sk s) (\<lambda>(a, sk, s). Inr (True, sk, s))))
           else Inr (False, sk, s))"

definition socket_close ::
  "'w os \<Rightarrow> hook_env \<Rightarrow> socket \<Rightarrow> 'w hook \<Rightarrow> (bool \<times> hook_cb tasks \<times> socket \<times> 'w hook) res" where
  "socket_close os E sk s =
     (if \<not> sk_connected sk \<and> sk_fd sk = - 1 then Inr (True, [], sk, s)
      else
        let sk = sk\<lparr>sk_connected := False\<rparr> in
        if sk_fd sk \<noteq> - 1 then
          bindR (hk_close E (sk_fd sk) (os_close os (sk_fd sk)) s) (\<lambda>(n, ts, s).
            Inr (False, ts, sk\<lparr>sk_fd := - 1\<rparr>, s))
        else Inr (False, [], sk, s))"

definition accept ::
  "'w os \<Rightarrow> 'w calls \<Rightarrow> socket \<Rightarrow> 'w hook \<Rightarrow> (socket option \<times> 'w hook) res" where
  "accept os K sk s =
     (let sock = socket_new (sk_family sk) (sk_type sk) (sk_protocol sk) in
      bindR (call_accept K (sk_fd sk) s) (\<lambda>(fd, s).
        if fd = - 1 then Inr (None, s)
        else bindR (init os sock fd s) (\<lambda>(ok, sock, s). Inr (if ok then Some sock else None, s))))"

section \<open>Connecting and binding\<close>

text \<open>Both open the socket first when it has no descriptor.\<close>

definition opened :: "'w os \<Rightarrow> socket \<Rightarrow> 'w hook \<Rightarrow> (socket \<times> 'w hook) res" where
  "opened os sk s = (if is_valid sk then Inr (sk, s) else new_socket os sk s)"

definition connected :: "'w os \<Rightarrow> socket \<Rightarrow> 'w hook \<Rightarrow> (bool \<times> hook_cb tasks \<times> socket \<times> 'w hook) res" where
  "connected os sk s =
     bindR (get_remote_address os (sk\<lparr>sk_connected := True\<rparr>) s) (\<lambda>(a, sk, s).
     bindR (get_local_address os sk s) (\<lambda>(a, sk, s). Inr (True, [], sk, s)))"

definition connect ::
  "'w os \<Rightarrow> 'w calls \<Rightarrow> hook_env \<Rightarrow> socket \<Rightarrow> address \<Rightarrow> u64 \<Rightarrow> 'w hook \<Rightarrow>
   (bool \<times> hook_cb tasks \<times> socket \<times> 'w hook) res" where
  "connect os K E sk addr timeout_ms s =
     bindR (opened os (sk\<lparr>sk_remote := Some addr\<rparr>) s) (\<lambda>(sk, s).
       if \<not> is_valid sk then Inr (False, [], sk, s)
       else if get_family addr \<noteq> sk_family sk then Inr (False, [], sk, s)
       else bindR (call_connect K (sk_fd sk) addr (if timeout_ms = - 1 then None else Some timeout_ms) s) (\<lambda>(n, s).
         if n \<noteq> 0 then bindR (socket_close os E sk s) (\<lambda>(b, ts, sk, s). Inr (False, ts, sk, s))
         else connected os sk s))"

definition reconnect ::
  "'w os \<Rightarrow> 'w calls \<Rightarrow> hook_env \<Rightarrow> socket \<Rightarrow> u64 \<Rightarrow> 'w hook \<Rightarrow>
   (bool \<times> hook_cb tasks \<times> socket \<times> 'w hook) res" where
  "reconnect os K E sk timeout_ms s =
     (case sk_remote sk of
        None \<Rightarrow> Inr (False, [], sk, s)
      | Some addr \<Rightarrow> connect os K E (sk\<lparr>sk_local := None\<rparr>) addr timeout_ms s)"

text \<open>Binding to a path connects to it first; when that fails, the path is to be removed, by two
  functions without a return statement. The socket used for the attempt dies.\<close>

definition bind_path ::
  "'w os \<Rightarrow> 'w calls \<Rightarrow> hook_env \<Rightarrow> address \<Rightarrow> 'w hook \<Rightarrow> (bool \<times> 'w hook) res" where
  "bind_path os K E addr s =
     (case addr of
        Unix u \<Rightarrow>
          bindR (connect os K E (create_tcp AF_UNIX) addr (- 1) s) (\<lambda>(ok, ts, sock, s).
            if ok then bindR (socket_close os E sock s) (\<lambda>(b, ts, sock, s). Inr (False, s))
            else Inl Undefined)
      | _ \<Rightarrow> Inr (True, s))"

definition bind ::
  "'w os \<Rightarrow> 'w calls \<Rightarrow> hook_env \<Rightarrow> socket \<Rightarrow> address \<Rightarrow> 'w hook \<Rightarrow> (bool \<times> socket \<times> 'w hook) res" where
  "bind os K E sk addr s =
     bindR (opened os (sk\<lparr>sk_local := Some addr\<rparr>) s) (\<lambda>(sk, s).
       if \<not> is_valid sk then Inr (False, sk, s)
       else if get_family addr \<noteq> sk_family sk then Inr (False, sk, s)
       else bindR (bind_path os K E addr s) (\<lambda>(free, s).
         if \<not> free then Inr (False, sk, s)
         else
           let (n, s) = sys (os_bind os (sk_fd sk) addr) s in
           if n \<noteq> 0 then Inr (False, sk, s)
           else bindR (get_local_address os sk s) (\<lambda>(a, sk, s). Inr (True, sk, s))))"

definition listen :: "'w os \<Rightarrow> socket \<Rightarrow> int \<Rightarrow> 'w hook \<Rightarrow> bool \<times> 'w hook" where
  "listen os sk backlog s =
     (if \<not> is_valid sk then (False, s)
      else let (n, s) = sys (os_listen os (sk_fd sk) backlog) s in (n = 0, s))"

section \<open>Transfers and cancelling\<close>

text \<open>The members that send and receive forward to one call when the socket is connected.\<close>

definition transfer :: "(int \<Rightarrow> 'w fiber_call) \<Rightarrow> socket \<Rightarrow> 'w hook \<Rightarrow> (int \<times> 'w hook) res" where
  "transfer f sk s = (if sk_connected sk then f (sk_fd sk) s else Inr (- 1, s))"

text \<open>The header of a message, as the members with buffers fill it. \<open>'b\<close> is a buffer.\<close>

record 'b msghdr =
  msg_name :: "address option"
  msg_namelen :: nat
  msg_iov :: "'b list"
  msg_iovlen :: nat

definition message :: "'b list \<Rightarrow> nat \<Rightarrow> 'b msghdr" where
  "message buffers n = \<lparr>msg_name = None, msg_namelen = 0, msg_iov = buffers, msg_iovlen = n\<rparr>"

definition message_to :: "'b list \<Rightarrow> nat \<Rightarrow> address \<Rightarrow> 'b msghdr" where
  "message_to buffers n a = (message buffers n)\<lparr>msg_name := Some a, msg_namelen := get_addr_len a\<rparr>"

definition socket_send ::
  "(int \<Rightarrow> 'b \<Rightarrow> nat \<Rightarrow> int \<Rightarrow> 'w fiber_call) \<Rightarrow> 'b \<Rightarrow> nat \<Rightarrow> int \<Rightarrow> socket \<Rightarrow> 'w hook \<Rightarrow> (int \<times> 'w hook) res" where
  "socket_send send buffer n flags = transfer (\<lambda>fd. send fd buffer n flags)"

definition socket_send_buffers ::
  "(int \<Rightarrow> 'b msghdr \<Rightarrow> int \<Rightarrow> 'w fiber_call) \<Rightarrow> 'b list \<Rightarrow> nat \<Rightarrow> int \<Rightarrow> socket \<Rightarrow> 'w hook \<Rightarrow> (int \<times> 'w hook) res" where
  "socket_send_buffers sendmsg buffers n flags = transfer (\<lambda>fd. sendmsg fd (message buffers n) flags)"

definition socket_sendto ::
  "(int \<Rightarrow> 'b \<Rightarrow> nat \<Rightarrow> int \<Rightarrow> address \<Rightarrow> nat \<Rightarrow> 'w fiber_call) \<Rightarrow> 'b \<Rightarrow> nat \<Rightarrow> address \<Rightarrow> int \<Rightarrow>
   socket \<Rightarrow> 'w hook \<Rightarrow> (int \<times> 'w hook) res" where
  "socket_sendto sendto buffer n a flags = transfer (\<lambda>fd. sendto fd buffer n flags a (get_addr_len a))"

definition socket_sendto_buffers ::
  "(int \<Rightarrow> 'b msghdr \<Rightarrow> int \<Rightarrow> 'w fiber_call) \<Rightarrow> 'b list \<Rightarrow> nat \<Rightarrow> address \<Rightarrow> int \<Rightarrow>
   socket \<Rightarrow> 'w hook \<Rightarrow> (int \<times> 'w hook) res" where
  "socket_sendto_buffers sendmsg buffers n a flags = transfer (\<lambda>fd. sendmsg fd (message_to buffers n a) flags)"

text \<open>Receiving stores into the buffer and the address, which belong to the outside.\<close>

definition socket_recv ::
  "(int \<Rightarrow> 'b \<Rightarrow> nat \<Rightarrow> int \<Rightarrow> 'w fiber_call) \<Rightarrow> 'b \<Rightarrow> nat \<Rightarrow> int \<Rightarrow> socket \<Rightarrow> 'w hook \<Rightarrow> (int \<times> 'w hook) res" where
  "socket_recv recv buffer n flags = transfer (\<lambda>fd. recv fd buffer n flags)"

definition socket_recv_buffers ::
  "(int \<Rightarrow> 'b msghdr \<Rightarrow> int \<Rightarrow> 'w fiber_call) \<Rightarrow> 'b list \<Rightarrow> nat \<Rightarrow> int \<Rightarrow> socket \<Rightarrow> 'w hook \<Rightarrow> (int \<times> 'w hook) res" where
  "socket_recv_buffers recvmsg buffers n flags = transfer (\<lambda>fd. recvmsg fd (message buffers n) flags)"

definition socket_recvfrom ::
  "(int \<Rightarrow> 'b \<Rightarrow> nat \<Rightarrow> int \<Rightarrow> address \<Rightarrow> nat \<Rightarrow> 'w fiber_call) \<Rightarrow> 'b \<Rightarrow> nat \<Rightarrow> address \<Rightarrow> int \<Rightarrow>
   socket \<Rightarrow> 'w hook \<Rightarrow> (int \<times> 'w hook) res" where
  "socket_recvfrom recvfrom buffer n a flags = transfer (\<lambda>fd. recvfrom fd buffer n flags a (get_addr_len a))"

definition socket_recvfrom_buffers ::
  "(int \<Rightarrow> 'b msghdr \<Rightarrow> int \<Rightarrow> 'w fiber_call) \<Rightarrow> 'b list \<Rightarrow> nat \<Rightarrow> address \<Rightarrow> int \<Rightarrow>
   socket \<Rightarrow> 'w hook \<Rightarrow> (int \<times> 'w hook) res" where
  "socket_recvfrom_buffers recvmsg buffers n a flags = transfer (\<lambda>fd. recvmsg fd (message_to buffers n a) flags)"

definition cancel_io ::
  "hook_env \<Rightarrow> event \<Rightarrow> socket \<Rightarrow> 'w hook \<Rightarrow> (bool \<times> hook_cb tasks \<times> 'w hook) res" where
  "cancel_io E e sk s =
     ensureR (he_iom E) Null_deref
       (bindR (cancel_event (he_ctl E) (sk_fd sk) e (hk_io s)) (\<lambda>(b, ts, io). Inr (b, ts, s\<lparr>hk_io := io\<rparr>)))"

definition socket_cancel_all ::
  "hook_env \<Rightarrow> socket \<Rightarrow> 'w hook \<Rightarrow> (bool \<times> hook_cb tasks \<times> 'w hook) res" where
  "socket_cancel_all E sk s =
     ensureR (he_iom E) Null_deref
       (bindR (cancel_all (he_ctl E) (sk_fd sk) (hk_io s)) (\<lambda>(b, ts, io). Inr (b, ts, s\<lparr>hk_io := io\<rparr>)))"

end
