(* ===== verification/Socket_Spec.thy ===== *)
theory Socket_Spec
  imports Socket
begin

text \<open>
  What a socket promises: a timeout that is set is the one that is used, a call of
  \<open>connect\<close> leaves a connected socket or a closed one, closing is idempotent; and what a
  socket of the Unix family does instead.
\<close>

section \<open>Timeouts\<close>

lemma sdiv_nonneg: "0 \<le> (a :: int) \<Longrightarrow> a sdiv 1000 = a div 1000" "0 \<le> a \<Longrightarrow> a smod 1000 = a mod 1000"
  by (auto simp: signed_divide_int_def signed_modulo_int_def sgn_if)

lemma timeval_back:
  assumes "0 \<le> ms"
  shows "fst (timeval ms) * 1000 + snd (timeval ms) sdiv 1000 = ms"
  using assms by (simp add: timeval_def sdiv_nonneg)

lemma set_timeout_managed:
  assumes "hk_enable s" "0 \<le> sk_fd sk" "fd_entry (hk_fds s) (sk_fd sk) = Some c" "0 \<le> ms"
    and "opt = SO_RCVTIMEO \<or> opt = SO_SNDTIMEO"
  shows "\<exists>ok s'. set_option os sk SOL_SOCKET opt (Time (timeval ms)) s = Inr (ok, s') \<and>
    fd_entry (hk_fds s') (sk_fd sk) = Some (set_timeout opt (word_of_int ms) c)"
proof -
  obtain sec usec where tv: "timeval ms = (sec, usec)" by (rule prod.exhaust)
  have "sec * 1000 + usec sdiv 1000 = ms" using timeval_back [OF assms(4)] tv by simp
  then obtain s' where "hk_setsockopt (sk_fd sk) SOL_SOCKET opt (sec, usec)
        (os_setsockopt os (sk_fd sk) SOL_SOCKET opt (Time (sec, usec))) s =
      Inr (fst (os_setsockopt os (sk_fd sk) SOL_SOCKET opt (Time (sec, usec)) (hk_kernel s)), s')"
    "fd_entry (hk_fds s') (sk_fd sk) = Some (set_timeout opt (word_of_int ms) c)"
    using setsockopt_timeout [OF assms(1-3,5), of sec usec "os_setsockopt os (sk_fd sk) SOL_SOCKET opt (Time (sec, usec))"] by auto
  then show ?thesis by (simp add: set_option_def tv)
qed

lemma get_timeout_managed:
  assumes "0 \<le> sk_fd sk" "fd_entry (hk_fds s) (sk_fd sk) = Some c"
  shows "get_recv_timeout sk s = Inr (get_timeout SO_RCVTIMEO c)"
    "get_send_timeout sk s = Inr (get_timeout SO_SNDTIMEO c)"
  using assms by (simp_all add: get_recv_timeout_def get_send_timeout_def ctx_of_def)

lemma recv_timeout_back:
  assumes "hk_enable s" "0 \<le> sk_fd sk" "fd_entry (hk_fds s) (sk_fd sk) = Some c" "0 \<le> ms"
  shows "\<exists>s'. set_recv_timeout os sk ms s = Inr s' \<and> get_recv_timeout sk s' = Inr (word_of_int ms) \<and>
    get_send_timeout sk s' = get_send_timeout sk s"
proof -
  obtain ok s' where s: "set_option os sk SOL_SOCKET SO_RCVTIMEO (Time (timeval ms)) s = Inr (ok, s')"
    "fd_entry (hk_fds s') (sk_fd sk) = Some (set_timeout SO_RCVTIMEO (word_of_int ms) c)"
    using set_timeout_managed [OF assms, of SO_RCVTIMEO os] by blast
  note G = get_timeout_managed [OF assms(2)]
  show ?thesis
    using s(1) G [OF s(2)] G [OF assms(3)]
    by (simp add: set_recv_timeout_def get_set_timeout) (simp add: SO_RCVTIMEO_def SO_SNDTIMEO_def)
qed

lemma send_timeout_back:
  assumes "hk_enable s" "0 \<le> sk_fd sk" "fd_entry (hk_fds s) (sk_fd sk) = Some c" "0 \<le> ms"
  shows "\<exists>s'. set_send_timeout os sk ms s = Inr s' \<and> get_send_timeout sk s' = Inr (word_of_int ms) \<and>
    get_recv_timeout sk s' = get_recv_timeout sk s"
proof -
  obtain ok s' where s: "set_option os sk SOL_SOCKET SO_SNDTIMEO (Time (timeval ms)) s = Inr (ok, s')"
    "fd_entry (hk_fds s') (sk_fd sk) = Some (set_timeout SO_SNDTIMEO (word_of_int ms) c)"
    using set_timeout_managed [OF assms, of SO_SNDTIMEO os] by blast
  note G = get_timeout_managed [OF assms(2)]
  show ?thesis
    using s(1) G [OF s(2)] G [OF assms(3)]
    by (simp add: set_send_timeout_def get_set_timeout) (simp add: SO_RCVTIMEO_def SO_SNDTIMEO_def)
qed

section \<open>The life of a socket\<close>

text \<open>A TCP socket is connected only while it has a descriptor.\<close>

definition socket_ok :: "socket \<Rightarrow> bool" where
  "socket_ok sk \<longleftrightarrow> (sk_connected sk \<longrightarrow> is_valid sk)"

lemma close_closes:
  assumes "socket_close os E sk s = Inr (b, ts, sk', s')"
  shows "sk_fd sk' = - 1 \<and> \<not> sk_connected sk' \<and> sk_remote sk' = sk_remote sk \<and> sk_family sk' = sk_family sk \<and>
    socket_close os E sk' s' = Inr (True, [], sk', s')"
proof (cases "sk_fd sk = - 1")
  case True
  with assms show ?thesis by (auto simp: socket_close_def split: if_splits)
next
  case False
  with assms show ?thesis by (auto simp: socket_close_def bindR_Inr_iff)
qed

lemma keeps_local:
  assumes "get_local_address os sk s = Inr (a, sk', s')"
  shows "sk_fd sk' = sk_fd sk \<and> sk_connected sk' = sk_connected sk \<and> sk_remote sk' = sk_remote sk"
  using assms
  by (cases "sk_local sk") (auto simp: get_local_address_def Let_def bindR_Inr_iff split: prod.splits option.splits)

lemma keeps_remote:
  assumes "get_remote_address os sk s = Inr (a, sk', s')"
  shows "sk_fd sk' = sk_fd sk \<and> sk_connected sk' = sk_connected sk \<and> sk_local sk' = sk_local sk \<and>
    sk_family sk' = sk_family sk \<and> (\<forall>r. sk_remote sk = Some r \<longrightarrow> sk_remote sk' = Some r)"
  using assms
  by (cases "sk_remote sk") (auto simp: get_remote_address_def Let_def bindR_Inr_iff split: prod.splits option.splits)

lemma new_socket_keeps:
  assumes "new_socket os sk s = Inr (sk', s')"
  shows "sk' = sk\<lparr>sk_fd := sk_fd sk'\<rparr>"
  using assms by (auto simp: new_socket_def Let_def bindR_Inr_iff split: if_splits)

lemma opened_keeps:
  assumes "opened os sk s = Inr (sk', s')"
  shows "sk' = sk\<lparr>sk_fd := sk_fd sk'\<rparr>"
proof (cases "is_valid sk")
  case True
  with assms show ?thesis by (simp add: opened_def)
next
  case False
  with assms have "new_socket os sk s = Inr (sk', s')" by (simp add: opened_def)
  then show ?thesis by (rule new_socket_keeps)
qed

lemma connected_keeps:
  assumes "connected os sk s = Inr (ok, ts, sk', s')" "sk_remote sk = Some r"
  shows "ok \<and> sk_connected sk' \<and> sk_fd sk' = sk_fd sk \<and> sk_remote sk' = Some r"
proof -
  from assms(1) obtain a sk1 s1 a' where
    g: "get_remote_address os (sk\<lparr>sk_connected := True\<rparr>) s = Inr (a, sk1, s1)"
    "get_local_address os sk1 s1 = Inr (a', sk', s')" "ok"
    by (auto simp: connected_def bindR_Inr_iff)
  from keeps_remote [OF g(1)] keeps_local [OF g(2)] g(3) assms(2) show ?thesis by simp
qed

text \<open>After \<open>connect\<close> the socket is connected to the address, or it is not connected.\<close>

lemma connect_connects:
  assumes "connect os K E sk addr timeout s = Inr (ok, ts, sk', s')" "\<not> sk_connected sk"
  shows "sk_connected sk' = ok \<and> sk_remote sk' = Some addr \<and> (ok \<longrightarrow> is_valid sk')"
proof -
  let ?t = "if timeout = - 1 then None else Some timeout"
  obtain p where o: "opened os (sk\<lparr>sk_remote := Some addr\<rparr>) s = Inr p"
    using assms(1) unfolding connect_def by (cases "opened os (sk\<lparr>sk_remote := Some addr\<rparr>) s") simp_all
  obtain sk1 s1 where p: "p = (sk1, s1)" by (rule prod.exhaust)
  have "sk1 = (sk\<lparr>sk_remote := Some addr\<rparr>)\<lparr>sk_fd := sk_fd sk1\<rparr>" by (rule opened_keeps [OF o [unfolded p]])
  then have sk1: "\<not> sk_connected sk1" "sk_remote sk1 = Some addr"
    using assms(2) by (metis socket.select_convs(5,6) socket.surjective socket.update_convs(1,6))+
  note r = assms(1) [unfolded connect_def o p bindR_simps prod.case]
  show ?thesis
  proof (cases "\<not> is_valid sk1 \<or> get_family addr \<noteq> sk_family sk1")
    case True
    with r have "sk' = sk1 \<and> \<not> ok" by (auto simp only: if_True if_False sum.inject prod.inject split: if_splits)
    with sk1 show ?thesis by simp
  next
    case False
    then have v: "is_valid sk1" by simp
    from r False have r2: "bindR (call_connect K (sk_fd sk1) addr ?t s1) (\<lambda>(n, s).
         if n \<noteq> 0 then bindR (socket_close os E sk1 s) (\<lambda>(b, ts, sk, s). Inr (False, ts, sk, s))
         else connected os sk1 s) = Inr (ok, ts, sk', s')" by (simp only: not_not de_Morgan_disj if_False simp_thms)
    then obtain q where q: "call_connect K (sk_fd sk1) addr ?t s1 = Inr q"
      by (cases "call_connect K (sk_fd sk1) addr ?t s1") (simp_all only: bindR_simps, simp)
    obtain n s2 where q2: "q = (n, s2)" by (rule prod.exhaust)
    note r3 = r2 [unfolded q q2 bindR_simps prod.case]
    show ?thesis
    proof (cases "n = 0")
      case True
      with r3 have "connected os sk1 s2 = Inr (ok, ts, sk', s')" by simp
      from connected_keeps [OF this sk1(2)] v show ?thesis by (simp add: is_valid_def)
    next
      case False
      with r3 obtain b where "socket_close os E sk1 s2 = Inr (b, ts, sk', s')" "\<not> ok"
        by (auto simp: bindR_Inr_iff)
      with close_closes [of os E sk1 s2] sk1 show ?thesis by auto
    qed
  qed
qed

text \<open>A socket of the Unix family is never connected: the address it has no object for is
  asked of a null pointer.\<close>

lemma unix_never_connects:
  assumes "sk_family sk = AF_UNIX" "sk_local sk = None" "sk_remote sk = Some addr"
  shows "connected os sk s = Inl Null_deref"
  using assms
  by (simp add: connected_def get_remote_address_def get_local_address_def address_object_def AF_UNIX_def AF_INET_def AF_INET6_def)

text \<open>Binding to a path never succeeds: the attempt to connect to it crashes when it succeeds and
  leads to a function without a return when it fails.\<close>

lemma bind_path_fails:
  assumes "bind_path os K E (Unix u) s = Inr (free, s')"
  shows "\<not> free"
  using assms by (auto simp: bind_path_def bindR_Inr_iff split: if_splits)

lemma unix_never_binds:
  assumes "bind os K E sk (Unix u) s = Inr (ok, sk', s')"
  shows "\<not> ok"
proof -
  obtain p where o: "opened os (sk\<lparr>sk_local := Some (Unix u)\<rparr>) s = Inr p"
    using assms unfolding bind_def by (cases "opened os (sk\<lparr>sk_local := Some (Unix u)\<rparr>) s") simp_all
  obtain sk1 s1 where p: "p = (sk1, s1)" by (rule prod.exhaust)
  note r = assms [unfolded bind_def o p bindR_simps prod.case]
  show ?thesis
  proof (cases "\<not> is_valid sk1 \<or> get_family (Unix u) \<noteq> sk_family sk1")
    case True
    with r show ?thesis by (auto simp only: if_True if_False sum.inject prod.inject split: if_splits)
  next
    case False
    with r have r2: "bindR (bind_path os K E (Unix u) s1) (\<lambda>(free, s).
         if \<not> free then Inr (False, sk1, s)
         else
           let (n, s) = sys (os_bind os (sk_fd sk1) (Unix u)) s in
           if n \<noteq> 0 then Inr (False, sk1, s)
           else bindR (get_local_address os sk1 s) (\<lambda>(a, sk, s). Inr (True, sk, s))) = Inr (ok, sk', s')"
      by (simp only: not_not de_Morgan_disj if_False simp_thms)
    then obtain q where q: "bind_path os K E (Unix u) s1 = Inr q"
      by (cases "bind_path os K E (Unix u) s1") (simp_all only: bindR_simps, simp)
    obtain free s2 where q2: "q = (free, s2)" by (rule prod.exhaust)
    with bind_path_fails [of os K E u s1 free s2] q r2 show ?thesis by simp
  qed
qed

end
