(* ===== verification/TcpServer.thy ===== *)
theory TcpServer
  imports Socket_Spec
begin

text \<open>
  TCP servers (\<open>acid/net/tcp_server.cpp\<close>): binding and listening, the accept loops and
  stopping. The sockets are shared between the server and its loops, so they are cells of
  a heap; a loop is a round per call of \<open>accept\<close>. Scheduling appends a task to the output.
\<close>

section \<open>State\<close>

record tcp_server =
  ts_sockets :: "nat list"
  ts_recv_timeout :: u64
  ts_name :: string
  ts_is_stop :: bool
  ts_ssl :: bool

type_synonym sockets = "nat \<Rightarrow> socket"

text \<open>What the server schedules: the accept loop of a socket, handling a client, and closing
  the sockets.\<close>

datatype tcp_task = Accept_loop nat | Handle_client nat | Close_sockets

text \<open>The default constructor leaves every member at its initialiser.\<close>

definition tcp_server_default :: tcp_server where
  "tcp_server_default =
     \<lparr>ts_sockets = [], ts_recv_timeout = 0, ts_name = '''', ts_is_stop = False, ts_ssl = False\<rparr>"

definition tcp_server_new :: "string \<Rightarrow> tcp_server" where
  "tcp_server_new server_name =
     \<lparr>ts_sockets = [], ts_recv_timeout = 1000 * 60 * 2,
      ts_name = (if server_name = '''' then ''acid/1.0'' else server_name),
      ts_is_stop = True, ts_ssl = False\<rparr>"

definition SOMAXCONN :: int where "SOMAXCONN = 4096"

section \<open>Binding\<close>

text \<open>A socket whose last owner goes is closed by its destructor.\<close>

definition drop_socket :: "'w os \<Rightarrow> hook_env \<Rightarrow> socket \<Rightarrow> 'w hook \<Rightarrow> 'w hook res" where
  "drop_socket os E sk s = bindR (socket_close os E sk s) (\<lambda>(b, ts, sk, s). Inr s)"

fun drop_sockets :: "'w os \<Rightarrow> hook_env \<Rightarrow> sockets \<Rightarrow> nat list \<Rightarrow> 'w hook \<Rightarrow> (sockets \<times> 'w hook) res" where
  "drop_sockets os E h [] s = Inr (h, s)"
| "drop_sockets os E h (a # as) s =
     bindR (socket_close os E (h a) s) (\<lambda>(b, ts, sk, s). drop_sockets os E (h(a := sk)) as s)"

text \<open>One listening socket: \<open>None\<close> when binding or listening failed and the socket is gone.\<close>

definition listen_on ::
  "'w os \<Rightarrow> 'w calls \<Rightarrow> hook_env \<Rightarrow> address \<Rightarrow> 'w hook \<Rightarrow> (socket option \<times> 'w hook) res" where
  "listen_on os K E addr s =
     bindR (bind os K E (create_tcp (get_family addr)) addr s) (\<lambda>(ok, sk, s).
       if \<not> ok then bindR (drop_socket os E sk s) (\<lambda>s. Inr (None, s))
       else
         let (ok, s) = listen os sk SOMAXCONN s in
         if \<not> ok then bindR (drop_socket os E sk s) (\<lambda>s. Inr (None, s))
         else Inr (Some sk, s))"

text \<open>The loop over the addresses; \<open>a\<close> is the next free cell.\<close>

fun bind_loop ::
  "'w os \<Rightarrow> 'w calls \<Rightarrow> hook_env \<Rightarrow> address list \<Rightarrow> nat \<Rightarrow> nat list \<Rightarrow> address list \<Rightarrow> sockets \<Rightarrow> 'w hook \<Rightarrow>
   (nat list \<times> address list \<times> sockets \<times> 'w hook) res" where
  "bind_loop os K E [] a socks fails h s = Inr (socks, fails, h, s)"
| "bind_loop os K E (addr # addrs) a socks fails h s =
     bindR (listen_on os K E addr s) (\<lambda>(sk, s).
       case sk of
         None \<Rightarrow> bind_loop os K E addrs a socks (fails @ [addr]) h s
       | Some sk \<Rightarrow> bind_loop os K E addrs (a + 1) (socks @ [a]) fails (h(a := sk)) s)"

definition bind_all ::
  "'w os \<Rightarrow> 'w calls \<Rightarrow> hook_env \<Rightarrow> address list \<Rightarrow> address list \<Rightarrow> bool \<Rightarrow> nat \<Rightarrow> tcp_server \<times> sockets \<times> 'w hook \<Rightarrow>
   (bool \<times> address list \<times> tcp_server \<times> sockets \<times> 'w hook) res" where
  "bind_all os K E addrs fails ssl a = (\<lambda>(t, h, s).
     bindR (bind_loop os K E addrs a (ts_sockets t) fails h s) (\<lambda>(socks, fails, h, s).
       let t = t\<lparr>ts_ssl := ssl, ts_sockets := socks\<rparr> in
       if fails \<noteq> [] then
         bindR (drop_sockets os E h socks s) (\<lambda>(h, s). Inr (False, fails, t\<lparr>ts_sockets := []\<rparr>, h, s))
       else Inr (True, fails, t, h, s)))"

definition bind_one ::
  "'w os \<Rightarrow> 'w calls \<Rightarrow> hook_env \<Rightarrow> address \<Rightarrow> bool \<Rightarrow> nat \<Rightarrow> tcp_server \<times> sockets \<times> 'w hook \<Rightarrow>
   (bool \<times> address list \<times> tcp_server \<times> sockets \<times> 'w hook) res" where
  "bind_one os K E addr ssl a = bind_all os K E [addr] [] ssl a"

section \<open>Running\<close>

definition tcp_start :: "tcp_server \<Rightarrow> bool \<times> tcp_task list \<times> tcp_server" where
  "tcp_start t =
     (if \<not> ts_is_stop t then (True, [], t)
      else (True, map Accept_loop (ts_sockets t), t\<lparr>ts_is_stop := False\<rparr>))"

text \<open>One round of the accept loop of the socket \<open>a\<close>, with the cell \<open>c\<close> for a client;
  \<open>None\<close> when the loop is over.\<close>

definition accept_round ::
  "'w os \<Rightarrow> 'w calls \<Rightarrow> nat \<Rightarrow> nat \<Rightarrow> tcp_server \<Rightarrow> sockets \<times> 'w hook \<Rightarrow>
   (tcp_task list \<times> sockets \<times> 'w hook) option res" where
  "accept_round os K a c t = (\<lambda>(h, s).
     if ts_is_stop t then Inr None
     else bindR (accept os K (h a) s) (\<lambda>(client, s).
       case client of
         None \<Rightarrow> Inr (Some ([], h, s))
       | Some sk \<Rightarrow>
           bindR (set_recv_timeout os sk (sint (ts_recv_timeout t)) s) (\<lambda>s.
             Inr (Some ([Handle_client c], h(c := sk), s)))))"

definition tcp_stop :: "tcp_server \<Rightarrow> tcp_task list \<times> tcp_server" where
  "tcp_stop t = ([Close_sockets], t\<lparr>ts_is_stop := True\<rparr>)"

fun close_loop ::
  "'w os \<Rightarrow> hook_env \<Rightarrow> nat list \<Rightarrow> sockets \<times> 'w hook \<Rightarrow> (hook_cb tasks \<times> sockets \<times> 'w hook) res" where
  "close_loop os E [] st = Inr ([], st)"
| "close_loop os E (a # as) (h, s) =
     bindR (socket_cancel_all E (h a) s) (\<lambda>(b, ts, s).
     bindR (socket_close os E (h a) s) (\<lambda>(b, ts', sk, s).
     bindR (close_loop os E as (h(a := sk), s)) (\<lambda>(ts'', st). Inr (ts @ ts' @ ts'', st))))"

text \<open>The task that \<open>stop\<close> schedules.\<close>

definition close_sockets ::
  "'w os \<Rightarrow> hook_env \<Rightarrow> tcp_server \<times> sockets \<times> 'w hook \<Rightarrow> (hook_cb tasks \<times> tcp_server \<times> sockets \<times> 'w hook) res" where
  "close_sockets os E = (\<lambda>(t, h, s).
     bindR (close_loop os E (ts_sockets t) (h, s)) (\<lambda>(ts, h, s). Inr (ts, t\<lparr>ts_sockets := []\<rparr>, h, s)))"

definition tcp_server_destroy ::
  "'w os \<Rightarrow> hook_env \<Rightarrow> tcp_server \<times> sockets \<times> 'w hook \<Rightarrow> (sockets \<times> 'w hook) res" where
  "tcp_server_destroy os E = (\<lambda>(t, h, s). drop_sockets os E h (ts_sockets t) s)"

section \<open>Laws\<close>

text \<open>Binding gives one listening socket per address, in order, or none at all.\<close>

lemma bind_loop_cells:
  assumes "bind_loop os K E addrs a socks fails h s = Inr (socks', fails', h', s')"
  shows "\<exists>n. socks' = socks @ [a..<a + n] \<and> n + length fails' = length addrs + length fails \<and>
    set fails' \<subseteq> set fails \<union> set addrs \<and> (\<forall>b. b < a \<longrightarrow> h' b = h b)"
  using assms
proof (induction addrs arbitrary: a socks fails h s)
  case Nil
  then show ?case by (intro exI [of _ 0]) auto
next
  case (Cons addr addrs)
  obtain p where p: "listen_on os K E addr s = Inr p"
    using Cons.prems by (cases "listen_on os K E addr s") simp_all
  obtain sk s1 where q: "p = (sk, s1)" by (rule prod.exhaust)
  show ?case
  proof (cases sk)
    case None
    with Cons.prems p q have "bind_loop os K E addrs a socks (fails @ [addr]) h s1 = Inr (socks', fails', h', s')" by simp
    from Cons.IH [OF this] show ?thesis by auto
  next
    case (Some k)
    with Cons.prems p q have "bind_loop os K E addrs (a + 1) (socks @ [a]) fails (h(a := k)) s1 = Inr (socks', fails', h', s')"
      by simp
    from Cons.IH [OF this] obtain n where n: "socks' = (socks @ [a]) @ [a + 1..<a + 1 + n]"
      "n + length fails' = length addrs + length fails" "set fails' \<subseteq> set fails \<union> set addrs"
      "\<forall>b. b < a + 1 \<longrightarrow> h' b = (h(a := k)) b" by blast
    have "[a..<a + Suc n] = a # [a + 1..<a + 1 + n]" by (simp add: upt_rec)
    with n show ?thesis by (intro exI [of _ "Suc n"]) auto
  qed
qed

lemma bind_all_or_nothing:
  assumes "bind_all os K E addrs [] ssl a (t, h, s) = Inr (ok, fails, t', h', s')" "ts_sockets t = []"
  shows "ok \<longleftrightarrow> fails = []" "ts_sockets t' = (if ok then [a..<a + length addrs] else [])" "set fails \<subseteq> set addrs"
proof -
  obtain socks fails1 h1 s1 where b: "bind_loop os K E addrs a [] [] h s = Inr (socks, fails1, h1, s1)"
    using assms by (cases "bind_loop os K E addrs a [] [] h s") (auto simp: bind_all_def)
  obtain n where n: "socks = [a..<a + n]" "n + length fails1 = length addrs" "set fails1 \<subseteq> set addrs"
    using bind_loop_cells [OF b] by auto
  have r: "fails = fails1 \<and> ok = (fails1 = []) \<and> ts_sockets t' = (if fails1 = [] then socks else [])"
    using assms b by (auto simp: bind_all_def Let_def bindR_Inr_iff split: if_splits)
  with n show "ok \<longleftrightarrow> fails = []" "ts_sockets t' = (if ok then [a..<a + length addrs] else [])" "set fails \<subseteq> set addrs"
    by auto
qed

text \<open>After the task of \<open>stop\<close> every socket is closed, and no accept loop goes on.\<close>

lemma close_loop_closes:
  assumes "close_loop os E as (h, s) = Inr (ts, h', s')" "distinct as"
  shows "(\<forall>a \<in> set as. sk_fd (h' a) = - 1 \<and> \<not> sk_connected (h' a)) \<and> (\<forall>a. a \<notin> set as \<longrightarrow> h' a = h a)"
  using assms
proof (induction as arbitrary: h s ts)
  case (Cons a as)
  from Cons.prems(1) obtain b ts1 s1 where c: "socket_cancel_all E (h a) s = Inr (b, ts1, s1)"
    by (cases "socket_cancel_all E (h a) s") auto
  from Cons.prems(1) c obtain b2 ts2 sk s2 where k: "socket_close os E (h a) s1 = Inr (b2, ts2, sk, s2)"
    by (cases "socket_close os E (h a) s1") auto
  from Cons.prems(1) c k obtain ts3 where l: "close_loop os E as (h(a := sk), s2) = Inr (ts3, h', s')"
    by (cases "close_loop os E as (h(a := sk), s2)") auto
  from Cons.IH [OF l] Cons.prems(2) close_closes [OF k] show ?case by auto
qed simp

end
