(* ===== verification/Log_Format.thy ===== *)
theory Log_Format
  imports Text
begin

text \<open>
  Levels, events and formatters of \<open>acid/logger/logger.h\<close> and \<open>logger.cpp\<close>. The C library's
  \<open>strftime\<close> on the local time is a parameter: \<open>None\<close> is a result that does not fit the
  buffer of 64 characters, whose contents are then indeterminate.
\<close>

section \<open>Levels\<close>

datatype level = FATAL | ALERT | CRIT | ERROR | WARN | NOTICE | INFO | DEBUG | NOTSET

fun level_num :: "level \<Rightarrow> nat" where
  "level_num FATAL = 0"
| "level_num ALERT = 1"
| "level_num CRIT = 2"
| "level_num ERROR = 3"
| "level_num WARN = 4"
| "level_num NOTICE = 5"
| "level_num INFO = 6"
| "level_num DEBUG = 7"
| "level_num NOTSET = 8"

lemma level_num_eq: "level_num a = level_num b \<longleftrightarrow> a = b"
  by (cases a; cases b) simp_all

instantiation level :: linorder
begin

definition less_eq_level :: "level \<Rightarrow> level \<Rightarrow> bool" where
  "less_eq_level a b \<longleftrightarrow> level_num a \<le> level_num b"

definition less_level :: "level \<Rightarrow> level \<Rightarrow> bool" where
  "less_level a b \<longleftrightarrow> level_num a < level_num b"

instance
  by standard (auto simp: less_eq_level_def less_level_def level_num_eq)

end

fun level_to_string :: "level \<Rightarrow> string" where
  "level_to_string FATAL = ''FATAL''"
| "level_to_string ALERT = ''ALERT''"
| "level_to_string CRIT = ''CRIT''"
| "level_to_string ERROR = ''ERROR''"
| "level_to_string WARN = ''WARN''"
| "level_to_string NOTICE = ''NOTICE''"
| "level_to_string INFO = ''INFO''"
| "level_to_string DEBUG = ''DEBUG''"
| "level_to_string NOTSET = ''NOTSET''"

text \<open>\<open>toupper\<close> and \<open>tolower\<close> in the "C" locale.\<close>

definition upper_char :: "char \<Rightarrow> char" where
  "upper_char c = (if CHR ''a'' \<le> c \<and> c \<le> CHR ''z'' then char_of (of_char c - 32 :: nat) else c)"

definition lower_char :: "char \<Rightarrow> char" where
  "lower_char c = (if CHR ''A'' \<le> c \<and> c \<le> CHR ''Z'' then char_of (of_char c + 32 :: nat) else c)"

definition level_from_string :: "string \<Rightarrow> level" where
  "level_from_string str =
     (let upper_str = map upper_char str in
      if upper_str = ''FATAL'' then FATAL
      else if upper_str = ''ALERT'' then ALERT
      else if upper_str = ''CRIT'' then CRIT
      else if upper_str = ''ERROR'' then ERROR
      else if upper_str = ''WARN'' then WARN
      else if upper_str = ''NOTICE'' then NOTICE
      else if upper_str = ''INFO'' then INFO
      else if upper_str = ''DEBUG'' then DEBUG
      else NOTSET)"

lemma level_roundtrip: "level_from_string (level_to_string l) = l"
  by (cases l; hypsubst; code_simp)

lemma level_lower_case: "level_from_string (map lower_char (level_to_string l)) = l"
  by (cases l; hypsubst; code_simp)

section \<open>Events\<close>

record log_event =
  ev_level :: level
  ev_content :: string
  ev_file :: string
  ev_line :: "32 word"
  ev_elapse :: "64 word"
  ev_thread_id :: u32
  ev_fiber_id :: u64
  ev_time :: int
  ev_thread_name :: string
  ev_logger_name :: string

definition log_event_new ::
  "string \<Rightarrow> level \<Rightarrow> string \<Rightarrow> 32 word \<Rightarrow> 64 word \<Rightarrow> u32 \<Rightarrow> u64 \<Rightarrow> int \<Rightarrow> string \<Rightarrow> log_event" where
  "log_event_new logger_name l file line elapse thread_id fiber_id time thread_name =
     \<lparr>ev_level = l, ev_content = [], ev_file = file, ev_line = line, ev_elapse = elapse,
      ev_thread_id = thread_id, ev_fiber_id = fiber_id, ev_time = time, ev_thread_name = thread_name,
      ev_logger_name = logger_name\<rparr>"

text \<open>\<open>ssout() << s\<close>, and \<open>printf\<close> with what \<open>vasprintf\<close> makes of its arguments.\<close>

definition event_put :: "string \<Rightarrow> log_event \<Rightarrow> log_event" where
  "event_put s ev = ev\<lparr>ev_content := ev_content ev @ s\<rparr>"

definition event_vprintf :: "string option \<Rightarrow> log_event \<Rightarrow> log_event" where
  "event_vprintf printed ev = (case printed of None \<Rightarrow> ev | Some s \<Rightarrow> event_put s ev)"

section \<open>Format items\<close>

datatype item =
    Message_item | Level_item | Elapse_item | Logger_name_item | Thread_id_item | Fiber_id_item
  | Thread_name_item | Date_time_item string | File_name_item | Line_item | String_item string
  | Tab_item | New_line_item | Percent_item

definition show_int :: "int \<Rightarrow> string" where
  "show_int i = (if i < 0 then CHR ''-'' # show_nat (nat (- i)) else show_nat (nat i))"

fun item_format :: "(string \<Rightarrow> int \<Rightarrow> string option) \<Rightarrow> item \<Rightarrow> log_event \<Rightarrow> string res" where
  "item_format strf Message_item ev = Inr (ev_content ev)"
| "item_format strf Level_item ev = Inr (level_to_string (ev_level ev))"
| "item_format strf Elapse_item ev = Inr (show_int (sint (ev_elapse ev)))"
| "item_format strf Logger_name_item ev = Inr (ev_logger_name ev)"
| "item_format strf Thread_id_item ev = Inr (show_nat (unat (ev_thread_id ev)))"
| "item_format strf Fiber_id_item ev = Inr (show_nat (unat (ev_fiber_id ev)))"
| "item_format strf Thread_name_item ev = Inr (ev_thread_name ev)"
| "item_format strf (Date_time_item fmt) ev =
     (case strf (c_str fmt) (ev_time ev) of None \<Rightarrow> Inl Uninit_read | Some s \<Rightarrow> Inr s)"
| "item_format strf File_name_item ev = Inr (ev_file ev)"
| "item_format strf Line_item ev = Inr (show_int (sint (ev_line ev)))"
| "item_format strf (String_item s) ev = Inr s"
| "item_format strf Tab_item ev = Inr [CHR 0x09]"
| "item_format strf New_line_item ev = Inr [CHR 0x0A]"
| "item_format strf Percent_item ev = Inr ''%''"

text \<open>The table from conversion characters to items; \<open>d\<close> is not in it.\<close>

definition format_items :: "char \<Rightarrow> item option" where
  "format_items c =
     (if c = CHR ''m'' then Some Message_item
      else if c = CHR ''p'' then Some Level_item
      else if c = CHR ''c'' then Some Logger_name_item
      else if c = CHR ''r'' then Some Elapse_item
      else if c = CHR ''f'' then Some File_name_item
      else if c = CHR ''l'' then Some Line_item
      else if c = CHR ''t'' then Some Thread_id_item
      else if c = CHR ''F'' then Some Fiber_id_item
      else if c = CHR ''N'' then Some Thread_name_item
      else if c = CHR ''%'' then Some Percent_item
      else if c = CHR ''T'' then Some Tab_item
      else if c = CHR ''n'' then Some New_line_item
      else None)"

section \<open>Parsing a pattern\<close>

text \<open>The pairs of the vector \<open>patterns\<close>: an ordinary string, or a conversion character.\<close>

datatype piece = Plain_text string | Conv char

record parse_state =
  ps_patterns :: "piece list"
  ps_tmp :: string
  ps_date :: string
  ps_normal :: bool

definition parse_new :: parse_state where
  "parse_new = \<lparr>ps_patterns = [], ps_tmp = [], ps_date = [], ps_normal = True\<rparr>"

text \<open>\<open>pattern_.at(i)\<close>, and the loop that collects what stands between the braces.\<close>

definition at_char :: "string \<Rightarrow> nat \<Rightarrow> char res" where
  "at_char p i = (if i < length p then Inr (p ! i) else Inl Out_of_range)"

function date_loop :: "string \<Rightarrow> nat \<Rightarrow> string \<Rightarrow> nat \<times> string" where
  "date_loop p i date =
     (if i < length p \<and> p ! i \<noteq> CHR ''}'' then date_loop p (i + 1) (date @ [p ! i]) else (i, date))"
  by pat_completeness auto
termination by (relation "measure (\<lambda>(p, i, date). length p - i)") auto

declare date_loop.simps [simp del]

lemma date_loop_le: "i \<le> fst (date_loop p i date)"
proof (induction p i date rule: date_loop.induct)
  case (1 p i date)
  then show ?case by (subst date_loop.simps) (auto split: if_splits)
qed

text \<open>The main loop. The flag of the result is the local variable \<open>error\<close>.\<close>

function init_loop :: "string \<Rightarrow> nat \<Rightarrow> parse_state \<Rightarrow> (bool \<times> parse_state) res" where
  "init_loop p i ps =
     (if i < length p then
        let c = p ! i in
        if c = CHR ''%'' then
          (if ps_normal ps then
             init_loop p (i + 1)
               (ps\<lparr>ps_patterns := ps_patterns ps @ (if ps_tmp ps \<noteq> [] then [Plain_text (ps_tmp ps)] else []),
                 ps_tmp := [], ps_normal := False\<rparr>)
           else
             init_loop p (i + 1) (ps\<lparr>ps_patterns := ps_patterns ps @ [Conv c], ps_normal := True\<rparr>))
        else if ps_normal ps then init_loop p (i + 1) (ps\<lparr>ps_tmp := ps_tmp ps @ [c]\<rparr>)
        else
          let ps = ps\<lparr>ps_patterns := ps_patterns ps @ [Conv c], ps_normal := True\<rparr> in
          if c \<noteq> CHR ''d'' then init_loop p (i + 1) ps
          else if i + 1 < length p \<and> p ! (i + 1) \<noteq> CHR ''{'' then init_loop p (i + 1) ps
          else
            let d = date_loop p (i + 2) (ps_date ps); ps = ps\<lparr>ps_date := snd d\<rparr> in
            bindR (at_char p (fst d)) (\<lambda>c.
              if c \<noteq> CHR ''}'' then Inr (True, ps) else init_loop p (fst d + 1) ps)
      else Inr (False, ps))"
  by pat_completeness auto

termination
proof (relation "measure (\<lambda>(p, i, ps). length p - i)", goal_cases)
  case (7 p i ps c ps' d ps'' c')
  have "i + 2 \<le> fst d" using date_loop_le [of "i + 2" p "ps_date ps'"] 7 by simp
  with 7(1) show ?case by simp
qed auto

declare init_loop.simps [simp del]

text \<open>The items, up to the first conversion that is not known.\<close>

fun make_items :: "string \<Rightarrow> piece list \<Rightarrow> item list \<times> bool" where
  "make_items date [] = ([], False)"
| "make_items date (Plain_text s # ps) =
     (let (items, e) = make_items date ps in (String_item s # items, e))"
| "make_items date (Conv c # ps) =
     (if c = CHR ''d'' then let (items, e) = make_items date ps in (Date_time_item date # items, e)
      else case format_items c of
        None \<Rightarrow> ([], True)
      | Some it \<Rightarrow> let (items, e) = make_items date ps in (it # items, e))"

record formatter =
  fm_pattern :: string
  fm_items :: "item list"
  fm_is_error :: bool

definition formatter_new :: "string \<Rightarrow> formatter res" where
  "formatter_new p =
     bindR (init_loop p 0 parse_new) (\<lambda>(error, ps).
       if error then Inr \<lparr>fm_pattern = p, fm_items = [], fm_is_error = True\<rparr>
       else
         let ps = (if ps_tmp ps \<noteq> []
             then ps\<lparr>ps_patterns := ps_patterns ps @ [Plain_text (ps_tmp ps)], ps_tmp := []\<rparr> else ps);
             r = make_items (ps_date ps) (ps_patterns ps)
         in Inr \<lparr>fm_pattern = p, fm_items = fst r, fm_is_error = snd r\<rparr>)"

definition default_pattern :: string where
  "default_pattern = ''%d{%Y-%m-%d %H:%M:%S} [%rms]%T%t%T%N%T%F%T[%p]%T[%c]%T%f: %l%T%m%n''"

definition formatter_default :: "formatter res" where
  "formatter_default = formatter_new default_pattern"

text \<open>\<open>format\<close>, which appends each item to a stream.\<close>

fun format_all :: "(string \<Rightarrow> int \<Rightarrow> string option) \<Rightarrow> item list \<Rightarrow> log_event \<Rightarrow> string \<Rightarrow> string res" where
  "format_all strf [] ev os = Inr os"
| "format_all strf (it # its) ev os =
     bindR (item_format strf it ev) (\<lambda>s. format_all strf its ev (os @ s))"

definition formatter_format :: "(string \<Rightarrow> int \<Rightarrow> string option) \<Rightarrow> formatter \<Rightarrow> log_event \<Rightarrow> string res" where
  "formatter_format strf fm ev = format_all strf (fm_items fm) ev []"

end
