(* ===== verification/Log_Format_Spec.thy ===== *)
theory Log_Format_Spec
  imports Log_Format
begin

text \<open>
  What a pattern means. \<open>seg\<close> is the grammar the documentation of \<open>LogFormatter\<close> gives,
  \<open>seg_text\<close> its concrete syntax, and \<open>seg_item\<close> the item each part stands for; the parser
  of the code is shown to invert the syntax, up to the date formats, which it keeps in
  one variable for all the dates of the pattern.
\<close>

datatype seg = Lit string | Item char | Date string | Bare_date

fun seg_text :: "seg \<Rightarrow> string" where
  "seg_text (Lit s) = s"
| "seg_text (Item c) = [CHR ''%'', c]"
| "seg_text (Date f) = ''%d{'' @ f @ ''}''"
| "seg_text Bare_date = ''%d''"

definition pattern_text :: "seg list \<Rightarrow> string" where
  "pattern_text segs = concat (map seg_text segs)"

fun seg_date :: "seg \<Rightarrow> string" where
  "seg_date (Date f) = f"
| "seg_date _ = []"

definition date_of :: "seg list \<Rightarrow> string" where
  "date_of segs = concat (map seg_date segs)"

fun seg_item :: "string \<Rightarrow> seg \<Rightarrow> item" where
  "seg_item date (Lit s) = String_item s"
| "seg_item date (Item c) = the (format_items c)"
| "seg_item date _ = Date_time_item date"

text \<open>The documented syntax: literals are maximal and without a percent sign, conversions are
  known, a date format has no closing brace, and a date without a format may stand anywhere,
  but what follows does not begin with an opening brace, which would be its format.\<close>

fun documented :: "seg list \<Rightarrow> bool" where
  "documented [] \<longleftrightarrow> True"
| "documented (Lit s # r) \<longleftrightarrow>
     s \<noteq> [] \<and> CHR ''%'' \<notin> set s \<and> (case r of Lit _ # _ \<Rightarrow> False | _ \<Rightarrow> True) \<and> documented r"
| "documented (Item c # r) \<longleftrightarrow> c \<noteq> CHR ''d'' \<and> format_items c \<noteq> None \<and> documented r"
| "documented (Date f # r) \<longleftrightarrow> CHR ''}'' \<notin> set f \<and> documented r"
| "documented (Bare_date # r) \<longleftrightarrow> (pattern_text r = [] \<or> hd (pattern_text r) \<noteq> CHR ''{'') \<and> documented r"

definition ends_bare :: "seg list \<Rightarrow> bool" where
  "ends_bare segs \<longleftrightarrow> segs \<noteq> [] \<and> last segs = Bare_date"

lemma pattern_text_simps [simp]:
  "pattern_text [] = []" "pattern_text (x # r) = seg_text x @ pattern_text r"
  "pattern_text (r @ r') = pattern_text r @ pattern_text r'"
  by (simp_all add: pattern_text_def)

lemma date_of_simps [simp]: "date_of [] = []" "date_of (x # r) = seg_date x @ date_of r"
  by (simp_all add: date_of_def)

lemma text_nonempty: "documented segs \<Longrightarrow> segs \<noteq> [] \<Longrightarrow> pattern_text segs \<noteq> []"
  by (cases segs rule: documented.cases) auto

lemma documented_butlast: "documented (segs @ [Bare_date]) \<Longrightarrow> documented segs"
proof (induction segs rule: documented.induct)
  case (2 s r)
  then show ?case by (cases r) (auto split: seg.splits)
next
  case (5 r)
  then show ?case by (cases "pattern_text r") auto
qed auto

section \<open>The loops on a suffix of the pattern\<close>

lemma drop_Cons_at:
  assumes "drop i p = c # r"
  shows "i < length p" "p ! i = c" "drop (Suc i) p = r"
proof -
  show "i < length p" using assms by (metis drop_all list.distinct(1) not_less)
  then show "p ! i = c" "drop (Suc i) p = r" using assms Cons_nth_drop_Suc [of i p] by auto
qed

lemma drop_Nil_at: "drop i p = [] \<Longrightarrow> \<not> i < length p"
  by simp

lemma date_loop_closed:
  "drop i p = f @ CHR ''}'' # r \<Longrightarrow> CHR ''}'' \<notin> set f \<Longrightarrow> date_loop p i d = (i + length f, d @ f)"
proof (induction f arbitrary: i d)
  case Nil
  from drop_Cons_at [of i p] Nil show ?case by (simp add: date_loop.simps)
next
  case (Cons c f)
  from Cons.prems(1) have "drop i p = c # f @ CHR ''}'' # r" by simp
  from drop_Cons_at [OF this] Cons show ?case by (subst date_loop.simps) auto
qed

lemma date_loop_open:
  "drop i p = f \<Longrightarrow> CHR ''}'' \<notin> set f \<Longrightarrow> \<not> fst (date_loop p i d) < length p"
proof (induction f arbitrary: i d)
  case Nil
  then show ?case by (simp add: date_loop.simps)
next
  case (Cons c f)
  from drop_Cons_at [OF Cons.prems(1)] Cons show ?case by (subst date_loop.simps) auto
qed

text \<open>What the loop does at each kind of part.\<close>

definition flushed :: "parse_state \<Rightarrow> piece list" where
  "flushed ps = ps_patterns ps @ (if ps_tmp ps \<noteq> [] then [Plain_text (ps_tmp ps)] else [])"

definition take_conv :: "char \<Rightarrow> string \<Rightarrow> parse_state \<Rightarrow> parse_state" where
  "take_conv c date ps =
     \<lparr>ps_patterns = flushed ps @ [Conv c], ps_tmp = [], ps_date = ps_date ps @ date, ps_normal = True\<rparr>"

lemma loop_literal:
  "drop i p = s @ r \<Longrightarrow> CHR ''%'' \<notin> set s \<Longrightarrow> ps_normal ps \<Longrightarrow>
   init_loop p i ps = init_loop p (i + length s) (ps\<lparr>ps_tmp := ps_tmp ps @ s\<rparr>)"
proof (induction s arbitrary: i ps)
  case (Cons c s)
  have "drop i p = c # s @ r" using Cons.prems(1) by simp
  moreover have "c \<noteq> CHR ''%''" using Cons.prems(2) by auto
  ultimately show ?case using drop_Cons_at [of i p] Cons by (subst init_loop.simps) simp
qed simp

lemma loop_percent:
  assumes "drop i p = CHR ''%'' # r" "ps_normal ps"
  shows "init_loop p i ps = init_loop p (i + 1) (ps\<lparr>ps_patterns := flushed ps, ps_tmp := [], ps_normal := False\<rparr>)"
  using drop_Cons_at [OF assms(1)] assms(2) by (subst init_loop.simps) (simp add: flushed_def)

lemma loop_conv:
  assumes "drop i p = CHR ''%'' # c # r" "ps_normal ps" "c \<noteq> CHR ''d''"
  shows "init_loop p i ps = init_loop p (i + 2) (take_conv c [] ps)"
proof -
  note a = drop_Cons_at [OF assms(1)]
  show ?thesis
    unfolding loop_percent [OF assms(1,2)]
    using drop_Cons_at [OF a(3)] assms(3) by (subst init_loop.simps, cases ps) (simp add: take_conv_def)
qed

lemma loop_date:
  assumes "drop i p = ''%d{'' @ f @ CHR ''}'' # r" "ps_normal ps" "CHR ''}'' \<notin> set f"
  shows "init_loop p i ps = init_loop p (i + length f + 4) (take_conv (CHR ''d'') f ps)"
proof -
  have "drop i p = CHR ''%'' # ''d{'' @ f @ CHR ''}'' # r" using assms(1) by simp
  note a = drop_Cons_at [OF this]
  have "drop (Suc i) p = CHR ''d'' # CHR ''{'' # f @ CHR ''}'' # r" using a(3) by simp
  note b = drop_Cons_at [OF this]
  note c = drop_Cons_at [OF b(3)]
  have d: "date_loop p (Suc (Suc (Suc i))) date = (Suc (Suc (Suc i)) + length f, date @ f)" for date
    using date_loop_closed [OF c(3) assms(3)] by simp
  have "drop (Suc (Suc (Suc i)) + length f) p = CHR ''}'' # r"
    using c(3) by (metis add.commute append_eq_conv_conj drop_drop)
  note e = drop_Cons_at [OF this]
  show ?thesis
    unfolding loop_percent [OF \<open>drop i p = CHR ''%'' # _\<close> assms(2)]
    using a b c e d by (subst init_loop.simps, cases ps) (simp add: at_char_def take_conv_def numeral_eq_Suc Let_def)
qed

lemma loop_bare_date:
  assumes "drop i p = ''%d'' @ c # r" "ps_normal ps" "c \<noteq> CHR ''{''"
  shows "init_loop p i ps = init_loop p (i + 2) (take_conv (CHR ''d'') [] ps)"
proof -
  have "drop i p = CHR ''%'' # ''d'' @ c # r" using assms(1) by simp
  note a = drop_Cons_at [OF this]
  have "drop (Suc i) p = CHR ''d'' # c # r" using a(3) by simp
  note b = drop_Cons_at [OF this]
  note c = drop_Cons_at [OF b(3)]
  show ?thesis
    unfolding loop_percent [OF \<open>drop i p = CHR ''%'' # _\<close> assms(2)]
    using a b c assms(3) by (subst init_loop.simps, cases ps) (simp add: take_conv_def)
qed

text \<open>The flag of the loop is never set: the access to the closing brace raises first.\<close>

lemma date_loop_stops: "date_loop p j d = (n, d') \<Longrightarrow> n < length p \<Longrightarrow> p ! n = CHR ''}''"
proof (induction p j d rule: date_loop.induct)
  case (1 p j d)
  show ?case
  proof (cases "j < length p \<and> p ! j \<noteq> CHR ''}''")
    case True
    with 1 show ?thesis by (simp add: date_loop.simps [of p j])
  next
    case False
    with 1(2,3) show ?thesis by (auto simp: date_loop.simps [of p j])
  qed
qed

lemma loop_never_flags: "init_loop p i ps \<noteq> Inr (True, ps')"
proof (induction p i ps rule: init_loop.induct)
  case (1 p i ps)
  have close: "bindR (at_char p n) (\<lambda>c. if c \<noteq> CHR ''}'' then Inr (True, ps1) else init_loop p (n + 1) ps1) \<noteq> Inr (True, ps')"
    if "date_loop p j d = (n, d')" "n < length p \<Longrightarrow> p ! n = CHR ''}'' \<Longrightarrow> init_loop p (n + 1) ps1 \<noteq> Inr (True, ps')"
    for n j d d' ps1
    using date_loop_stops [OF that(1)] that(2) by (auto simp: at_char_def)
  let ?conv = "ps\<lparr>ps_patterns := ps_patterns ps @ [Conv (p ! i)], ps_normal := True\<rparr>"
  consider "\<not> i < length p"
    | "i < length p" "p ! i = CHR ''%'' \<or> ps_normal ps"
    | "i < length p" "p ! i \<noteq> CHR ''%''" "\<not> ps_normal ps"
      "p ! i \<noteq> CHR ''d'' \<or> i + 1 < length p \<and> p ! (i + 1) \<noteq> CHR ''{''"
    | "i < length p" "\<not> ps_normal ps" "p ! i = CHR ''d''" "\<not> (i + 1 < length p \<and> p ! (i + 1) \<noteq> CHR ''{'')"
    by blast
  then show ?case
  proof cases
    case 1
    then show ?thesis by (simp add: init_loop.simps)
  next
    case 2
    with "1.IH"(1-3) show ?thesis by (subst init_loop.simps) (auto simp: Let_def)
  next
    case 3
    with "1.IH"(4,5) show ?thesis by (subst init_loop.simps) (auto simp: Let_def)
  next
    case 4
    obtain n d where d: "date_loop p (i + 2) (ps_date ps) = (n, d)" by fastforce
    have "init_loop p (n + 1) (?conv\<lparr>ps_date := d\<rparr>) \<noteq> Inr (True, ps')" if "n < length p" "p ! n = CHR ''}''"
      using "1.IH"(6) [OF 4(1) refl _ 4(2) refl _ 4(4) refl refl] 4 d that by (simp add: at_char_def)
    from close [OF d this] 4 d show ?thesis by (subst init_loop.simps) (auto simp: Let_def cong: if_cong)
  qed
qed

section \<open>Whole patterns\<close>

lemma flushed_take_conv [simp]:
  "flushed (take_conv c date ps) = flushed ps @ [Conv c]" "ps_tmp (take_conv c date ps) = []"
  "ps_date (take_conv c date ps) = ps_date ps @ date" "ps_normal (take_conv c date ps)"
  by (simp_all add: take_conv_def flushed_def)

fun seg_piece :: "seg \<Rightarrow> piece" where
  "seg_piece (Lit s) = Plain_text s"
| "seg_piece (Item c) = Conv c"
| "seg_piece _ = Conv (CHR ''d'')"

definition starts_literal :: "seg list \<Rightarrow> bool" where
  "starts_literal segs \<longleftrightarrow> (case segs of Lit _ # _ \<Rightarrow> True | _ \<Rightarrow> False)"

text \<open>The parser at a boundary between two parts, before \<open>rest\<close>.\<close>

lemma loop_segs:
  assumes "drop i p = pattern_text segs @ rest" "documented segs" "ps_normal ps"
    and "starts_literal segs \<Longrightarrow> ps_tmp ps = []" "rest = [] \<or> hd rest = CHR ''%''"
    and "rest = [] \<Longrightarrow> \<not> ends_bare segs"
  shows "\<exists>ps'. init_loop p i ps = init_loop p (i + length (pattern_text segs)) ps' \<and>
    ps_normal ps' \<and> flushed ps' = flushed ps @ map seg_piece segs \<and> ps_date ps' = ps_date ps @ date_of segs"
  using assms
proof (induction segs arbitrary: i ps)
  case Nil
  then show ?case by auto
next
  case (Cons x segs)
  have next_part: ?case
    if s: "init_loop p i ps = init_loop p (i + length (seg_text x)) ps1" "ps_normal ps1"
      "flushed ps1 = flushed ps @ [seg_piece x]" "ps_date ps1 = ps_date ps @ seg_date x"
      "starts_literal segs \<Longrightarrow> ps_tmp ps1 = []" "documented segs" for ps1
  proof -
    have after: "drop (i + length (seg_text x)) p = pattern_text segs @ rest"
      using Cons.prems(1) by (metis add.commute append.assoc append_eq_conv_conj drop_drop pattern_text_simps(2))
    have e: "rest = [] \<Longrightarrow> \<not> ends_bare segs" using Cons.prems(6) by (auto simp: ends_bare_def split: if_splits)
    from Cons.IH [OF after s(6) s(2,5) Cons.prems(5) e] s show ?thesis by (auto simp: add.assoc)
  qed
  have d: "drop i p = seg_text x @ pattern_text segs @ rest" using Cons.prems(1) by simp
  show ?case
  proof (cases x)
    case (Lit s)
    let ?ps = "ps\<lparr>ps_tmp := ps_tmp ps @ s\<rparr>"
    have "ps_tmp ps = []" using Cons.prems(4) Lit by (simp add: starts_literal_def)
    then have "flushed ?ps = flushed ps @ [Plain_text s]" using Cons.prems(2) Lit by (simp add: flushed_def)
    moreover have "\<not> starts_literal segs"
      using Cons.prems(2) Lit by (auto simp: starts_literal_def split: list.splits seg.splits)
    ultimately show ?thesis
      using loop_literal [of i p s _ ps] d Cons.prems Lit by (intro next_part [of ?ps]) auto
  next
    case (Item c)
    have "init_loop p i ps = init_loop p (i + 2) (take_conv c [] ps)"
      by (rule loop_conv) (use d Cons.prems Item in auto)
    then show ?thesis using Cons.prems Item by (intro next_part [of "take_conv c [] ps"]) auto
  next
    case (Date f)
    have "init_loop p i ps = init_loop p (i + length f + 4) (take_conv (CHR ''d'') f ps)"
      by (rule loop_date) (use d Cons.prems Date in auto)
    moreover have "i + length f + 4 = i + length (seg_text x)" using Date by simp
    ultimately have "init_loop p i ps = init_loop p (i + length (seg_text x)) (take_conv (CHR ''d'') f ps)"
      by metis
    then show ?thesis
      by (rule next_part) (use Cons.prems Date in auto)
  next
    case Bare_date
    have "pattern_text segs @ rest \<noteq> []"
    proof
      assume e: "pattern_text segs @ rest = []"
      then have "segs = []" using text_nonempty [of segs] Cons.prems(2) Bare_date by auto
      with e Cons.prems(6) Bare_date show False by (simp add: ends_bare_def)
    qed
    then obtain c r where r: "pattern_text segs @ rest = c # r" "c \<noteq> CHR ''{''"
      using Cons.prems(2,5) Bare_date by (cases "pattern_text segs"; cases rest) auto
    have "init_loop p i ps = init_loop p (i + 2) (take_conv (CHR ''d'') [] ps)"
      by (rule loop_bare_date [of _ _ c r]) (use d r Cons.prems Bare_date in auto)
    then show ?thesis
      using Cons.prems Bare_date by (intro next_part [of "take_conv (CHR ''d'') [] ps"]) auto
  qed
qed

lemma make_items_segs:
  "documented segs \<Longrightarrow> make_items date (map seg_piece segs) = (map (seg_item date) segs, False)"
proof (induction segs)
  case (Cons x segs)
  then show ?case by (cases x) (auto split: option.split)
qed simp

lemma flush_piece: "(if ps_tmp ps \<noteq> []
    then ps\<lparr>ps_patterns := ps_patterns ps @ [Plain_text (ps_tmp ps)], ps_tmp := []\<rparr> else ps) =
  ps\<lparr>ps_patterns := flushed ps, ps_tmp := []\<rparr>"
  by (cases ps) (simp add: flushed_def)

lemma parse_new_simps [simp]: "ps_normal parse_new" "flushed parse_new = []" "ps_tmp parse_new = []" "ps_date parse_new = []"
  by (simp_all add: parse_new_def flushed_def)

lemma pattern_parses:
  assumes "documented segs" "\<not> ends_bare segs"
  shows "formatter_new (pattern_text segs) =
    Inr \<lparr>fm_pattern = pattern_text segs, fm_items = map (seg_item (date_of segs)) segs, fm_is_error = False\<rparr>"
proof -
  let ?p = "pattern_text segs"
  obtain ps where "init_loop ?p 0 parse_new = init_loop ?p (length ?p) ps"
    "flushed ps = map seg_piece segs" "ps_date ps = date_of segs"
    using loop_segs [of 0 ?p segs "[]" parse_new] assms by auto
  then show ?thesis
    by (simp add: formatter_new_def init_loop.simps [of ?p "length ?p"] flush_piece make_items_segs [OF assms(1)])
qed

text \<open>An opening brace that is not closed, and \<open>%d\<close> at the end, raise \<open>std::out_of_range\<close>.\<close>

lemma pattern_open_date:
  assumes "documented segs" "CHR ''}'' \<notin> set f" "rest = ''%d'' \<or> rest = ''%d{'' @ f"
  shows "formatter_new (pattern_text segs @ rest) = Inl Out_of_range"
proof -
  let ?p = "pattern_text segs @ rest" and ?n = "length (pattern_text segs)"
  from loop_segs [of 0 ?p segs rest parse_new] assms
  obtain ps where ps: "init_loop ?p 0 parse_new = init_loop ?p ?n ps" "ps_normal ps" by auto
  from assms(3) obtain r where r: "rest = CHR ''%'' # CHR ''d'' # r" "r = [] \<or> r = CHR ''{'' # f" by auto
  then have d0: "drop ?n ?p = CHR ''%'' # CHR ''d'' # r" by simp
  note a = drop_Cons_at [OF d0]
  note b = drop_Cons_at [OF a(3)]
  have "\<not> fst (date_loop ?p (?n + 3) d) < length ?p" for d
  proof (cases "r = []")
    case True
    then show ?thesis using r(1) date_loop_le [of "?n + 3" ?p d] by simp
  next
    case False
    with r(2) b(3) drop_Cons_at(3) have "drop (Suc (Suc (Suc ?n))) ?p = f" by metis
    from date_loop_open [OF this assms(2)] show ?thesis by (simp add: numeral_eq_Suc)
  qed
  moreover have "\<not> (Suc (Suc ?n) < length ?p \<and> ?p ! Suc (Suc ?n) \<noteq> CHR ''{'')"
    using r b(3) drop_Cons_at [of "Suc (Suc ?n)" ?p "CHR ''{''" f] by auto
  ultimately have "init_loop ?p ?n ps = Inl Out_of_range"
    unfolding loop_percent [OF d0 ps(2)]
    using a b by (subst init_loop.simps) (auto simp: at_char_def Let_def numeral_eq_Suc)
  with ps(1) show ?thesis by (simp add: formatter_new_def)
qed

text \<open>So of the documented patterns exactly those that end with a date without a format are not
  parsed.\<close>

lemma documented_parses:
  assumes "documented segs"
  shows "formatter_new (pattern_text segs) =
    (if ends_bare segs then Inl Out_of_range
     else Inr \<lparr>fm_pattern = pattern_text segs, fm_items = map (seg_item (date_of segs)) segs, fm_is_error = False\<rparr>)"
proof (cases "ends_bare segs")
  case True
  then obtain r where r: "segs = r @ [Bare_date]" by (metis ends_bare_def append_butlast_last_id)
  have "documented r" using assms documented_butlast [of r] by (simp add: r)
  from pattern_open_date [OF this, of "[]" "''%d''"] True show ?thesis by (simp add: r)
next
  case False
  with pattern_parses [OF assms False] show ?thesis by simp
qed

section \<open>What is written\<close>

definition item_text :: "(string \<Rightarrow> int \<Rightarrow> string option) \<Rightarrow> log_event \<Rightarrow> item \<Rightarrow> string" where
  "item_text strf ev it = (case item_format strf it ev of Inl _ \<Rightarrow> [] | Inr s \<Rightarrow> s)"

lemma format_all_texts:
  assumes "\<And>f. Date_time_item f \<in> set its \<Longrightarrow> strf (c_str f) (ev_time ev) \<noteq> None"
  shows "format_all strf its ev os = Inr (os @ concat (map (item_text strf ev) its))"
  using assms
proof (induction its arbitrary: os)
  case (Cons it its)
  have "\<exists>s. item_format strf it ev = Inr s" using Cons.prems by (cases it) force+
  then obtain s where "item_format strf it ev = Inr s" ..
  with Cons show ?case by (simp add: item_text_def)
qed simp

end
