(* ===== verification/Logger.thy ===== *)
theory Logger
  imports Log_Format_Spec StdMap "HOL-Library.Multiset"
begin

text \<open>
  Appenders, loggers and their manager, of \<open>acid/logger/logger.h\<close> and \<open>logger.cpp\<close>. Appenders
  and loggers are shared objects: they live in a store and are named by addresses; a fresh
  address is an argument where the code allocates. Every operation holds the spinlock of
  its object throughout, so each is one step. A file appender hands its lines to an
  \<open>AsyncLogger\<close>, whose queue is the subject of its own theory: here it is the list of the
  lines handed over.
\<close>

datatype sink = To_stdout | To_file string

record appender =
  ap_level :: level
  ap_formatter :: formatter
  ap_sink :: sink

record logger =
  lg_name :: string
  lg_level :: level
  lg_appenders :: "nat list"

record log_world =
  lw_appenders :: "nat \<Rightarrow> appender"
  lw_loggers :: "nat \<Rightarrow> logger"
  lw_stdout :: string
  lw_lines :: "nat \<Rightarrow> string list"
  lw_names :: "(string \<times> nat) list"
  lw_root :: nat

section \<open>Appenders\<close>

definition stdout_appender :: "level \<Rightarrow> appender res" where
  "stdout_appender l =
     bindR formatter_default (\<lambda>fm. Inr \<lparr>ap_level = l, ap_formatter = fm, ap_sink = To_stdout\<rparr>)"

definition file_appender :: "string \<Rightarrow> level \<Rightarrow> appender res" where
  "file_appender filename l =
     bindR formatter_default (\<lambda>fm. Inr \<lparr>ap_level = l, ap_formatter = fm, ap_sink = To_file filename\<rparr>)"

definition set_formatter :: "nat \<Rightarrow> formatter \<Rightarrow> log_world \<Rightarrow> log_world" where
  "set_formatter a fm w =
     w\<lparr>lw_appenders := (lw_appenders w)(a := (lw_appenders w a)\<lparr>ap_formatter := fm\<rparr>)\<rparr>"

definition get_formatter :: "nat \<Rightarrow> log_world \<Rightarrow> formatter" where
  "get_formatter a w = ap_formatter (lw_appenders w a)"

definition appender_set_level :: "nat \<Rightarrow> level \<Rightarrow> log_world \<Rightarrow> log_world" where
  "appender_set_level a l w =
     w\<lparr>lw_appenders := (lw_appenders w)(a := (lw_appenders w a)\<lparr>ap_level := l\<rparr>)\<rparr>"

definition appender_get_level :: "nat \<Rightarrow> log_world \<Rightarrow> level" where
  "appender_get_level a w = ap_level (lw_appenders w a)"

definition stdout_log :: "(string \<Rightarrow> int \<Rightarrow> string option) \<Rightarrow> nat \<Rightarrow> level \<Rightarrow> log_event \<Rightarrow> log_world \<Rightarrow> log_world res" where
  "stdout_log strf a l ev w =
     (let ap = lw_appenders w a in
      if l \<le> ap_level ap then
        bindR (format_all strf (fm_items (ap_formatter ap)) ev (lw_stdout w)) (\<lambda>os. Inr (w\<lparr>lw_stdout := os\<rparr>))
      else Inr w)"

definition file_log :: "(string \<Rightarrow> int \<Rightarrow> string option) \<Rightarrow> nat \<Rightarrow> level \<Rightarrow> log_event \<Rightarrow> log_world \<Rightarrow> log_world res" where
  "file_log strf a l ev w =
     (let ap = lw_appenders w a in
      if l \<le> ap_level ap then
        bindR (formatter_format strf (ap_formatter ap) ev) (\<lambda>line.
          Inr (w\<lparr>lw_lines := (lw_lines w)(a := lw_lines w a @ [line])\<rparr>))
      else Inr w)"

definition appender_log :: "(string \<Rightarrow> int \<Rightarrow> string option) \<Rightarrow> nat \<Rightarrow> level \<Rightarrow> log_event \<Rightarrow> log_world \<Rightarrow> log_world res" where
  "appender_log strf a l ev w =
     (case ap_sink (lw_appenders w a) of
        To_stdout \<Rightarrow> stdout_log strf a l ev w
      | To_file filename \<Rightarrow> file_log strf a l ev w)"

text \<open>\<open>FileLogAppender::reopen\<close>, which nothing calls, on the \<open>ofstream\<close> of the appender: a
  failure to open sets \<open>failbit\<close>, while the result looks at \<open>badbit\<close>.\<close>

record ofstream =
  os_open :: bool
  os_fail :: bool
  os_bad :: bool

definition ofstream_close :: "ofstream \<Rightarrow> ofstream" where
  "ofstream_close os = (if os_open os then os\<lparr>os_open := False\<rparr> else os\<lparr>os_fail := True\<rparr>)"

definition ofstream_open :: "bool \<Rightarrow> ofstream \<Rightarrow> ofstream" where
  "ofstream_open ok os =
     (if \<not> os_open os \<and> ok then \<lparr>os_open = True, os_fail = False, os_bad = False\<rparr> else os\<lparr>os_fail := True\<rparr>)"

definition reopen :: "bool \<Rightarrow> ofstream \<Rightarrow> bool \<times> ofstream" where
  "reopen ok os =
     (let os = (if \<not> os_fail os \<and> \<not> os_bad os then ofstream_close os else os);
          os = ofstream_open ok os
      in (\<not> os_bad os, os))"

lemma reopen_always_good: "\<not> os_bad os \<Longrightarrow> fst (reopen ok os)"
  by (simp add: reopen_def ofstream_close_def ofstream_open_def Let_def)

lemma reopen_open: "os_open os \<longrightarrow> \<not> os_fail os \<and> \<not> os_bad os \<Longrightarrow> os_open (snd (reopen ok os)) \<longleftrightarrow> ok"
  by (auto simp: reopen_def ofstream_close_def ofstream_open_def Let_def)

section \<open>Loggers\<close>

definition logger_new :: "level \<Rightarrow> string \<Rightarrow> logger" where
  "logger_new l name = \<lparr>lg_name = name, lg_level = l, lg_appenders = []\<rparr>"

definition logger_named :: "string \<Rightarrow> logger" where
  "logger_named name = \<lparr>lg_name = name, lg_level = DEBUG, lg_appenders = []\<rparr>"

fun log_appenders :: "(string \<Rightarrow> int \<Rightarrow> string option) \<Rightarrow> nat list \<Rightarrow> level \<Rightarrow> log_event \<Rightarrow> log_world \<Rightarrow> log_world res" where
  "log_appenders strf [] l ev w = Inr w"
| "log_appenders strf (a # as) l ev w = bindR (appender_log strf a l ev w) (log_appenders strf as l ev)"

definition logger_log :: "(string \<Rightarrow> int \<Rightarrow> string option) \<Rightarrow> nat \<Rightarrow> level \<Rightarrow> log_event \<Rightarrow> log_world \<Rightarrow> log_world res" where
  "logger_log strf g l ev w =
     (if l \<le> lg_level (lw_loggers w g) then log_appenders strf (lg_appenders (lw_loggers w g)) l ev w else Inr w)"

definition update_logger :: "nat \<Rightarrow> (logger \<Rightarrow> logger) \<Rightarrow> log_world \<Rightarrow> log_world" where
  "update_logger g f w = w\<lparr>lw_loggers := (lw_loggers w)(g := f (lw_loggers w g))\<rparr>"

definition add_appender :: "nat \<Rightarrow> nat \<Rightarrow> log_world \<Rightarrow> log_world" where
  "add_appender g a w = update_logger g (\<lambda>lg. lg\<lparr>lg_appenders := lg_appenders lg @ [a]\<rparr>) w"

definition delete_appender :: "nat \<Rightarrow> nat \<Rightarrow> log_world \<Rightarrow> log_world" where
  "delete_appender g a w = update_logger g (\<lambda>lg. lg\<lparr>lg_appenders := remove1 a (lg_appenders lg)\<rparr>) w"

definition clear_appender :: "nat \<Rightarrow> log_world \<Rightarrow> log_world" where
  "clear_appender g w = update_logger g (\<lambda>lg. lg\<lparr>lg_appenders := []\<rparr>) w"

definition logger_set_level :: "nat \<Rightarrow> level \<Rightarrow> log_world \<Rightarrow> log_world" where
  "logger_set_level g l w = update_logger g (\<lambda>lg. lg\<lparr>lg_level := l\<rparr>) w"

definition logger_get_level :: "nat \<Rightarrow> log_world \<Rightarrow> level" where
  "logger_get_level g w = lg_level (lw_loggers w g)"

definition logger_set_name :: "nat \<Rightarrow> string \<Rightarrow> log_world \<Rightarrow> log_world" where
  "logger_set_name g name w = update_logger g (\<lambda>lg. lg\<lparr>lg_name := name\<rparr>) w"

definition logger_get_name :: "nat \<Rightarrow> log_world \<Rightarrow> string" where
  "logger_get_name g w = lg_name (lw_loggers w g)"

text \<open>The macro \<open>LOG_LEVEL\<close> followed by \<open><< s\<close>: the event lives until the end of the statement,
  when the destructor of \<open>LogEventWrap\<close> logs it. What the code asks the system is in
  \<open>here\<close>: file, line, thread, fiber, time and thread name.\<close>

definition log_wrap_destroy :: "(string \<Rightarrow> int \<Rightarrow> string option) \<Rightarrow> nat \<Rightarrow> log_event \<Rightarrow> log_world \<Rightarrow> log_world res" where
  "log_wrap_destroy strf g ev w = logger_log strf g (ev_level ev) ev w"

definition log_macro ::
  "(string \<Rightarrow> int \<Rightarrow> string option) \<Rightarrow> nat \<Rightarrow> level \<Rightarrow> string \<times> 32 word \<times> u32 \<times> u64 \<times> int \<times> string \<Rightarrow> string \<Rightarrow>
   log_world \<Rightarrow> log_world res" where
  "log_macro strf g l here s w =
     (if l \<le> logger_get_level g w then
        let (file, line, thread_id, fiber_id, time, thread_name) = here;
            ev = log_event_new (logger_get_name g w) l file line 0 thread_id fiber_id time thread_name
        in log_wrap_destroy strf g (event_put s ev) w
      else Inr w)"

section \<open>The manager\<close>

definition manager_new :: "nat \<Rightarrow> (nat \<Rightarrow> appender) \<Rightarrow> (nat \<Rightarrow> logger) \<Rightarrow> log_world" where
  "manager_new root aps lgs =
     \<lparr>lw_appenders = aps, lw_loggers = lgs(root := logger_new DEBUG ''root''), lw_stdout = [], lw_lines = (\<lambda>_. []),
      lw_names = map_emplace (<) ''root'' root [], lw_root = root\<rparr>"

definition get_logger :: "string \<Rightarrow> nat \<Rightarrow> log_world \<Rightarrow> nat \<times> log_world" where
  "get_logger name fresh w =
     (case map_find (<) name (lw_names w) of
        Some g \<Rightarrow> (g, w)
      | None \<Rightarrow>
          (fresh, w\<lparr>lw_loggers := (lw_loggers w)(fresh := logger_named name),
             lw_names := map_emplace (<) name fresh (lw_names w)\<rparr>))"

definition get_root :: "log_world \<Rightarrow> nat" where
  "get_root w = lw_root w"

section \<open>What a logger writes\<close>

text \<open>An appender takes an event when its level lets it pass; its line is the text of its
  items. \<open>dated\<close> is that every date fits the buffer.\<close>

definition takes :: "log_world \<Rightarrow> level \<Rightarrow> nat \<Rightarrow> bool" where
  "takes w l a \<longleftrightarrow> l \<le> ap_level (lw_appenders w a)"

definition line_of :: "(string \<Rightarrow> int \<Rightarrow> string option) \<Rightarrow> log_world \<Rightarrow> log_event \<Rightarrow> nat \<Rightarrow> string" where
  "line_of strf w ev a = concat (map (item_text strf ev) (fm_items (ap_formatter (lw_appenders w a))))"

definition dated :: "(string \<Rightarrow> int \<Rightarrow> string option) \<Rightarrow> log_world \<Rightarrow> log_event \<Rightarrow> nat \<Rightarrow> bool" where
  "dated strf w ev a \<longleftrightarrow>
     list_all (\<lambda>it. case it of Date_time_item f \<Rightarrow> strf (c_str f) (ev_time ev) \<noteq> None | _ \<Rightarrow> True)
       (fm_items (ap_formatter (lw_appenders w a)))"

definition is_stdout :: "log_world \<Rightarrow> nat \<Rightarrow> bool" where
  "is_stdout w a \<longleftrightarrow> ap_sink (lw_appenders w a) = To_stdout"

definition after_log :: "(string \<Rightarrow> int \<Rightarrow> string option) \<Rightarrow> nat list \<Rightarrow> level \<Rightarrow> log_event \<Rightarrow> log_world \<Rightarrow> log_world" where
  "after_log strf as l ev w =
     w\<lparr>lw_stdout := lw_stdout w @ concat (map (line_of strf w ev) (filter (\<lambda>a. takes w l a \<and> is_stdout w a) as)),
       lw_lines := (\<lambda>a. lw_lines w a @ map (line_of strf w ev) (filter (\<lambda>b. b = a \<and> takes w l b \<and> \<not> is_stdout w b) as))\<rparr>"

lemma format_dated:
  "dated strf w ev a \<Longrightarrow>
   format_all strf (fm_items (ap_formatter (lw_appenders w a))) ev os = Inr (os @ line_of strf w ev a)"
  unfolding line_of_def by (rule format_all_texts) (auto simp: dated_def list_all_iff)

lemma after_log_keeps [simp]:
  "lw_appenders (after_log strf as l ev w) = lw_appenders w" "lw_loggers (after_log strf as l ev w) = lw_loggers w"
  "lw_names (after_log strf as l ev w) = lw_names w" "lw_root (after_log strf as l ev w) = lw_root w"
  "log_world.more (after_log strf as l ev w) = log_world.more w"
  by (simp_all add: after_log_def)

lemma after_log_output:
  "lw_stdout (after_log strf as l ev w) =
     lw_stdout w @ concat (map (line_of strf w ev) (filter (\<lambda>a. takes w l a \<and> is_stdout w a) as))"
  "lw_lines (after_log strf as l ev w) =
     (\<lambda>a. lw_lines w a @ map (line_of strf w ev) (filter (\<lambda>b. b = a \<and> takes w l b \<and> \<not> is_stdout w b) as))"
  by (simp_all add: after_log_def)

lemma after_log_same [simp]:
  "takes (after_log strf as l ev w) = takes w" "line_of strf' (after_log strf as l ev w) = line_of strf' w"
  "dated strf' (after_log strf as l ev w) = dated strf' w" "is_stdout (after_log strf as l ev w) = is_stdout w"
  by (simp_all add: fun_eq_iff takes_def line_of_def dated_def is_stdout_def)

lemma after_log_append: "after_log strf bs l ev (after_log strf as l ev w) = after_log strf (as @ bs) l ev w"
  by (rule log_world.equality) (simp_all add: after_log_output)

lemma after_log_Nil: "after_log strf [] l ev w = w"
  by (rule log_world.equality) (simp_all add: after_log_output)

lemma appender_log_spec:
  assumes "dated strf w ev a"
  shows "appender_log strf a l ev w = Inr (after_log strf [a] l ev w)"
proof (cases "ap_sink (lw_appenders w a)")
  case To_stdout
  have "after_log strf [a] l ev w = (if takes w l a then w\<lparr>lw_stdout := lw_stdout w @ line_of strf w ev a\<rparr> else w)"
    by (rule log_world.equality) (use To_stdout in \<open>simp_all add: after_log_output is_stdout_def\<close>)
  then show ?thesis
    using To_stdout format_dated [OF assms] by (simp add: appender_log_def stdout_log_def takes_def Let_def)
next
  case (To_file f)
  have "after_log strf [a] l ev w =
      (if takes w l a then w\<lparr>lw_lines := (lw_lines w)(a := lw_lines w a @ [line_of strf w ev a])\<rparr> else w)"
    by (rule log_world.equality) (use To_file in \<open>auto simp: after_log_output is_stdout_def fun_eq_iff\<close>)
  then show ?thesis
    using To_file format_dated [OF assms]
    by (simp add: appender_log_def file_log_def formatter_format_def takes_def Let_def)
qed

lemma log_appenders_spec:
  "list_all (dated strf w ev) as \<Longrightarrow> log_appenders strf as l ev w = Inr (after_log strf as l ev w)"
proof (induction as arbitrary: w)
  case Nil
  show ?case by (simp add: after_log_Nil)
next
  case (Cons a as)
  then show ?case using after_log_append [of strf as l ev "[a]" w] by (simp add: appender_log_spec)
qed

section \<open>Names\<close>

text \<open>Names find their loggers, no two the same, and the root is called \<open>root\<close>.\<close>

definition names_ok :: "log_world \<Rightarrow> bool" where
  "names_ok w \<longleftrightarrow> std_less.map_ordered (lw_names w) \<and> distinct (map snd (lw_names w)) \<and>
     map_find (<) ''root'' (lw_names w) = Some (lw_root w)"

lemma names_new: "names_ok (manager_new root aps lgs)"
  by (simp add: names_ok_def manager_new_def map_emplace_def map_find_def equiv_key_def)

lemma emplace_new_set:
  "map_find (<) k m = None \<Longrightarrow> mset (map_emplace (<) k v m) = mset ((k, v) # m)" for k :: "'k::linorder"
  unfolding map_emplace_def map_find_def
  by (induction m) (auto simp: equiv_key_def split: if_splits)

lemma names_get:
  assumes "names_ok w" "fresh \<notin> snd ` set (lw_names w)"
  shows "names_ok (snd (get_logger name fresh w))"
proof (cases "map_find (<) name (lw_names w)")
  case None
  have "name \<noteq> ''root''" using assms(1) None by (auto simp: names_ok_def)
  moreover have "distinct (map snd (map_emplace (<) name fresh (lw_names w)))"
  proof -
    have "mset (map snd (map_emplace (<) name fresh (lw_names w))) = mset (fresh # map snd (lw_names w))"
      using emplace_new_set [OF None, of fresh] by (metis list.simps(9) mset_map snd_conv)
    moreover have "distinct (fresh # map snd (lw_names w))" using assms by (simp add: names_ok_def)
    ultimately show ?thesis by (metis mset_eq_imp_distinct_iff)
  qed
  ultimately show ?thesis
    using assms(1) None std_less.emplace_ordered [of "lw_names w" name fresh]
      std_less.find_emplace_other [of name "''root''" fresh "lw_names w"]
    by (simp add: get_logger_def names_ok_def equiv_key_def neq_iff)
qed (use assms in \<open>simp add: get_logger_def\<close>)

lemma find_snd: "map_find lt k m = Some v \<Longrightarrow> v \<in> snd ` set m"
  by (auto simp: map_find_def find_Some_iff) (metis image_eqI nth_mem snd_conv)

lemma find_inj:
  assumes "distinct (map snd m)" "map_find (<) k m = Some v" "map_find (<) k' m = Some v"
  shows "k = (k' :: 'k::linorder)"
proof -
  from assms(2,3) obtain e e' where "e \<in> set m" "equiv_key (<) k (fst e)" "snd e = v"
    "e' \<in> set m" "equiv_key (<) k' (fst e')" "snd e' = v"
    by (auto simp: map_find_def find_Some_iff) (metis fst_conv nth_mem snd_conv)
  moreover from this assms(1) have "e = e'" by (metis distinct_map inj_onD)
  ultimately show ?thesis by (simp add: equiv_key_def) (metis less_linear)
qed

lemma get_logger_found:
  assumes "names_ok w" "get_logger name fresh w = (g, w')"
  shows "map_find (<) name (lw_names w') = Some g"
  using assms std_less.find_emplace [of "lw_names w" name fresh]
  by (auto simp: get_logger_def names_ok_def split: option.splits)

text \<open>Asking again for a name gives the same logger, another name another one.\<close>

lemma get_logger_again:
  "names_ok w \<Longrightarrow> get_logger name fresh w = (g, w') \<Longrightarrow> get_logger name fresh' w' = (g, w')"
  using get_logger_found [of w name fresh g w'] by (simp add: get_logger_def)

lemma get_logger_other:
  assumes "names_ok w" "get_logger name fresh w = (g, w')" "fresh \<notin> snd ` set (lw_names w)"
    and "fresh' \<notin> snd ` set (lw_names w')" "name' \<noteq> name"
  shows "fst (get_logger name' fresh' w') \<noteq> g"
proof -
  have k: "names_ok w'" using names_get [OF assms(1,3), of name] assms(2) by simp
  have g: "map_find (<) name (lw_names w') = Some g"
    by (rule get_logger_found [OF assms(1,2)])
  show ?thesis
  proof (cases "map_find (<) name' (lw_names w')")
    case None
    with find_snd [OF g] assms(4) show ?thesis by (auto simp: get_logger_def)
  next
    case (Some g')
    then have "g' \<noteq> g" using find_inj g k assms(5) by (metis names_ok_def)
    with Some show ?thesis by (simp add: get_logger_def)
  qed
qed

end
