(* ===== verification/Async_Logger.thy ===== *)
theory Async_Logger
  imports Prelude
begin

text \<open>
  \<open>AsyncLogger\<close> of \<open>acid/logger/async_logger.h\<close> and \<open>async_logger.cpp\<close>: threads that append
  lines to four buffers and one thread that writes full buffers to the file. All of it
  runs under one mutex, so a step is what a thread does from taking the mutex to giving it
  up, in \<open>wait\<close> or at the end. \<open>signal\<close> wakes one of the waiting threads, whichever:
  \<open>pick\<close> chooses.
\<close>

section \<open>LogBuffer\<close>

text \<open>A buffer is what it holds up to \<open>m_cur_ptr\<close>.\<close>

definition BUFFER_SIZE :: nat where
  "BUFFER_SIZE = 1024 * 1024"

definition available :: "string \<Rightarrow> nat" where
  "available b = BUFFER_SIZE - length b"

definition buffer_append :: "string \<Rightarrow> string \<Rightarrow> string" where
  "buffer_append line b = (if available b > length line then b @ line else b)"

section \<open>State\<close>

datatype who = Flusher | Appender nat

text \<open>Where \<open>run\<close> is: before taking the mutex, in \<open>wait_timeout\<close>, back from it with its
  result, or finished.\<close>

datatype flusher_pc = At_top | In_wait | Back bool | Finished

text \<open>\<open>al_pending\<close> are the lines of the threads that are in the waiting loop of \<open>append\<close>;
  \<open>al_waiters\<close> are the threads in \<open>m_cond\<close>.\<close>

record async =
  al_data :: "nat \<Rightarrow> string"
  al_cur :: nat
  al_free :: "nat list"
  al_flush :: "nat list"
  al_file :: string
  al_run :: bool
  al_pending :: "nat \<Rightarrow> string option"
  al_waiters :: "who list"
  al_woken :: "nat list"
  al_flusher :: flusher_pc

definition BUFFER_NUM :: nat where
  "BUFFER_NUM = 4"

text \<open>The constructor: the current buffer stays at the front of the free ones. \<open>opened\<close> says
  whether \<open>fopen\<close> succeeds; it empties the file.\<close>

definition async_new :: "bool \<Rightarrow> async res" where
  "async_new opened =
     (if \<not> opened then Inl Assert_failed
      else Inr \<lparr>al_data = (\<lambda>_. []), al_cur = 0, al_free = [0..<BUFFER_NUM], al_flush = [], al_file = [],
        al_run = True, al_pending = (\<lambda>_. None), al_waiters = [], al_woken = [], al_flusher = At_top\<rparr>)"

definition wake :: "who \<Rightarrow> async \<Rightarrow> async" where
  "wake w s =
     (let s = s\<lparr>al_waiters := remove1 w (al_waiters s)\<rparr> in
      case w of
        Flusher \<Rightarrow> s\<lparr>al_flusher := Back True\<rparr>
      | Appender t \<Rightarrow> s\<lparr>al_woken := al_woken s @ [t]\<rparr>)"

definition cond_signal :: "nat \<Rightarrow> async \<Rightarrow> async" where
  "cond_signal pick s =
     (if al_waiters s = [] then s else wake (al_waiters s ! (pick mod length (al_waiters s))) s)"

section \<open>append\<close>

text \<open>After the waiting loop: a free buffer is there.\<close>

definition append_take :: "nat \<Rightarrow> string \<Rightarrow> async \<Rightarrow> async" where
  "append_take pick line s =
     (let cur = hd (al_free s) in
      cond_signal pick (s\<lparr>al_cur := cur, al_data := (al_data s)(cur := buffer_append line (al_data s cur))\<rparr>))"

text \<open>The loop: with no free buffer, signal and wait.\<close>

definition append_loop :: "nat \<Rightarrow> nat \<Rightarrow> string \<Rightarrow> async \<Rightarrow> async" where
  "append_loop pick t line s =
     (if al_free s = [] then
        let s = cond_signal pick s in
        s\<lparr>al_waiters := al_waiters s @ [Appender t], al_pending := (al_pending s)(t \<mapsto> line)\<rparr>
      else append_take pick line s)"

definition async_append :: "nat \<Rightarrow> nat \<Rightarrow> string \<Rightarrow> async \<Rightarrow> async res" where
  "async_append pick t line s =
     (let cur = al_cur s in
      if available (al_data s cur) > length line then
        Inr (s\<lparr>al_data := (al_data s)(cur := buffer_append line (al_data s cur))\<rparr>)
      else if al_free s = [] then Inl Undefined
      else Inr (append_loop pick t line (s\<lparr>al_free := tl (al_free s), al_flush := al_flush s @ [cur]\<rparr>)))"

text \<open>A woken thread has the mutex back and looks again.\<close>

definition append_resume :: "nat \<Rightarrow> nat \<Rightarrow> async \<Rightarrow> async" where
  "append_resume pick t s =
     (case al_pending s t of
        None \<Rightarrow> s
      | Some line \<Rightarrow>
          append_loop pick t line
            (s\<lparr>al_woken := remove1 t (al_woken s), al_pending := (al_pending s)(t := None)\<rparr>))"

section \<open>run\<close>

definition flusher_wait :: "async \<Rightarrow> async" where
  "flusher_wait s =
     (if al_run s then s\<lparr>al_flusher := In_wait, al_waiters := al_waiters s @ [Flusher]\<rparr>
      else s\<lparr>al_flusher := Finished\<rparr>)"

definition flusher_timeout :: "async \<Rightarrow> async" where
  "flusher_timeout s = s\<lparr>al_waiters := remove1 Flusher (al_waiters s), al_flusher := Back False\<rparr>"

text \<open>Writing out: \<open>flush_buffers_\<close> from the front, each then reset and free.\<close>

definition write_buffer :: "nat \<Rightarrow> async \<Rightarrow> async" where
  "write_buffer b s =
     s\<lparr>al_file := al_file s @ al_data s b, al_data := (al_data s)(b := []), al_free := al_free s @ [b]\<rparr>"

definition flush_loop :: "async \<Rightarrow> async" where
  "flush_loop s = fold write_buffer (al_flush s) (s\<lparr>al_flush := []\<rparr>)"

definition flusher_go :: "nat \<Rightarrow> bool \<Rightarrow> async \<Rightarrow> async" where
  "flusher_go pick ret s =
     (if \<not> al_run s then s\<lparr>al_flusher := Finished\<rparr>
      else if ret then
        let empty = (al_free s = []); s = flush_loop s; s = (if empty then cond_signal pick s else s)
        in s\<lparr>al_flusher := At_top\<rparr>
      else if al_data s (al_cur s) = [] then s\<lparr>al_flusher := At_top\<rparr>
      else s\<lparr>al_file := al_file s @ al_data s (al_cur s), al_data := (al_data s)(al_cur s := []),
        al_flusher := At_top\<rparr>)"

section \<open>Destruction\<close>

text \<open>The destructor takes no lock: it writes what is left, closes the file and wakes every
  waiting thread.\<close>

definition cond_broadcast :: "async \<Rightarrow> async" where
  "cond_broadcast s = fold wake (al_waiters s) s"

definition async_destroy :: "async \<Rightarrow> async" where
  "async_destroy s =
     (let s = s\<lparr>al_file := al_file s @ concat (map (al_data s) (al_flush s)), al_flush := []\<rparr>;
          s = s\<lparr>al_file := al_file s @ al_data s (al_cur s), al_run := False\<rparr>
      in cond_broadcast s)"

text \<open>
  Since it takes no lock it can run beside the writing thread, also inside the loop of \<open>run\<close>
  that writes the full buffers. The accesses of the two, one by one: \<open>buffer\<close> is what the thread
  has read from the front of the queue; popping an empty queue and writing to a closed file
  are undefined. \<open>None\<close>: no step is left.
\<close>

datatype writer_pc = W_test | W_write nat | W_pop nat | W_free nat | W_done
datatype destroy_pc = D_test | D_write nat | D_pop | D_current | D_close | D_done

record overlap =
  ov_open :: bool
  ov_writer :: writer_pc
  ov_destroyer :: destroy_pc
  ov_logger :: async

definition writer_access :: "overlap \<Rightarrow> overlap res option" where
  "writer_access c =
     (let s = ov_logger c in
      case ov_writer c of
        W_test \<Rightarrow> Some (Inr (c\<lparr>ov_writer := (case al_flush s of [] \<Rightarrow> W_done | buffer # _ \<Rightarrow> W_write buffer)\<rparr>))
      | W_write buffer \<Rightarrow>
          Some (ensureR (ov_open c) Undefined
            (Inr (c\<lparr>ov_writer := W_pop buffer, ov_logger := s\<lparr>al_file := al_file s @ al_data s buffer\<rparr>\<rparr>)))
      | W_pop buffer \<Rightarrow>
          Some (ensureR (al_flush s \<noteq> []) Undefined
            (Inr (c\<lparr>ov_writer := W_free buffer, ov_logger := s\<lparr>al_flush := tl (al_flush s)\<rparr>\<rparr>)))
      | W_free buffer \<Rightarrow>
          Some (Inr (c\<lparr>ov_writer := W_test,
            ov_logger := s\<lparr>al_data := (al_data s)(buffer := []), al_free := al_free s @ [buffer]\<rparr>\<rparr>))
      | W_done \<Rightarrow> None)"

definition destroyer_access :: "overlap \<Rightarrow> overlap res option" where
  "destroyer_access c =
     (let s = ov_logger c in
      case ov_destroyer c of
        D_test \<Rightarrow> Some (Inr (c\<lparr>ov_destroyer := (case al_flush s of [] \<Rightarrow> D_current | buffer # _ \<Rightarrow> D_write buffer)\<rparr>))
      | D_write buffer \<Rightarrow>
          Some (Inr (c\<lparr>ov_destroyer := D_pop, ov_logger := s\<lparr>al_file := al_file s @ al_data s buffer\<rparr>\<rparr>))
      | D_pop \<Rightarrow>
          Some (ensureR (al_flush s \<noteq> []) Undefined
            (Inr (c\<lparr>ov_destroyer := D_test, ov_logger := s\<lparr>al_flush := tl (al_flush s)\<rparr>\<rparr>)))
      | D_current \<Rightarrow>
          Some (Inr (c\<lparr>ov_destroyer := D_close, ov_logger := s\<lparr>al_file := al_file s @ al_data s (al_cur s)\<rparr>\<rparr>))
      | D_close \<Rightarrow>
          Some (Inr (c\<lparr>ov_open := False, ov_destroyer := D_done, ov_logger := cond_broadcast (s\<lparr>al_run := False\<rparr>)\<rparr>))
      | D_done \<Rightarrow> None)"

text \<open>An interleaving of the two: \<open>True\<close> is an access of the writing thread.\<close>

fun accesses :: "bool list \<Rightarrow> overlap \<Rightarrow> overlap res option" where
  "accesses [] c = Some (Inr c)"
| "accesses (w # ws) c =
     (case (if w then writer_access c else destroyer_access c) of
        None \<Rightarrow> None
      | Some (Inl e) \<Rightarrow> Some (Inl e)
      | Some (Inr c) \<Rightarrow> accesses ws c)"

definition both_start :: "writer_pc \<Rightarrow> async \<Rightarrow> overlap" where
  "both_start w s = \<lparr>ov_open = True, ov_writer = w, ov_destroyer = D_test, ov_logger = s\<rparr>"

section \<open>Interleavings\<close>

text \<open>The steps, with the number \<open>signal\<close> picks with; \<open>None\<close> is a step that is not possible.\<close>

datatype async_act = Append nat string | Resume nat | Enter_wait | Time_out | Leave_wait

definition async_step :: "nat \<Rightarrow> async_act \<Rightarrow> async \<Rightarrow> async res option" where
  "async_step pick a s =
     (case a of
        Append t line \<Rightarrow> (if al_pending s t = None then Some (async_append pick t line s) else None)
      | Resume t \<Rightarrow> (if t \<in> set (al_woken s) then Some (Inr (append_resume pick t s)) else None)
      | Enter_wait \<Rightarrow> (if al_flusher s = At_top then Some (Inr (flusher_wait s)) else None)
      | Time_out \<Rightarrow> (if al_flusher s = In_wait then Some (Inr (flusher_timeout s)) else None)
      | Leave_wait \<Rightarrow> (case al_flusher s of Back ret \<Rightarrow> Some (Inr (flusher_go pick ret s)) | _ \<Rightarrow> None))"

fun async_run :: "(nat \<times> async_act) list \<Rightarrow> async \<Rightarrow> async res option" where
  "async_run [] s = Some (Inr s)"
| "async_run ((pick, a) # as) s =
     (case async_step pick a s of
        None \<Rightarrow> None
      | Some (Inl e) \<Rightarrow> Some (Inl e)
      | Some (Inr s) \<Rightarrow> async_run as s)"

end
