(* ===== verification/Async_Logger_Spec.thy ===== *)
theory Async_Logger_Spec
  imports Async_Logger
begin

text \<open>
  What \<open>AsyncLogger\<close> promises: the lines of one logging thread come out in the order they
  were logged (\<open>logged_inv\<close>), as long as no wait of the writing thread times out while full
  buffers are queued. Then three ways out of this: the time-out that overtakes the queue,
  a second waiting thread, and the wake-up that nobody hears.
\<close>

section \<open>Signals touch no data\<close>

lemma wake_keeps [simp]:
  "al_data (wake w s) = al_data s" "al_cur (wake w s) = al_cur s" "al_free (wake w s) = al_free s"
  "al_flush (wake w s) = al_flush s" "al_file (wake w s) = al_file s" "al_run (wake w s) = al_run s"
  "al_pending (wake w s) = al_pending s"
  by (cases w; simp add: wake_def Let_def)+

lemma cond_signal_keeps [simp]:
  "al_data (cond_signal pick s) = al_data s" "al_cur (cond_signal pick s) = al_cur s"
  "al_free (cond_signal pick s) = al_free s" "al_flush (cond_signal pick s) = al_flush s"
  "al_file (cond_signal pick s) = al_file s" "al_run (cond_signal pick s) = al_run s"
  "al_pending (cond_signal pick s) = al_pending s"
  by (simp_all add: cond_signal_def)

lemma fold_wake_file: "al_file (fold wake ws s) = al_file s"
  by (induction ws arbitrary: s) simp_all

lemma flush_fold:
  "distinct bs \<Longrightarrow>
   al_file (fold write_buffer bs s) = al_file s @ concat (map (al_data s) bs) \<and>
   al_data (fold write_buffer bs s) = (\<lambda>b. if b \<in> set bs then [] else al_data s b) \<and>
   al_free (fold write_buffer bs s) = al_free s @ bs"
proof (induction bs arbitrary: s)
  case (Cons b bs)
  then have "map (al_data (write_buffer b s)) bs = map (al_data s) bs" by (auto simp: write_buffer_def)
  with Cons show ?case by (auto simp: write_buffer_def fun_eq_iff)
qed simp

lemma fold_write_keeps [simp]:
  "al_cur (fold write_buffer bs s) = al_cur s" "al_flush (fold write_buffer bs s) = al_flush s"
  "al_run (fold write_buffer bs s) = al_run s" "al_pending (fold write_buffer bs s) = al_pending s"
  by (induction bs arbitrary: s) (simp_all add: write_buffer_def)

lemma flush_loop_spec:
  assumes "distinct (al_flush s)"
  shows "al_file (flush_loop s) = al_file s @ concat (map (al_data s) (al_flush s))"
    "al_data (flush_loop s) = (\<lambda>b. if b \<in> set (al_flush s) then [] else al_data s b)"
    "al_free (flush_loop s) = al_free s @ al_flush s" "al_flush (flush_loop s) = []"
    "al_cur (flush_loop s) = al_cur s" "al_run (flush_loop s) = al_run s" "al_pending (flush_loop s) = al_pending s"
  using flush_fold [OF assms, of "s\<lparr>al_flush := []\<rparr>"]
  by (simp_all add: flush_loop_def cong: if_cong)

section \<open>One logging thread\<close>

text \<open>A line that does not fit an empty buffer is dropped.\<close>

definition kept :: "string \<Rightarrow> string" where
  "kept line = (if length line < BUFFER_SIZE then line else [])"

text \<open>The runs with thread 0 logging \<open>ls\<close>; a wait that has timed out finds no full buffer. A
  thread may come back from its wait without a signal.\<close>

inductive logged :: "string list \<Rightarrow> async \<Rightarrow> bool" where
  start: "async_new True = Inr s \<Longrightarrow> logged [] s"
| append: "logged ls s \<Longrightarrow> al_pending s 0 = None \<Longrightarrow> async_append pick 0 line s = Inr s' \<Longrightarrow> logged (ls @ [line]) s'"
| resume: "logged ls s \<Longrightarrow> logged ls (append_resume pick 0 s)"
| enter: "logged ls s \<Longrightarrow> al_flusher s = At_top \<Longrightarrow> logged ls (flusher_wait s)"
| timeout: "logged ls s \<Longrightarrow> al_flusher s = In_wait \<Longrightarrow> logged ls (flusher_timeout s)"
| spurious: "logged ls s \<Longrightarrow> al_flusher s = In_wait \<Longrightarrow> logged ls (wake Flusher s)"
| leave: "logged ls s \<Longrightarrow> al_flusher s = Back ret \<Longrightarrow> ret \<or> al_flush s = [] \<Longrightarrow> logged ls (flusher_go pick ret s)"

text \<open>Four buffers, each free or full. A thread that logs freely finds its buffer in front of the
  free ones, which are empty behind it; while it waits either all buffers are full or
  all are empty.\<close>

definition async_inv :: "string \<Rightarrow> async \<Rightarrow> bool" where
  "async_inv out s \<longleftrightarrow>
     distinct (al_free s @ al_flush s) \<and> set (al_free s @ al_flush s) = {0..<BUFFER_NUM} \<and> al_run s \<and>
     al_cur s < BUFFER_NUM \<and>
     (case al_pending s 0 of
        None \<Rightarrow> al_free s \<noteq> [] \<and> al_cur s = hd (al_free s) \<and> (\<forall>b \<in> set (tl (al_free s)). al_data s b = []) \<and>
          out = al_file s @ concat (map (al_data s) (al_flush s)) @ al_data s (al_cur s)
      | Some line \<Rightarrow>
          (al_free s = [] \<or> al_flush s = [] \<and> al_cur s \<in> set (al_free s) \<and> (\<forall>b \<in> set (al_free s). al_data s b = [])) \<and>
          out = al_file s @ concat (map (al_data s) (al_flush s)) @ kept line)"

lemma buffers_exist: "set (fs @ ws) = {0..<BUFFER_NUM} \<Longrightarrow> fs = [] \<Longrightarrow> ws \<noteq> []"
  by (auto simp: BUFFER_NUM_def)

lemma async_new_inv: "async_new True = Inr s \<Longrightarrow> async_inv [] s"
  by (auto simp: async_new_def async_inv_def BUFFER_NUM_def)

lemma buffer_append_empty: "buffer_append line [] = kept line"
  by (simp add: buffer_append_def kept_def available_def)

lemma append_loop_inv:
  assumes "distinct (al_free s @ al_flush s)" "set (al_free s @ al_flush s) = {0..<BUFFER_NUM}" "al_run s"
    and "\<forall>b \<in> set (al_free s). al_data s b = []" "al_pending s 0 = None" "al_cur s < BUFFER_NUM"
    and "out = al_file s @ concat (map (al_data s) (al_flush s))"
  shows "async_inv (out @ kept line) (append_loop pick 0 line s)"
proof (cases "al_free s")
  case Nil
  with assms show ?thesis by (simp add: append_loop_def async_inv_def Let_def)
next
  case (Cons b bs)
  then have "al_data s b = []" "b \<notin> set bs" "b \<notin> set (al_flush s)" "b < BUFFER_NUM" using assms(1,2,4) by auto
  moreover from this have "map ((al_data s)(b := d)) (al_flush s) = map (al_data s) (al_flush s)" for d by auto
  ultimately show ?thesis
    using assms Cons by (simp add: append_loop_def append_take_def async_inv_def Let_def buffer_append_empty)
qed

lemma append_inv:
  assumes "async_inv out s" "al_pending s 0 = None"
  shows "\<exists>s'. async_append pick 0 line s = Inr s' \<and> async_inv (out @ kept line) s'"
proof -
  from assms obtain b bs where f: "al_free s = b # bs" "al_cur s = b" by (cases "al_free s") (auto simp: async_inv_def)
  with assms have i: "distinct (b # bs @ al_flush s)" "set (b # bs @ al_flush s) = {0..<BUFFER_NUM}" "al_run s"
    "\<forall>b \<in> set bs. al_data s b = []" "out = al_file s @ concat (map (al_data s) (al_flush s)) @ al_data s b"
    "b < BUFFER_NUM"
    by (simp_all add: async_inv_def)
  show ?thesis
  proof (cases "length line < available (al_data s b)")
    case True
    then have k: "kept line = line" "buffer_append line (al_data s b) = al_data s b @ line"
      by (auto simp: kept_def available_def buffer_append_def)
    have "map ((al_data s)(b := d)) (al_flush s) = map (al_data s) (al_flush s)" for d using i(1) by auto
    moreover have "\<forall>c \<in> set bs. c \<noteq> b" using i(1) by auto
    ultimately show ?thesis
      using True f i assms(2) by (simp add: async_append_def async_inv_def k Let_def)
  next
    case False
    have "async_inv (out @ kept line) (append_loop pick 0 line (s\<lparr>al_free := bs, al_flush := al_flush s @ [b]\<rparr>))"
      by (rule append_loop_inv) (use i f assms(2) in auto)
    with False f show ?thesis by (simp add: async_append_def Let_def)
  qed
qed

lemma resume_inv:
  assumes "async_inv out s"
  shows "async_inv out (append_resume pick 0 s)"
proof (cases "al_pending s 0")
  case (Some line)
  let ?s = "s\<lparr>al_woken := remove1 0 (al_woken s), al_pending := (al_pending s)(0 := None)\<rparr>"
  from assms Some have "out = (al_file s @ concat (map (al_data s) (al_flush s))) @ kept line"
    by (simp add: async_inv_def)
  moreover have "async_inv ((al_file s @ concat (map (al_data s) (al_flush s))) @ kept line) (append_loop pick 0 line ?s)"
    by (rule append_loop_inv) (use assms Some in \<open>auto simp: async_inv_def\<close>)
  ultimately show ?thesis using Some by (simp add: append_resume_def)
qed (use assms in \<open>simp add: append_resume_def\<close>)

lemma flush_inv:
  assumes "async_inv out s"
  shows "async_inv out (flush_loop s)"
proof -
  have d: "distinct (al_flush s)" using assms by (simp add: async_inv_def)
  show ?thesis
  proof (cases "al_pending s 0")
    case None
    with assms obtain b bs where "al_free s = b # bs" by (cases "al_free s") (auto simp: async_inv_def)
    with None assms show ?thesis by (auto simp: async_inv_def flush_loop_spec [OF d])
  next
    case (Some line)
    with assms show ?thesis by (auto simp: async_inv_def flush_loop_spec [OF d])
  qed
qed

lemma timed_out_inv:
  assumes "async_inv out s" "al_flush s = []"
  shows "async_inv out (s\<lparr>al_file := al_file s @ al_data s (al_cur s), al_data := (al_data s)(al_cur s := [])\<rparr>)"
proof (cases "al_pending s 0")
  case (Some line)
  with assms have "al_data s (al_cur s) = []" by (auto simp: async_inv_def BUFFER_NUM_def)
  with assms Some show ?thesis by (auto simp: async_inv_def)
qed (use assms in \<open>auto simp: async_inv_def\<close>)

lemma async_inv_control [simp]:
  "async_inv out (s\<lparr>al_flusher := p\<rparr>) = async_inv out s"
  "async_inv out (s\<lparr>al_waiters := ws\<rparr>) = async_inv out s"
  "async_inv out (cond_signal pick s) = async_inv out s"
  by (simp_all add: async_inv_def cong: option.case_cong)

lemma leave_inv:
  assumes "async_inv out s" "ret \<or> al_flush s = []"
  shows "async_inv out (flusher_go pick ret s)"
  using assms flush_inv [OF assms(1)] timed_out_inv [OF assms(1)]
  by (cases ret) (simp_all add: flusher_go_def Let_def)

lemma logged_inv: "logged ls s \<Longrightarrow> async_inv (concat (map kept ls)) s"
proof (induction rule: logged.induct)
  case (append ls s pick line s')
  with append_inv [of _ s pick line] show ?case by auto
next
  case (enter ls s)
  then have "al_run s" by (simp add: async_inv_def)
  with enter show ?case by (simp add: flusher_wait_def)
next
  case (timeout ls s)
  then show ?case by (simp add: flusher_timeout_def)
next
  case (spurious ls s)
  then show ?case by (simp add: wake_def Let_def)
qed (simp_all add: async_new_inv resume_inv leave_inv)

lemma destroy_writes:
  assumes "async_inv out s" "al_pending s 0 = None"
  shows "al_file (async_destroy s) = out"
  using assms by (simp add: async_destroy_def cond_broadcast_def fold_wake_file async_inv_def Let_def)

text \<open>The accesses of the destructor on their own add up to \<open>async_destroy\<close>.\<close>

lemma accesses_append:
  "accesses (ws @ ws') c =
     (case accesses ws c of None \<Rightarrow> None | Some (Inl e) \<Rightarrow> Some (Inl e) | Some (Inr c) \<Rightarrow> accesses ws' c)"
  by (induction ws arbitrary: c) (auto split: option.splits sum.splits)

lemma destroyer_round:
  assumes "al_flush s = b # bs"
  shows "accesses [False, False, False] (both_start w s) =
    Some (Inr (both_start w (s\<lparr>al_file := al_file s @ al_data s b, al_flush := bs\<rparr>)))"
  using assms by (simp add: both_start_def destroyer_access_def)

lemma destroyer_rounds:
  "accesses (replicate (3 * length (al_flush s)) False) (both_start w s) =
     Some (Inr (both_start w (s\<lparr>al_file := al_file s @ concat (map (al_data s) (al_flush s)), al_flush := []\<rparr>)))"
proof (induction "al_flush s" arbitrary: s)
  case (Cons b bs)
  let ?s = "s\<lparr>al_file := al_file s @ al_data s b, al_flush := bs\<rparr>"
  have r: "replicate (3 * length (al_flush s)) False = [False, False, False] @ replicate (3 * length bs) False"
    by (simp flip: Cons.hyps(2) add: numeral_3_eq_3)
  note R = destroyer_round [OF Cons.hyps(2) [symmetric], of w]
  from Cons.hyps(1) [of ?s] show ?case
    unfolding r accesses_append R by (simp flip: Cons.hyps(2))
qed (simp add: both_start_def)

lemma destroyer_alone:
  "accesses (replicate (3 * length (al_flush s) + 3) False) (both_start w s) =
     Some (Inr \<lparr>ov_open = False, ov_writer = w, ov_destroyer = D_done, ov_logger = async_destroy s\<rparr>)"
  unfolding replicate_add accesses_append destroyer_rounds
  by (simp add: numeral_3_eq_3 both_start_def destroyer_access_def async_destroy_def Let_def)

text \<open>Inside the writer's loop they do not: both can hold the same buffer, which is then written
  twice, and when it was the last one the second pop is of an empty queue.\<close>

lemma destroyer_overlaps:
  assumes "al_flush s = b # bs"
  shows "\<exists>c. accesses [True, False, True, False] (both_start W_test s) = Some (Inr c) \<and>
    al_file (ov_logger c) = al_file s @ al_data s b @ al_data s b \<and>
    (bs = [] \<longrightarrow> accesses [True, False] c = Some (Inl Undefined))"
  using assms by (simp add: both_start_def destroyer_access_def writer_access_def)

section \<open>Out of order, undefined, and asleep\<close>

text \<open>A line that fills a buffer but for one byte, and the runs that show what goes wrong.\<close>

definition long_line :: string where
  "long_line = replicate (BUFFER_SIZE - 1) (CHR ''a'')"

lemma long_line_length: "length long_line = BUFFER_SIZE - 1" "long_line \<noteq> []"
  by (simp_all add: long_line_def BUFFER_SIZE_def)

definition overtaking_run :: "(nat \<times> async_act) list" where
  "overtaking_run =
     [(0, Append 0 long_line), (0, Append 0 ''b''), (0, Enter_wait), (0, Time_out), (0, Leave_wait)]"

lemma timeout_overtakes:
  "\<exists>s s'. async_new True = Inr s \<and> async_run overtaking_run s = Some (Inr s') \<and>
    al_file (async_destroy s') = ''b'' @ long_line"
  by (simp add: async_new_def overtaking_run_def async_step_def async_append_def append_loop_def append_take_def
      available_def buffer_append_def long_line_length BUFFER_SIZE_def BUFFER_NUM_def cond_signal_def flusher_wait_def
      flusher_timeout_def flusher_go_def async_destroy_def cond_broadcast_def upt_rec_numeral Let_def)

definition filling_run :: "(nat \<times> async_act) list" where
  "filling_run =
     [(0, Append 0 long_line), (0, Append 0 long_line), (0, Append 0 long_line), (0, Append 0 long_line),
      (0, Append 0 long_line)]"

text \<open>All buffers full and thread 0 waiting, before the writing thread has come to its wait.\<close>

definition asleep :: "async \<Rightarrow> bool" where
  "asleep s \<longleftrightarrow> al_free s = [] \<and> al_woken s = [] \<and> al_pending s 0 \<noteq> None \<and> Appender 0 \<in> set (al_waiters s) \<and>
     al_flusher s \<noteq> Back True"

lemma filled: "\<exists>s s'. async_new True = Inr s \<and> async_run filling_run s = Some (Inr s') \<and> asleep s' \<and>
    al_pending s' 1 = None \<and> al_data s' (al_cur s') = long_line"
  by (simp add: async_new_def filling_run_def async_step_def async_append_def append_loop_def append_take_def
      available_def buffer_append_def long_line_length BUFFER_SIZE_def BUFFER_NUM_def cond_signal_def asleep_def
      upt_rec_numeral Let_def)

lemma asleep_step:
  assumes "asleep s" "async_step pick a s = Some r" "\<forall>t line. a \<noteq> Append t line"
  shows "\<exists>s'. r = Inr s' \<and> asleep s' \<and> al_pending s' 0 = al_pending s 0"
proof (cases a)
  case Time_out
  have "Appender 0 \<in> set (remove1 Flusher ws) \<longleftrightarrow> Appender 0 \<in> set ws" for ws by (induction ws) auto
  with Time_out assms show ?thesis
    by (auto simp: async_step_def asleep_def flusher_timeout_def split: if_splits)
next
  case Leave_wait
  with assms show ?thesis
    by (cases "al_flusher s") (auto simp: async_step_def asleep_def flusher_go_def Let_def split: if_splits)
qed (use assms in \<open>auto simp: async_step_def asleep_def flusher_wait_def split: if_splits\<close>)

text \<open>Steps in which no thread starts to append.\<close>

definition no_append :: "(nat \<times> async_act) list \<Rightarrow> bool" where
  "no_append as \<longleftrightarrow> list_all (\<lambda>(pick, a). case a of Append t line \<Rightarrow> False | _ \<Rightarrow> True) as"

lemma asleep_for_ever:
  assumes "asleep s" "async_run as s = Some r" "no_append as"
  shows "\<exists>s'. r = Inr s' \<and> asleep s' \<and> al_pending s' 0 = al_pending s 0"
  using assms
proof (induction as arbitrary: s)
  case (Cons x as)
  obtain pick a where x: "x = (pick, a)" by fastforce
  with Cons.prems(2) obtain r1 where r1: "async_step pick a s = Some r1" by (auto split: option.splits)
  have "\<forall>t line. a \<noteq> Append t line" "no_append as" using Cons.prems(3) x by (auto simp: no_append_def)
  with asleep_step [OF Cons.prems(1) r1]
  obtain s1 where "r1 = Inr s1" "asleep s1" "al_pending s1 0 = al_pending s 0" by auto
  with Cons.IH [of s1] Cons.prems(2) \<open>no_append as\<close> x r1 show ?case by auto
qed auto

text \<open>A second thread that finds its line too long while the first one waits pops from an
  empty queue.\<close>

lemma second_waiter_undefined:
  "asleep s \<Longrightarrow> available (al_data s (al_cur s)) \<le> length line \<Longrightarrow> async_append pick t line s = Inl Undefined"
  by (simp add: asleep_def async_append_def Let_def)

end
