(* ===== verification/Lexical_Cast.thy ===== *)
theory Lexical_Cast
  imports Log_Format
begin

text \<open>
  \<open>acid/common/lexical_cast.h\<close> and \<open>lexical_cast.cpp\<close>: conversions between text and the
  built-in types. The conversions of numbers go through \<open>std::stoi\<close> and its relatives,
  which skip white space, read a sign and as many digits as there are, and raise
  \<open>std::invalid_argument\<close> without a digit and \<open>std::out_of_range\<close> beyond their type.
\<close>

section \<open>The numbers of the library\<close>

definition is_space :: "char \<Rightarrow> bool" where
  "is_space c \<longleftrightarrow> c = CHR '' '' \<or> (9 \<le> (of_char c :: nat) \<and> (of_char c :: nat) \<le> 13)"

definition is_digit :: "char \<Rightarrow> bool" where
  "is_digit c \<longleftrightarrow> CHR ''0'' \<le> c \<and> c \<le> CHR ''9''"

text \<open>Sign and magnitude of the number a text starts with.\<close>

definition scan_number :: "string \<Rightarrow> (bool \<times> nat) res" where
  "scan_number s =
     (let s = dropWhile is_space s;
          negative = (s \<noteq> [] \<and> hd s = CHR ''-'');
          s = (if s \<noteq> [] \<and> (hd s = CHR ''-'' \<or> hd s = CHR ''+'') then tl s else s);
          digits = takeWhile is_digit s
      in if digits = [] then Inl Invalid_argument else Inr (negative, read_base 10 digits))"

definition signed_value :: "bool \<times> nat \<Rightarrow> int" where
  "signed_value n = (if fst n then - int (snd n) else int (snd n))"

definition sto_signed :: "string \<Rightarrow> 'a::len word res" where
  "sto_signed s =
     bindR (scan_number s) (\<lambda>n.
       let i = signed_value n in
       if i < - (2 ^ (LENGTH('a) - 1)) \<or> i \<ge> 2 ^ (LENGTH('a) - 1) then Inl Out_of_range
       else Inr (word_of_int i))"

text \<open>\<open>stoul\<close> and \<open>stoull\<close>: a minus sign negates modulo \<open>2 ^ 64\<close>.\<close>

definition sto_unsigned :: "string \<Rightarrow> u64 res" where
  "sto_unsigned s =
     bindR (scan_number s) (\<lambda>n.
       if snd n \<ge> 2 ^ 64 then Inl Out_of_range else Inr (word_of_int (signed_value n)))"

section \<open>The converters\<close>

definition convert_int :: "string \<Rightarrow> u32 res" where
  "convert_int s = sto_signed s"

text \<open>The result of \<open>stoul\<close>, of 64 bits, is returned as an \<open>unsigned int\<close>.\<close>

definition convert_uint :: "string \<Rightarrow> u32 res" where
  "convert_uint s = bindR (sto_unsigned s) (\<lambda>w. Inr (ucast w))"

definition convert_long :: "string \<Rightarrow> u64 res" where
  "convert_long s = sto_signed s"

definition convert_ulong :: "string \<Rightarrow> u64 res" where
  "convert_ulong s = sto_unsigned s"

definition convert_long_long :: "string \<Rightarrow> u64 res" where
  "convert_long_long s = sto_signed s"

definition convert_ulong_long :: "string \<Rightarrow> u64 res" where
  "convert_ulong_long s = sto_unsigned s"

text \<open>\<open>Converter<bool, From>\<close> of an integer, and of text: \<open>check_bool\<close> compares \<open>len\<close>
  characters.\<close>

definition convert_integral_bool :: "int \<Rightarrow> bool" where
  "convert_integral_bool i \<longleftrightarrow> i \<noteq> 0"

definition check_bool :: "string \<Rightarrow> nat \<Rightarrow> string \<Rightarrow> bool" where
  "check_bool from len s = list_all (\<lambda>i. from ! i = s ! i) [0..<len]"

definition convert_bool :: "string \<Rightarrow> bool res" where
  "convert_bool from =
     (let from = c_str from; len = length from in
      if len \<noteq> 4 \<and> len \<noteq> 5 then Inl Invalid_argument
      else if len = 4 then (if check_bool from len ''true'' then Inr True else Inl Invalid_argument)
      else (if check_bool from len ''false'' then Inr False else Inl Invalid_argument))"

text \<open>\<open>Converter<std::string, From>\<close>: \<open>std::to_string\<close> of signed and unsigned integers.\<close>

definition to_string_signed :: "'a::len word \<Rightarrow> string" where
  "to_string_signed w = show_int (sint w)"

definition to_string_unsigned :: "'a::len word \<Rightarrow> string" where
  "to_string_unsigned w = show_nat (unat w)"

section \<open>Reading back what was written\<close>

lemma digit_is_digit: "n < 10 \<Longrightarrow> is_digit (digit n)"
  by (simp add: is_digit_def digit_def less_eq_char_def)

lemma show_nat_digits: "list_all is_digit (show_nat n) \<and> show_nat n \<noteq> []"
proof (induction n rule: less_induct)
  case (less n)
  show ?case
  proof (cases "n < 10")
    case True
    then show ?thesis by (simp add: show_base.simps [of 10 n] digit_is_digit)
  next
    case False
    with less [of "n div 10"] show ?thesis by (simp add: show_base.simps [of 10 n] digit_is_digit)
  qed
qed

lemma digits_not_special: "is_digit c \<Longrightarrow> \<not> is_space c \<and> c \<noteq> CHR ''-'' \<and> c \<noteq> CHR ''+''"
  by (auto simp: is_digit_def is_space_def less_eq_char_def)

lemma scan_digits:
  assumes "list_all is_digit ds" "ds \<noteq> []"
  shows "scan_number ds = Inr (False, read_base 10 ds)" "scan_number (CHR ''-'' # ds) = Inr (True, read_base 10 ds)"
proof -
  obtain d r where d: "ds = d # r" "is_digit d" using assms by (cases ds) auto
  have t: "takeWhile is_digit ds = ds" "takeWhile is_digit r = r"
    using assms(1) d by (auto simp: takeWhile_eq_all_conv list_all_iff)
  show "scan_number ds = Inr (False, read_base 10 ds)"
    using digits_not_special [OF d(2)] d(2) unfolding d(1) by (simp add: scan_number_def Let_def t(2))
  have "\<not> is_space (CHR ''-'')" by (simp add: is_space_def)
  then show "scan_number (CHR ''-'' # ds) = Inr (True, read_base 10 ds)"
    using assms(2) by (simp add: scan_number_def Let_def t(1))
qed

lemma scan_show_int: "\<exists>n. scan_number (show_int i) = Inr n \<and> signed_value n = i"
  using scan_digits [of "show_nat (nat i)"] scan_digits [of "show_nat (nat (- i))"] show_nat_digits
    read_show [of 10]
  by (auto simp: show_int_def signed_value_def)

lemma signed_roundtrip: "sto_signed (to_string_signed w) = Inr w" for w :: "'a::len word"
proof -
  obtain n where "scan_number (show_int (sint w)) = Inr n" "signed_value n = sint w"
    using scan_show_int by blast
  moreover have "- (2 ^ (LENGTH('a) - 1)) \<le> sint w" "sint w < 2 ^ (LENGTH('a) - 1)"
    using sint_greater_eq [of w] sint_less [of w] by simp_all
  ultimately show ?thesis by (simp add: sto_signed_def to_string_signed_def)
qed

lemma unsigned_roundtrip: "sto_unsigned (to_string_unsigned w) = Inr w" for w :: u64
proof -
  have "unat w < 2 ^ 64" using unat_less [of w] by simp
  then show ?thesis
    using scan_digits(1) [of "show_nat (unat w)"] show_nat_digits [of "unat w"] read_show [of 10 "unat w"]
    by (simp add: sto_unsigned_def to_string_unsigned_def signed_value_def)
qed

lemma uint_roundtrip: "convert_uint (to_string_unsigned w) = Inr w" for w :: u32
proof -
  have "unat w < 2 ^ 64" using unat_less [of w] by simp
  then have "to_string_unsigned w = to_string_unsigned (ucast w :: u64)"
    by (simp add: to_string_unsigned_def unsigned_ucast_eq take_bit_nat_eq_self)
  moreover have "ucast (ucast w :: u64) = w" by (rule bit_word_eqI) (auto simp: bit_unsigned_iff)
  ultimately show ?thesis by (simp add: convert_uint_def unsigned_roundtrip)
qed

text \<open>The contract of a pair of conversions: what has been written is read back.\<close>

definition res_option :: "'a res \<Rightarrow> 'a option" where
  "res_option r = (case r of Inl e \<Rightarrow> None | Inr x \<Rightarrow> Some x)"

lemma res_option_simps [simp]: "res_option (Inl e) = None" "res_option (Inr x) = Some x"
  by (simp_all add: res_option_def)

locale text_codec =
  fixes to_text :: "'a \<Rightarrow> string" and of_text :: "string \<Rightarrow> 'a res"
  assumes read_back: "of_text (to_text x) = Inr x"
begin

lemma to_text_inj: "to_text x = to_text z \<longleftrightarrow> x = z"
  by (metis read_back sum.inject(2))

end

interpretation int_text: text_codec to_string_signed convert_int
  by unfold_locales (simp add: convert_int_def signed_roundtrip)

interpretation uint_text: text_codec to_string_unsigned convert_uint
  by unfold_locales (rule uint_roundtrip)

interpretation long_text: text_codec to_string_signed convert_long
  by unfold_locales (simp add: convert_long_def signed_roundtrip)

interpretation ulong_text: text_codec to_string_unsigned convert_ulong
  by unfold_locales (simp add: convert_ulong_def unsigned_roundtrip)

interpretation long_long_text: text_codec to_string_signed convert_long_long
  by unfold_locales (simp add: convert_long_long_def signed_roundtrip)

interpretation ulong_long_text: text_codec to_string_unsigned convert_ulong_long
  by unfold_locales (simp add: convert_ulong_long_def unsigned_roundtrip)

text \<open>A \<open>bool\<close> has no such pair: \<open>std::to_string\<close> writes it as a number, and only the words are
  read.\<close>

definition to_string_bool :: "bool \<Rightarrow> string" where
  "to_string_bool b = show_nat (if b then 1 else 0)"

lemma bool_not_read_back: "convert_bool (to_string_bool b) = Inl Invalid_argument"
  by (cases b) (simp_all, code_simp+)

text \<open>Numbers that are too large for 32 bits are cut off without an error.\<close>

lemma uint_truncates:
  "unat w = n \<Longrightarrow> convert_uint (show_nat n) = Inr (of_nat n)" for w :: u64
  using unsigned_roundtrip [of w] by (auto simp: convert_uint_def to_string_unsigned_def)

lemma bool_texts: "convert_bool ''true'' = Inr True" "convert_bool ''false'' = Inr False"
  by code_simp+

end
