(* ===== verification/Env.thy ===== *)
theory Env
  imports Text StdMap
begin

text \<open>
  \<open>Env\<close> of \<open>acid/common/env.h\<close> and \<open>env.cpp\<close>: the options of the command line, their help
  texts, the paths of the program, and the variables of the process. What \<open>readlink\<close> finds
  is an argument; \<open>setenv\<close> and \<open>getenv\<close> work on a map.
\<close>

record env =
  env_args :: "(string \<times> string) list"
  env_helps :: "(string \<times> string) list"
  env_program :: string
  env_exe :: string
  env_cwd :: string
  env_vars :: "string \<Rightarrow> string option"

definition env_new :: "(string \<Rightarrow> string option) \<Rightarrow> env" where
  "env_new vars = \<lparr>env_args = [], env_helps = [], env_program = [], env_exe = [], env_cwd = [], env_vars = vars\<rparr>"

section \<open>Options\<close>

definition env_add :: "string \<Rightarrow> string \<Rightarrow> env \<Rightarrow> env" where
  "env_add key v e = e\<lparr>env_args := map_assign (<) key v (env_args e)\<rparr>"

definition env_has :: "string \<Rightarrow> env \<Rightarrow> bool" where
  "env_has key e \<longleftrightarrow> map_find (<) key (env_args e) \<noteq> None"

definition env_del :: "string \<Rightarrow> env \<Rightarrow> env" where
  "env_del key e = e\<lparr>env_args := map_erase (<) key (env_args e)\<rparr>"

definition env_get :: "string \<Rightarrow> string \<Rightarrow> env \<Rightarrow> string" where
  "env_get key default_value e =
     (case map_find (<) key (env_args e) of Some v \<Rightarrow> v | None \<Rightarrow> default_value)"

section \<open>Help texts\<close>

definition remove_help :: "string \<Rightarrow> env \<Rightarrow> env" where
  "remove_help key e = e\<lparr>env_helps := filter (\<lambda>h. fst h \<noteq> key) (env_helps e)\<rparr>"

definition add_help :: "string \<Rightarrow> string \<Rightarrow> env \<Rightarrow> env" where
  "add_help key description e =
     (let e = remove_help key e in e\<lparr>env_helps := env_helps e @ [(key, description)]\<rparr>)"

text \<open>\<open>std::setw(5)\<close> pads the next output, the dash, on the left.\<close>

definition print_help :: "env \<Rightarrow> string" where
  "print_help e =
     ''Usage: '' @ env_program e @ '' [options]'' @ [CHR 0x0A] @
     concat (map (\<lambda>h. ''    -'' @ fst h @ '' : '' @ snd h @ [CHR 0x0A]) (env_helps e))"

section \<open>The command line\<close>

text \<open>The directory of the program: up to the last slash, all of it when there is none.\<close>

definition dir_of :: "string \<Rightarrow> string" where
  "dir_of exe =
     (if CHR ''/'' \<in> set exe then rev (tl (dropWhile (\<lambda>c. c \<noteq> CHR ''/'') (rev exe))) else exe) @ ''/''"

text \<open>The loop over the arguments; \<open>key\<close> is the option that waits for its value. An argument
  is a C string, so its first character is the terminator when it is empty.\<close>

fun init_args :: "string list \<Rightarrow> string option \<Rightarrow> env \<Rightarrow> bool \<times> env" where
  "init_args [] key e = (True, case key of None \<Rightarrow> e | Some k \<Rightarrow> env_add k [] e)"
| "init_args (a # as) key e =
     (if a \<noteq> [] \<and> hd a = CHR ''-'' then
        if length a > 1 then
          init_args as (Some (tl a)) (case key of None \<Rightarrow> e | Some k \<Rightarrow> env_add k [] e)
        else (False, e)
      else
        case key of
          Some k \<Rightarrow> init_args as None (env_add k a e)
        | None \<Rightarrow> (False, e))"

definition env_init :: "string \<Rightarrow> string list \<Rightarrow> env \<Rightarrow> (bool \<times> env) res" where
  "env_init link argv e =
     (if argv = [] then Inl Null_deref
      else Inr (init_args argv None (e\<lparr>env_exe := link, env_cwd := dir_of link, env_program := hd argv\<rparr>)))"

section \<open>Process environment and paths\<close>

definition set_env :: "string \<Rightarrow> string \<Rightarrow> env \<Rightarrow> bool \<times> env" where
  "set_env key v e =
     (let key = c_str key in
      if key = [] \<or> CHR ''='' \<in> set key then (False, e) else (True, e\<lparr>env_vars := (env_vars e)(key \<mapsto> c_str v)\<rparr>))"

definition get_env :: "string \<Rightarrow> string \<Rightarrow> env \<Rightarrow> string" where
  "get_env key default_value e = (case env_vars e (c_str key) of None \<Rightarrow> default_value | Some v \<Rightarrow> v)"

definition get_absolute_path :: "string \<Rightarrow> env \<Rightarrow> string" where
  "get_absolute_path path e =
     (if path = [] then ''/'' else if hd path = CHR ''/'' then path else env_cwd e @ path)"

definition get_absolute_workpath :: "string \<Rightarrow> env \<Rightarrow> string" where
  "get_absolute_workpath path e =
     (if path = [] then ''/'' else if hd path = CHR ''/'' then path else [])"

definition get_config_path :: "env \<Rightarrow> string" where
  "get_config_path e = get_absolute_path (env_get ''c'' ''conf'' e) e"

section \<open>The table of options\<close>

definition args_ok :: "env \<Rightarrow> bool" where
  "args_ok e \<longleftrightarrow> std_less.map_ordered (env_args e)"

lemma args_ok_ops [simp]:
  "args_ok (env_new vars)" "args_ok e \<Longrightarrow> args_ok (env_add k v e)" "args_ok e \<Longrightarrow> args_ok (env_del k e)"
  by (simp_all add: args_ok_def env_new_def env_add_def env_del_def std_less.assign_ordered std_less.erase_ordered)

lemma env_get_add:
  "args_ok e \<Longrightarrow> env_get k' d (env_add k v e) = (if k' = k then v else env_get k' d e)"
  using std_less.find_assign [of "env_args e" k' k v]
  by (auto simp: args_ok_def env_get_def env_add_def equiv_key_def neq_iff)

lemma env_has_add: "args_ok e \<Longrightarrow> env_has k' (env_add k v e) \<longleftrightarrow> k' = k \<or> env_has k' e"
  using std_less.find_assign [of "env_args e" k' k v]
  by (auto simp: args_ok_def env_has_def env_add_def equiv_key_def neq_iff)

lemma env_has_del: "env_has k' (env_del k e) \<longleftrightarrow> k' \<noteq> k \<and> env_has k' e"
  using std_less.find_erase [of k' k "env_args e"]
  by (auto simp: env_has_def env_del_def equiv_key_def neq_iff)

lemma helps_distinct: "distinct (map fst (env_helps e)) \<Longrightarrow> distinct (map fst (env_helps (add_help k d e)))"
  by (auto simp: add_help_def remove_help_def Let_def distinct_map_filter)

section \<open>The grammar of the command line\<close>

text \<open>An option with or without its value, and what the loop makes of a list of them.\<close>

type_synonym opt = "string \<times> string option"

definition opt_ok :: "opt \<Rightarrow> bool" where
  "opt_ok opt \<longleftrightarrow> fst opt \<noteq> [] \<and> (case snd opt of None \<Rightarrow> True | Some v \<Rightarrow> v = [] \<or> hd v \<noteq> CHR ''-'')"

definition opt_words :: "opt \<Rightarrow> string list" where
  "opt_words opt = (CHR ''-'' # fst opt) # (case snd opt of None \<Rightarrow> [] | Some v \<Rightarrow> [v])"

definition add_opt :: "opt \<Rightarrow> env \<Rightarrow> env" where
  "add_opt opt e = env_add (fst opt) (case snd opt of None \<Rightarrow> [] | Some v \<Rightarrow> v) e"

definition flush_key :: "string option \<Rightarrow> env \<Rightarrow> env" where
  "flush_key key e = (case key of None \<Rightarrow> e | Some k \<Rightarrow> env_add k [] e)"

lemma init_args_opts:
  "list_all opt_ok opts \<Longrightarrow>
   init_args (concat (map opt_words opts)) key e = (True, fold add_opt opts (flush_key key e))"
proof (induction opts arbitrary: key e)
  case (Cons opt opts)
  then show ?case
    by (cases "snd opt") (auto simp: opt_words_def opt_ok_def add_opt_def flush_key_def neq_Nil_conv)
qed (simp add: flush_key_def)

text \<open>The loop starts at the name of the program, which is no option: nothing is read.\<close>

lemma init_stops:
  "argv \<noteq> [] \<Longrightarrow> hd argv = [] \<or> hd (hd argv) \<noteq> CHR ''-'' \<Longrightarrow>
   env_init link argv e = Inr (False, e\<lparr>env_exe := link, env_cwd := dir_of link, env_program := hd argv\<rparr>)"
  by (cases argv) (auto simp: env_init_def)

lemma dir_of_path: "CHR ''/'' \<notin> set name \<Longrightarrow> dir_of (dir @ ''/'' @ name) = dir @ ''/''"
proof -
  assume "CHR ''/'' \<notin> set name"
  then have "dropWhile (\<lambda>c. c \<noteq> CHR ''/'') (rev name @ CHR ''/'' # rev dir) = CHR ''/'' # rev dir"
    by (subst dropWhile_append2) auto
  then show ?thesis by (simp add: dir_of_def)
qed

lemma absolute_path_absolute: "env_cwd e \<noteq> [] \<Longrightarrow> hd (env_cwd e) = CHR ''/'' \<Longrightarrow> hd (get_absolute_path path e) = CHR ''/''"
  by (auto simp: get_absolute_path_def)

lemma get_set_env: "set_env k v e = (True, e') \<Longrightarrow> get_env k d e' = c_str v"
  by (auto simp: set_env_def get_env_def Let_def split: if_splits)

end
