(* ===== verification/Files.thy ===== *)
theory Files
  imports Prelude "HOL-Library.Sublist"
begin

text \<open>
  \<open>FSUtil::list_all_file\<close> of \<open>acid/common/util.cpp\<close> over a directory as \<open>readdir\<close> shows it: the
  entries in the order of the directory, \<open>.\<close> and \<open>..\<close> among them. A directory that
  cannot be opened has no entries to show.
\<close>

datatype entry = Regular | Directory "(string \<times> entry) list" | Unreadable | Other_entry

definition ends_with :: "string \<Rightarrow> string \<Rightarrow> bool" where
  "ends_with subfix filename \<longleftrightarrow>
     (if subfix = [] then True
      else if length filename < length subfix then False
      else drop (length filename - length subfix) filename = subfix)"

text \<open>The files of a directory at \<open>path\<close>, and what one entry adds to the list.\<close>

fun list_entry :: "string \<Rightarrow> string \<Rightarrow> string \<Rightarrow> entry \<Rightarrow> string list"
  and list_dir :: "string \<Rightarrow> string \<Rightarrow> (string \<times> entry) list \<Rightarrow> string list" where
  "list_entry subfix path name Regular =
     (if ends_with subfix name then [path @ ''/'' @ name] else [])"
| "list_entry subfix path name (Directory es) =
     (if name = ''.'' \<or> name = ''..'' then [] else list_dir subfix (path @ ''/'' @ name) es)"
| "list_entry subfix path name Unreadable = []"
| "list_entry subfix path name Other_entry = []"
| "list_dir subfix path [] = []"
| "list_dir subfix path ((name, e) # es) = list_entry subfix path name e @ list_dir subfix path es"

text \<open>The list is an out-parameter that may hold files already; \<open>None\<close> is a path that does not
  exist or is no directory.\<close>

definition list_all_file :: "string list \<Rightarrow> string \<Rightarrow> string \<Rightarrow> (string \<times> entry) list option \<Rightarrow> string list" where
  "list_all_file files path subfix dir =
     files @ (case dir of None \<Rightarrow> [] | Some es \<Rightarrow> list_dir subfix path es)"

section \<open>What it lists\<close>

text \<open>A position is the list of the indices that lead from the directory to an entry of one of its
  subdirectories; \<open>file_at es p\<close> is the list of the names on that way when the entry is a regular
  file. The subdirectories \<open>.\<close> and \<open>..\<close> lead nowhere.\<close>

fun file_at :: "(string \<times> entry) list \<Rightarrow> nat list \<Rightarrow> string list option" where
  "file_at es [] = None"
| "file_at es (i # p) =
     (if i < length es then
        (case es ! i of
           (name, Regular) \<Rightarrow> if p = [] then Some [name] else None
         | (name, Directory es') \<Rightarrow>
             if name = ''.'' \<or> name = ''..'' then None else map_option ((#) name) (file_at es' p)
         | _ \<Rightarrow> None)
      else None)"

text \<open>A file that is to be listed, and the next entry of the directory in place of the first one.\<close>

definition wanted :: "string \<Rightarrow> (string \<times> entry) list \<Rightarrow> nat list \<Rightarrow> bool" where
  "wanted subfix es p \<longleftrightarrow> (\<exists>names. file_at es p = Some names \<and> suffix subfix (last names))"

fun next_entry :: "nat list \<Rightarrow> nat list" where
  "next_entry [] = []"
| "next_entry (i # p) = Suc i # p"

definition path_text :: "string \<Rightarrow> string list \<Rightarrow> string" where
  "path_text path p = path @ concat (map (\<lambda>name. ''/'' @ name) p)"

lemma ends_with_suffix: "ends_with subfix name \<longleftrightarrow> suffix subfix name"
proof -
  have "drop (length name - length subfix) name = subfix \<longleftrightarrow> suffix subfix name" if "length subfix \<le> length name"
    using that by (metis append_take_drop_id suffix_def diff_diff_cancel length_drop suffix_drop append_eq_append_conv)
  then show ?thesis by (auto simp: ends_with_def suffix_length_le dest: suffix_length_le)
qed

lemma file_at_Cons [simp]:
  "file_at (x # es) (Suc i # p) = file_at es (i # p)"
  "file_at ((name, Regular) # es) (0 # p) = (if p = [] then Some [name] else None)"
  "file_at ((name, Directory es') # es) (0 # p) =
     (if name = ''.'' \<or> name = ''..'' then None else map_option ((#) name) (file_at es' p))"
  "file_at ((name, Unreadable) # es) (0 # p) = None"
  "file_at ((name, Other_entry) # es) (0 # p) = None"
  by simp_all

declare file_at.simps(2) [simp del]

lemma file_at_Nil [simp]: "file_at [] p = None"
  by (cases p) (simp_all add: file_at.simps(2))

lemma file_at_not_Nil: "file_at es p = Some names \<Longrightarrow> names \<noteq> []"
  by (cases p) (auto simp: file_at.simps(2) split: if_splits prod.splits entry.splits)

definition listing :: "string \<Rightarrow> string \<Rightarrow> (string \<times> entry) list \<Rightarrow> nat list list \<Rightarrow> string list \<Rightarrow> bool" where
  "listing subfix path es ps fs \<longleftrightarrow> fs = map (path_text path \<circ> the \<circ> file_at es) ps \<and>
     sorted_wrt ord_class.lexordp ps \<and> set ps = {p. wanted subfix es p}"

lemma listing_Nil: "listing subfix path [] [] []"
  by (simp add: listing_def wanted_def)

lemma wanted_Nil [simp]: "\<not> wanted subfix es []" "\<not> wanted subfix [] p"
  by (simp_all add: wanted_def)

lemma listing_not_Nil: "listing subfix path es ps fs \<Longrightarrow> [] \<notin> set ps"
  by (simp add: listing_def)

lemma listing_down:
  assumes "listing subfix (path @ ''/'' @ name) es ps fs" "name \<noteq> ''.''" "name \<noteq> ''..''"
  shows "listing subfix path [(name, Directory es)] (map ((#) 0) ps) fs"
proof -
  have "wanted subfix [(name, Directory es)] p \<longleftrightarrow> (\<exists>q. p = 0 # q \<and> wanted subfix es q)" for p
  proof (cases p)
    case (Cons i q)
    then show ?thesis using assms(2,3) file_at_not_Nil [of es q]
      by (cases i) (auto simp: wanted_def)
  qed simp
  moreover have "path_text (path @ ''/'' @ name) (the (file_at es p)) =
      path_text path (the (file_at [(name, Directory es)] (0 # p)))" if "wanted subfix es p" for p
    using that assms(2,3) by (auto simp: wanted_def path_text_def)
  ultimately show ?thesis
    using assms(1) by (auto simp: listing_def sorted_wrt_map)
qed

lemma next_entry_mono: "ord_class.lexordp p q \<Longrightarrow> p \<noteq> [] \<Longrightarrow> ord_class.lexordp (next_entry p) (next_entry q)"
  by (cases p; cases q) auto

lemma listing_Cons:
  assumes "listing subfix path [(name, e)] ps fs" "listing subfix path es ps' fs'"
  shows "listing subfix path ((name, e) # es) (ps @ map next_entry ps') (fs @ fs')"
proof -
  have one: "\<exists>q. p = 0 # q \<and> file_at [(name, e)] p = file_at ((name, e) # es) p" if "wanted subfix [(name, e)] p" for p
    using that by (cases p; cases "hd p"; cases e) (auto simp: wanted_def)
  have rest: "\<exists>i q. p = i # q" if "wanted subfix es p" for p
    using that by (cases p) auto
  have "wanted subfix ((name, e) # es) p \<longleftrightarrow>
      wanted subfix [(name, e)] p \<or> (\<exists>q. p = next_entry q \<and> wanted subfix es q)" for p
  proof (cases p)
    case (Cons i q)
    show ?thesis
    proof (cases i)
      case 0
      then have "file_at ((name, e) # es) p = file_at [(name, e)] p" using Cons by (cases e) auto
      moreover have "p \<noteq> next_entry q'" if "wanted subfix es q'" for q' using that Cons 0 by (cases q') auto
      ultimately show ?thesis by (auto simp: wanted_def)
    next
      case (Suc n)
      then have "file_at ((name, e) # es) p = file_at es (n # q)" "file_at [(name, e)] p = None" using Cons by auto
      moreover have "p = next_entry q' \<longleftrightarrow> q' = n # q" for q' using Cons Suc by (cases q') auto
      ultimately show ?thesis by (auto simp: wanted_def)
    qed
  qed (use rest in \<open>fastforce\<close>)
  moreover have "sorted_wrt ord_class.lexordp (map next_entry ps')"
    unfolding sorted_wrt_map
    by (rule sorted_wrt_mono_rel [of ps' ord_class.lexordp])
      (use assms(2) in \<open>auto simp: listing_def intro!: next_entry_mono\<close>)
  moreover have "ord_class.lexordp p (next_entry q)" if "p \<in> set ps" "q \<in> set ps'" for p q
    using one [of p] rest [of q] that assms by (auto simp: listing_def)
  ultimately show ?thesis
    using assms one rest by (fastforce simp: listing_def sorted_wrt_append)
qed

lemma list_listing:
  "\<exists>ps. listing subfix path [(name, e)] ps (list_entry subfix path name e)"
  "\<exists>ps. listing subfix path es ps (list_dir subfix path es)"
proof (induction subfix path name e and subfix path es rule: list_entry_list_dir.induct)
  case (1 subfix path name)
  have "wanted subfix [(name, Regular)] p \<longleftrightarrow> p = [0] \<and> suffix subfix name" for p
    by (cases p; cases "hd p") (auto simp: wanted_def)
  then show ?case
    by (intro exI [of _ "if ends_with subfix name then [[0]] else []"])
      (auto simp: listing_def ends_with_suffix path_text_def)
next
  case (2 subfix path name es)
  have none: "\<not> wanted subfix [(name, Directory es)] p" if "name = ''.'' \<or> name = ''..''" for p
    using that by (cases p; cases "hd p") (auto simp: wanted_def)
  show ?case
  proof (cases "name = ''.'' \<or> name = ''..''")
    case True
    then show ?thesis using none by (auto simp: listing_def)
  next
    case False
    then show ?thesis using 2 listing_down [of subfix path name es] by auto
  qed
next
  case (3 subfix path name)
  have "\<not> wanted subfix [(name, Unreadable)] p" for p by (cases p; cases "hd p") (auto simp: wanted_def)
  then show ?case by (auto simp: listing_def)
next
  case (4 subfix path name)
  have "\<not> wanted subfix [(name, Other_entry)] p" for p by (cases p; cases "hd p") (auto simp: wanted_def)
  then show ?case by (auto simp: listing_def)
next
  case (5 subfix path)
  show ?case using listing_Nil by auto
next
  case (6 subfix path name e es)
  then show ?case using listing_Cons by fastforce
qed

lemma list_all_file_exact:
  "\<exists>ps. list_all_file files path subfix (Some es) = files @ map (path_text path \<circ> the \<circ> file_at es) ps \<and>
     sorted_wrt ord_class.lexordp ps \<and> set ps = {p. \<exists>names. file_at es p = Some names \<and> suffix subfix (last names)}"
  using list_listing(2) [of subfix path es] by (auto simp: list_all_file_def listing_def wanted_def)

end
