(* ===== verification/Config.thy ===== *)
theory Config
  imports Lexical_Cast Env Files
begin

text \<open>
  The configuration of \<open>acid/common/config.h\<close> and \<open>config.cpp\<close>. A variable is a shared object
  of some type: the type is a tag of type \<open>'ty\<close>, its values are of type \<open>'v\<close>, and the
  conversions from and to text are functions of the tag (\<open>None\<close> is an exception). The
  YAML library is not part of the program: what its headers say of a node is the type
  \<open>yaml\<close>, and loading and printing text are parameters. Listeners are functions on the
  state of their owner; one that throws is outside the model.
\<close>

section \<open>YAML nodes\<close>

text \<open>The key of an entry is what \<open>Scalar()\<close> returns for it. The library: loading and printing,
  and what a loop over a node visits, as single nodes and as pairs.\<close>

datatype yaml = Null_node | Scalar string | Sequence "yaml list" | Mapping "(string \<times> yaml) list"

record yaml_lib =
  y_load :: "string \<Rightarrow> yaml option"
  y_dump :: "yaml \<Rightarrow> string"
  y_items :: "yaml \<Rightarrow> yaml list"
  y_entries :: "yaml \<Rightarrow> (string \<times> yaml) list"

section \<open>Conversions of containers\<close>

text \<open>\<open>None\<close> is an exception of the library or of the conversion of an element.\<close>

fun map_cast :: "('a \<Rightarrow> 'b option) \<Rightarrow> 'a list \<Rightarrow> 'b list option" where
  "map_cast f [] = Some []"
| "map_cast f (x # xs) =
     (case f x of None \<Rightarrow> None | Some y \<Rightarrow> map_option (Cons y) (map_cast f xs))"

definition sequence_from_string :: "yaml_lib \<Rightarrow> (string \<Rightarrow> 'a option) \<Rightarrow> string \<Rightarrow> 'a list option" where
  "sequence_from_string y cast str =
     (case y_load y str of None \<Rightarrow> None | Some node \<Rightarrow> map_cast (\<lambda>item. cast (y_dump y item)) (y_items y node))"

definition sequence_to_string :: "yaml_lib \<Rightarrow> ('a \<Rightarrow> string option) \<Rightarrow> 'a list \<Rightarrow> string option" where
  "sequence_to_string y cast from =
     (case map_cast (\<lambda>item. Option.bind (cast item) (y_load y)) from of
        None \<Rightarrow> None
      | Some ns \<Rightarrow> Some (y_dump y (if ns = [] then Null_node else Sequence ns)))"

text \<open>Maps from strings: \<open>emplace\<close> keeps the first of two equal keys, and \<open>node[key] = n\<close> of
  distinct keys appends entries.\<close>

definition map_from_string :: "yaml_lib \<Rightarrow> (string \<Rightarrow> 'a option) \<Rightarrow> string \<Rightarrow> (string \<times> 'a) list option" where
  "map_from_string y cast str =
     (case y_load y str of
        None \<Rightarrow> None
      | Some node \<Rightarrow>
          map_option (\<lambda>es. fold (\<lambda>(k, v). map_emplace (<) k v) es [])
            (map_cast (\<lambda>(k, item). map_option (Pair k) (cast (y_dump y item))) (y_entries y node)))"

definition map_to_string :: "yaml_lib \<Rightarrow> ('a \<Rightarrow> string option) \<Rightarrow> (string \<times> 'a) list \<Rightarrow> string option" where
  "map_to_string y cast from =
     (case map_cast (\<lambda>(k, item). map_option (Pair k) (Option.bind (cast item) (y_load y))) from of
        None \<Rightarrow> None
      | Some es \<Rightarrow> Some (y_dump y (if es = [] then Null_node else Mapping es)))"

text \<open>The other containers repeat these loops. An unordered map keeps the first of two equal
  keys as well; the conversions from text to the two kinds of sets do not compile when they
  are used, as they insert the set, or push to the back of it.\<close>

definition list_from_string :: "yaml_lib \<Rightarrow> (string \<Rightarrow> 'a option) \<Rightarrow> string \<Rightarrow> 'a list option" where
  "list_from_string y cast str = sequence_from_string y cast str"

definition list_to_string :: "yaml_lib \<Rightarrow> ('a \<Rightarrow> string option) \<Rightarrow> 'a list \<Rightarrow> string option" where
  "list_to_string y cast from = sequence_to_string y cast from"

definition set_to_string :: "yaml_lib \<Rightarrow> ('a \<Rightarrow> string option) \<Rightarrow> 'a list \<Rightarrow> string option" where
  "set_to_string y cast from = sequence_to_string y cast from"

definition unordered_set_to_string :: "yaml_lib \<Rightarrow> ('a \<Rightarrow> string option) \<Rightarrow> 'a list \<Rightarrow> string option" where
  "unordered_set_to_string y cast from = sequence_to_string y cast from"

definition unordered_map_from_string ::
  "yaml_lib \<Rightarrow> (string \<Rightarrow> 'a option) \<Rightarrow> string \<Rightarrow> (string \<times> 'a) list option" where
  "unordered_map_from_string y cast str =
     (case y_load y str of
        None \<Rightarrow> None
      | Some node \<Rightarrow>
          map_option (\<lambda>es. fold (\<lambda>e es. if fst e \<in> fst ` set es then es else es @ [e]) es [])
            (map_cast (\<lambda>(k, item). map_option (Pair k) (cast (y_dump y item))) (y_entries y node)))"

definition unordered_map_to_string :: "yaml_lib \<Rightarrow> ('a \<Rightarrow> string option) \<Rightarrow> (string \<times> 'a) list \<Rightarrow> string option" where
  "unordered_map_to_string y cast from = map_to_string y cast from"

section \<open>Variables\<close>

text \<open>\<open>cv_callbacks\<close> are the listeners by their numbers; what a listener does is outside, its
  calls are the result of the operations.\<close>

record ('ty, 'v) config_var =
  cv_name :: string
  cv_description :: string
  cv_type :: 'ty
  cv_val :: 'v
  cv_callbacks :: "(nat \<times> nat) list"

text \<open>The base class puts the name in lower case and leaves the description empty.\<close>

definition config_var_new :: "string \<Rightarrow> 'ty \<Rightarrow> 'v \<Rightarrow> string \<Rightarrow> ('ty, 'v) config_var" where
  "config_var_new name ty v description =
     \<lparr>cv_name = map lower_char name, cv_description = [], cv_type = ty, cv_val = v, cv_callbacks = []\<rparr>"

text \<open>A call of a listener: its number in the table, the function, old and new value.\<close>

type_synonym 'v call = "nat \<times> nat \<times> 'v \<times> 'v"

definition set_value :: "'v \<Rightarrow> ('ty, 'v) config_var \<Rightarrow> 'v call list \<times> ('ty, 'v) config_var" where
  "set_value v cv =
     (if v = cv_val cv then ([], cv)
      else (map (\<lambda>(key, cb). (key, cb, cv_val cv, v)) (cv_callbacks cv), cv\<lparr>cv_val := v\<rparr>))"

definition get_value :: "('ty, 'v) config_var \<Rightarrow> 'v" where
  "get_value cv = cv_val cv"

definition cv_from_string ::
  "('ty \<Rightarrow> string \<Rightarrow> 'v option) \<Rightarrow> string \<Rightarrow> ('ty, 'v) config_var \<Rightarrow> bool \<times> 'v call list \<times> ('ty, 'v) config_var" where
  "cv_from_string from_str s cv =
     (case from_str (cv_type cv) s of
        None \<Rightarrow> (False, [], cv)
      | Some v \<Rightarrow> (True, set_value v cv))"

text \<open>An exception in \<open>to_string\<close> is caught, and the function ends without a result.\<close>

definition cv_to_string :: "('ty \<Rightarrow> 'v \<Rightarrow> string option) \<Rightarrow> ('ty, 'v) config_var \<Rightarrow> string res" where
  "cv_to_string to_str cv = (case to_str (cv_type cv) (cv_val cv) of None \<Rightarrow> Inl Undefined | Some s \<Rightarrow> Inr s)"

text \<open>\<open>index\<close> is the static counter of \<open>add_listener\<close>, one for each type.\<close>

definition add_listener :: "nat \<Rightarrow> nat \<Rightarrow> ('ty, 'v) config_var \<Rightarrow> nat \<times> ('ty, 'v) config_var" where
  "add_listener index cb cv =
     (let index = index + 1 in (index, cv\<lparr>cv_callbacks := map_assign (<) index cb (cv_callbacks cv)\<rparr>))"

definition del_listener :: "nat \<Rightarrow> ('ty, 'v) config_var \<Rightarrow> ('ty, 'v) config_var" where
  "del_listener key cv = cv\<lparr>cv_callbacks := map_erase (<) key (cv_callbacks cv)\<rparr>"

definition clear_listener :: "('ty, 'v) config_var \<Rightarrow> ('ty, 'v) config_var" where
  "clear_listener cv = cv\<lparr>cv_callbacks := []\<rparr>"

definition get_listener :: "nat \<Rightarrow> ('ty, 'v) config_var \<Rightarrow> nat option" where
  "get_listener key cv = map_find (<) key (cv_callbacks cv)"

section \<open>The table\<close>

text \<open>Variables by their addresses, the addresses by name, and the modification times of the
  files that have been loaded.\<close>

record ('ty, 'v) config =
  cf_vars :: "nat \<Rightarrow> ('ty, 'v) config_var"
  cf_datas :: "(string \<times> nat) list"
  cf_mtimes :: "(string \<times> u64) list"

definition config_new :: "(nat \<Rightarrow> ('ty, 'v) config_var) \<Rightarrow> ('ty, 'v) config" where
  "config_new vars = \<lparr>cf_vars = vars, cf_datas = [], cf_mtimes = []\<rparr>"

definition name_ok :: "string \<Rightarrow> bool" where
  "name_ok name \<longleftrightarrow> list_all (\<lambda>c. CHR ''a'' \<le> c \<and> c \<le> CHR ''z'' \<or> c = CHR ''.'' \<or> c = CHR ''_'' \<or> is_digit c) name"

definition look_up_base :: "string \<Rightarrow> ('ty, 'v) config \<Rightarrow> nat option" where
  "look_up_base name cf = map_find (<) name (cf_datas cf)"

text \<open>\<open>look_up<T>(name)\<close>: a variable of another type is reported, for which it is printed, and
  not returned.\<close>

definition look_up_typed ::
  "('ty \<Rightarrow> 'v \<Rightarrow> string option) \<Rightarrow> 'ty \<Rightarrow> string \<Rightarrow> ('ty, 'v) config \<Rightarrow> nat option res" where
  "look_up_typed to_str ty name cf =
     (case map_find (<) name (cf_datas cf) of
        None \<Rightarrow> Inr None
      | Some a \<Rightarrow>
          if cv_type (cf_vars cf a) = ty then Inr (Some a)
          else bindR (cv_to_string to_str (cf_vars cf a)) (\<lambda>s. Inr None))"

definition config_look_up ::
  "('ty \<Rightarrow> 'v \<Rightarrow> string option) \<Rightarrow> 'ty \<Rightarrow> string \<Rightarrow> 'v \<Rightarrow> string \<Rightarrow> nat \<Rightarrow> ('ty, 'v) config \<Rightarrow> (nat \<times> ('ty, 'v) config) res" where
  "config_look_up to_str ty name v description fresh cf =
     bindR (look_up_typed to_str ty name cf) (\<lambda>tmp.
       case tmp of
         Some a \<Rightarrow> Inr (a, cf)
       | None \<Rightarrow>
           if \<not> name_ok name then Inl Invalid_argument
           else Inr (fresh, cf\<lparr>cf_vars := (cf_vars cf)(fresh := config_var_new name ty v description),
             cf_datas := map_assign (<) name fresh (cf_datas cf)\<rparr>))"

section \<open>Loading\<close>

text \<open>The nodes of a document by their dotted names, a node before its members.\<close>

fun list_all_members :: "string \<Rightarrow> yaml \<Rightarrow> (string \<times> yaml) list"
  and list_members :: "string \<Rightarrow> (string \<times> yaml) list \<Rightarrow> (string \<times> yaml) list" where
  "list_all_members pre node =
     (if \<not> name_ok pre then []
      else (pre, node) # (case node of Mapping es \<Rightarrow> list_members pre es | _ \<Rightarrow> []))"
| "list_members pre [] = []"
| "list_members pre ((key, node) # es) =
     list_all_members (if pre = [] then key else pre @ ''.'' @ key) node @ list_members pre es"

declare list_all_members.simps [simp del]

definition node_text :: "yaml_lib \<Rightarrow> yaml \<Rightarrow> string" where
  "node_text y node = (case node of Scalar s \<Rightarrow> s | _ \<Rightarrow> y_dump y node)"

text \<open>The calls of listeners, with the address of their variable.\<close>

definition load_node ::
  "('ty \<Rightarrow> string \<Rightarrow> 'v option) \<Rightarrow> yaml_lib \<Rightarrow> string \<times> yaml \<Rightarrow> (nat \<times> 'v call) list \<times> ('ty, 'v) config \<Rightarrow>
   (nat \<times> 'v call) list \<times> ('ty, 'v) config" where
  "load_node from_str y n st =
     (if fst n = [] then st
      else case look_up_base (map lower_char (fst n)) (snd st) of
        None \<Rightarrow> st
      | Some a \<Rightarrow>
          let (ok, calls, cv) = cv_from_string from_str (node_text y (snd n)) (cf_vars (snd st) a)
          in (fst st @ map (Pair a) calls, (snd st)\<lparr>cf_vars := (cf_vars (snd st))(a := cv)\<rparr>))"

definition load_from_yaml ::
  "('ty \<Rightarrow> string \<Rightarrow> 'v option) \<Rightarrow> yaml_lib \<Rightarrow> yaml \<Rightarrow> (nat \<times> 'v call) list \<times> ('ty, 'v) config \<Rightarrow>
   (nat \<times> 'v call) list \<times> ('ty, 'v) config" where
  "load_from_yaml from_str y root st = fold (load_node from_str y) (list_all_members [] root) st"

text \<open>A file of the directory: \<open>mtime\<close> is what \<open>lstat\<close> says, \<open>load_file\<close> reads and parses it
  (\<open>None\<close> is an exception). A file is loaded when its time has changed, or when \<open>force\<close>
  is set; \<open>s_file_modify_time[file]\<close> makes an entry 0 for a file it does not have.\<close>

definition load_file_step ::
  "('ty \<Rightarrow> string \<Rightarrow> 'v option) \<Rightarrow> yaml_lib \<Rightarrow> (string \<Rightarrow> u64) \<Rightarrow> (string \<Rightarrow> yaml option) \<Rightarrow> bool \<Rightarrow> string \<Rightarrow>
   (nat \<times> 'v call) list \<times> ('ty, 'v) config \<Rightarrow> (nat \<times> 'v call) list \<times> ('ty, 'v) config" where
  "load_file_step from_str y mtime load_file force file st =
     (let (calls, cf) = st;
          known = (case map_find (<) file (cf_mtimes cf) of None \<Rightarrow> 0 | Some t \<Rightarrow> t) in
      if \<not> force \<and> known = mtime file then (calls, cf\<lparr>cf_mtimes := map_assign (<) file known (cf_mtimes cf)\<rparr>)
      else
        let cf = cf\<lparr>cf_mtimes := map_assign (<) file (mtime file) (cf_mtimes cf)\<rparr> in
        case load_file file of
          None \<Rightarrow> (calls, cf)
        | Some root \<Rightarrow> load_from_yaml from_str y root (calls, cf))"

definition load_from_conf_dir ::
  "('ty \<Rightarrow> string \<Rightarrow> 'v option) \<Rightarrow> yaml_lib \<Rightarrow> (string \<Rightarrow> (string \<times> entry) list option) \<Rightarrow> (string \<Rightarrow> u64) \<Rightarrow>
   (string \<Rightarrow> yaml option) \<Rightarrow> env \<Rightarrow> string \<Rightarrow> bool \<Rightarrow> (nat \<times> 'v call) list \<times> ('ty, 'v) config \<Rightarrow>
   (nat \<times> 'v call) list \<times> ('ty, 'v) config" where
  "load_from_conf_dir from_str y dirs mtime load_file e path force st =
     (let absolute_path = get_absolute_path path e;
          files = list_all_file [] absolute_path ''.yml'' (dirs absolute_path)
      in fold (load_file_step from_str y mtime load_file force) files st)"

definition visit :: "('ty, 'v) config \<Rightarrow> nat list" where
  "visit cf = map snd (cf_datas cf)"

end
