(* ===== verification/Config_Spec.thy ===== *)
theory Config_Spec
  imports Config
begin

text \<open>
  What the configuration promises: names find their variables and keep them
  (\<open>config_ok\<close>), a document sets each variable to the last of its values that can be
  converted (\<open>load_value\<close>), the names of a document are the dotted paths of its nodes
  (\<open>members_exact\<close>), and a directory whose files have not changed is not loaded again.
\<close>

section \<open>Containers\<close>

lemma map_cast_all:
  "list_all2 (\<lambda>x z. f x = Some z) xs zs \<Longrightarrow> map_cast f xs = Some zs"
  by (induction xs zs rule: list_all2_induct) auto

lemma sequence_roundtrip:
  assumes "xs \<noteq> []" "list_all2 (\<lambda>x n. Option.bind (cast_to x) (y_load y) = Some n \<and> cast (y_dump y n) = Some x) xs ns"
    and "y_load y (y_dump y (Sequence ns)) = Some (Sequence ns)" "y_items y (Sequence ns) = ns"
  shows "\<exists>s. sequence_to_string y cast_to xs = Some s \<and> sequence_from_string y cast s = Some xs"
proof -
  have "map_cast (\<lambda>x. Option.bind (cast_to x) (y_load y)) xs = Some ns"
    by (rule map_cast_all) (use assms(2) in \<open>auto elim: list_all2_mono\<close>)
  moreover have "map_cast (\<lambda>n. cast (y_dump y n)) ns = Some xs"
    by (rule map_cast_all) (use assms(2) in \<open>auto simp: list_all2_conv_all_nth\<close>)
  moreover have "ns \<noteq> []" using assms(1,2) by auto
  ultimately show ?thesis using assms(3,4) by (simp add: sequence_to_string_def sequence_from_string_def)
qed

text \<open>For elements with a pair of conversions that read back what they write, and a library that
  keeps the text of a scalar.\<close>

context text_codec
begin

lemma vector_roundtrip:
  assumes "xs \<noteq> []" "\<And>x. x \<in> set xs \<Longrightarrow> y_load y (to_text x) = Some (Scalar (to_text x)) \<and> y_dump y (Scalar (to_text x)) = to_text x"
    and "y_load y (y_dump y (Sequence (map (Scalar \<circ> to_text) xs))) = Some (Sequence (map (Scalar \<circ> to_text) xs))"
    and "y_items y (Sequence (map (Scalar \<circ> to_text) xs)) = map (Scalar \<circ> to_text) xs"
  shows "\<exists>s. sequence_to_string y (Some \<circ> to_text) xs = Some s \<and>
    sequence_from_string y (res_option \<circ> of_text) s = Some xs"
  using assms(2) by (intro sequence_roundtrip [OF assms(1) _ assms(3,4)]) (auto simp: list_all2_conv_all_nth read_back)

text \<open>A variable that reads its own text calls no listener and stays as it is.\<close>

lemma own_text:
  assumes "cv_to_string (\<lambda>ty v. Some (to_text v)) cv = Inr s"
  shows "cv_from_string (\<lambda>ty s. res_option (of_text s)) s cv = (True, [], cv)"
  using assms by (auto simp: cv_to_string_def cv_from_string_def read_back set_value_def)

end

section \<open>The table\<close>

lemma name_ok_lower: "name_ok name \<Longrightarrow> map lower_char name = name"
  by (induction name) (auto simp: name_ok_def lower_char_def is_digit_def less_eq_char_def)

lemma name_ok_simps [simp]: "name_ok []" "name_ok (a @ b) \<longleftrightarrow> name_ok a \<and> name_ok b"
  by (auto simp: name_ok_def)

text \<open>Every entry is a variable of that name, and no variable has two names.\<close>

definition config_ok :: "('ty, 'v) config \<Rightarrow> bool" where
  "config_ok cf \<longleftrightarrow> std_less.map_ordered (cf_datas cf) \<and>
     (\<forall>name a. look_up_base name cf = Some a \<longrightarrow> name_ok name \<and> cv_name (cf_vars cf a) = name)"

lemma config_new_ok: "config_ok (config_new vars)"
  by (simp add: config_ok_def config_new_def look_up_base_def map_find_def)

lemma config_inj:
  "config_ok cf \<Longrightarrow> look_up_base k cf = Some a \<Longrightarrow> look_up_base k' cf = Some a \<Longrightarrow> k = k'"
  by (metis config_ok_def)

lemma look_up_found:
  "look_up_base name cf = Some a \<Longrightarrow> cv_type (cf_vars cf a) = ty \<Longrightarrow> config_look_up to_str ty name v d fresh cf = Inr (a, cf)"
  by (simp add: config_look_up_def look_up_typed_def look_up_base_def)

text \<open>A name that is not found, or found with another type, gets a new variable.\<close>

definition replaced :: "'ty \<Rightarrow> string \<Rightarrow> 'v \<Rightarrow> string \<Rightarrow> nat \<Rightarrow> ('ty, 'v) config \<Rightarrow> ('ty, 'v) config" where
  "replaced ty name v d fresh cf =
     cf\<lparr>cf_vars := (cf_vars cf)(fresh := config_var_new name ty v d), cf_datas := map_assign (<) name fresh (cf_datas cf)\<rparr>"

lemma look_up_new:
  assumes "name_ok name"
    and "\<And>a. look_up_base name cf = Some a \<Longrightarrow>
      cv_type (cf_vars cf a) \<noteq> ty \<and> to_str (cv_type (cf_vars cf a)) (cv_val (cf_vars cf a)) \<noteq> None"
  shows "config_look_up to_str ty name v d fresh cf = Inr (fresh, replaced ty name v d fresh cf)"
proof (cases "look_up_base name cf")
  case None
  with assms(1) show ?thesis by (simp add: config_look_up_def look_up_typed_def look_up_base_def replaced_def)
next
  case (Some a)
  with assms obtain s where "to_str (cv_type (cf_vars cf a)) (cv_val (cf_vars cf a)) = Some s" by blast
  with assms Some show ?thesis
    by (simp add: config_look_up_def look_up_typed_def look_up_base_def replaced_def cv_to_string_def)
qed

lemma find_replaced:
  assumes "config_ok cf"
  shows "look_up_base k (replaced ty name v d fresh cf) = (if k = name then Some fresh else look_up_base k cf)"
  using assms std_less.find_assign [of "cf_datas cf" k name fresh]
  by (auto simp: look_up_base_def replaced_def config_ok_def equiv_key_def neq_iff)

lemma replaced_ok:
  assumes "config_ok cf" "name_ok name" "\<And>k. look_up_base k cf \<noteq> Some fresh"
  shows "config_ok (replaced ty name v d fresh cf)"
proof -
  have "std_less.map_ordered (cf_datas (replaced ty name v d fresh cf))"
    using assms(1) by (simp add: config_ok_def replaced_def std_less.assign_ordered)
  then show ?thesis
    using assms name_ok_lower [OF assms(2)] unfolding config_ok_def [of "replaced ty name v d fresh cf"] find_replaced [OF assms(1)]
    by (auto simp: replaced_def config_var_new_def config_ok_def)
qed

lemma look_up_ok:
  assumes "config_ok cf" "config_look_up to_str ty name v d fresh cf = Inr (a, cf')" "\<And>k. look_up_base k cf \<noteq> Some fresh"
  shows "config_ok cf' \<and> look_up_base name cf' = Some a \<and> cv_type (cf_vars cf' a) = ty"
proof (cases "\<exists>b. look_up_base name cf = Some b \<and> cv_type (cf_vars cf b) = ty")
  case True
  then obtain b where b: "look_up_base name cf = Some b" "cv_type (cf_vars cf b) = ty" by blast
  from look_up_found [of name cf b ty to_str v d fresh, OF b] assms(2) assms(1) b show ?thesis by simp
next
  case False
  have n: "name_ok name \<and> (\<forall>b. look_up_base name cf = Some b \<longrightarrow> to_str (cv_type (cf_vars cf b)) (cv_val (cf_vars cf b)) \<noteq> None)"
    using assms(2) False
    by (auto simp: config_look_up_def look_up_typed_def look_up_base_def cv_to_string_def res_simps split: option.splits if_splits)
  then have "config_look_up to_str ty name v d fresh cf = Inr (fresh, replaced ty name v d fresh cf)"
    using False by (intro look_up_new) auto
  then have "a = fresh" "cf' = replaced ty name v d fresh cf" using assms(2) by auto
  with replaced_ok [OF assms(1) _ assms(3)] find_replaced [OF assms(1)] n show ?thesis
    by (simp add: replaced_def config_var_new_def)
qed

section \<open>Loading a document\<close>

text \<open>The values the members give to a name, as a variable of type \<open>ty\<close> reads them.\<close>

definition values_for ::
  "('ty \<Rightarrow> string \<Rightarrow> 'v option) \<Rightarrow> yaml_lib \<Rightarrow> 'ty \<Rightarrow> string \<Rightarrow> (string \<times> yaml) list \<Rightarrow> 'v list" where
  "values_for from_str y ty k ms =
     List.map_filter (\<lambda>(k', n). if k' \<noteq> [] \<and> map lower_char k' = k then from_str ty (node_text y n) else None) ms"

lemma values_for_simps [simp]:
  "values_for from_str y ty k [] = []"
  "values_for from_str y ty k (m # ms) =
     (if fst m \<noteq> [] \<and> map lower_char (fst m) = k
      then (case from_str ty (node_text y (snd m)) of None \<Rightarrow> [] | Some v \<Rightarrow> [v]) else []) @ values_for from_str y ty k ms"
  by (auto simp: values_for_def List.map_filter_def split: prod.splits option.splits)

lemma load_node_keeps:
  "cf_datas (snd (load_node from_str y m st)) = cf_datas (snd st)"
  "cf_mtimes (snd (load_node from_str y m st)) = cf_mtimes (snd st)"
  "cv_type (cf_vars (snd (load_node from_str y m st)) a) = cv_type (cf_vars (snd st) a)"
  "cv_callbacks (cf_vars (snd (load_node from_str y m st)) a) = cv_callbacks (cf_vars (snd st) a)"
  "cv_name (cf_vars (snd (load_node from_str y m st)) a) = cv_name (cf_vars (snd st) a)"
  by (auto simp: load_node_def cv_from_string_def set_value_def split: option.split prod.split)

lemma load_node_value:
  assumes "config_ok (snd st)" "look_up_base k (snd st) = Some a"
  shows "cv_val (cf_vars (snd (load_node from_str y m st)) a) =
    last (cv_val (cf_vars (snd st) a) # values_for from_str y (cv_type (cf_vars (snd st) a)) k [m])"
proof (cases "fst m \<noteq> [] \<and> look_up_base (map lower_char (fst m)) (snd st) = Some a")
  case True
  then have "map lower_char (fst m) = k" using assms config_inj by blast
  with True show ?thesis
    by (auto simp: load_node_def cv_from_string_def set_value_def split: option.split)
next
  case False
  then have "\<not> (fst m \<noteq> [] \<and> map lower_char (fst m) = k)" using assms(2) by auto
  with False show ?thesis
    by (auto simp: load_node_def split: option.split prod.split)
qed

lemma load_node_ok: "config_ok (snd st) \<Longrightarrow> config_ok (snd (load_node from_str y m st))"
  by (simp add: config_ok_def look_up_base_def load_node_keeps)

lemma load_node_look_up: "look_up_base k (snd (load_node from_str y m st)) = look_up_base k (snd st)"
  by (simp add: look_up_base_def load_node_keeps)

lemma load_nodes_value:
  "config_ok (snd st) \<Longrightarrow> look_up_base k (snd st) = Some a \<Longrightarrow>
   cv_val (cf_vars (snd (fold (load_node from_str y) ms st)) a) =
     last (cv_val (cf_vars (snd st) a) # values_for from_str y (cv_type (cf_vars (snd st) a)) k ms)"
proof (induction ms arbitrary: st)
  case (Cons m ms)
  have "config_ok (snd (load_node from_str y m st))" "look_up_base k (snd (load_node from_str y m st)) = Some a"
    using Cons.prems load_node_ok load_node_look_up by (metis, metis)
  from Cons.IH [OF this] load_node_value [OF Cons.prems, of from_str y m] show ?case
    by (simp add: load_node_keeps split: option.splits)
qed simp

lemma load_value:
  assumes "config_ok (snd st)" "look_up_base k (snd st) = Some a"
  shows "cv_val (cf_vars (snd (load_from_yaml from_str y root st)) a) =
    last (cv_val (cf_vars (snd st) a) #
      values_for from_str y (cv_type (cf_vars (snd st) a)) k (list_all_members [] root))"
  unfolding load_from_yaml_def by (rule load_nodes_value [OF assms])

text \<open>Listeners hear of every change, from the old value to the new one, and of nothing else.\<close>

fun changes :: "'v \<Rightarrow> 'v list \<Rightarrow> ('v \<times> 'v) list" where
  "changes v [] = []"
| "changes v (w # ws) = (if w = v then changes v ws else (v, w) # changes w ws)"

definition heard :: "nat \<Rightarrow> nat \<Rightarrow> (nat \<times> 'v call) list \<Rightarrow> ('v \<times> 'v) list" where
  "heard a key calls = map (\<lambda>c. snd (snd (snd c))) (filter (\<lambda>c. fst c = a \<and> fst (snd c) = key) calls)"

lemma heard_append: "heard a key (cs @ ds) = heard a key cs @ heard a key ds"
  by (simp add: heard_def)

lemma heard_set_value:
  assumes "distinct (map fst (cv_callbacks cv))" "key \<in> fst ` set (cv_callbacks cv)"
  shows "heard a key (map (Pair a) (fst (set_value v cv))) = changes (cv_val cv) [v]"
proof -
  have "filter (\<lambda>c. fst c = key) cbs = [(key, the (map_of cbs key))]"
    if "distinct (map fst cbs)" "key \<in> fst ` set cbs" for cbs :: "(nat \<times> nat) list"
    using that by (induction cbs) (auto simp: filter_empty_conv rev_image_eqI)
  from this [OF assms] show ?thesis
    by (auto simp: heard_def set_value_def filter_map o_def case_prod_unfold)
qed

lemma heard_other: "b \<noteq> a \<Longrightarrow> heard a key (map (Pair b) cs) = []"
  by (simp add: heard_def filter_map o_def)

lemma changes_append: "changes v (xs @ ys) = changes v xs @ changes (last (v # xs)) ys"
  by (induction xs arbitrary: v) auto

lemma load_node_heard:
  assumes "config_ok (snd st)" "look_up_base k (snd st) = Some a"
    and "distinct (map fst (cv_callbacks (cf_vars (snd st) a)))" "key \<in> fst ` set (cv_callbacks (cf_vars (snd st) a))"
  shows "heard a key (fst (load_node from_str y m st)) =
    heard a key (fst st) @
      changes (cv_val (cf_vars (snd st) a)) (values_for from_str y (cv_type (cf_vars (snd st) a)) k [m])"
proof (cases "fst m \<noteq> [] \<and> look_up_base (map lower_char (fst m)) (snd st) = Some a")
  case True
  then have "map lower_char (fst m) = k" using assms config_inj by blast
  with True heard_set_value [OF assms(3,4)] show ?thesis
    by (simp add: load_node_def cv_from_string_def heard_append case_prod_unfold heard_def [of a key "[]"]
        split: option.split)
next
  case False
  then have "\<not> (fst m \<noteq> [] \<and> map lower_char (fst m) = k)" using assms(2) by auto
  with False show ?thesis
    by (auto simp: load_node_def heard_append heard_other split: option.split prod.split)
qed

lemma load_heard:
  assumes "config_ok (snd st)" "look_up_base k (snd st) = Some a"
    and "distinct (map fst (cv_callbacks (cf_vars (snd st) a)))" "key \<in> fst ` set (cv_callbacks (cf_vars (snd st) a))"
  shows "heard a key (fst (fold (load_node from_str y) ms st)) =
    heard a key (fst st) @
      changes (cv_val (cf_vars (snd st) a)) (values_for from_str y (cv_type (cf_vars (snd st) a)) k ms)"
  using assms
proof (induction ms arbitrary: st)
  case (Cons m ms)
  let ?st = "load_node from_str y m st"
  have p: "config_ok (snd ?st)" "look_up_base k (snd ?st) = Some a"
    "distinct (map fst (cv_callbacks (cf_vars (snd ?st) a)))" "key \<in> fst ` set (cv_callbacks (cf_vars (snd ?st) a))"
    using Cons.prems by (simp_all add: load_node_ok load_node_look_up load_node_keeps)
  have v: "values_for from_str y ty k (m # ms) = values_for from_str y ty k [m] @ values_for from_str y ty k ms" for ty
    by simp
  show ?case
    unfolding v changes_append
    using Cons.IH [OF p] load_node_heard [OF Cons.prems, of from_str y m]
      load_node_value [OF Cons.prems(1,2), of from_str y m]
    by (simp del: values_for_simps add: load_node_keeps)
qed simp

text \<open>Nothing is called under a key that has no listener.\<close>

lemma load_node_unheard:
  assumes "key \<notin> fst ` set (cv_callbacks (cf_vars (snd st) a))"
  shows "heard a key (fst (load_node from_str y m st)) = heard a key (fst st)"
proof -
  have none: "heard a key (map (Pair b) (fst (set_value v (cf_vars (snd st) b)))) = []" for b v
    using assms by (cases "b = a") (auto simp: heard_def set_value_def filter_empty_conv image_iff)
  show ?thesis
    using none by (auto simp: load_node_def cv_from_string_def heard_append heard_def [of a key "[]"] case_prod_unfold
        split: option.split)
qed

lemma load_unheard:
  assumes "config_ok (snd st)" "look_up_base k (snd st) = Some a"
    and "key \<notin> fst ` set (cv_callbacks (cf_vars (snd st) a))"
  shows "heard a key (fst (fold (load_node from_str y) ms st)) = heard a key (fst st)"
  using assms
proof (induction ms arbitrary: st)
  case (Cons m ms)
  have "config_ok (snd (load_node from_str y m st))" "look_up_base k (snd (load_node from_str y m st)) = Some a"
    "key \<notin> fst ` set (cv_callbacks (cf_vars (snd (load_node from_str y m st)) a))"
    using Cons.prems by (simp_all add: load_node_ok load_node_look_up load_node_keeps)
  from Cons.IH [OF this] load_node_unheard [OF Cons.prems(3)] show ?case by simp
qed simp

section \<open>The names of a document\<close>

fun yaml_at :: "yaml \<Rightarrow> string list \<Rightarrow> yaml \<Rightarrow> bool" where
  "yaml_at root [] n \<longleftrightarrow> n = root"
| "yaml_at root (k # p) n \<longleftrightarrow> (\<exists>es m. root = Mapping es \<and> (k, m) \<in> set es \<and> yaml_at m p n)"

definition dotted :: "string \<Rightarrow> string list \<Rightarrow> string" where
  "dotted pre p = fold (\<lambda>key pre. if pre = [] then key else pre @ ''.'' @ key) p pre"

lemma dotted_simps [simp]:
  "dotted pre [] = pre" "dotted pre (k # p) = dotted (if pre = [] then k else pre @ ''.'' @ k) p"
  by (simp_all add: dotted_def)

lemma dotted_ok: "name_ok (dotted pre p) \<Longrightarrow> name_ok pre"
proof (induction p arbitrary: pre)
  case (Cons k p)
  from Cons.IH [of "if pre = [] then k else pre @ ''.'' @ k"] Cons.prems show ?case by (auto split: if_splits)
qed simp

lemma members_of:
  "(k, n) \<in> set (list_all_members pre root) \<longleftrightarrow> (\<exists>p. k = dotted pre p \<and> yaml_at root p n \<and> name_ok k)"
  "(k, n) \<in> set (list_members pre es) \<longleftrightarrow>
     (\<exists>key m p. (key, m) \<in> set es \<and> k = dotted pre (key # p) \<and> yaml_at m p n \<and> name_ok k)"
proof (induction pre root and pre es rule: list_all_members_list_members.induct)
  case (1 pre node)
  show ?case
  proof (cases "name_ok pre")
    case False
    then show ?thesis using dotted_ok by (auto simp: list_all_members.simps)
  next
    case True
    show ?thesis
    proof (cases node)
      case (Mapping es)
      have "(\<exists>p. k = dotted pre p \<and> yaml_at node p n \<and> name_ok k) \<longleftrightarrow>
          k = pre \<and> n = node \<or> (\<exists>key m p. (key, m) \<in> set es \<and> k = dotted pre (key # p) \<and> yaml_at m p n \<and> name_ok k)"
        (is "?l \<longleftrightarrow> ?r")
      proof
        assume ?l
        then obtain p where p: "k = dotted pre p" "yaml_at node p n" "name_ok k" by blast
        with Mapping show ?r by (cases p) auto
      next
        assume ?r
        with Mapping True show ?l by (metis dotted_simps(1) yaml_at.simps)
      qed
      with 1 True Mapping show ?thesis by (simp add: list_all_members.simps)
    next
      case (Sequence ns)
      have "yaml_at node p n \<longleftrightarrow> p = [] \<and> n = node" for p using Sequence by (cases p) auto
      with True Sequence show ?thesis by (auto simp: list_all_members.simps)
    next
      case (Scalar s)
      have "yaml_at node p n \<longleftrightarrow> p = [] \<and> n = node" for p using Scalar by (cases p) auto
      with True Scalar show ?thesis by (auto simp: list_all_members.simps)
    next
      case Null_node
      have "yaml_at node p n \<longleftrightarrow> p = [] \<and> n = node" for p using Null_node by (cases p) auto
      with True Null_node show ?thesis by (auto simp: list_all_members.simps)
    qed
  qed
next
  case (3 pre key node es)
  from 3 show ?case by auto
qed simp

lemma members_exact:
  "set (list_all_members [] root) = {(dotted [] p, n) |p n. yaml_at root p n \<and> name_ok (dotted [] p)}"
  using members_of(1) [of _ _ "[]" root] by auto

section \<open>Loading a directory\<close>

lemma load_nodes_mtimes: "cf_mtimes (snd (fold (load_node from_str y) ms st)) = cf_mtimes (snd st)"
  by (induction ms arbitrary: st) (simp_all add: load_node_keeps)

definition mtimes_ok :: "('ty, 'v) config \<Rightarrow> bool" where
  "mtimes_ok cf \<longleftrightarrow> std_less.map_ordered (cf_mtimes cf)"

lemma file_step_mtimes:
  assumes "mtimes_ok (snd st)"
  shows "mtimes_ok (snd (load_file_step from_str y mtime load_file force f st))"
    "map_find (<) f' (cf_mtimes (snd (load_file_step from_str y mtime load_file force f st))) =
      (if f' = f then Some (mtime f) else map_find (<) f' (cf_mtimes (snd st)))"
proof -
  have a: "mtimes_ok (cf\<lparr>cf_mtimes := map_assign (<) f t (cf_mtimes (snd st))\<rparr>)" for cf :: "('a, 'b) config" and t
    using assms by (simp add: mtimes_ok_def std_less.assign_ordered)
  have b: "map_find (<) f' (map_assign (<) f t (cf_mtimes (snd st))) = (if f' = f then Some t else map_find (<) f' (cf_mtimes (snd st)))"
    for t using assms std_less.find_assign [of "cf_mtimes (snd st)" f' f t] by (auto simp: mtimes_ok_def equiv_key_def neq_iff)
  show "mtimes_ok (snd (load_file_step from_str y mtime load_file force f st))"
    using a by (auto simp: load_file_step_def Let_def mtimes_ok_def load_from_yaml_def load_nodes_mtimes split: prod.split option.split)
  show "map_find (<) f' (cf_mtimes (snd (load_file_step from_str y mtime load_file force f st))) =
      (if f' = f then Some (mtime f) else map_find (<) f' (cf_mtimes (snd st)))"
    using b by (auto simp: load_file_step_def Let_def load_from_yaml_def load_nodes_mtimes split: prod.split option.split)
qed

lemma files_step_mtimes:
  assumes "mtimes_ok (snd st)"
  shows "mtimes_ok (snd (fold (load_file_step from_str y mtime load_file force) fs st)) \<and>
    (\<forall>f. f \<in> set fs \<or> map_find (<) f (cf_mtimes (snd st)) = Some (mtime f) \<longrightarrow>
      map_find (<) f (cf_mtimes (snd (fold (load_file_step from_str y mtime load_file force) fs st))) = Some (mtime f))"
  using assms
proof (induction fs arbitrary: st)
  case (Cons f fs)
  from Cons.IH [OF file_step_mtimes(1) [OF Cons.prems]] file_step_mtimes(2) [OF Cons.prems] show ?case by auto
qed simp

text \<open>Files whose times are known are passed over.\<close>

lemma known_files_skipped:
  assumes "mtimes_ok (snd st)" "\<forall>f \<in> set fs. map_find (<) f (cf_mtimes (snd st)) = Some (mtime f)"
  shows "fst (fold (load_file_step from_str y mtime load_file False) fs st) = fst st \<and>
    cf_vars (snd (fold (load_file_step from_str y mtime load_file False) fs st)) = cf_vars (snd st) \<and>
    cf_datas (snd (fold (load_file_step from_str y mtime load_file False) fs st)) = cf_datas (snd st)"
  using assms
proof (induction fs arbitrary: st)
  case (Cons f fs)
  let ?st = "load_file_step from_str y mtime load_file False f st"
  have s: "fst ?st = fst st" "cf_vars (snd ?st) = cf_vars (snd st)" "cf_datas (snd ?st) = cf_datas (snd st)"
    using Cons.prems(2) by (auto simp: load_file_step_def Let_def split: prod.split)
  have "\<forall>f' \<in> set fs. map_find (<) f' (cf_mtimes (snd ?st)) = Some (mtime f')"
    using Cons.prems(2) file_step_mtimes(2) [OF Cons.prems(1)] by auto
  from Cons.IH [OF file_step_mtimes(1) [OF Cons.prems(1)] this] s show ?case by simp
qed simp

lemma reload_skips:
  assumes "mtimes_ok (snd st)"
    and "st1 = load_from_conf_dir from_str y dirs mtime load_file e path force st"
  shows "fst (load_from_conf_dir from_str y dirs mtime load_file e path False st1) = fst st1 \<and>
    cf_vars (snd (load_from_conf_dir from_str y dirs mtime load_file e path False st1)) = cf_vars (snd st1)"
  unfolding load_from_conf_dir_def Let_def
  using known_files_skipped files_step_mtimes [OF assms(1)] unfolding assms(2) load_from_conf_dir_def Let_def
  by (metis (no_types, lifting))

section \<open>Listeners\<close>

lemma listener_added:
  assumes "std_less.map_ordered (cv_callbacks cv)" "add_listener index cb cv = (key, cv')"
  shows "key = index + 1 \<and> get_listener key cv' = Some cb \<and> (\<forall>k. k \<noteq> key \<longrightarrow> get_listener k cv' = get_listener k cv)"
  using assms std_less.find_assign [of "cv_callbacks cv" _ "index + 1" cb]
  by (auto simp: add_listener_def get_listener_def Let_def equiv_key_def neq_iff)

lemma listener_deleted:
  "get_listener k (del_listener key cv) = (if k = key then None else get_listener k cv)"
  using std_less.find_erase [of k key "cv_callbacks cv"]
  by (auto simp: del_listener_def get_listener_def equiv_key_def neq_iff)

end
