(* ===== verification/Daemon.thy ===== *)
theory Daemon
  imports Log_Format
begin

text \<open>
  \<open>start_daemon\<close> of \<open>acid/common/daemon.h\<close> and \<open>daemon.cpp\<close>. What the system answers to the
  \<open>i\<close>-th \<open>fork\<close> is an argument: in the child its id and the time, in the parent how the
  child ended. The loop may never end, so its result is an option.
\<close>

record process_info =
  pi_parent_id :: int
  pi_main_id :: int
  pi_parent_start_time :: u64
  pi_main_start_time :: u64
  pi_restart_count :: u32

definition process_info_new :: process_info where
  "process_info_new =
     \<lparr>pi_parent_id = 0, pi_main_id = 0, pi_parent_start_time = 0, pi_main_start_time = 0, pi_restart_count = 0\<rparr>"

definition process_info_string :: "process_info \<Rightarrow> string" where
  "process_info_string p =
     ''[ProcessInfo parent_id = '' @ show_int (pi_parent_id p) @
     '' main_id = '' @ show_int (pi_main_id p) @
     '' parent_start_time = '' @ show_nat (unat (pi_parent_start_time p)) @
     '' main_start_time = '' @ show_nat (unat (pi_main_start_time p)) @
     '' restart_count = '' @ show_nat (unat (pi_restart_count p)) @ '']''"

datatype fork = Fork_failed | In_child int u64 | In_parent int

text \<open>The daemon returns a number, or is a child that goes on with the main function.\<close>

datatype daemon_result = Returns int | Runs_main

text \<open>\<open>interval i\<close> is what the configuration gives when the time to sleep is read after the \<open>i\<close>-th
  fork; the sleeps are listed.\<close>

partial_function (option) daemon_loop ::
  "(nat \<Rightarrow> fork) \<Rightarrow> (nat \<Rightarrow> u32) \<Rightarrow> nat \<Rightarrow> process_info \<Rightarrow> u32 list \<Rightarrow> (daemon_result \<times> process_info \<times> u32 list) option" where
  "daemon_loop forks interval i p sleeps =
     (case forks i of
        Fork_failed \<Rightarrow> Some (Returns (- 1), p, sleeps)
      | In_child pid now \<Rightarrow> Some (Runs_main, p\<lparr>pi_main_id := pid, pi_main_start_time := now\<rparr>, sleeps)
      | In_parent status \<Rightarrow>
          if status \<noteq> 0 then
            daemon_loop forks interval (Suc i) (p\<lparr>pi_restart_count := pi_restart_count p + 1\<rparr>) (sleeps @ [interval i])
          else Some (Returns 0, p, sleeps))"

definition real_daemon ::
  "(nat \<Rightarrow> fork) \<Rightarrow> int \<Rightarrow> u64 \<Rightarrow> (nat \<Rightarrow> u32) \<Rightarrow> process_info \<Rightarrow> (daemon_result \<times> process_info \<times> u32 list) option" where
  "real_daemon forks pid now interval p =
     daemon_loop forks interval 0 (p\<lparr>pi_parent_id := pid, pi_parent_start_time := now\<rparr>) []"

definition start_daemon ::
  "(nat \<Rightarrow> fork) \<Rightarrow> int \<Rightarrow> u64 \<Rightarrow> (nat \<Rightarrow> u32) \<Rightarrow> bool \<Rightarrow> process_info \<Rightarrow> (daemon_result \<times> process_info \<times> u32 list) option" where
  "start_daemon forks pid now interval is_daemon p =
     (if is_daemon then real_daemon forks pid now interval p else Some (Runs_main, p, []))"

definition crashed :: "fork \<Rightarrow> bool" where
  "crashed f \<longleftrightarrow> (case f of In_parent status \<Rightarrow> status \<noteq> 0 | _ \<Rightarrow> False)"

definition restarted :: "nat \<Rightarrow> process_info \<Rightarrow> process_info" where
  "restarted n p = p\<lparr>pi_restart_count := pi_restart_count p + of_nat n\<rparr>"

lemma restarted_simps [simp]:
  "restarted 0 p = p"
  "restarted n (p\<lparr>pi_restart_count := pi_restart_count p + 1\<rparr>) = restarted (Suc n) p"
  by (simp_all add: restarted_def add.assoc)

text \<open>The first \<open>n\<close> children crash: each is restarted after the interval.\<close>

lemma daemon_restarts:
  "(\<And>j. j < n \<Longrightarrow> crashed (forks (i + j))) \<Longrightarrow>
   daemon_loop forks interval i p sleeps =
     daemon_loop forks interval (i + n) (restarted n p) (sleeps @ map interval [i..<i + n])"
proof (induction n arbitrary: i p sleeps)
  case (Suc n)
  have "crashed (forks i)" using Suc.prems [of 0] by simp
  then have "daemon_loop forks interval i p sleeps =
      daemon_loop forks interval (Suc i) (p\<lparr>pi_restart_count := pi_restart_count p + 1\<rparr>) (sleeps @ [interval i])"
    by (subst daemon_loop.simps) (auto simp: crashed_def split: fork.splits)
  also have "\<dots> = daemon_loop forks interval (Suc i + n) (restarted (Suc n) p) (sleeps @ map interval [i..<i + Suc n])"
    using Suc.IH [of "Suc i" "p\<lparr>pi_restart_count := pi_restart_count p + 1\<rparr>" "sleeps @ [interval i]"]
      Suc.prems [of "Suc _"] by (simp add: upt_conv_Cons del: upt_Suc)
  finally show ?case by simp
qed simp

text \<open>It comes to an end exactly when some child does not crash.\<close>

lemma daemon_ends:
  assumes "daemon_loop forks interval i p sleeps = Some r"
  shows "\<exists>j\<ge>i. \<not> crashed (forks j)"
proof (rule daemon_loop.raw_induct [where P = "\<lambda>forks interval i p sleeps r. \<exists>j\<ge>i. \<not> crashed (forks j)", OF _ assms])
  fix loop :: "(nat \<Rightarrow> fork) \<Rightarrow> (nat \<Rightarrow> u32) \<Rightarrow> nat \<Rightarrow> process_info \<Rightarrow> u32 list \<Rightarrow> (daemon_result \<times> process_info \<times> u32 list) option"
  fix forks interval i p sleeps r
  assume ih: "\<And>forks interval i p sleeps r. loop forks interval i p sleeps = Some r \<Longrightarrow> \<exists>j\<ge>i. \<not> crashed (forks j)"
    and r: "(case forks i of
        Fork_failed \<Rightarrow> Some (Returns (- 1), p, sleeps)
      | In_child pid now \<Rightarrow> Some (Runs_main, p\<lparr>pi_main_id := pid, pi_main_start_time := now\<rparr>, sleeps)
      | In_parent status \<Rightarrow>
          if status \<noteq> 0 then
            loop forks interval (Suc i) (p\<lparr>pi_restart_count := pi_restart_count p + 1\<rparr>) (sleeps @ [interval i])
          else Some (Returns 0, p, sleeps)) = Some r"
  show "\<exists>j\<ge>i. \<not> crashed (forks j)"
  proof (cases "crashed (forks i)")
    case True
    then obtain s where "forks i = In_parent s" "s \<noteq> 0" by (auto simp: crashed_def split: fork.splits)
    with r have "\<exists>j\<ge>Suc i. \<not> crashed (forks j)" by (intro ih) simp
    then show ?thesis using Suc_leD by blast
  qed auto
qed

lemma daemon_stops: "\<not> crashed (forks i) \<Longrightarrow> \<exists>r. daemon_loop forks interval i p sleeps = Some r"
  by (subst daemon_loop.simps) (auto simp: crashed_def split: fork.split)

lemma daemon_terminates:
  "(\<exists>r. daemon_loop forks interval 0 p sleeps = Some r) \<longleftrightarrow> (\<exists>j. \<not> crashed (forks j))"
proof
  assume e: "\<exists>j. \<not> crashed (forks j)"
  define n where "n = (LEAST j. \<not> crashed (forks j))"
  have "\<not> crashed (forks n)" using e unfolding n_def by (rule LeastI_ex)
  moreover have "crashed (forks j)" if "j < n" for j using not_less_Least that unfolding n_def by blast
  ultimately show "\<exists>r. daemon_loop forks interval 0 p sleeps = Some r"
    using daemon_restarts [of n forks 0 interval p sleeps] daemon_stops [of forks n] by simp
qed (use daemon_ends in blast)

end
