(* ===== verification/Locks.thy ===== *)
theory Locks
  imports Prelude "HOL-Library.Signed_Division"
begin

text \<open>
  The locks of \<open>acid/common/mutex.h\<close> and \<open>mutex.cpp\<close>. A mutex is what POSIX says of it: taking
  one that is held blocks (\<open>None\<close>), giving back one that is free is undefined. The scoped
  locks are templates over a mutex: they are functions of its \<open>lock\<close>, \<open>try_lock\<close> and
  \<open>unlock\<close> here, and the locale \<open>lockable\<close> is what they need of it.
\<close>

section \<open>Mutexes\<close>

text \<open>\<open>Mutex\<close> and \<open>Spinlock\<close>: the state says whether it is held.\<close>

definition mutex_lock :: "bool \<Rightarrow> bool option" where
  "mutex_lock held = (if held then None else Some True)"

definition mutex_try_lock :: "bool \<Rightarrow> bool \<times> bool" where
  "mutex_try_lock held = (if held then (False, held) else (True, True))"

definition mutex_unlock :: "bool \<Rightarrow> bool res" where
  "mutex_unlock held = (if held then Inr False else Inl Undefined)"

definition spin_lock :: "bool \<Rightarrow> bool option" where
  "spin_lock held = (if held then None else Some True)"

definition spin_try_lock :: "bool \<Rightarrow> bool \<times> bool" where
  "spin_try_lock held = (if held then (False, held) else (True, True))"

definition spin_unlock :: "bool \<Rightarrow> bool res" where
  "spin_unlock held = (if held then Inr False else Inl Undefined)"

text \<open>\<open>CASLock\<close>: one \<open>test_and_set\<close>; the loop of \<open>lock\<close> makes them until one finds the
  flag clear, so it spins for as long as the flag is set. \<open>unlock\<close> clears the flag
  whoever set it.\<close>

definition test_and_set :: "bool \<Rightarrow> bool \<times> bool" where
  "test_and_set flag = (flag, True)"

definition cas_lock :: "bool \<Rightarrow> bool option" where
  "cas_lock flag = (let (old, flag) = test_and_set flag in if old then None else Some flag)"

definition cas_unlock :: "bool \<Rightarrow> bool res" where
  "cas_unlock flag = Inr False"

text \<open>\<open>RWMutex\<close>: how many readers hold it, and whether a writer does.\<close>

record rw_mutex =
  rw_readers :: nat
  rw_writer :: bool

definition rw_new :: rw_mutex where
  "rw_new = \<lparr>rw_readers = 0, rw_writer = False\<rparr>"

definition rw_rdlock :: "rw_mutex \<Rightarrow> rw_mutex option" where
  "rw_rdlock m = (if rw_writer m then None else Some (m\<lparr>rw_readers := rw_readers m + 1\<rparr>))"

definition rw_wrlock :: "rw_mutex \<Rightarrow> rw_mutex option" where
  "rw_wrlock m = (if rw_writer m \<or> rw_readers m > 0 then None else Some (m\<lparr>rw_writer := True\<rparr>))"

definition rw_unlock :: "rw_mutex \<Rightarrow> rw_mutex res" where
  "rw_unlock m =
     (if rw_writer m then Inr (m\<lparr>rw_writer := False\<rparr>)
      else if rw_readers m > 0 then Inr (m\<lparr>rw_readers := rw_readers m - 1\<rparr>)
      else Inl Undefined)"

text \<open>\<open>NullMutex\<close> and \<open>NullRWMutex\<close> do nothing; the \<open>try_lock\<close> of the first has no return
  statement.\<close>

definition null_lock :: "unit \<Rightarrow> unit option" where
  "null_lock m = Some m"

definition null_try_lock :: "unit \<Rightarrow> (bool \<times> unit) res" where
  "null_try_lock m = Inl Undefined"

definition null_unlock :: "unit \<Rightarrow> unit res" where
  "null_unlock m = Inr m"

section \<open>Scoped locks\<close>

text \<open>A scoped lock over a mutex: its flag and the mutex it refers to. The read and the write
  lock are the same template with \<open>rdlock\<close> or \<open>wrlock\<close> for \<open>lock\<close>.\<close>

definition guard_lock :: "('m \<Rightarrow> 'm option) \<Rightarrow> bool \<times> 'm \<Rightarrow> (bool \<times> 'm) option" where
  "guard_lock lk g = (case g of (is_locked, m) \<Rightarrow>
     if \<not> is_locked then map_option (Pair True) (lk m) else Some (is_locked, m))"

definition guard_try_lock :: "('m \<Rightarrow> bool \<times> 'm) \<Rightarrow> bool \<times> 'm \<Rightarrow> bool \<times> bool \<times> 'm" where
  "guard_try_lock try_lk g = (case g of (is_locked, m) \<Rightarrow>
     let (is_locked, m) = (if \<not> is_locked then try_lk m else (is_locked, m)) in (is_locked, is_locked, m))"

definition guard_unlock :: "('m \<Rightarrow> 'm res) \<Rightarrow> bool \<times> 'm \<Rightarrow> (bool \<times> 'm) res" where
  "guard_unlock ul g = (case g of (is_locked, m) \<Rightarrow>
     if is_locked then bindR (ul m) (\<lambda>m. Inr (False, m)) else Inr (is_locked, m))"

text \<open>Construction takes the lock and destruction gives it back.\<close>

definition guard_new :: "('m \<Rightarrow> 'm option) \<Rightarrow> 'm \<Rightarrow> (bool \<times> 'm) option" where
  "guard_new lk m = guard_lock lk (False, m)"

definition guard_destroy :: "('m \<Rightarrow> 'm res) \<Rightarrow> bool \<times> 'm \<Rightarrow> 'm res" where
  "guard_destroy ul g = bindR (guard_unlock ul g) (\<lambda>(is_locked, m). Inr m)"

text \<open>\<open>ReadScopedLockImpl\<close> and \<open>WriteScopedLockImpl\<close> over an \<open>RWMutex\<close>.\<close>

definition read_guard_lock :: "bool \<times> rw_mutex \<Rightarrow> (bool \<times> rw_mutex) option" where
  "read_guard_lock g = guard_lock rw_rdlock g"

definition read_guard_unlock :: "bool \<times> rw_mutex \<Rightarrow> (bool \<times> rw_mutex) res" where
  "read_guard_unlock g = guard_unlock rw_unlock g"

definition write_guard_lock :: "bool \<times> rw_mutex \<Rightarrow> (bool \<times> rw_mutex) option" where
  "write_guard_lock g = guard_lock rw_wrlock g"

definition write_guard_unlock :: "bool \<times> rw_mutex \<Rightarrow> (bool \<times> rw_mutex) res" where
  "write_guard_unlock g = guard_unlock rw_unlock g"

lemmas rw_guard_defs = read_guard_lock_def read_guard_unlock_def write_guard_lock_def write_guard_unlock_def

text \<open>What a scope does with its guard in between: \<open>None\<close> is a call that blocks for ever.\<close>

datatype guard_call = Lock | Try_lock | Unlock

fun guard_calls ::
  "('m \<Rightarrow> 'm option) \<Rightarrow> ('m \<Rightarrow> bool \<times> 'm) \<Rightarrow> ('m \<Rightarrow> 'm res) \<Rightarrow> guard_call list \<Rightarrow> bool \<times> 'm \<Rightarrow>
   (bool \<times> 'm) res option" where
  "guard_calls lk try_lk ul [] g = Some (Inr g)"
| "guard_calls lk try_lk ul (Lock # cs) g = Option.bind (guard_lock lk g) (guard_calls lk try_lk ul cs)"
| "guard_calls lk try_lk ul (Try_lock # cs) g = guard_calls lk try_lk ul cs (snd (guard_try_lock try_lk g))"
| "guard_calls lk try_lk ul (Unlock # cs) g =
     (case guard_unlock ul g of Inl e \<Rightarrow> Some (Inl e) | Inr g \<Rightarrow> guard_calls lk try_lk ul cs g)"

text \<open>What a scoped lock needs: giving back right after taking leaves the mutex as it was.\<close>

locale lockable =
  fixes lk :: "'m \<Rightarrow> 'm option" and ul :: "'m \<Rightarrow> 'm res"
  assumes lock_unlock: "lk m = Some m' \<Longrightarrow> ul m' = Inr m"

locale try_lockable = lockable +
  fixes try_lk :: "'m \<Rightarrow> bool \<times> 'm"
  assumes try_lock_taken: "try_lk m = (True, m') \<Longrightarrow> ul m' = Inr m"
    and try_lock_held: "try_lk m = (False, m') \<Longrightarrow> m' = m"

context lockable begin

text \<open>The flag is set exactly when the guard has to give back, and then gives back \<open>m\<close>.\<close>

definition guards :: "'m \<Rightarrow> bool \<times> 'm \<Rightarrow> bool" where
  "guards m g \<longleftrightarrow> (if fst g then ul (snd g) = Inr m else snd g = m)"

lemma guards_new: "guard_new lk m = Some g \<Longrightarrow> guards m g \<and> fst g"
  by (auto simp: guard_new_def guard_lock_def guards_def lock_unlock)

lemma guards_lock: "guards m g \<Longrightarrow> guard_lock lk g = Some g' \<Longrightarrow> guards m g' \<and> fst g'"
  by (auto simp: guard_lock_def guards_def lock_unlock split: prod.splits if_splits)

lemma guards_unlock: "guards m g \<Longrightarrow> guard_unlock ul g = Inr (False, m)"
  by (auto simp: guard_unlock_def guards_def split: prod.splits if_splits)

lemma guards_destroy: "guards m g \<Longrightarrow> guard_destroy ul g = Inr m"
  by (simp add: guard_destroy_def guards_unlock)

lemma scope_restores: "guard_new lk m = Some g \<Longrightarrow> guard_destroy ul g = Inr m"
  using guards_new guards_destroy by blast

end

context try_lockable begin

lemma guards_try_lock:
  assumes "guards m g"
  shows "guards m (snd (guard_try_lock try_lk g))" "fst (guard_try_lock try_lk g) = fst (snd (guard_try_lock try_lk g))"
  using assms try_lock_taken try_lock_held
  by (auto simp: guard_try_lock_def guards_def Let_def split: prod.splits)

lemma guards_calls:
  "guards m g \<Longrightarrow> guard_calls lk try_lk ul cs g = Some r \<Longrightarrow> \<exists>g'. r = Inr g' \<and> guards m g'"
proof (induction cs arbitrary: g)
  case (Cons c cs)
  show ?case
  proof (cases c)
    case Lock
    with Cons.prems(2) obtain g1 where "guard_lock lk g = Some g1" "guard_calls lk try_lk ul cs g1 = Some r"
      by (auto simp: bind_eq_Some_conv)
    with Cons guards_lock show ?thesis by blast
  next
    case Try_lock
    with Cons.prems(2) show ?thesis using Cons.IH [OF guards_try_lock(1) [OF Cons.prems(1)]] by simp
  next
    case Unlock
    have "guards m (False, m)" by (simp add: guards_def)
    with Unlock Cons guards_unlock [OF Cons.prems(1)] show ?thesis by auto
  qed
qed auto

text \<open>Whatever a scope does with its guard, its end leaves the mutex as the scope found it.\<close>

lemma scope_calls_restore:
  assumes "guard_new lk m = Some g" "guard_calls lk try_lk ul cs g = Some r"
  shows "\<exists>g'. r = Inr g' \<and> guard_destroy ul g' = Inr m"
proof -
  have "guards m g" using guards_new [OF assms(1)] ..
  from guards_calls [OF this assms(2)] show ?thesis using guards_destroy by auto
qed

end

interpretation mtx: try_lockable mutex_lock mutex_unlock mutex_try_lock
  by unfold_locales (auto simp: mutex_lock_def mutex_unlock_def mutex_try_lock_def split: if_splits)

interpretation spin: try_lockable spin_lock spin_unlock spin_try_lock
  by unfold_locales (auto simp: spin_lock_def spin_unlock_def spin_try_lock_def split: if_splits)

interpretation cas: lockable cas_lock cas_unlock
  by unfold_locales (auto simp: cas_lock_def cas_unlock_def test_and_set_def split: if_splits)

lemma rw_take_give:
  "rw_rdlock m = Some m' \<Longrightarrow> rw_unlock m' = Inr m"
  "rw_wrlock m = Some m' \<Longrightarrow> rw_unlock m' = Inr m"
  by (cases m; cases m'; simp add: rw_rdlock_def rw_wrlock_def rw_unlock_def split: if_splits)+

interpretation rd: lockable rw_rdlock rw_unlock
  by unfold_locales (rule rw_take_give)

interpretation wr: lockable rw_wrlock rw_unlock
  by unfold_locales (rule rw_take_give)

interpretation null: lockable null_lock null_unlock
  by unfold_locales (auto simp: null_lock_def null_unlock_def)

section \<open>Readers and writers\<close>

text \<open>Threads with one read guard and one write guard each over one \<open>RWMutex\<close>: which guards
  are locked, and the mutex.\<close>

record rw_world =
  ww_mutex :: rw_mutex
  ww_read :: "nat list"
  ww_write :: "nat list"

definition rw_world_new :: rw_world where
  "rw_world_new = \<lparr>ww_mutex = rw_new, ww_read = [], ww_write = []\<rparr>"

inductive rw_step :: "rw_world \<Rightarrow> rw_world \<Rightarrow> bool" where
  read_lock: "read_guard_lock (t \<in> set (ww_read w), ww_mutex w) = Some (b, m) \<Longrightarrow>
    rw_step w (w\<lparr>ww_mutex := m, ww_read := (if t \<in> set (ww_read w) then ww_read w else t # ww_read w)\<rparr>)"
| write_lock: "write_guard_lock (t \<in> set (ww_write w), ww_mutex w) = Some (b, m) \<Longrightarrow>
    rw_step w (w\<lparr>ww_mutex := m, ww_write := (if t \<in> set (ww_write w) then ww_write w else t # ww_write w)\<rparr>)"
| read_unlock: "read_guard_unlock (t \<in> set (ww_read w), ww_mutex w) = Inr (b, m) \<Longrightarrow>
    rw_step w (w\<lparr>ww_mutex := m, ww_read := remove1 t (ww_read w)\<rparr>)"
| write_unlock: "write_guard_unlock (t \<in> set (ww_write w), ww_mutex w) = Inr (b, m) \<Longrightarrow>
    rw_step w (w\<lparr>ww_mutex := m, ww_write := remove1 t (ww_write w)\<rparr>)"

text \<open>The mutex counts its guards, and a writer is alone.\<close>

definition rw_inv :: "rw_world \<Rightarrow> bool" where
  "rw_inv w \<longleftrightarrow> distinct (ww_read w) \<and> rw_readers (ww_mutex w) = length (ww_read w) \<and>
     (rw_writer (ww_mutex w) \<longrightarrow> ww_read w = [] \<and> length (ww_write w) = 1) \<and>
     (\<not> rw_writer (ww_mutex w) \<longrightarrow> ww_write w = [])"

lemma rw_world_inv: "rw_inv rw_world_new"
  by (simp add: rw_inv_def rw_world_new_def rw_new_def)

lemma rw_step_inv: "rw_step w w' \<Longrightarrow> rw_inv w \<Longrightarrow> rw_inv w'"
proof (induction rule: rw_step.induct)
  case (read_lock t w b m)
  then show ?case by (auto simp: rw_inv_def rw_guard_defs guard_lock_def rw_rdlock_def split: if_splits)
next
  case (write_lock t w b m)
  then show ?case by (auto simp: rw_inv_def rw_guard_defs guard_lock_def rw_wrlock_def split: if_splits)
next
  case (read_unlock t w b m)
  then show ?case
    by (auto simp: rw_inv_def rw_guard_defs guard_unlock_def rw_unlock_def length_remove1 remove1_idem split: if_splits)
next
  case (write_unlock t w b m)
  then show ?case
    by (auto simp: rw_inv_def rw_guard_defs guard_unlock_def rw_unlock_def length_remove1 remove1_idem length_Suc_conv
        split: if_splits)
qed

text \<open>No guard that is locked ever gives back a mutex that is free.\<close>

lemma rw_unlock_defined:
  "rw_inv w \<Longrightarrow> read_guard_unlock (t \<in> set (ww_read w), ww_mutex w) \<noteq> Inl Undefined"
  by (auto simp: rw_inv_def rw_guard_defs guard_unlock_def rw_unlock_def split: if_splits)

section \<open>Semaphore and condition variable\<close>

text \<open>\<open>Semaphore\<close> over a POSIX semaphore. \<open>sem_init\<close> refuses values above \<open>SEM_VALUE_MAX\<close>;
  \<open>sem_wait\<close> fails when a signal interrupts it, which the code turns into an exception.\<close>

definition SEM_VALUE_MAX :: nat where
  "SEM_VALUE_MAX = 2147483647"

definition sem_new :: "u32 \<Rightarrow> nat res" where
  "sem_new count = (if unat count > SEM_VALUE_MAX then Inl Logic_error else Inr (unat count))"

definition posix_sem_wait :: "bool \<Rightarrow> nat \<Rightarrow> nat res option" where
  "posix_sem_wait interrupted n =
     (if interrupted then Some (Inl Logic_error) else if n = 0 then None else Some (Inr (n - 1)))"

definition posix_sem_notify :: "nat \<Rightarrow> nat res" where
  "posix_sem_notify n = (if n \<ge> SEM_VALUE_MAX then Inl Logic_error else Inr (n + 1))"

text \<open>\<open>Cond::wait_timeout\<close>: the absolute time it computes, and its result given how the wait
  ended. The pthread call answers at once with an error when the nanoseconds are no
  fraction of a second.\<close>

definition abs_time :: "int \<times> int \<Rightarrow> int \<Rightarrow> int \<times> int" where
  "abs_time now ms = (fst now + ms sdiv 1000, snd now + (ms smod 1000) * 1000 * 1000)"

definition valid_timespec :: "int \<times> int \<Rightarrow> bool" where
  "valid_timespec ts \<longleftrightarrow> 0 \<le> snd ts \<and> snd ts < 1000000000"

definition wait_timeout :: "int \<times> int \<Rightarrow> int \<Rightarrow> bool \<Rightarrow> bool" where
  "wait_timeout now ms signalled \<longleftrightarrow> valid_timespec (abs_time now ms) \<and> signalled"

lemma whole_seconds_valid: "valid_timespec now \<Longrightarrow> valid_timespec (abs_time now (1000 * n))"
  by (simp add: abs_time_def valid_timespec_def signed_modulo_int_def signed_divide_int_def)

lemma fraction_overflows:
  assumes "0 \<le> ms" "1000000000 - (ms mod 1000) * 1000000 \<le> snd now"
  shows "\<not> wait_timeout now ms signalled"
  using assms
  by (auto simp: wait_timeout_def abs_time_def valid_timespec_def signed_modulo_int_def signed_divide_int_def
      minus_div_mult_eq_mod sgn_if)

end
