(* ===== verification/Threads.thy ===== *)
theory Threads
  imports Locks
begin

text \<open>
  \<open>Thread\<close> of \<open>acid/common/thread.h\<close> and \<open>thread.cpp\<close>: the constructor and the function the new
  thread runs as two programs that interleave over the object, and the operations on the
  finished object. The POSIX thread is what the standard says of its handle: it can be
  joined or detached once.
\<close>

section \<open>Construction\<close>

text \<open>Where the constructor is, and where \<open>Thread::run\<close> is; \<open>Failed\<close> is the exception.\<close>

datatype ctor_pc = Create | Wait_started | Returned_ctor | Failed error

datatype run_pc =
    Not_created | Set_locals | Set_id | Set_os_name | Swap_callback | Notify_started | Call_back | Ended

datatype handle = Joinable | Joined | Detached

text \<open>The object and the thread-local variables of the new thread. \<open>th_id\<close> is not initialised
  by the constructor. The callback is a number; \<open>None\<close> is an empty function.\<close>

record thread =
  th_id :: "nat option"
  th_name :: string
  th_handle :: "handle option"
  th_callback :: "nat option"
  th_sem :: nat

record thread_world =
  tw_thread :: thread
  tw_ctor :: ctor_pc
  tw_run :: run_pc
  tw_this :: bool
  tw_local_name :: string
  tw_os_name :: string
  tw_local_cb :: "nat option"
  tw_called :: "nat list"

definition thread_named :: "string \<Rightarrow> string" where
  "thread_named name = (if name = [] then ''UNKNOWN'' else name)"

definition thread_start :: "nat \<Rightarrow> string \<Rightarrow> thread_world" where
  "thread_start cb name =
     \<lparr>tw_thread = \<lparr>th_id = None, th_name = thread_named name, th_handle = None, th_callback = Some cb, th_sem = 0\<rparr>,
      tw_ctor = Create, tw_run = Not_created, tw_this = False, tw_local_name = ''UNKNOWN'', tw_os_name = [],
      tw_local_cb = None, tw_called = []\<rparr>"

text \<open>One step of the constructor: \<open>ok\<close> says whether \<open>pthread_create\<close> succeeds, \<open>interrupted\<close>
  whether a signal ends the wait.\<close>

definition ctor_step :: "bool \<Rightarrow> bool \<Rightarrow> thread_world \<Rightarrow> thread_world option" where
  "ctor_step ok interrupted w =
     (case tw_ctor w of
        Create \<Rightarrow>
          (if \<not> ok then Some (w\<lparr>tw_ctor := Failed Logic_error\<rparr>)
           else Some (w\<lparr>tw_thread := (tw_thread w)\<lparr>th_handle := Some Joinable\<rparr>, tw_ctor := Wait_started,
             tw_run := Set_locals\<rparr>))
      | Wait_started \<Rightarrow>
          (case posix_sem_wait interrupted (th_sem (tw_thread w)) of
             None \<Rightarrow> None
           | Some (Inl e) \<Rightarrow> Some (w\<lparr>tw_ctor := Failed e\<rparr>)
           | Some (Inr n) \<Rightarrow> Some (w\<lparr>tw_thread := (tw_thread w)\<lparr>th_sem := n\<rparr>, tw_ctor := Returned_ctor\<rparr>))
      | _ \<Rightarrow> None)"

text \<open>One step of \<open>Thread::run\<close> on the new thread, whose kernel id is \<open>tid\<close>. Calling an
  empty function would raise \<open>std::bad_function_call\<close>.\<close>

definition run_step :: "nat \<Rightarrow> thread_world \<Rightarrow> thread_world option" where
  "run_step tid w =
     (let th = tw_thread w in
      case tw_run w of
        Set_locals \<Rightarrow> Some (w\<lparr>tw_this := True, tw_local_name := th_name th, tw_run := Set_id\<rparr>)
      | Set_id \<Rightarrow> Some (w\<lparr>tw_thread := th\<lparr>th_id := Some tid\<rparr>, tw_run := Set_os_name\<rparr>)
      | Set_os_name \<Rightarrow> Some (w\<lparr>tw_os_name := take 15 (th_name th), tw_run := Swap_callback\<rparr>)
      | Swap_callback \<Rightarrow>
          Some (w\<lparr>tw_thread := th\<lparr>th_callback := tw_local_cb w\<rparr>, tw_local_cb := th_callback th,
            tw_run := Notify_started\<rparr>)
      | Notify_started \<Rightarrow>
          (case posix_sem_notify (th_sem th) of
             Inl e \<Rightarrow> None
           | Inr n \<Rightarrow> Some (w\<lparr>tw_thread := th\<lparr>th_sem := n\<rparr>, tw_run := Call_back\<rparr>))
      | Call_back \<Rightarrow>
          (case tw_local_cb w of
             None \<Rightarrow> None
           | Some cb \<Rightarrow> Some (w\<lparr>tw_called := tw_called w @ [cb], tw_run := Ended\<rparr>))
      | _ \<Rightarrow> None)"

inductive thread_reach :: "nat \<Rightarrow> string \<Rightarrow> nat \<Rightarrow> thread_world \<Rightarrow> bool" for cb name tid where
  start: "thread_reach cb name tid (thread_start cb name)"
| ctor: "thread_reach cb name tid w \<Longrightarrow> ctor_step ok interrupted w = Some w' \<Longrightarrow> thread_reach cb name tid w'"
| run: "thread_reach cb name tid w \<Longrightarrow> run_step tid w = Some w' \<Longrightarrow> thread_reach cb name tid w'"

text \<open>How far \<open>run\<close> has come decides what the object holds; the semaphore is worth one from
  the notification until the constructor takes it.\<close>

definition before_id :: "run_pc \<Rightarrow> bool" where
  "before_id p \<longleftrightarrow> p \<in> {Not_created, Set_locals, Set_id}"

definition before_swap :: "run_pc \<Rightarrow> bool" where
  "before_swap p \<longleftrightarrow> before_id p \<or> p \<in> {Set_os_name, Swap_callback}"

definition notified :: "run_pc \<Rightarrow> bool" where
  "notified p \<longleftrightarrow> p \<in> {Call_back, Ended}"

definition thread_inv :: "nat \<Rightarrow> string \<Rightarrow> nat \<Rightarrow> thread_world \<Rightarrow> bool" where
  "thread_inv cb name tid w \<longleftrightarrow>
     (let th = tw_thread w; p = tw_run w in
      th_name th = thread_named name \<and>
      (p = Not_created \<longleftrightarrow> th_handle th = None) \<and>
      (p = Not_created \<longrightarrow> tw_ctor w \<noteq> Wait_started) \<and>
      (p \<noteq> Not_created \<longrightarrow> tw_ctor w \<noteq> Create) \<and>
      th_id th = (if before_id p then None else Some tid) \<and>
      th_callback th = (if before_swap p then Some cb else None) \<and>
      tw_local_cb w = (if before_swap p then None else Some cb) \<and>
      (before_id p \<or> p = Set_os_name \<or> tw_os_name w = take 15 (thread_named name)) \<and>
      tw_called w = (if p = Ended then [cb] else []) \<and>
      th_sem th \<le> 1 \<and>
      (tw_ctor w \<noteq> Returned_ctor \<longrightarrow> (th_sem th = 1 \<longleftrightarrow> notified p)) \<and>
      (tw_ctor w = Returned_ctor \<longrightarrow> notified p \<and> th_sem th = 0))"

lemmas thread_defs = thread_inv_def before_id_def before_swap_def notified_def Let_def

lemma thread_start_inv: "thread_inv cb name tid (thread_start cb name)"
  by (simp add: thread_defs thread_start_def)

lemma ctor_step_keeps:
  assumes "thread_inv cb name tid w"
  shows "case ctor_step ok interrupted w of None \<Rightarrow> True | Some w' \<Rightarrow> thread_inv cb name tid w'"
proof (cases "tw_ctor w")
  case Create
  then have "tw_run w = Not_created" using assms by (simp add: thread_inv_def Let_def)
  with Create assms show ?thesis by (simp add: ctor_step_def thread_defs)
next
  case Wait_started
  with assms show ?thesis
    by (cases "tw_run w"; cases interrupted)
       (simp_all add: ctor_step_def posix_sem_wait_def thread_defs)
qed (simp_all add: ctor_step_def)

lemma run_step_keeps:
  assumes "thread_inv cb name tid w"
  shows "case run_step tid w of None \<Rightarrow> True | Some w' \<Rightarrow> thread_inv cb name tid w'"
proof (cases "tw_run w")
  case Notify_started
  then have "th_sem (tw_thread w) = 0" using assms by (auto simp: thread_defs)
  with Notify_started assms show ?thesis
    by (simp add: run_step_def thread_defs posix_sem_notify_def SEM_VALUE_MAX_def)
qed (use assms in \<open>simp_all add: run_step_def thread_defs split: option.split\<close>)

lemma ctor_step_inv:
  "thread_inv cb name tid w \<Longrightarrow> ctor_step ok interrupted w = Some w' \<Longrightarrow> thread_inv cb name tid w'"
  using ctor_step_keeps [of cb name tid w ok interrupted] by simp

lemma run_step_inv:
  "thread_inv cb name tid w \<Longrightarrow> run_step tid w = Some w' \<Longrightarrow> thread_inv cb name tid w'"
  using run_step_keeps [of cb name tid w] by simp

lemma thread_reach_inv: "thread_reach cb name tid w \<Longrightarrow> thread_inv cb name tid w"
  by (induction rule: thread_reach.induct) (auto intro: thread_start_inv ctor_step_inv run_step_inv)

text \<open>The new thread never waits: until it has ended it can always go on.\<close>

lemma run_goes_on:
  assumes "thread_inv cb name tid w" "tw_run w \<noteq> Not_created" "tw_run w \<noteq> Ended"
  shows "run_step tid w \<noteq> None"
  using assms
  by (cases "tw_run w")
     (auto simp: thread_defs run_step_def posix_sem_notify_def SEM_VALUE_MAX_def split: if_splits)

lemma ctor_waits_for_run:
  assumes "thread_inv cb name tid w" "tw_ctor w = Wait_started"
  shows "ctor_step ok False w = None \<longleftrightarrow> \<not> notified (tw_run w)"
  using assms by (auto simp: thread_defs ctor_step_def posix_sem_wait_def split: if_splits)

section \<open>Names, joining and destruction\<close>

text \<open>\<open>set_name\<close> on a thread: \<open>this\<close> is its object, if it has one. It changes the thread-local
  name and the name in the object.\<close>

definition thread_set_name :: "string \<Rightarrow> thread option \<times> string \<Rightarrow> thread option \<times> string" where
  "thread_set_name name st =
     (if name = [] then st else (map_option (th_name_update (\<lambda>_. name)) (fst st), name))"

text \<open>\<open>join\<close> returns when the thread has ended; \<open>m_thread\<close> stays as it is. A handle that has
  been joined or detached must not be used again.\<close>

definition thread_join :: "thread \<Rightarrow> thread res" where
  "thread_join th =
     (case th_handle th of
        None \<Rightarrow> Inr th
      | Some Joinable \<Rightarrow> Inr (th\<lparr>th_handle := Some Joined\<rparr>)
      | Some _ \<Rightarrow> Inl Undefined)"

definition thread_destroy :: "thread \<Rightarrow> handle option res" where
  "thread_destroy th =
     (case th_handle th of
        None \<Rightarrow> Inr None
      | Some Joinable \<Rightarrow> Inr (Some Detached)
      | Some _ \<Rightarrow> Inl Undefined)"

lemma join_then_destroy:
  "th_handle th = Some Joinable \<Longrightarrow> bindR (thread_join th) thread_destroy = Inl Undefined"
  by (simp add: thread_join_def thread_destroy_def)

lemma join_twice:
  "th_handle th = Some Joinable \<Longrightarrow> bindR (thread_join th) thread_join = Inl Undefined"
  by (simp add: thread_join_def)

end
