(* ===== verification/Serializer_Types.thy ===== *)
theory Serializer_Types
  imports Serializer_Spec
begin

text \<open>
  A check of the model of values: \<open>val\<close> is one type where C++ has many, so that it has to be
  shown that \<open>get\<close> never leaves the values of the static type of a variable, nor breaks the
  order or the uniqueness that the containers of the standard library keep.
\<close>

section \<open>What reading yields\<close>

text \<open>The values of a type, with what their container keeps: a set is ordered without equal
  elements, a map by its keys, the unordered ones have no element or key twice.\<close>

definition prim_typed :: "ty \<Rightarrow> val \<Rightarrow> bool" where
  "prim_typed t v =
     (case v of Bool b \<Rightarrow> t = TBool | Float w \<Rightarrow> t = TFloat | Double w \<Rightarrow> t = TDouble
      | I8 w \<Rightarrow> t = TI8 | U8 w \<Rightarrow> t = TU8 | I16 w \<Rightarrow> t = TI16 | U16 w \<Rightarrow> t = TU16
      | I32 w \<Rightarrow> t = TI32 | U32 w \<Rightarrow> t = TU32 | I64 w \<Rightarrow> t = TI64 | U64 w \<Rightarrow> t = TU64
      | Str s \<Rightarrow> t = TString | _ \<Rightarrow> False)"

definition not_less :: "('a \<Rightarrow> 'a \<Rightarrow> bool) \<Rightarrow> 'a \<Rightarrow> 'a \<Rightarrow> bool" where
  "not_less lt a b \<longleftrightarrow> \<not> lt b a"

fun typed :: "(val \<Rightarrow> val \<Rightarrow> bool) \<Rightarrow> ty \<Rightarrow> val \<Rightarrow> bool" where
  "typed lt (TTuple ts) v = (case v of Tuple vs \<Rightarrow> list_all2 (typed lt) ts vs | _ \<Rightarrow> False)"
| "typed lt (TList t) v = (case v of List vs \<Rightarrow> list_all (typed lt t) vs | _ \<Rightarrow> False)"
| "typed lt (TVector t) v = (case v of Vector vs \<Rightarrow> list_all (typed lt t) vs | _ \<Rightarrow> False)"
| "typed lt (TSet t) v = (case v of Set vs \<Rightarrow> list_all (typed lt t) vs \<and> sorted_wrt lt vs | _ \<Rightarrow> False)"
| "typed lt (TUnordered_set t) v = (case v of Unordered_set vs \<Rightarrow> list_all (typed lt t) vs \<and> distinct vs | _ \<Rightarrow> False)"
| "typed lt (TMultiset t) v = (case v of Multiset vs \<Rightarrow> list_all (typed lt t) vs \<and> sorted_wrt (not_less lt) vs | _ \<Rightarrow> False)"
| "typed lt (TUnordered_multiset t) v = (case v of Unordered_multiset vs \<Rightarrow> list_all (typed lt t) vs | _ \<Rightarrow> False)"
| "typed lt (TPair k u) v = (case v of Pair a b \<Rightarrow> typed lt k a \<and> typed lt u b | _ \<Rightarrow> False)"
| "typed lt (TMap k u) v =
     (case v of Map es \<Rightarrow> list_all (\<lambda>(a, b). typed lt k a \<and> typed lt u b) es \<and> sorted_wrt (key_lt lt) es | _ \<Rightarrow> False)"
| "typed lt (TUnordered_map k u) v =
     (case v of Unordered_map es \<Rightarrow> list_all (\<lambda>(a, b). typed lt k a \<and> typed lt u b) es \<and> distinct (map fst es) | _ \<Rightarrow> False)"
| "typed lt (TMultimap k u) v =
     (case v of Multimap es \<Rightarrow> list_all (\<lambda>(a, b). typed lt k a \<and> typed lt u b) es \<and> sorted_wrt (not_less (key_lt lt)) es | _ \<Rightarrow> False)"
| "typed lt (TUnordered_multimap k u) v =
     (case v of Unordered_multimap es \<Rightarrow> list_all (\<lambda>(a, b). typed lt k a \<and> typed lt u b) es | _ \<Rightarrow> False)"
| "typed lt t v = prim_typed t v"

lemma default_typed: "typed lt t (default_val t)"
  by (induction t) (auto simp: prim_typed_def list_all2_conv_all_nth)

lemma strict_weak_key: "strict_weak lt \<Longrightarrow> strict_weak (key_lt lt)"
  unfolding strict_weak_def key_lt_def equiv_key_def by blast

lemma sread_typed:
  assumes "sread t old ba = Inr (v, ba')" "typed lt t old"
  shows "typed lt t v"
  using assms by (cases t) (auto simp: with_val_def bindR_Inr_iff prim_typed_def)

lemma read_each_typed:
  "read_each t n ba = Inr (vs, ba') \<Longrightarrow> list_all (typed lt t) vs"
proof (induction n arbitrary: ba vs)
  case (Suc n)
  then obtain v ba1 vs' ba2 where "sread t (default_val t) ba = Inr (v, ba1)" "read_each t n ba1 = Inr (vs', ba2)"
    "vs = v # vs'" "ba2 = ba'" by (auto simp: bindR_Inr_iff)
  with Suc.IH sread_typed [OF _ default_typed] show ?case by auto
qed simp

text \<open>Inserting keeps what the container keeps.\<close>

lemma fold_set_typed:
  assumes "strict_weak lt" "list_all P vs" "list_all P xs" "sorted_wrt lt xs"
  shows "list_all P (fold (set_insert lt) vs xs) \<and> sorted_wrt lt (fold (set_insert lt) vs xs)"
  using assms(2-)
proof (induction vs arbitrary: xs)
  case (Cons v vs)
  have "list_all P (set_insert lt v xs)"
    using Cons.prems strict_weak.set_set_insert [OF assms(1), of v xs] by (auto simp: list_all_iff)
  with Cons strict_weak.ordered_insert [OF assms(1)] show ?case by simp
qed simp

lemma multi_insert_not_less:
  "strict_weak lt \<Longrightarrow> sorted_wrt (not_less lt) xs \<Longrightarrow> sorted_wrt (not_less lt) (multi_insert lt x xs)"
  unfolding not_less_def by (rule strict_weak.multi_insert_ordered)

lemma fold_multi_typed:
  assumes "strict_weak lt" "list_all P vs" "list_all P xs" "sorted_wrt (not_less lt) xs"
  shows "list_all P (fold (multi_insert lt) vs xs) \<and> sorted_wrt (not_less lt) (fold (multi_insert lt) vs xs)"
  using assms(2-)
proof (induction vs arbitrary: xs)
  case (Cons v vs)
  have "list_all P (multi_insert lt v xs)" "sorted_wrt (not_less lt) (multi_insert lt v xs)"
    using Cons.prems by (simp_all add: multi_insert_not_less [OF assms(1)] list_all_iff)
  from Cons.IH [OF _ this] Cons.prems show ?case by simp
qed simp

lemma fold_uset_typed:
  "list_all P vs \<Longrightarrow> list_all P xs \<Longrightarrow> distinct xs \<Longrightarrow>
   list_all P (fold uset_insert vs xs) \<and> distinct (fold uset_insert vs xs)"
  by (induction vs arbitrary: xs) (simp_all add: uset_insert_def)

lemma fold_umap_typed:
  "list_all P es \<Longrightarrow> list_all P xs \<Longrightarrow> distinct (map fst xs) \<Longrightarrow>
   list_all P (fold umap_insert es xs) \<and> distinct (map fst (fold umap_insert es xs))"
  by (induction es arbitrary: xs) (simp_all add: umap_insert_def)

lemma repeat_read_typed:
  assumes "\<And>ba x ba'. f ba = Inr (x, ba') \<Longrightarrow> P x" "repeat_read n f ba = Inr (xs, ba')"
  shows "list_all P xs"
  using assms(2)
proof (induction n arbitrary: ba xs)
  case (Suc n)
  then show ?case using assms(1) by (fastforce simp: bindR_Inr_iff)
qed simp

lemma container_typed:
  assumes "read_container t build ba = Inr (v, ba')" "\<And>vs. list_all (typed lt t) vs \<Longrightarrow> typed lt t' (build vs)"
  shows "typed lt t' v"
  using assms read_each_typed by (auto simp: read_container_def bindR_Inr_iff)

lemma entries_typed:
  assumes "read_entries (pair_read f g a b) build ba = Inr (v, ba')"
    and "\<And>ba x ba'. f a ba = Inr (x, ba') \<Longrightarrow> P x" "\<And>ba x ba'. g b ba = Inr (x, ba') \<Longrightarrow> Q x"
    and "\<And>es. list_all (\<lambda>(a, b). P a \<and> Q b) es \<Longrightarrow> typed lt t' (build es)"
  shows "typed lt t' v"
proof -
  have "(case x of (a, b) \<Rightarrow> P a \<and> Q b)" if "pair_read f g a b ba = Inr (x, ba')" for ba x ba'
    using that assms(2,3) by (fastforce simp: pair_read_def bindR_Inr_iff)
  with assms(1,4) repeat_read_typed [of "pair_read f g a b" "\<lambda>(a, b). P a \<and> Q b"] show ?thesis
    by (auto simp: read_entries_def bindR_Inr_iff)
qed

lemma get_typed_all:
  "get lt t old ba = Inr (v, ba') \<Longrightarrow> strict_weak lt \<Longrightarrow> typed lt t old \<Longrightarrow> typed lt t v"
  "get_all lt ts olds ba = Inr (vs, ba') \<Longrightarrow> strict_weak lt \<Longrightarrow> list_all2 (typed lt) ts olds \<Longrightarrow>
     list_all2 (typed lt) ts vs"
proof (induction lt t old ba and lt ts olds ba arbitrary: v ba' and vs ba' rule: get_get_all.induct)
  case (1 lt ts old ba)
  then obtain olds where "old = Tuple olds" "list_all2 (typed lt) ts olds" by (auto split: val.splits)
  with 1 show ?case by (auto simp: bindR_Inr_iff)
next
  case (2 lt t old ba)
  then obtain xs where xs: "old = List xs" "list_all (typed lt t) xs" by (auto split: val.splits)
  show ?case by (rule container_typed [OF 2(1) [unfolded get.simps]]) (use xs in simp)
next
  case (3 lt t old ba)
  then obtain xs where xs: "old = Vector xs" "list_all (typed lt t) xs" by (auto split: val.splits)
  show ?case by (rule container_typed [OF 3(1) [unfolded get.simps]]) (use xs in simp)
next
  case (4 lt t old ba)
  then obtain xs where xs: "old = Set xs" "list_all (typed lt t) xs" "sorted_wrt lt xs" by (auto split: val.splits)
  show ?case
    by (rule container_typed [OF 4(1) [unfolded get.simps]])
       (use xs fold_set_typed [OF 4(2), of "typed lt t"] in simp)
next
  case (5 lt t old ba)
  then obtain xs where xs: "old = Unordered_set xs" "list_all (typed lt t) xs" "distinct xs" by (auto split: val.splits)
  show ?case
    by (rule container_typed [OF 5(1) [unfolded get.simps]]) (use xs fold_uset_typed [of "typed lt t"] in simp)
next
  case (6 lt t old ba)
  then obtain xs where xs: "old = Multiset xs" "list_all (typed lt t) xs" "sorted_wrt (not_less lt) xs"
    by (auto split: val.splits)
  show ?case
    by (rule container_typed [OF 6(1) [unfolded get.simps]])
       (use xs fold_multi_typed [OF 6(2), of "typed lt t"] in simp)
next
  case (7 lt t old ba)
  then obtain xs where xs: "old = Unordered_multiset xs" "list_all (typed lt t) xs" by (auto split: val.splits)
  show ?case by (rule container_typed [OF 7(1) [unfolded get.simps]]) (use xs in simp)
next
  case (8 lt k u old ba)
  then obtain a b where "old = Pair a b" "typed lt k a" "typed lt u b" by (auto split: val.splits)
  with 8 show ?case by (auto simp: bindR_Inr_iff pair_read_def)
next
  case (9 lt k u old ba)
  then obtain es where es: "old = Map es" "list_all (\<lambda>(a, b). typed lt k a \<and> typed lt u b) es" "sorted_wrt (key_lt lt) es"
    by (auto split: val.splits)
  show ?case
    by (rule entries_typed [OF 9(3) [unfolded get.simps], where P = "typed lt k" and Q = "typed lt u"])
       (use 9(1,2,4) es default_typed fold_set_typed [OF strict_weak_key [OF 9(4)]] in \<open>simp_all\<close>)
next
  case (10 lt k u old ba)
  then obtain es where es: "old = Unordered_map es" "list_all (\<lambda>(a, b). typed lt k a \<and> typed lt u b) es" "distinct (map fst es)"
    by (auto split: val.splits)
  show ?case
    by (rule entries_typed [OF 10(3) [unfolded get.simps], where P = "typed lt k" and Q = "typed lt u"])
       (use 10(1,2,4) es default_typed fold_umap_typed in \<open>simp_all\<close>)
next
  case (11 lt k u old ba)
  then obtain es where es: "old = Multimap es" "list_all (\<lambda>(a, b). typed lt k a \<and> typed lt u b) es"
    "sorted_wrt (not_less (key_lt lt)) es" by (auto split: val.splits)
  show ?case
    by (rule entries_typed [OF 11(3) [unfolded get.simps], where P = "typed lt k" and Q = "typed lt u"])
       (use 11(1,2,4) es default_typed fold_multi_typed [OF strict_weak_key [OF 11(4)]] in \<open>simp_all\<close>)
next
  case (12 lt k u old ba)
  then obtain es where es: "old = Unordered_multimap es" "list_all (\<lambda>(a, b). typed lt k a \<and> typed lt u b) es"
    by (auto split: val.splits)
  show ?case
    by (rule entries_typed [OF 12(3) [unfolded get.simps], where P = "typed lt k" and Q = "typed lt u"])
       (use 12(1,2,4) es default_typed in \<open>simp_all\<close>)
qed (auto simp: bindR_Inr_iff with_val_def prim_typed_def)

end
