(* ===== verification/Settings.thy ===== *)
theory Settings
  imports Config_Spec
begin

text \<open>
  The configuration variables of the program and the static copies some components keep of
  them: \<open>rpc_client.cpp\<close>, \<open>rpc_connection_pool.cpp\<close>, \<open>rpc_server.cpp\<close> and
  \<open>rpc_service_registry.cpp\<close> read their variable once, before \<open>main\<close>, and register a
  listener that writes the copy; \<open>fiber.cpp\<close> and \<open>daemon.cpp\<close> read theirs at each use. The
  order in which the files are initialised is not fixed by the language. The contract of
  such an initialisation is the locale \<open>static_setting\<close>.
\<close>

section \<open>Variables and their copies\<close>

text \<open>\<open>size_t\<close> and \<open>uint64_t\<close> are the same type.\<close>

datatype setting_type = T_uint32 | T_uint64

datatype setting = V32 u32 | V64 u64

text \<open>\<open>LexicalCast\<close> without a specialisation: \<open>lexical_cast\<close> from text and to text.\<close>

fun setting_from_string :: "setting_type \<Rightarrow> string \<Rightarrow> setting option" where
  "setting_from_string T_uint32 s = map_option V32 (res_option (convert_uint s))"
| "setting_from_string T_uint64 s = map_option V64 (res_option (convert_ulong s))"

fun setting_to_string :: "setting_type \<Rightarrow> setting \<Rightarrow> string option" where
  "setting_to_string ty (V32 w) = Some (to_string_unsigned w)"
| "setting_to_string ty (V64 w) = Some (to_string_unsigned w)"

definition setting_bits :: "setting \<Rightarrow> u64" where
  "setting_bits v = (case v of V32 w \<Rightarrow> ucast w | V64 w \<Rightarrow> w)"

text \<open>The table, the static counter of \<open>ConfigVar<uint64_t>::add_listener\<close>, and the copies by the
  numbers of the listeners that write them.\<close>

record settings =
  st_config :: "(setting_type, setting) config"
  st_index :: nat
  st_copy :: "nat \<Rightarrow> u64"

definition settings_new :: "(nat \<Rightarrow> (setting_type, setting) config_var) \<Rightarrow> (nat \<Rightarrow> u64) \<Rightarrow> settings" where
  "settings_new vars copies = \<lparr>st_config = config_new vars, st_index = 0, st_copy = copies\<rparr>"

text \<open>A variable that is only read where it is used.\<close>

definition static_var :: "setting_type \<Rightarrow> string \<Rightarrow> setting \<Rightarrow> string \<Rightarrow> nat \<Rightarrow> settings \<Rightarrow> settings res" where
  "static_var ty name v description fresh st =
     bindR (config_look_up setting_to_string ty name v description fresh (st_config st)) (\<lambda>(a, cf).
       Inr (st\<lparr>st_config := cf\<rparr>))"

definition fiber_static :: "nat \<Rightarrow> settings \<Rightarrow> settings res" where
  "fiber_static = static_var T_uint32 ''fiber.stack_size'' (V32 (128 * 1024)) ''fiber stack size''"

definition daemon_static :: "nat \<Rightarrow> settings \<Rightarrow> settings res" where
  "daemon_static = static_var T_uint32 ''daemon.start_interval'' (V32 5) ''daemon restart interval''"

text \<open>A variable with a static copy: the copy is read, then the listener that writes it is added.\<close>

definition mirrored_var :: "string \<Rightarrow> u64 \<Rightarrow> string \<Rightarrow> nat \<Rightarrow> nat \<Rightarrow> settings \<Rightarrow> settings res" where
  "mirrored_var name v description cb fresh st =
     bindR (config_look_up setting_to_string T_uint64 name (V64 v) description fresh (st_config st)) (\<lambda>(a, cf).
       let copies = (st_copy st)(cb := setting_bits (get_value (cf_vars cf a)));
           (index, cv) = add_listener (st_index st) cb (cf_vars cf a)
       in Inr \<lparr>st_config = cf\<lparr>cf_vars := (cf_vars cf)(a := cv)\<rparr>, st_index = index, st_copy = copies\<rparr>)"

definition client_static :: "nat \<Rightarrow> settings \<Rightarrow> settings res" where
  "client_static = mirrored_var ''rpc.client.channel_capacity'' 1024 ''rpc client channel capacity'' 0"

definition pool_static :: "nat \<Rightarrow> settings \<Rightarrow> settings res" where
  "pool_static =
     mirrored_var ''rpc.connection_pool.channel_capacity'' 1024 ''rpc connection pool channel capacity'' 1"

definition server_static :: "nat \<Rightarrow> settings \<Rightarrow> settings res" where
  "server_static = mirrored_var ''rpc.server.heartbeat_timeout'' 40000 ''rpc server heartbeat timeout(ms)'' 2"

definition registry_static :: "nat \<Rightarrow> settings \<Rightarrow> settings res" where
  "registry_static = mirrored_var ''rpc.registry.heartbeat_timeout'' 40000 ''rpc registry heartbeat timeout(ms)'' 3"

text \<open>The listeners that a document calls write their copies, in the order of the calls.\<close>

definition call_listeners :: "(nat \<times> setting call) list \<Rightarrow> (nat \<Rightarrow> u64) \<Rightarrow> nat \<Rightarrow> u64" where
  "call_listeners calls copies = fold (\<lambda>(a, key, cb, old, new) copies. copies(cb := setting_bits new)) calls copies"

definition load_settings :: "yaml_lib \<Rightarrow> yaml \<Rightarrow> settings \<Rightarrow> settings" where
  "load_settings y root st =
     (let (calls, cf) = load_from_yaml setting_from_string y root ([], st_config st)
      in st\<lparr>st_config := cf, st_copy := call_listeners calls (st_copy st)\<rparr>)"

section \<open>Copies follow their variables\<close>

lemma call_listeners_simps [simp]:
  "call_listeners [] copies = copies"
  "call_listeners (cs @ ds) copies = call_listeners ds (call_listeners cs copies)"
  by (simp_all add: call_listeners_def)

lemma call_listeners_var:
  "call_listeners (map (Pair a) (fst (set_value v cv))) copies cb =
    (if cb \<in> snd ` set (cv_callbacks cv) \<and> v \<noteq> cv_val cv then setting_bits v else copies cb)"
proof -
  have "call_listeners (map (\<lambda>(key, c). (a, key, c, old, v)) cbs) copies cb =
      (if cb \<in> snd ` set cbs then setting_bits v else copies cb)" for cbs :: "(nat \<times> nat) list" and old
    by (induction cbs arbitrary: copies) (auto simp: call_listeners_def)
  then show ?thesis by (auto simp: set_value_def o_def case_prod_unfold)
qed

text \<open>\<open>heeds cf cb a\<close>: the listener \<open>cb\<close> is registered at the variable of address \<open>a\<close>.\<close>

definition heeds :: "(setting_type, setting) config \<Rightarrow> nat \<Rightarrow> nat \<Rightarrow> bool" where
  "heeds cf cb a \<longleftrightarrow> (\<exists>name. look_up_base name cf = Some a) \<and> cb \<in> snd ` set (cv_callbacks (cf_vars cf a))"

definition mirrored :: "(setting_type, setting) config \<Rightarrow> (nat \<Rightarrow> u64) \<Rightarrow> bool" where
  "mirrored cf copies \<longleftrightarrow>
     (\<forall>a cb. heeds cf cb a \<longrightarrow> copies cb = setting_bits (cv_val (cf_vars cf a)) \<and> (\<forall>b. heeds cf cb b \<longrightarrow> b = a))"

definition settings_ok :: "settings \<Rightarrow> bool" where
  "settings_ok st \<longleftrightarrow> config_ok (st_config st) \<and> mirrored (st_config st) (st_copy st)"

lemma settings_new_ok: "settings_ok (settings_new vars copies)"
  using config_new_ok [of vars]
  by (simp add: settings_ok_def settings_new_def mirrored_def heeds_def look_up_base_def config_new_def map_find_def)

lemma load_node_heeds: "heeds (snd (load_node f y m s)) = heeds (snd s)"
  by (intro ext) (simp add: heeds_def load_node_look_up load_node_keeps)

lemma load_node_mirrored:
  assumes "config_ok (snd s)" "mirrored (snd s) (call_listeners (fst s) copies)"
  shows "mirrored (snd (load_node f y m s)) (call_listeners (fst (load_node f y m s)) copies)"
proof (cases "fst m \<noteq> [] \<and> (\<exists>a v. look_up_base (map lower_char (fst m)) (snd s) = Some a \<and>
    f (cv_type (cf_vars (snd s) a)) (node_text y (snd m)) = Some v)")
  case False
  then have "load_node f y m s = s"
    by (cases s; cases "snd s") (auto simp: load_node_def cv_from_string_def split: option.split)
  then show ?thesis using assms(2) by simp
next
  case True
  then obtain a v where a: "fst m \<noteq> []" "look_up_base (map lower_char (fst m)) (snd s) = Some a"
    "f (cv_type (cf_vars (snd s) a)) (node_text y (snd m)) = Some v" by blast
  let ?cv = "cf_vars (snd s) a"
  have l: "load_node f y m s = (fst s @ map (Pair a) (fst (set_value v ?cv)),
      (snd s)\<lparr>cf_vars := (cf_vars (snd s))(a := snd (set_value v ?cv))\<rparr>)"
    using a by (simp add: load_node_def cv_from_string_def case_prod_unfold)
  have v: "cv_val (snd (set_value v ?cv)) = v" by (simp add: set_value_def)
  have val: "cv_val (cf_vars (snd (load_node f y m s)) b) = (if b = a then v else cv_val (cf_vars (snd s) b))" for b
    unfolding l by (simp add: v)
  have cp: "call_listeners (fst (load_node f y m s)) copies cb =
      (if cb \<in> snd ` set (cv_callbacks ?cv) \<and> v \<noteq> cv_val ?cv then setting_bits v else call_listeners (fst s) copies cb)" for cb
    unfolding l by (simp add: call_listeners_var)
  have A: "heeds (snd s) cb a" if "cb \<in> snd ` set (cv_callbacks ?cv)" for cb
    using that a(2) by (auto simp: heeds_def)
  show ?thesis
    unfolding mirrored_def load_node_heeds val cp
  proof (intro allI impI)
    fix b cb assume h: "heeds (snd s) cb b"
    then have "cb \<in> snd ` set (cv_callbacks ?cv) \<Longrightarrow> b = a" "b = a \<Longrightarrow> cb \<in> snd ` set (cv_callbacks ?cv)"
      using A assms(2) unfolding mirrored_def by (blast, simp add: heeds_def)
    with h assms(2)
    show "(if cb \<in> snd ` set (cv_callbacks ?cv) \<and> v \<noteq> cv_val ?cv then setting_bits v else call_listeners (fst s) copies cb) =
        setting_bits (if b = a then v else cv_val (cf_vars (snd s) b)) \<and> (\<forall>b'. heeds (snd s) cb b' \<longrightarrow> b' = b)"
      unfolding mirrored_def by auto
  qed
qed

lemma load_nodes_mirrored:
  "config_ok (snd s) \<Longrightarrow> mirrored (snd s) (call_listeners (fst s) copies) \<Longrightarrow>
   config_ok (snd (fold (load_node f y) ms s)) \<and>
   mirrored (snd (fold (load_node f y) ms s)) (call_listeners (fst (fold (load_node f y) ms s)) copies)"
proof (induction ms arbitrary: s)
  case (Cons m ms)
  from Cons.IH [OF load_node_ok [OF Cons.prems(1)] load_node_mirrored [OF Cons.prems]] show ?case by simp
qed simp

lemma load_settings_ok: "settings_ok st \<Longrightarrow> settings_ok (load_settings y root st)"
  using load_nodes_mirrored [of "([], st_config st)" "st_copy st"]
  by (simp add: settings_ok_def load_settings_def load_from_yaml_def case_prod_unfold Let_def)

section \<open>Initialisation\<close>

text \<open>What the initialisation of a setting promises while its name is not in the table: the
  variable is in the table with the default value and the copy follows it; no other
  variable changes.\<close>

locale static_setting =
  fixes init :: "nat \<Rightarrow> settings \<Rightarrow> settings res"
    and name :: string and default :: u64 and cb :: nat
  assumes init_ok: "settings_ok st \<Longrightarrow> look_up_base name (st_config st) = None \<Longrightarrow>
      (\<And>k. look_up_base k (st_config st) \<noteq> Some fresh) \<Longrightarrow> (\<And>a. \<not> heeds (st_config st) cb a) \<Longrightarrow>
      \<exists>st'. init fresh st = Inr st' \<and> settings_ok st' \<and>
        (\<forall>cb' a. heeds (st_config st') cb' a \<longleftrightarrow> (if a = fresh then cb' = cb else heeds (st_config st) cb' a)) \<and>
        look_up_base name (st_config st') = Some fresh \<and> cv_type (cf_vars (st_config st') fresh) = T_uint64 \<and>
        cv_val (cf_vars (st_config st') fresh) = V64 default \<and>
        (\<forall>k. k \<noteq> name \<longrightarrow> look_up_base k (st_config st') = look_up_base k (st_config st)) \<and>
        (\<forall>a. a \<noteq> fresh \<longrightarrow> cf_vars (st_config st') a = cf_vars (st_config st) a)"
begin

text \<open>The copy after a document is what the document says last, or the default.\<close>

lemma copy_after_load:
  assumes "settings_ok st" "look_up_base name (st_config st) = None"
    and "\<And>k. look_up_base k (st_config st) \<noteq> Some fresh" "\<And>a. \<not> heeds (st_config st) cb a"
  shows "\<exists>st'. init fresh st = Inr st' \<and> settings_ok (load_settings y root st') \<and>
    st_copy (load_settings y root st') cb =
      setting_bits (last (V64 default #
        values_for setting_from_string y T_uint64 name (list_all_members [] root)))"
proof -
  obtain st' where i: "init fresh st = Inr st'" "settings_ok st'"
    "\<And>cb' a. heeds (st_config st') cb' a \<longleftrightarrow> (if a = fresh then cb' = cb else heeds (st_config st) cb' a)"
    "look_up_base name (st_config st') = Some fresh" "cv_type (cf_vars (st_config st') fresh) = T_uint64"
    "cv_val (cf_vars (st_config st') fresh) = V64 default"
    using init_ok [OF assms] by auto
  let ?s = "load_from_yaml setting_from_string y root ([], st_config st')"
  have h: "heeds (snd (fold (load_node f y) ms s)) = heeds (snd s)" for f ms and s :: "(nat \<times> setting call) list \<times> _"
    by (induction ms arbitrary: s) (simp_all add: load_node_heeds)
  have "heeds (st_config (load_settings y root st')) cb fresh"
    using i(3) h by (simp add: load_settings_def load_from_yaml_def case_prod_unfold Let_def)
  with load_settings_ok [OF i(2), of y root]
  have "st_copy (load_settings y root st') cb = setting_bits (cv_val (cf_vars (st_config (load_settings y root st')) fresh))"
    by (simp add: settings_ok_def mirrored_def)
  moreover have "cv_val (cf_vars (st_config (load_settings y root st')) fresh) =
      last (V64 default # values_for setting_from_string y T_uint64 name (list_all_members [] root))"
    using load_value [of "([], st_config st')" name fresh setting_from_string y root] i
    by (simp add: load_settings_def settings_ok_def case_prod_unfold Let_def)
  ultimately show ?thesis using i(1) load_settings_ok [OF i(2)] by auto
qed

end

lemma mirrored_var_ok:
  assumes "name_ok name" "settings_ok st" "look_up_base name (st_config st) = None"
    and "\<And>k. look_up_base k (st_config st) \<noteq> Some fresh" "\<And>a. \<not> heeds (st_config st) cb a"
  shows "\<exists>st'. mirrored_var name v d cb fresh st = Inr st' \<and> settings_ok st' \<and>
        (\<forall>cb' a. heeds (st_config st') cb' a \<longleftrightarrow> (if a = fresh then cb' = cb else heeds (st_config st) cb' a)) \<and>
        look_up_base name (st_config st') = Some fresh \<and> cv_type (cf_vars (st_config st') fresh) = T_uint64 \<and>
        cv_val (cf_vars (st_config st') fresh) = V64 v \<and>
        (\<forall>k. k \<noteq> name \<longrightarrow> look_up_base k (st_config st') = look_up_base k (st_config st)) \<and>
        (\<forall>a. a \<noteq> fresh \<longrightarrow> cf_vars (st_config st') a = cf_vars (st_config st) a)"
proof -
  let ?cf = "replaced T_uint64 name (V64 v) d fresh (st_config st)"
  let ?cv = "config_var_new name T_uint64 (V64 v) d"
  have c: "config_ok (st_config st)" using assms(2) by (simp add: settings_ok_def)
  have l: "config_look_up setting_to_string T_uint64 name (V64 v) d fresh (st_config st) = Inr (fresh, ?cf)"
    by (rule look_up_new [OF assms(1)]) (simp add: assms(3))
  have f: "cf_vars ?cf fresh = ?cv" by (simp add: replaced_def)
  define st' where "st' = \<lparr>st_config = ?cf\<lparr>cf_vars := (cf_vars ?cf)(fresh := snd (add_listener (st_index st) cb ?cv))\<rparr>,
    st_index = fst (add_listener (st_index st) cb ?cv), st_copy = (st_copy st)(cb := v)\<rparr>"
  have r: "mirrored_var name v d cb fresh st = Inr st'"
    by (simp add: mirrored_var_def l f st'_def get_value_def config_var_new_def setting_bits_def case_prod_unfold Let_def)
  have cv: "cv_callbacks (cf_vars (st_config st') fresh) = [(st_index st + 1, cb)]"
    "cv_val (cf_vars (st_config st') fresh) = V64 v" "cv_type (cf_vars (st_config st') fresh) = T_uint64"
    "cv_name (cf_vars (st_config st') fresh) = map lower_char name"
    by (simp_all add: st'_def add_listener_def config_var_new_def map_assign_def map_find_def map_emplace_def)
  have other: "cf_vars (st_config st') a = cf_vars (st_config st) a" if "a \<noteq> fresh" for a
    using that by (simp add: st'_def replaced_def)
  have cp: "st_copy st' = (st_copy st)(cb := v)" by (simp add: st'_def)
  have lk: "look_up_base k (st_config st') = (if k = name then Some fresh else look_up_base k (st_config st))" for k
    using find_replaced [OF c, of k T_uint64 name "V64 v" d fresh] by (simp add: st'_def look_up_base_def)
  have "config_ok (st_config st')"
    using replaced_ok [OF c assms(1) assms(4), of T_uint64 "V64 v" d] lk cv(4) other assms(1,4) name_ok_lower [OF assms(1)] c
    by (auto simp: config_ok_def st'_def)
  moreover have h: "heeds (st_config st') cb' a \<longleftrightarrow> (if a = fresh then cb' = cb else heeds (st_config st) cb' a)" for cb' a
  proof -
    have "(\<exists>k. look_up_base k (st_config st') = Some a) \<longleftrightarrow> a = fresh \<or> (\<exists>k. look_up_base k (st_config st) = Some a)"
      using assms(3) unfolding lk by (metis option.distinct(1) option.inject)
    then show ?thesis by (auto simp: heeds_def cv other)
  qed
  have "mirrored (st_config st') (st_copy st')"
    using assms(2,5) unfolding mirrored_def h settings_ok_def
    by (auto simp: cv other cp setting_bits_def)
  ultimately have "settings_ok st'" by (simp add: settings_ok_def)
  with r h lk cv other show ?thesis by auto
qed

lemma static_var_ok:
  assumes "name_ok name" "settings_ok st" "look_up_base name (st_config st) = None"
    and "\<And>k. look_up_base k (st_config st) \<noteq> Some fresh"
  shows "\<exists>st'. static_var ty name v d fresh st = Inr st' \<and> settings_ok st' \<and> st_copy st' = st_copy st \<and>
    (\<forall>cb a. heeds (st_config st') cb a \<longleftrightarrow> heeds (st_config st) cb a) \<and>
    (\<forall>k. k \<noteq> name \<longrightarrow> look_up_base k (st_config st') = look_up_base k (st_config st))"
proof -
  let ?cf = "replaced ty name v d fresh (st_config st)"
  have c: "config_ok (st_config st)" using assms(2) by (simp add: settings_ok_def)
  have l: "config_look_up setting_to_string ty name v d fresh (st_config st) = Inr (fresh, ?cf)"
    by (rule look_up_new [OF assms(1)]) (simp add: assms(3))
  have lk: "look_up_base k ?cf = (if k = name then Some fresh else look_up_base k (st_config st))" for k
    by (rule find_replaced [OF c])
  have new: "cv_callbacks (cf_vars ?cf fresh) = []" by (simp add: replaced_def config_var_new_def)
  have other: "cf_vars ?cf a = cf_vars (st_config st) a" if "a \<noteq> fresh" for a
    using that by (simp add: replaced_def)
  have h: "heeds ?cf cb a \<longleftrightarrow> heeds (st_config st) cb a" for cb a
  proof -
    have "(\<exists>k. look_up_base k ?cf = Some a) \<longleftrightarrow> a = fresh \<or> (\<exists>k. look_up_base k (st_config st) = Some a)"
      using assms(3) unfolding lk by (metis option.distinct(1) option.inject)
    then show ?thesis using assms(4) by (cases "a = fresh") (auto simp: heeds_def new other)
  qed
  have "\<not> heeds (st_config st) cb fresh" for cb using assms(4) by (simp add: heeds_def)
  then have "mirrored ?cf (st_copy st)"
    using assms(2) unfolding mirrored_def h settings_ok_def by (metis other)
  with replaced_ok [OF c assms(1) assms(4)] l lk h show ?thesis
    by (simp add: static_var_def settings_ok_def)
qed

lemma setting_names:
  "name_ok ''fiber.stack_size''" "name_ok ''daemon.start_interval''"
  "name_ok ''rpc.client.channel_capacity''" "name_ok ''rpc.connection_pool.channel_capacity''"
  "name_ok ''rpc.server.heartbeat_timeout''" "name_ok ''rpc.registry.heartbeat_timeout''"
  by code_simp+

interpretation client_capacity: static_setting client_static "''rpc.client.channel_capacity''" 1024 0
  unfolding client_static_def by unfold_locales (rule mirrored_var_ok [OF setting_names(3)])

interpretation pool_capacity: static_setting pool_static "''rpc.connection_pool.channel_capacity''" 1024 1
  unfolding pool_static_def by unfold_locales (rule mirrored_var_ok [OF setting_names(4)])

interpretation server_alive: static_setting server_static "''rpc.server.heartbeat_timeout''" 40000 2
  unfolding server_static_def by unfold_locales (rule mirrored_var_ok [OF setting_names(5)])

interpretation registry_alive: static_setting registry_static "''rpc.registry.heartbeat_timeout''" 40000 3
  unfolding registry_static_def by unfold_locales (rule mirrored_var_ok [OF setting_names(6)])

section \<open>All settings together\<close>

definition setting_name :: "nat \<Rightarrow> string" where
  "setting_name cb = [''rpc.client.channel_capacity'', ''rpc.connection_pool.channel_capacity'',
     ''rpc.server.heartbeat_timeout'', ''rpc.registry.heartbeat_timeout''] ! cb"

text \<open>What can have happened: some of the files are initialised, each once and in any order, and
  documents have been loaded.\<close>

definition unused :: "nat \<Rightarrow> settings \<Rightarrow> bool" where
  "unused fresh st \<longleftrightarrow> (\<forall>k. look_up_base k (st_config st) \<noteq> Some fresh)"

inductive settings_run :: "settings \<Rightarrow> bool" where
  "settings_run (settings_new vars copies)"
| "settings_run st \<Longrightarrow> unused fresh st \<Longrightarrow> look_up_base (setting_name 0) (st_config st) = None \<Longrightarrow>
    client_static fresh st = Inr st' \<Longrightarrow> settings_run st'"
| "settings_run st \<Longrightarrow> unused fresh st \<Longrightarrow> look_up_base (setting_name 1) (st_config st) = None \<Longrightarrow>
    pool_static fresh st = Inr st' \<Longrightarrow> settings_run st'"
| "settings_run st \<Longrightarrow> unused fresh st \<Longrightarrow> look_up_base (setting_name 2) (st_config st) = None \<Longrightarrow>
    server_static fresh st = Inr st' \<Longrightarrow> settings_run st'"
| "settings_run st \<Longrightarrow> unused fresh st \<Longrightarrow> look_up_base (setting_name 3) (st_config st) = None \<Longrightarrow>
    registry_static fresh st = Inr st' \<Longrightarrow> settings_run st'"
| "settings_run st \<Longrightarrow> unused fresh st \<Longrightarrow> look_up_base ''fiber.stack_size'' (st_config st) = None \<Longrightarrow>
    fiber_static fresh st = Inr st' \<Longrightarrow> settings_run st'"
| "settings_run st \<Longrightarrow> unused fresh st \<Longrightarrow> look_up_base ''daemon.start_interval'' (st_config st) = None \<Longrightarrow>
    daemon_static fresh st = Inr st' \<Longrightarrow> settings_run st'"
| "settings_run st \<Longrightarrow> settings_run (load_settings y root st)"

text \<open>A listener is registered exactly at the variable of its setting.\<close>

definition listeners_placed :: "settings \<Rightarrow> bool" where
  "listeners_placed st \<longleftrightarrow>
     (\<forall>cb a. heeds (st_config st) cb a \<longleftrightarrow> cb < 4 \<and> look_up_base (setting_name cb) (st_config st) = Some a)"

lemma setting_name_inj: "cb < 4 \<Longrightarrow> cb' < 4 \<Longrightarrow> setting_name cb = setting_name cb' \<Longrightarrow> cb = cb'"
  by (auto simp: setting_name_def less_Suc_eq numeral_eq_Suc)

lemma setting_name_other: "cb < 4 \<Longrightarrow> setting_name cb \<noteq> ''fiber.stack_size'' \<and> setting_name cb \<noteq> ''daemon.start_interval''"
  by (auto simp: setting_name_def less_Suc_eq numeral_eq_Suc)

context static_setting
begin

lemma init_places:
  assumes "settings_ok st \<and> listeners_placed st" "unused fresh st" "look_up_base name (st_config st) = None"
    and "init fresh st = Inr st'" "cb < 4" "name = setting_name cb"
  shows "settings_ok st' \<and> listeners_placed st'"
proof -
  have n: "\<not> heeds (st_config st) cb a" for a using assms(1,3,5,6) by (simp add: listeners_placed_def)
  have u: "look_up_base k (st_config st) \<noteq> Some fresh" for k using assms(2) by (simp add: unused_def)
  have k: "settings_ok st'" "look_up_base name (st_config st') = Some fresh"
    "\<And>cb' a. heeds (st_config st') cb' a \<longleftrightarrow> (if a = fresh then cb' = cb else heeds (st_config st) cb' a)"
    "\<And>k. k \<noteq> name \<Longrightarrow> look_up_base k (st_config st') = look_up_base k (st_config st)"
    using init_ok [OF conjunct1 [OF assms(1)] assms(3) u n] assms(4) by auto
  have l: "look_up_base (setting_name cb') (st_config st') =
      (if cb' = cb then Some fresh else look_up_base (setting_name cb') (st_config st))" if "cb' < 4" for cb'
    using k(2,4) assms(5,6) that setting_name_inj by metis
  have "listeners_placed st'"
    using assms(1,5) n u assms(3) [unfolded assms(6)]
    unfolding listeners_placed_def k(3) by (auto simp: l split: if_split_asm)
  with k(1) show ?thesis by simp
qed

end

lemma load_settings_looks:
  "look_up_base k (st_config (load_settings y root st)) = look_up_base k (st_config st)"
  "heeds (st_config (load_settings y root st)) = heeds (st_config st)"
proof -
  have "look_up_base k (snd (fold (load_node f y) ms s)) = look_up_base k (snd s) \<and>
      heeds (snd (fold (load_node f y) ms s)) = heeds (snd s)" for f ms and s :: "(nat \<times> setting call) list \<times> _"
    by (induction ms arbitrary: s) (simp_all add: load_node_heeds load_node_look_up)
  then show "look_up_base k (st_config (load_settings y root st)) = look_up_base k (st_config st)"
    "heeds (st_config (load_settings y root st)) = heeds (st_config st)"
    by (simp_all add: load_settings_def load_from_yaml_def case_prod_unfold Let_def)
qed

lemma static_var_places:
  assumes "settings_ok st \<and> listeners_placed st" "unused fresh st" "look_up_base name (st_config st) = None"
    and "static_var ty name v d fresh st = Inr st'" "name_ok name" "\<And>cb. cb < 4 \<Longrightarrow> setting_name cb \<noteq> name"
  shows "settings_ok st' \<and> listeners_placed st'"
  using static_var_ok [OF assms(5) conjunct1 [OF assms(1)] assms(3), of fresh ty v d] assms(1,2,4,6)
  by (auto simp: unused_def listeners_placed_def)

lemma settings_run_inv: "settings_run st \<Longrightarrow> settings_ok st \<and> listeners_placed st"
proof (induction rule: settings_run.induct)
  case (1 vars copies)
  have "look_up_base k (st_config (settings_new vars copies)) = None" for k
    by (simp add: settings_new_def config_new_def look_up_base_def map_find_def)
  then show ?case using settings_new_ok by (simp add: listeners_placed_def heeds_def)
next
  case (2 st fresh st')
  show ?case by (rule client_capacity.init_places [OF 2(5) 2(2)]) (use 2 in \<open>simp_all add: setting_name_def\<close>)
next
  case (3 st fresh st')
  show ?case by (rule pool_capacity.init_places [OF 3(5) 3(2)]) (use 3 in \<open>simp_all add: setting_name_def\<close>)
next
  case (4 st fresh st')
  show ?case by (rule server_alive.init_places [OF 4(5) 4(2)]) (use 4 in \<open>simp_all add: setting_name_def\<close>)
next
  case (5 st fresh st')
  show ?case by (rule registry_alive.init_places [OF 5(5) 5(2)]) (use 5 in \<open>simp_all add: setting_name_def\<close>)
next
  case (6 st fresh st')
  from 6(5,2,3) 6(4) [unfolded fiber_static_def] setting_names(1) show ?case
    by (rule static_var_places) (use setting_name_other in blast)
next
  case (7 st fresh st')
  from 7(5,2,3) 7(4) [unfolded daemon_static_def] setting_names(2) show ?case
    by (rule static_var_places) (use setting_name_other in blast)
next
  case (8 st y root)
  then show ?case using load_settings_ok by (simp add: listeners_placed_def load_settings_looks)
qed

text \<open>After a document a copy holds what its variable holds: the last value the document gives.\<close>

lemma copies_follow:
  assumes "settings_run st" "cb < 4" "look_up_base (setting_name cb) (st_config st) = Some a"
  shows "st_copy (load_settings y root st) cb =
    setting_bits (last (cv_val (cf_vars (st_config st) a) #
      values_for setting_from_string y (cv_type (cf_vars (st_config st) a)) (setting_name cb) (list_all_members [] root)))"
proof -
  have inv: "settings_ok st" "heeds (st_config st) cb a"
    using settings_run_inv [OF assms(1)] assms(2,3) by (simp_all add: listeners_placed_def)
  have "st_copy (load_settings y root st) cb = setting_bits (cv_val (cf_vars (st_config (load_settings y root st)) a))"
    using load_settings_ok [OF inv(1), of y root] inv(2) load_settings_looks(2)
    by (auto simp: settings_ok_def mirrored_def)
  then show ?thesis
    using load_value [of "([], st_config st)" "setting_name cb" a setting_from_string y root] inv(1) assms(3)
    by (simp add: load_settings_def settings_ok_def case_prod_unfold Let_def)
qed

end
