(* ===== verification/Http_Values.thy ===== *)
theory Http_Values
  imports Http Lexical_Cast
begin

text \<open>
  The typed accessors of \<open>acid/http/http.h\<close>: headers, parameters and cookies read through
  \<open>lexical_cast\<close>, and the content type given as text. For every type whose text is read
  back (\<open>text_codec\<close>), a value that was stored is found again.
\<close>

section \<open>Accessors\<close>

definition get_header_as :: "(string \<Rightarrow> 'a option) \<Rightarrow> http_request \<Rightarrow> string \<Rightarrow> 'a \<Rightarrow> 'a" where
  "get_header_as cast r key def = get_as cast (rq_headers r) key def"

definition get_param_as :: "(string \<Rightarrow> 'a option) \<Rightarrow> http_request \<Rightarrow> string \<Rightarrow> 'a \<Rightarrow> 'a" where
  "get_param_as cast r key def = get_as cast (rq_params r) key def"

definition get_cookie_as :: "(string \<Rightarrow> 'a option) \<Rightarrow> http_request \<Rightarrow> string \<Rightarrow> 'a \<Rightarrow> 'a" where
  "get_cookie_as cast r key def = get_as cast (rq_cookies r) key def"

definition check_and_get_header_as ::
  "(string \<Rightarrow> 'a option) \<Rightarrow> http_request \<Rightarrow> string \<Rightarrow> 'a \<Rightarrow> (bool \<times> 'a) res" where
  "check_and_get_header_as cast r key def = check_and_get_as cast (rq_headers r) key def"

definition check_and_get_param_as ::
  "(string \<Rightarrow> 'a option) \<Rightarrow> http_request \<Rightarrow> string \<Rightarrow> 'a \<Rightarrow> (bool \<times> 'a) res" where
  "check_and_get_param_as cast r key def = check_and_get_as cast (rq_params r) key def"

definition check_and_get_cookie_as ::
  "(string \<Rightarrow> 'a option) \<Rightarrow> http_request \<Rightarrow> string \<Rightarrow> 'a \<Rightarrow> (bool \<times> 'a) res" where
  "check_and_get_cookie_as cast r key def = check_and_get_as cast (rq_cookies r) key def"

definition set_content_type_text :: "http_request \<Rightarrow> string \<Rightarrow> http_request" where
  "set_content_type_text r t = Http.set_header r ''Content-Type'' t"

definition response_get_header_as :: "(string \<Rightarrow> 'a option) \<Rightarrow> http_response \<Rightarrow> string \<Rightarrow> 'a \<Rightarrow> 'a" where
  "response_get_header_as cast r key def = get_as cast (rs_headers r) key def"

definition response_check_and_get_header_as ::
  "(string \<Rightarrow> 'a option) \<Rightarrow> http_response \<Rightarrow> string \<Rightarrow> 'a \<Rightarrow> (bool \<times> 'a) res" where
  "response_check_and_get_header_as cast r key def = check_and_get_as cast (rs_headers r) key def"

definition response_content_type :: "http_response \<Rightarrow> http_content_type" where
  "response_content_type r = string_to_content_type (response_get_header r ''Content-Type'' [])"

definition response_set_content_type :: "http_response \<Rightarrow> http_content_type \<Rightarrow> http_response" where
  "response_set_content_type r t = response_set_header r ''Content-Type'' (http_context_type_to_string t)"

definition response_set_content_type_text :: "http_response \<Rightarrow> string \<Rightarrow> http_response" where
  "response_set_content_type_text r t = response_set_header r ''Content-Type'' t"

definition set_status :: "http_response \<Rightarrow> u32 \<Rightarrow> http_response" where
  "set_status r status = r\<lparr>rs_status := unat status\<rparr>"

section \<open>Stored values are found again\<close>

lemma find_set_entry:
  "headers_ok m \<Longrightarrow> map_find case_insensitive_less k' (set_entry m k v) =
    (if ci_key k = ci_key k' then Some v else map_find case_insensitive_less k' m)"
  by (simp add: set_entry_def ci_less.find_assign equiv_ci)

context text_codec
begin

lemma get_as_set:
  assumes "headers_ok m" "ci_key k = ci_key k'"
  shows "get_as (res_option \<circ> of_text) (set_entry m k (to_text x)) k' def = x"
    "check_and_get_as (res_option \<circ> of_text) (set_entry m k (to_text x)) k' def = Inl Undefined"
  using find_set_entry [OF assms(1), of k' k "to_text x"] assms(2)
  by (simp_all add: get_as_def check_and_get_as_def read_back)

lemma header_value:
  assumes "headers_ok (rq_headers r)" "ci_key k = ci_key k'"
  shows "get_header_as (res_option \<circ> of_text) (Http.set_header r k (to_text x)) k' def = x"
    "check_and_get_header_as (res_option \<circ> of_text) (Http.set_header r k (to_text x)) k' def = Inl Undefined"
  using get_as_set [OF assms]
  by (simp_all add: get_header_as_def check_and_get_header_as_def Http.set_header_def)

end

lemma content_type_read_back:
  assumes "headers_ok (rs_headers r)" "t \<noteq> INVALID_TYPE"
  shows "response_content_type (response_set_content_type r t) = t"
proof -
  have c: "string_to_content_type (http_context_type_to_string t) = t"
    using assms(2) by (cases t) (simp_all, code_simp+)
  show ?thesis
    using find_set_entry [OF assms(1), of "''Content-Type''" "''Content-Type''"] c
    by (simp add: response_content_type_def response_set_content_type_def response_get_header_def
        response_set_header_def get_entry_def)
qed

end
