(* ===== verification/Socket_Stream.thy ===== *)
theory Socket_Stream
  imports Socket Streams
begin

text \<open>
  The members of \<open>SocketStream\<close> (\<open>acid/net/socket_stream.h\<close>, \<open>socket_stream.cpp\<close>) that act on
  its socket; reading and writing are in \<open>Streams\<close>. The pointer to the socket may be null.
  A stream that owns its socket closes it when it goes.
\<close>

record socket_stream =
  ss_socket :: "socket option"
  ss_owner :: bool

definition socket_stream_new :: "socket option \<Rightarrow> bool \<Rightarrow> socket_stream" where
  "socket_stream_new sk owner = \<lparr>ss_socket = sk, ss_owner = owner\<rparr>"

definition stream_is_connected :: "socket_stream \<Rightarrow> bool" where
  "stream_is_connected ss = (case ss_socket ss of None \<Rightarrow> False | Some sk \<Rightarrow> sk_connected sk)"

definition stream_close ::
  "'w os \<Rightarrow> hook_env \<Rightarrow> socket_stream \<Rightarrow> 'w hook \<Rightarrow> (hook_cb tasks \<times> socket_stream \<times> 'w hook) res" where
  "stream_close os E ss s =
     (case ss_socket ss of
        None \<Rightarrow> Inr ([], ss, s)
      | Some sk \<Rightarrow> bindR (socket_close os E sk s) (\<lambda>(ok, ts, sk, s). Inr (ts, ss\<lparr>ss_socket := Some sk\<rparr>, s)))"

definition stream_destroy ::
  "'w os \<Rightarrow> hook_env \<Rightarrow> socket_stream \<Rightarrow> 'w hook \<Rightarrow> (hook_cb tasks \<times> socket_stream \<times> 'w hook) res" where
  "stream_destroy os E ss s = (if ss_owner ss then stream_close os E ss s else Inr ([], ss, s))"

text \<open>The addresses of the two ends, which the socket remembers, and their texts, which are
  empty when there is no address.\<close>

type_synonym 'w end_address = "'w os \<Rightarrow> socket \<Rightarrow> 'w hook \<Rightarrow> (address option \<times> socket \<times> 'w hook) res"

definition stream_address ::
  "'w end_address \<Rightarrow> 'w os \<Rightarrow> socket_stream \<Rightarrow> 'w hook \<Rightarrow> (address option \<times> socket_stream \<times> 'w hook) res" where
  "stream_address get os ss s =
     (case ss_socket ss of
        None \<Rightarrow> Inr (None, ss, s)
      | Some sk \<Rightarrow> bindR (get os sk s) (\<lambda>(a, sk, s). Inr (a, ss\<lparr>ss_socket := Some sk\<rparr>, s)))"

definition stream_remote_address ::
  "'w os \<Rightarrow> socket_stream \<Rightarrow> 'w hook \<Rightarrow> (address option \<times> socket_stream \<times> 'w hook) res" where
  "stream_remote_address = stream_address get_remote_address"

definition stream_local_address ::
  "'w os \<Rightarrow> socket_stream \<Rightarrow> 'w hook \<Rightarrow> (address option \<times> socket_stream \<times> 'w hook) res" where
  "stream_local_address = stream_address get_local_address"

definition address_text_of :: "(address option \<times> 'x) res \<Rightarrow> (string \<times> 'x) res" where
  "address_text_of r =
     bindR r (\<lambda>(a, x). case a of None \<Rightarrow> Inr ([], x) | Some a \<Rightarrow> bindR (address_to_string a) (\<lambda>t. Inr (t, x)))"

definition stream_remote_address_string ::
  "'w os \<Rightarrow> socket_stream \<Rightarrow> 'w hook \<Rightarrow> (string \<times> socket_stream \<times> 'w hook) res" where
  "stream_remote_address_string os ss s = address_text_of (stream_remote_address os ss s)"

definition stream_local_address_string ::
  "'w os \<Rightarrow> socket_stream \<Rightarrow> 'w hook \<Rightarrow> (string \<times> socket_stream \<times> 'w hook) res" where
  "stream_local_address_string os ss s = address_text_of (stream_local_address os ss s)"

section \<open>Ownership\<close>

lemma socket_close_closed:
  assumes "socket_close os E sk s = Inr (ok, ts, sk', s')" "sk_connected sk \<or> sk_fd sk \<noteq> - 1"
  shows "\<not> sk_connected sk' \<and> sk_fd sk' = - 1"
  using assms by (auto simp: socket_close_def res_simps Let_def split: if_splits)

lemma destroy_owned:
  assumes "stream_destroy os E ss s = Inr (ts, ss', s')" "ss_owner ss"
  shows "\<not> stream_is_connected ss' \<and> (\<forall>sk. ss_socket ss' = Some sk \<longrightarrow> \<not> is_valid sk)"
proof (cases "ss_socket ss")
  case None
  with assms show ?thesis by (auto simp: stream_destroy_def stream_close_def stream_is_connected_def)
next
  case (Some sk)
  with assms obtain ok sk' where c: "socket_close os E sk s = Inr (ok, ts, sk', s')" "ss' = ss\<lparr>ss_socket := Some sk'\<rparr>"
    by (auto simp: stream_destroy_def stream_close_def res_simps)
  have "\<not> sk_connected sk' \<and> sk_fd sk' = - 1"
  proof (cases "sk_connected sk \<or> sk_fd sk \<noteq> - 1")
    case True
    then show ?thesis by (rule socket_close_closed [OF c(1)])
  next
    case False
    with c(1) show ?thesis by (auto simp: socket_close_def)
  qed
  with c(2) show ?thesis by (simp add: stream_is_connected_def is_valid_def)
qed

lemma destroy_borrowed: "\<not> ss_owner ss \<Longrightarrow> stream_destroy os E ss s = Inr ([], ss, s)"
  by (simp add: stream_destroy_def)

end
