(* ===== verification/Async_Call.thy ===== *)
theory Async_Call
  imports RpcPool
begin

text \<open>
  The two other ways to call of \<open>acid/rpc/rpc_client.h\<close> and \<open>rpc_connection_pool.h\<close>: \<open>async_call\<close>, which hands out a
  channel of one place that a new fiber fills with the result, and \<open>callback\<close>, where the new
  fiber passes the result to a function. Both are given from where the call of the new
  fiber \<open>f\<close> ends.
\<close>

definition async_channel :: "(nat \<Rightarrow> rpc_result) \<Rightarrow> rpc_result channel" where
  "async_channel item = channel_new 1 item"

definition async_finish ::
  "(val \<Rightarrow> val \<Rightarrow> bool) \<Rightarrow> ty \<Rightarrow> val \<Rightarrow> nat \<Rightarrow> nat \<Rightarrow> u32 \<Rightarrow> nat \<Rightarrow> bool \<Rightarrow> 's rpc_client \<Rightarrow> rpc_result channel \<Rightarrow>
   (bool option \<times> rpc_result channel \<times> 's rpc_client) res option" where
  "async_finish lt t v0 f c n it timeout cl ch =
     (case finish_call lt t v0 f c n it timeout cl of
        None \<Rightarrow> None
      | Some r \<Rightarrow> Some (bindR r (\<lambda>(res, cl). let (ok, ch) = Channel.push f res ch in Inr (ok, ch, cl))))"

text \<open>What the function does is its effect on a state of the outside.\<close>

definition callback_finish ::
  "(val \<Rightarrow> val \<Rightarrow> bool) \<Rightarrow> ty \<Rightarrow> val \<Rightarrow> nat \<Rightarrow> nat \<Rightarrow> u32 \<Rightarrow> nat \<Rightarrow> bool \<Rightarrow> 's rpc_client \<Rightarrow>
   (rpc_result \<Rightarrow> 'w \<Rightarrow> 'w) \<Rightarrow> 'w \<Rightarrow> ('w \<times> 's rpc_client) res option" where
  "callback_finish lt t v0 f c n it timeout cl cb w =
     (case finish_call lt t v0 f c n it timeout cl of
        None \<Rightarrow> None
      | Some r \<Rightarrow> Some (bindR r (\<lambda>(res, cl). Inr (cb res w, cl))))"

text \<open>The same through the pool.\<close>

definition pool_async ::
  "('s, 'c) pool_ops \<Rightarrow> nat \<Rightarrow> val \<Rightarrow> bytes \<Rightarrow> nat \<Rightarrow> ('s, 'c) pool \<Rightarrow> 's \<Rightarrow> rpc_result channel \<Rightarrow>
   (bool option \<times> rpc_result channel \<times> ('s, 'c) pool \<times> 's) res" where
  "pool_async ops rnd v0 name f pl s ch =
     bindR (pool_call ops rnd v0 name pl s) (\<lambda>(res, pl, s).
       let (ok, ch) = Channel.push f res ch in Inr (ok, ch, pl, s))"

definition pool_callback ::
  "('s, 'c) pool_ops \<Rightarrow> nat \<Rightarrow> val \<Rightarrow> bytes \<Rightarrow> ('s, 'c) pool \<Rightarrow> 's \<Rightarrow> (rpc_result \<Rightarrow> 'w \<Rightarrow> 'w) \<Rightarrow> 'w \<Rightarrow>
   ('w \<times> ('s, 'c) pool \<times> 's) res" where
  "pool_callback ops rnd v0 name pl s cb w =
     bindR (pool_call ops rnd v0 name pl s) (\<lambda>(res, pl, s). Inr (cb res w, pl, s))"

text \<open>A channel of one place passes one item from \<open>f\<close> to \<open>g\<close> in either order.\<close>

lemma one_place_passes:
  fixes x :: 'a and item :: "nat \<Rightarrow> 'a"
  defines "c \<equiv> channel_new 1 item"
  shows "fst (push f x c) = Some True" "fst (pop g (snd (push f x c))) = Some (Some x)"
    "fst (pop g c) = None" "fst (push f x (snd (pop g c))) = Some True"
    "g \<in> set (ch_pop_woken (snd (push f x (snd (pop g c)))))"
    "fst (pop_resume g (snd (push f x (snd (pop g c))))) = Some (Some x)"
  by (simp_all add: c_def push_def pop_def push_round_def pop_round_def pop_resume_def channel_new_def Let_def
      case_prod_unfold cond_wait_def cond_notify_def cond_new_def)

lemma async_delivers:
  assumes "finish_call lt t v0 f c n it timeout cl = Some (Inr (r, cl'))"
  shows "\<exists>ch'. async_finish lt t v0 f c n it timeout cl (async_channel item) = Some (Inr (Some True, ch', cl')) \<and>
      fst (pop g ch') = Some (Some r)"
    "\<exists>ch'. fst (pop g (async_channel item)) = None \<and>
      async_finish lt t v0 f c n it timeout cl (snd (pop g (async_channel item))) = Some (Inr (Some True, ch', cl')) \<and>
      g \<in> set (ch_pop_woken ch') \<and> fst (pop_resume g ch') = Some (Some r)"
  using one_place_passes(1,2,4-6) [where x = r and item = item] one_place_passes(3) [where item = item] assms
  by (simp_all add: async_finish_def async_channel_def case_prod_unfold Let_def prod_eq_iff)

lemma pool_async_delivers:
  assumes "pool_call ops rnd v0 name pl s = Inr (r, pl', s')"
  shows "\<exists>ch'. pool_async ops rnd v0 name f pl s (async_channel item) = Inr (Some True, ch', pl', s') \<and>
      fst (pop g ch') = Some (Some r)"
    "\<exists>ch'. pool_async ops rnd v0 name f pl s (snd (pop g (async_channel item))) = Inr (Some True, ch', pl', s') \<and>
      g \<in> set (ch_pop_woken ch') \<and> fst (pop_resume g ch') = Some (Some r)"
  using one_place_passes(1,2,4-6) [where x = r and item = item] assms
  by (simp_all add: pool_async_def async_channel_def case_prod_unfold Let_def prod_eq_iff)

end
