(* ===== verification/Server_Conf.thy ===== *)
theory Server_Conf
  imports Config
begin

text \<open>
  \<open>TcpServerConf\<close> of \<open>acid/net/tcp_server.h\<close> and its conversion from text. What the YAML
  library converts a scalar to is a parameter (\<open>as_int\<close>, \<open>as_u64\<close>; \<open>None\<close> when it does not
  convert), as is \<open>node[i]\<close> of a node that is no sequence; \<open>None\<close> is an exception.
\<close>

record tcp_server_conf =
  tc_address :: "string list"
  tc_keepalive :: u32
  tc_timeout :: u64
  tc_name :: string
  tc_ssl :: u32
  tc_type :: string
  tc_accept_worker :: string
  tc_io_worker :: string
  tc_process_worker :: string

definition tcp_server_conf_new :: tcp_server_conf where
  "tcp_server_conf_new =
     \<lparr>tc_address = [], tc_keepalive = 0, tc_timeout = 120000, tc_name = [], tc_ssl = 0, tc_type = ''http'',
      tc_accept_worker = [], tc_io_worker = [], tc_process_worker = []\<rparr>"

definition conf_is_valid :: "tcp_server_conf \<Rightarrow> bool" where
  "conf_is_valid conf \<longleftrightarrow> tc_address conf \<noteq> []"

text \<open>\<open>node[key]\<close>: of a scalar it is an exception; what is not there is an undefined node.\<close>

definition member_node :: "yaml \<Rightarrow> string \<Rightarrow> yaml option option" where
  "member_node node key =
     (case node of Scalar s \<Rightarrow> None | Mapping es \<Rightarrow> Some (map_of es key) | _ \<Rightarrow> Some None)"

text \<open>\<open>as\<close> with and without a value to fall back to.\<close>

definition string_or :: "string \<Rightarrow> yaml option \<Rightarrow> string" where
  "string_or fallback n =
     (case n of Some (Scalar s) \<Rightarrow> s | Some Null_node \<Rightarrow> ''null'' | _ \<Rightarrow> fallback)"

definition as_string :: "yaml option \<Rightarrow> string option" where
  "as_string n = (case n of Some (Scalar s) \<Rightarrow> Some s | Some Null_node \<Rightarrow> Some ''null'' | _ \<Rightarrow> None)"

definition scalar_or :: "(string \<Rightarrow> 'a option) \<Rightarrow> 'a \<Rightarrow> yaml option \<Rightarrow> 'a" where
  "scalar_or conv fallback n =
     (case n of Some (Scalar s) \<Rightarrow> (case conv s of Some x \<Rightarrow> x | None \<Rightarrow> fallback) | _ \<Rightarrow> fallback)"

definition conf_addresses :: "(yaml \<Rightarrow> nat \<Rightarrow> yaml option) \<Rightarrow> yaml option \<Rightarrow> string list option" where
  "conf_addresses index n =
     (case n of
        Some (Sequence ns) \<Rightarrow> map_cast (\<lambda>n. as_string (Some n)) ns
      | Some (Mapping es) \<Rightarrow> map_cast (\<lambda>i. as_string (index (Mapping es) i)) [0..<length es]
      | _ \<Rightarrow> Some [])"

text \<open>The default of \<open>timeout\<close> passes through \<open>int\<close>, as the number that was read does.\<close>

definition conf_of_node ::
  "(string \<Rightarrow> u32 option) \<Rightarrow> (string \<Rightarrow> u64 option) \<Rightarrow> (yaml \<Rightarrow> nat \<Rightarrow> yaml option) \<Rightarrow> yaml \<Rightarrow> tcp_server_conf option" where
  "conf_of_node as_int as_u64 index node =
     (let conf = tcp_server_conf_new in
      Option.bind (member_node node ''type'') (\<lambda>n_type.
      Option.bind (member_node node ''keepalive'') (\<lambda>n_keepalive.
      Option.bind (member_node node ''timeout'') (\<lambda>n_timeout.
      Option.bind (member_node node ''name'') (\<lambda>n_name.
      Option.bind (member_node node ''ssl'') (\<lambda>n_ssl.
      Option.bind (Option.bind (member_node node ''accept_worker'') as_string) (\<lambda>accept_worker.
      Option.bind (Option.bind (member_node node ''io_worker'') as_string) (\<lambda>io_worker.
      Option.bind (Option.bind (member_node node ''process_worker'') as_string) (\<lambda>process_worker.
      Option.bind (Option.bind (member_node node ''address'') (conf_addresses index)) (\<lambda>address.
        Some \<lparr>tc_address = address,
          tc_keepalive = scalar_or as_int (tc_keepalive conf) n_keepalive,
          tc_timeout = scast (scalar_or as_int (ucast (tc_timeout conf)) n_timeout),
          tc_name = string_or (tc_name conf) n_name,
          tc_ssl = ucast (scalar_or as_u64 (scast (tc_ssl conf)) n_ssl),
          tc_type = string_or (tc_type conf) n_type,
          tc_accept_worker = accept_worker, tc_io_worker = io_worker, tc_process_worker = process_worker\<rparr>))))))))))"

text \<open>What is left out has its default, but for the three workers, which must be there.\<close>

definition conf_node :: "tcp_server_conf \<Rightarrow> (u32 \<Rightarrow> string) \<Rightarrow> (u64 \<Rightarrow> string) \<Rightarrow> yaml" where
  "conf_node conf show_i show_u = Mapping
     [(''type'', Scalar (tc_type conf)), (''keepalive'', Scalar (show_i (tc_keepalive conf))),
      (''timeout'', Scalar (show_i (ucast (tc_timeout conf)))), (''name'', Scalar (tc_name conf)),
      (''ssl'', Scalar (show_u (scast (tc_ssl conf)))), (''accept_worker'', Scalar (tc_accept_worker conf)),
      (''io_worker'', Scalar (tc_io_worker conf)), (''process_worker'', Scalar (tc_process_worker conf)),
      (''address'', Sequence (map Scalar (tc_address conf)))]"

lemma map_cast_scalars: "map_cast (\<lambda>n. as_string (Some n)) (map Scalar xs) = Some xs"
  by (induction xs) (simp_all add: as_string_def)

lemma conf_roundtrip:
  assumes "\<And>w. as_int (show_i w) = Some w" "\<And>w. as_u64 (show_u w) = Some w"
    and "tc_timeout conf < 2 ^ 31"
  shows "conf_of_node as_int as_u64 index (conf_node conf show_i show_u) = Some conf"
proof -
  have u: "uint (tc_timeout conf) < 2 ^ 31" using assms(3) by (simp add: word_less_def)
  have "sint (ucast (tc_timeout conf) :: u32) = uint (tc_timeout conf)"
    using u signed_take_bit_int_eq_self [of 31 "uint (tc_timeout conf)"]
    by (simp add: signed_ucast_eq) (smt (verit) uint_nonnegative)
  then have "scast (ucast (tc_timeout conf) :: u32) = tc_timeout conf"
    by (metis scast_eq word_of_int_uint)
  moreover have "ucast (scast (tc_ssl conf) :: u64) = tc_ssl conf"
    by (rule bit_word_eqI) (auto simp: bit_unsigned_iff bit_signed_iff)
  ultimately show ?thesis
    using assms(1,2) map_cast_scalars [of "tc_address conf"]
    by (simp add: conf_of_node_def conf_node_def member_node_def as_string_def string_or_def scalar_or_def
        conf_addresses_def Let_def)
qed

lemma conf_needs_workers:
  assumes "as_string (map_of es k) = None" "k \<in> {''accept_worker'', ''io_worker'', ''process_worker''}"
  shows "conf_of_node as_int as_u64 index (Mapping es) = None"
  using assms by (auto simp: conf_of_node_def member_node_def Let_def split: bind_splits)

end
