(* ===== verification/Printing.thy ===== *)
theory Printing
  imports Socket Rpc IOManager Log_Format
begin

text \<open>
  What the program prints of its own objects: the operators \<open><<\<close> of \<open>iomanager.cpp\<close> for
  \<open>epoll_ctl\<close> operations and event masks, \<open>Socket::dump\<close> and \<open>Protocol::to_string\<close>. A mask is
  read back from its names (\<open>events_read_back\<close>).
\<close>

section \<open>Event masks\<close>

definition epoll_ctl_text :: "int \<Rightarrow> string" where
  "epoll_ctl_text op =
     (if op = 1 then ''EPOLL_CTL_ADD'' else if op = 3 then ''EPOLL_CTL_MOD''
      else if op = 2 then ''EPOLL_CTL_DEL'' else show_int op)"

definition epoll_names :: "(u32 \<times> string) list" where
  "epoll_names =
     [(EPOLLIN, ''EPOLLIN''), (0x002, ''EPOLLPRI''), (EPOLLOUT, ''EPOLLOUT''), (0x040, ''EPOLLRDNORM''),
      (0x080, ''EPOLLRDBAND''), (0x100, ''EPOLLWRNORM''), (0x200, ''EPOLLWRBAND''), (0x400, ''EPOLLMSG''),
      (EPOLLERR, ''EPOLLERR''), (EPOLLHUP, ''EPOLLHUP''), (0x2000, ''EPOLLRDHUP''),
      (0x40000000, ''EPOLLONESHOT''), (EPOLLET, ''EPOLLET'')]"

fun flag_names :: "(u32 \<times> string) list \<Rightarrow> bool \<Rightarrow> u32 \<Rightarrow> string" where
  "flag_names [] first e = []"
| "flag_names ((m, n) # fs) first e =
     (if e AND m \<noteq> 0 then (if first then [] else ''|'') @ n @ flag_names fs False e else flag_names fs first e)"

definition epoll_events_text :: "u32 \<Rightarrow> string" where
  "epoll_events_text e = (if e = 0 then ''0'' else flag_names epoll_names True e)"

section \<open>Sockets and frames\<close>

text \<open>A \<open>bool\<close> is printed as a number; the addresses may have no text.\<close>

definition optional_text :: "string \<Rightarrow> address option \<Rightarrow> string res" where
  "optional_text label a =
     (case a of None \<Rightarrow> Inr [] | Some a \<Rightarrow> bindR (address_to_string a) (\<lambda>t. Inr (label @ t)))"

definition socket_text :: "socket \<Rightarrow> string res" where
  "socket_text sk =
     bindR (optional_text '' local_address='' (sk_local sk)) (\<lambda>l.
     bindR (optional_text '' remote_address='' (sk_remote sk)) (\<lambda>r.
       Inr (''[Socket sockfd='' @ show_int (sk_fd sk) @
            '' is_connected='' @ show_nat (if sk_connected sk then 1 else 0) @
            '' family='' @ show_nat (unat (sk_family sk)) @ '' type='' @ show_int (sk_type sk) @
            '' protocol='' @ show_int (sk_protocol sk) @ l @ r @ '']'')))"

text \<open>\<open>uint8_t\<close> is a character type: the magic number, the version and the type are written as
  single characters.\<close>

definition byte_char :: "u8 \<Rightarrow> char" where
  "byte_char b = char_of (unat b)"

definition protocol_text :: "protocol \<Rightarrow> string" where
  "protocol_text p =
     ''[ magic = '' @ [byte_char (m_magic p)] @ '' version = '' @ [byte_char (m_version p)] @
     '' type = '' @ [byte_char (m_type p)] @ '' sequence id = '' @ show_nat (unat (m_sequence_id p)) @
     '' length = '' @ show_nat (unat (m_content_length p)) @
     '' content = '' @ map byte_char (m_content p) @ '']''"

text \<open>The state code of a result is a number of 16 bits; \<open>show\<close> prints its value.\<close>

definition result_text :: "(val \<Rightarrow> string) \<Rightarrow> rpc_result \<Rightarrow> string" where
  "result_text show r =
     ''[ code = '' @ show_nat (unat (r_code r)) @ '' message = '' @ map byte_char (r_message r) @
     '' value = '' @ show (r_value r) @ '' ]''"

section \<open>Reading a mask back\<close>

fun split_bars :: "string \<Rightarrow> string list" where
  "split_bars [] = [[]]"
| "split_bars (c # s) =
     (if c = CHR ''|'' then [] # split_bars s
      else case split_bars s of [] \<Rightarrow> [[c]] | w # ws \<Rightarrow> (c # w) # ws)"

definition flag_value :: "(u32 \<times> string) list \<Rightarrow> string \<Rightarrow> u32" where
  "flag_value fs n = (case find (\<lambda>f. snd f = n) fs of None \<Rightarrow> 0 | Some f \<Rightarrow> fst f)"

definition read_flags :: "(u32 \<times> string) list \<Rightarrow> string \<Rightarrow> u32" where
  "read_flags fs s = fold (OR) (map (flag_value fs) (split_bars s)) 0"

definition all_flags :: "(u32 \<times> string) list \<Rightarrow> u32" where
  "all_flags fs = fold (OR) (map fst fs) 0"

lemma split_bars_word: "CHR ''|'' \<notin> set w \<Longrightarrow> split_bars w = [w]"
  by (induction w) auto

lemma split_bars_append: "CHR ''|'' \<notin> set w \<Longrightarrow> split_bars (w @ CHR ''|'' # s) = w # split_bars s"
  by (induction w) auto

definition set_flags :: "u32 \<Rightarrow> (u32 \<times> string) list \<Rightarrow> (u32 \<times> string) list" where
  "set_flags e fs = filter (\<lambda>f. e AND fst f \<noteq> 0) fs"

lemma flag_names_rest:
  "list_all (\<lambda>f. CHR ''|'' \<notin> set (snd f)) fs \<Longrightarrow> CHR ''|'' \<notin> set w \<Longrightarrow>
   split_bars (w @ flag_names fs False e) = w # map snd (set_flags e fs)"
proof (induction fs arbitrary: w)
  case (Cons f fs)
  obtain m n where f: "f = (m, n)" by fastforce
  show ?case
    using Cons.prems Cons.IH [of n] Cons.IH [of w]
    by (simp add: f set_flags_def split_bars_append)
qed (simp add: set_flags_def split_bars_word)

lemma flag_names_split:
  assumes "list_all (\<lambda>f. CHR ''|'' \<notin> set (snd f)) fs" "set_flags e fs \<noteq> []"
  shows "split_bars (flag_names fs True e) = map snd (set_flags e fs)"
  using assms
proof (induction fs)
  case (Cons f fs)
  obtain m n where f: "f = (m, n)" by fastforce
  show ?case
    using Cons flag_names_rest [of fs n e] by (auto simp: f set_flags_def split: if_split_asm)
qed (simp add: set_flags_def)

lemma fold_or: "fold (OR) ms (a :: u32) = a OR fold (OR) ms 0"
proof (induction ms arbitrary: a)
  case (Cons m ms)
  show ?case
    unfolding fold_simps using Cons.IH [of "m OR a"] Cons.IH [of "m OR 0"] by (simp add: ac_simps)
qed simp

lemma or_all_masks:
  assumes "list_all (\<lambda>f. e AND fst f = 0 \<or> e AND fst f = fst f) fs"
  shows "fold (OR) (map fst (set_flags e fs)) 0 = e AND all_flags fs"
  using assms
proof (induction fs)
  case (Cons f fs)
  from Cons show ?case
    unfolding all_flags_def set_flags_def
    by (auto simp: fold_or [of _ "fst f"] bit.conj_disj_distrib)
qed (simp add: set_flags_def all_flags_def)

text \<open>Every known event is a single bit with a name of its own.\<close>

lemma and_power: "e AND 2 ^ k = 0 \<or> e AND 2 ^ k = (2 ^ k :: u32)"
proof (cases "bit e k")
  case True
  then have "e AND 2 ^ k = 2 ^ k" by (intro bit_word_eqI) (auto simp: bit_and_iff bit_exp_iff)
  then show ?thesis by simp
qed (simp add: and_exp_eq_0_iff_not_bit)

lemma epoll_single:
  "list_all (\<lambda>f. e AND fst f = 0 \<or> e AND fst f = fst f) epoll_names"
  using and_power [of e 0] and_power [of e 1] and_power [of e 2] and_power [of e 3] and_power [of e 4]
    and_power [of e 6] and_power [of e 7] and_power [of e 8] and_power [of e 9] and_power [of e 10]
    and_power [of e 13] and_power [of e 30] and_power [of e 31]
  by (simp add: epoll_names_def EPOLLIN_def EPOLLOUT_def EPOLLERR_def EPOLLHUP_def EPOLLET_def)

lemma epoll_names_ok:
  "list_all (\<lambda>f. CHR ''|'' \<notin> set (snd f)) epoll_names"
  "list_all (\<lambda>f. flag_value epoll_names (snd f) = fst f) epoll_names"
  by code_simp+

lemma events_read_back: "read_flags epoll_names (epoll_events_text e) = e AND all_flags epoll_names"
proof (cases "set_flags e epoll_names = []")
  case True
  then have z: "e AND all_flags epoll_names = 0" using or_all_masks [OF epoll_single, of e] by simp
  have "flag_names fs b e = []" if "set_flags e fs = []" for fs b
    using that by (induction fs) (auto simp: set_flags_def split: if_split_asm)
  then have "epoll_events_text e = (if e = 0 then ''0'' else [])" using True by (simp add: epoll_events_text_def)
  moreover have "read_flags epoll_names ''0'' = 0" "read_flags epoll_names [] = 0" by code_simp+
  ultimately show ?thesis using z by simp
next
  case False
  then have "e \<noteq> 0" by (auto simp: set_flags_def)
  have "map (flag_value epoll_names) (map snd (set_flags e epoll_names)) = map fst (set_flags e epoll_names)"
    using epoll_names_ok(2) by (auto simp: set_flags_def list_all_iff)
  then show ?thesis
    using or_all_masks [OF epoll_single, of e] flag_names_split [OF epoll_names_ok(1) False] \<open>e \<noteq> 0\<close>
    by (simp add: epoll_events_text_def read_flags_def del: map_map)
qed

end
