(* ===== verification/Lifecycle.thy ===== *)
theory Lifecycle
  imports RpcServer RpcPool Async_Call TcpServer
begin

text \<open>
  The beginning and the end of objects that need more than their fields: the address an RPC
  server binds, the handshake between the destructors of the RPC server and of the registry
  and their cleaning timers, the blocks a byte array gives back, and the fiber of the pool
  that sends.
\<close>

section \<open>Binding an RPC server\<close>

text \<open>\<open>RpcServer::bind\<close> keeps the port that was asked for and drops \<open>ssl\<close>; an address that is
  not of IPv4 is a null pointer after the cast.\<close>

definition rpc_server_bind ::
  "'w os \<Rightarrow> 'w calls \<Rightarrow> hook_env \<Rightarrow> address \<Rightarrow> bool \<Rightarrow> nat \<Rightarrow> 's rpc_server \<Rightarrow> tcp_server \<times> sockets \<times> 'w hook \<Rightarrow>
   ((bool \<times> address list \<times> tcp_server \<times> sockets \<times> 'w hook) \<times> 's rpc_server) res" where
  "rpc_server_bind os K E addr ssl a sv st =
     (case addr of
        IPv4 sa \<Rightarrow>
          bindR (ipv4_get_port sa) (\<lambda>p.
          bindR (bind_one os K E addr False a st) (\<lambda>r. Inr (r, sv\<lparr>sv_port := p\<rparr>)))
      | _ \<Rightarrow> Inl Null_deref)"

lemma bind_keeps_requested_port:
  assumes "rpc_server_bind os K E addr ssl a sv st = Inr (r, sv')"
  shows "\<exists>sa. addr = IPv4 sa \<and> ipv4_get_port sa = Inr (sv_port sv')"
  using assms by (auto simp: rpc_server_bind_def res_simps split: address.splits)

section \<open>Destructors and cleaning timers\<close>

text \<open>One firing of the cleaning timer, by fiber \<open>f\<close>: the last line of the callback pushes when
  the loop was left by \<open>break\<close> or the flag was set.\<close>

definition server_tick ::
  "(nat \<Rightarrow> bool) \<Rightarrow> nat \<Rightarrow> 's rpc_server \<times> bool channel \<Rightarrow> 's rpc_server \<times> bool channel" where
  "server_tick live f st =
     (let (done, sv) = server_clean_subscribes live (fst st)
      in (sv, if done then snd (Channel.push f True (snd st)) else snd st))"

definition registry_tick ::
  "(nat \<Rightarrow> bool) \<Rightarrow> nat \<Rightarrow> registry \<times> bool channel \<Rightarrow> registry \<times> bool channel" where
  "registry_tick live f st =
     (let (done, rg) = clean_subscribes live (fst st)
      in (rg, if done then snd (Channel.push f True (snd st)) else snd st))"

text \<open>The destructor, in fiber \<open>d\<close>, up to the value it waits for.\<close>

definition server_destroy ::
  "nat \<Rightarrow> 's rpc_server \<times> bool channel \<Rightarrow> bool option option \<times> 's rpc_server \<times> bool channel" where
  "server_destroy d st =
     (let sv = (fst st)\<lparr>sv_stop_clean := True\<rparr>; (r, ch) = Channel.pop d (snd st) in (r, sv, ch))"

definition registry_destroy ::
  "nat \<Rightarrow> registry \<times> bool channel \<Rightarrow> bool option option \<times> registry \<times> bool channel" where
  "registry_destroy d st =
     (let rg = stop_clean (fst st); (r, ch) = Channel.pop d (snd st) in (r, rg, ch))"

text \<open>The contract of the handshake over a flag: a tick before the flag is set leaves the channel
  alone, and one after it pushes.\<close>

locale teardown =
  fixes tick :: "(nat \<Rightarrow> bool) \<Rightarrow> nat \<Rightarrow> 'o \<times> bool channel \<Rightarrow> 'o \<times> bool channel"
    and destroy :: "nat \<Rightarrow> 'o \<times> bool channel \<Rightarrow> bool option option \<times> 'o \<times> bool channel"
    and stopped :: "'o \<Rightarrow> bool"
  assumes tick_running: "\<not> stopped ob \<Longrightarrow> snd (tick live f (ob, ch)) = ch \<and> \<not> stopped (fst (tick live f (ob, ch)))"
    and tick_stopped: "stopped ob \<Longrightarrow> tick live f (ob, ch) = (ob, snd (Channel.push f True ch))"
    and destroy_pops: "destroy d (ob, ch) = (fst (Channel.pop d ch), fst (snd (destroy d (ob, ch))), snd (Channel.pop d ch))"
    and destroy_stops: "stopped (fst (snd (destroy d (ob, ch))))"
begin

lemma ticks_running:
  "\<not> stopped ob \<Longrightarrow> snd (fold (\<lambda>(live, f). tick live f) ts (ob, ch)) = ch \<and>
    \<not> stopped (fst (fold (\<lambda>(live, f). tick live f) ts (ob, ch)))"
proof (induction ts arbitrary: ob)
  case (Cons t ts)
  obtain live f where t: "t = (live, f)" by fastforce
  obtain ob' ch' where o: "tick live f (ob, ch) = (ob', ch')" by fastforce
  with tick_running [OF Cons.prems, of live f ch] have "ch' = ch" "\<not> stopped ob'" by simp_all
  with Cons.IH [of ob'] o show ?case by (simp add: t)
qed simp

text \<open>After any number of ticks the destructor waits; the next tick wakes it, and it goes on.\<close>

lemma destructor_waits_for_tick:
  assumes "\<not> stopped ob"
  shows "\<exists>ob1 ch1 ch2. destroy d (fold (\<lambda>(live, f). tick live f) ts (ob, channel_new 1 item)) = (None, ob1, ch1) \<and>
    tick live f (ob1, ch1) = (ob1, ch2) \<and> d \<in> set (ch_pop_woken ch2) \<and> fst (pop_resume d ch2) = Some (Some True)"
proof -
  obtain ob0 where o: "fold (\<lambda>(live, f). tick live f) ts (ob, channel_new 1 item) = (ob0, channel_new 1 item)"
    using ticks_running [OF assms, of ts "channel_new 1 item"] by (metis surj_pair snd_conv)
  obtain r ob1 ch1 where d: "destroy d (ob0, channel_new 1 item) = (r, ob1, ch1)" by (rule prod_cases3)
  then have r: "r = fst (Channel.pop d (channel_new 1 item))" "ch1 = snd (Channel.pop d (channel_new 1 item))" "stopped ob1"
    using destroy_pops [of d ob0 "channel_new 1 item"] destroy_stops [of d ob0 "channel_new 1 item"] by simp_all
  show ?thesis
    using one_place_passes(3) [of d item] one_place_passes(5,6) [of d f True item] tick_stopped [OF r(3)] r o d by simp
qed

end

interpretation server_end: teardown server_tick server_destroy sv_stop_clean
  by unfold_locales
    (simp_all add: server_tick_def server_destroy_def server_clean_subscribes_def case_prod_unfold Let_def)

interpretation registry_end: teardown registry_tick registry_destroy rg_stop_clean
  by unfold_locales
    (simp_all add: registry_tick_def registry_destroy_def clean_subscribes_def stop_clean_def case_prod_unfold Let_def)

section \<open>The blocks of a byte array\<close>

text \<open>The loop of \<open>~ByteArray\<close>; the blocks are listed in the order they are deleted.\<close>

function delete_nodes :: "node list \<Rightarrow> nat option \<Rightarrow> nat list" where
  "delete_nodes nodes None = []"
| "delete_nodes nodes (Some c) = c # delete_nodes nodes (next_node nodes c)"
  by pat_completeness auto

termination
  by (relation "measure (\<lambda>(nodes, cur). case cur of None \<Rightarrow> 0 | Some c \<Rightarrow> Suc (length nodes - c))")
    (auto simp: next_node_def)

lemma delete_nodes_from: "c < length nodes \<Longrightarrow> delete_nodes nodes (Some c) = [c..<length nodes]"
proof (induction "length nodes - c" arbitrary: c)
  case (Suc n)
  show ?case
  proof (cases "Suc c < length nodes")
    case True
    with Suc have "delete_nodes nodes (Some (Suc c)) = [Suc c..<length nodes]" by simp
    with True Suc.prems show ?thesis by (simp add: next_node_def upt_conv_Cons)
  next
    case False
    with Suc.prems have "length nodes = Suc c" by simp
    then show ?thesis by (simp add: next_node_def)
  qed
qed simp

section \<open>The sending fiber of the pool\<close>

definition pool_send_round :: "nat \<Rightarrow> ('s, 'c) pool \<Rightarrow> send_step \<times> ('s, 'c) pool" where
  "pool_send_round f pl =
     (case Channel.pop f (pl_channel pl) of
        (None, ch) \<Rightarrow> (Send_wait, pl\<lparr>pl_channel := ch\<rparr>)
      | (Some None, ch) \<Rightarrow> (Send_exit, pl\<lparr>pl_channel := ch\<rparr>)
      | (Some (Some p), ch) \<Rightarrow> (Send_request p, pl\<lparr>pl_channel := ch\<rparr>))"

end
