(* ===== verification/Spec2Isabelle.thy ===== *)
theory Spec2Isabelle
  imports RpcPool_Spec CoMutex Servlet TcpServer Logger Async_Logger_Spec Config_Spec Daemon Threads
    Serializer_Types Settings Http_Values Socket_Stream Async_Call Server_Conf Printing Lifecycle
begin

unbundle bit_operations_syntax

text \<open>
  A model of acid-compute, a C++ library of coroutines, hooked system calls, sockets, HTTP and
  RPC (\<open>src/acid\<close>), and what can be proved of it. Machine integers are words of their
  width, a program error (exception, failed assertion, undefined behaviour) is the left
  side of a sum (\<open>Prelude\<close>), state is passed explicitly, and what runs in parallel is an
  inductive step relation over all its fibers or threads.

  \<^bold>\<open>The program.\<close> Fibers run on the worker threads of a scheduler. The I/O manager is a
  scheduler whose idle fiber waits in \<open>epoll_wait\<close> for events and timers and puts the
  waiting fibers back into the queue. Hooked system calls use it to let a fiber wait where
  a thread would block; sockets, streams and servers are written on top of them. HTTP and
  RPC servers are TCP servers; RPC clients and the connection pool talk to servers and to a
  service registry with frames that a serialiser fills. Locks, logging and configuration
  serve all of them.

  \<^bold>\<open>The theories.\<close> Each names the files it models; records and functions keep the names of
  the code with a prefix for the class where members would clash. \<open>X_Spec\<close> holds what is
  proved of the definitions of \<open>X\<close>.

  \<^item> \<open>Prelude\<close>, \<open>StdMap\<close>, \<open>Text\<close>, \<open>Codec\<close>: errors, ordered containers of the standard library
    (over any strict weak order, locale \<open>strict_weak\<close>), texts and bytes of words.
  \<^item> \<open>ByteArray\<close>, \<open>ByteArray_Spec\<close>, \<open>ByteArray_Codec\<close>: the chained buffer, its flat contents
    as abstraction, and every pair of a writer and a reader as an instance of the locale
    \<open>codec\<close>.
  \<^item> \<open>Streams\<close>, \<open>Socket_Stream\<close>, \<open>Protocol\<close>, \<open>Serializer\<close>, \<open>Serializer_Spec\<close>,
    \<open>Serializer_Types\<close>, \<open>Rpc\<close>: fixed-size reads and writes, frames, values by their static
    types, call results.
  \<^item> \<open>Timer\<close>, \<open>CoMutex\<close>, \<open>CoSync\<close>, \<open>Channel\<close>, \<open>Locks\<close>, \<open>Threads\<close>: timers, and synchronisation of
    fibers and threads. \<open>CoMutex\<close> has a program point for every access to shared state, and a
    fiber that is inside a scope may call \<open>lock\<close> again;
    the other members of fibers are split where they wait.
  \<^item> \<open>Fiber\<close>, \<open>Scheduler\<close>, \<open>IOManager\<close>, \<open>FdManager\<close>, \<open>Hook\<close>: contexts and their switching,
    \<open>Scheduler::run\<close> as steps of all threads, the table of descriptors and one round of the
    idle fiber, and hooked calls up to where the fiber yields and from where it resumes.
  \<^item> \<open>Address\<close>, \<open>Socket\<close>, \<open>TcpServer\<close>, \<open>Server_Conf\<close>, \<open>Printing\<close>: addresses in memory and as
    text, sockets over hooked calls, the accept loops, and what is printed of them.
  \<^item> \<open>Http\<close>, \<open>Http_Values\<close>, \<open>HttpParse\<close>, \<open>Servlet\<close>: messages, the callbacks of the parser,
    dispatching and the loop of a connection.
  \<^item> \<open>Route\<close>, \<open>Registry\<close>, \<open>RpcServer\<close>, \<open>RpcClient\<close>, \<open>Async_Call\<close>, \<open>RpcPool\<close>, \<open>Lifecycle\<close>: the RPC
    layer, the beginning and the end of its objects; a call and a discovery are split where
    their fiber waits for the answer, and the closing of a client where it waits for a
    response to be read.
  \<^item> \<open>Log_Format\<close>, \<open>Logger\<close>, \<open>Async_Logger\<close>, \<open>Lexical_Cast\<close>, \<open>Env\<close>, \<open>Files\<close>, \<open>Config\<close>,
    \<open>Settings\<close>, \<open>Daemon\<close>: logging, conversions, options, configuration and its listeners.

  \<^bold>\<open>Interfaces.\<close> Where one part relies on another, the laws are a locale that is interpreted
  on the model of the provider: \<open>strict_weak\<close> (orders of keys, timers and headers), \<open>codec\<close>
  (writers and readers), \<open>descriptor_table\<close> (contexts of descriptors), \<open>lockable\<close> and
  \<open>try_lockable\<close> (locks under scoped locks), \<open>text_codec\<close> (conversions to and from text, used
  by configuration variables and HTTP headers), \<open>balancer\<close> (route strategies, used by the
  pool), \<open>static_setting\<close> (settings with a static copy) and \<open>teardown\<close> (destructors that wait
  for a timer).

  \<^bold>\<open>What is shown.\<close> Invariants of the state with their preservation by every operation (byte
  array, timers, mutex, channel, scheduler, descriptors and their events, registry, table of
  variables, asynchronous logger); round trips (integers, strings, values, frames, results,
  files, patterns, settings); refinement (mutual exclusion by the coroutine mutex, the
  registry by an association of services with providers); equivalences (a hooked call that
  waits with the blocking call, the listing of files with the tree); termination and its
  failure; and compositions: a call from the client through the server and back, a
  registration that reaches the pool, a document that reaches the channel of a client. Where
  the code does not do what it means to, a theorem states what it does: it fails with a small
  input, loses a wakeup, lets two fibers into one mutex, or does not return.

  \<^bold>\<open>Under which conditions.\<close> The texts before the theorems name them; these recur.

  \<^item> Mutual exclusion holds for fibers that do not lock again inside a scope
    (\<open>reachable_once\<close>); \<open>mutex_locked_again\<close> is the run that needs this. The unregistration of
    a provider is such a run in the code, and its theorems are about runs in which no other
    fiber comes in between.
  \<^item> Frames reach the other side: \<open>over_wire\<close> encodes a frame and decodes the bytes on the other
    side as \<open>recv_protocol\<close> would if the buffers it asks for were filled. As it is written it
    asks for none (\<open>session_transfers_nothing\<close>), so that every theorem about a call and its
    answer is about the program with this connection in place of the socket.
  \<^item> What is read from frames fits the first block of a byte array (4096 bytes):
    \<open>read_second_block\<close> shows what happens behind it.
  \<^item> The \<open>events\<close> member of a new \<open>FdContext\<close>, which the code leaves uninitialised, happens to be
    zero, and the caller runs on a scheduler: the arguments \<open>junk\<close> and \<open>sched\<close> of \<open>io_run\<close>, and
    \<open>he_junk\<close> in \<open>can_wait\<close>. \<open>indeterminate_events\<close> is about other values.
  \<^item> The destructor of the asynchronous logger runs while no thread is in a section under the
    mutex; \<open>destructor_overlaps\<close> is about the others.

  \<^bold>\<open>Fuel.\<close> The loops of \<open>Streams\<close>, of \<open>recv_request\<close>, of the HTTP connection and of \<open>publish\<close>
  in the RPC server take fuel, and \<open>None\<close> says that it did not suffice. A read of \<open>n\<close> bytes
  needs at most \<open>n + 1\<close> rounds (\<open>read_fix_size_exact\<close>); \<open>read_fix_size_hangs\<close> and
  \<open>server_publish_hangs\<close> show that no fuel within the stated bounds is enough. The loop of
  the daemon is a \<open>partial_function\<close>; it is defined exactly when some child does not crash.

  \<^bold>\<open>Parameters.\<close> The kernel (\<open>os\<close>, the original calls of the hooks, \<open>epoll_ctl\<close>, \<open>epoll_wait\<close>,
  clocks, \<open>fork\<close>, \<open>readdir\<close>), the HTTP parser and the YAML library are arguments; fresh
  addresses are arguments where the code allocates.

  \<^bold>\<open>Not modelled.\<close> Templates without behaviour (\<open>singleton.h\<close>, \<open>noncopyable.h\<close>, \<open>traits.h\<close>),
  declarations and plain getters and setters (they are the fields of the records), the main
  program, the example modules and tests, and vendored code. Data races on plain memory are
  modelled in the mutex, the scheduler, the threads and the destructor of the asynchronous
  logger only; elsewhere the members run under the lock the code takes. The thread that joins
  the workers in \<open>Scheduler::stop\<close> has no steps, exceptions thrown by listeners of the
  configuration and spurious wake-ups in \<open>async_hangs\<close> are left out, and a logged line is
  taken to leave \<open>errno\<close> alone. Reference counts are modelled where an object's end is seen
  (sockets of a server, weak pointers of subscribers). Log output is left out where it only
  reports.
\<close>

section \<open>Byte array\<close>

text \<open>C1. \<open>ByteArray::write\<close> never fails on a well-formed array and overwrites or extends the
  flat contents at the position, whatever the block boundaries; the well-formedness of
  blocks, capacity, size and cursor is kept.\<close>

theorem write_overwrites:
  assumes "ba_inv ba"
  shows "\<exists>ba'. ba_write ba bs = Inr ba' \<and> ba_inv ba' \<and>
    content ba' = take (m_position ba) (content ba) @ map Some bs @
      drop (m_position ba + length bs) (content ba) \<and>
    m_position ba' = m_position ba + length bs"
  using ba_write_wrote [OF assms, of bs] by (auto simp: wrote_def splice_at_def)

theorem write_overwrites_witness:
  "\<exists>ba'. ba_write (byte_array_new 2 Big) [1, 2, 3] = Inr ba' \<and> ba_inv ba' \<and>
    content ba' = [Some 1, Some 2, Some 3]"
  using write_overwrites [of "byte_array_new 2 Big" "[1, 2, 3]"] by auto

text \<open>C40. \<open>ByteArray::read\<close> from a position inside the first block returns the next
  \<open>n\<close> bytes of the contents, over any number of blocks, and moves the position behind
  them; asking for more than is left is \<open>std::out_of_range\<close>.\<close>

theorem read_first_block:
  assumes "ba_inv ba" "m_position ba < m_base_size ba"
  shows "ba_read ba n =
    (if m_position ba + n \<le> m_size ba
     then Inr (take n (drop (m_position ba) (content ba)), consumed ba n)
     else Inl Out_of_range)"
  using assms ba_read_flat [OF assms(1) _ assms(2)] ba_read_too_much [OF assms(1)] by auto

theorem read_first_block_witness:
  "map_sum id fst (ba_read \<lparr>m_base_size = 2, m_position = 1, m_capacity = 4, m_size = 3, m_endian = Big,
     m_nodes = [Node [Some 1, Some 2], Node [Some 3, None]], m_cur = Some 0\<rparr> 2) = Inr [Some 2, Some 3] \<and>
   ba_read (byte_array_new 2 Big) 3 = Inl Out_of_range"
proof -
  let ?ba = "\<lparr>m_base_size = 2, m_position = 1, m_capacity = 4, m_size = 3, m_endian = Big,
     m_nodes = [Node [Some 1, Some 2], Node [Some 3, None]], m_cur = Some 0\<rparr>"
  have "ba_inv ?ba" by (simp add: ba_inv_def uniform_def n_size_def node_at_def numeral_2_eq_2)
  from read_first_block [OF this, of 2] read_first_block [of "byte_array_new 2 Big" 3]
  show ?thesis by (simp add: content_def flat_def n_size_def numeral_2_eq_2)
qed

text \<open>A read that starts at the first byte of the second of two blocks dereferences a
  null pointer: \<open>read\<close> computes the room left in the block from \<open>m_position\<close> instead
  of the offset in the block.\<close>

theorem read_second_block:
  assumes "ba_inv ba" "m_position ba = m_base_size ba" "length (m_nodes ba) = 2"
    "0 < n" "m_position ba + n \<le> m_size ba"
  shows "ba_read ba n = Inl Null_deref"
  by (rule ba_read_second_block [OF assms])

theorem read_second_block_witness:
  "ba_read \<lparr>m_base_size = 2, m_position = 2, m_capacity = 4, m_size = 3, m_endian = Big,
     m_nodes = [Node [Some 1, Some 2], Node [Some 3, None]], m_cur = Some 1\<rparr> 1 = Inl Null_deref"
  by (rule read_second_block)
     (simp_all add: ba_inv_def uniform_def n_size_def node_at_def numeral_2_eq_2)

text \<open>\<open>to_string\<close> is the contents from the position to the end, wherever the
  position is.\<close>

theorem to_string_rest:
  assumes "ba_inv ba"
  shows "to_string ba = Inr (drop (m_position ba) (content ba))"
  by (rule to_string_flat [OF assms])

theorem to_string_rest_witness: "to_string (byte_array_new 2 Big) = Inr []"
  using to_string_rest [of "byte_array_new 2 Big"] by simp

text \<open>C31. A file read with \<open>read_from_file\<close> into an empty array and written back with
  \<open>write_to_file\<close> from position 0 is the same file, for every block size.\<close>

theorem file_roundtrip:
  assumes "0 < b"
  shows "\<exists>ba ba0. read_from_file (byte_array_new b en) (Some cs) = Some (Inr (True, ba)) \<and>
    set_position ba 0 = Inr ba0 \<and> write_to_file ba0 True = Inr (Some (map Some cs))"
proof -
  have inv: "ba_inv (byte_array_new b en)" using assms by simp
  obtain ba where 1: "write_chunks (byte_array_new b en) (file_chunks b cs) = Inr ba"
    "wrote (byte_array_new b en) cs ba"
    using write_chunks_wrote [OF inv, of "file_chunks b cs"] concat_file_chunks [OF assms] by auto
  then have c: "content ba = map Some cs" "ba_inv ba" by (simp_all add: wrote_def splice_at_def)
  note S = set_position_inv [OF c(2), of 0, simplified]
  have "content (ba\<lparr>m_position := 0, m_cur := node_at (m_base_size ba) (m_nodes ba) 0\<rparr>) = map Some cs"
    using c(1) by (simp add: content_def)
  with write_to_file_start [OF S(2)] 1 S(1) assms show ?thesis by (simp add: read_from_file_def)
qed

theorem file_roundtrip_witness:
  "\<exists>ba ba0. read_from_file (byte_array_new 2 Little) (Some [1, 2, 3]) = Some (Inr (True, ba)) \<and>
    set_position ba 0 = Inr ba0 \<and> write_to_file ba0 True = Inr (Some (map Some [1, 2, 3]))"
  by (rule file_roundtrip) simp

text \<open>The destructor gives back every block exactly once, from the first to the last.\<close>

theorem blocks_deleted_once:
  assumes "nodes \<noteq> []"
  shows "delete_nodes nodes (Some 0) = [0..<length nodes]"
  using delete_nodes_from [of 0 nodes] assms by simp

section \<open>Integer formats\<close>

text \<open>Whatever the byte order of the array, a 64-bit integer written in the compressed
  signed format at the end of the array is read back unchanged.\<close>

theorem var_int64_roundtrip:
  assumes "ba_inv ba" "m_position ba = m_size ba" "m_position ba + 10 < m_base_size ba"
  shows "\<exists>ba1 ba2 ba3. write_var_int64 ba v = Inr ba1 \<and>
    set_position ba1 (m_position ba) = Inr ba2 \<and> read_var_int64 ba2 = Inr (v, ba3)"
  using var_i64.roundtrip [OF assms(1) TrueI assms(2), of v]
    length_var_bytes64 [of "encode_zigzag64 v"] assms(3) by fastforce

theorem var_int64_roundtrip_witness:
  "\<exists>ba1 ba2 ba3. write_var_int64 (byte_array_new 16 Big) (- 5) = Inr ba1 \<and>
    set_position ba1 0 = Inr ba2 \<and> read_var_int64 ba2 = Inr (- 5, ba3)"
  using var_int64_roundtrip [of "byte_array_new 16 Big" "- 5"] by simp

section \<open>RPC frames and values\<close>

text \<open>C2. Decoding the encoding of a frame gives the frame back, with the length field set,
  for any content that fits the 32-bit length field.\<close>

theorem frame_roundtrip:
  assumes "length (m_content p) < 2 ^ 32"
  shows "\<exists>ba ba'. encode p = Inr ba \<and>
    decode q ba = Inr (p\<lparr>m_content_length := of_nat (length (m_content p))\<rparr>, ba')"
  using encode_input [of p] decode_frame [OF _ _ _ _ assms, of _ q] by blast

theorem frame_roundtrip_witness:
  "\<exists>ba ba'. encode (create RPC_REQUEST [7, 8] 5) = Inr ba \<and>
    decode protocol_default ba = Inr (create RPC_REQUEST [7, 8] 5, ba')"
  using frame_roundtrip [of "create RPC_REQUEST [7, 8] 5" protocol_default]
  by (simp add: create_def set_message_type_def protocol_default_def)

text \<open>On the wire a frame is magic, version, type, the sequence id and the content
  length in network order, and the content; \<open>decode_meta\<close> recovers the 11-byte head.\<close>

theorem frame_wire_format:
  "\<exists>ba ba'. encode p = Inr ba \<and>
    to_string ba = Inr (map Some ([m_magic p, m_version p, m_type p] @
      rev (mem_bytes (m_sequence_id p)) @
      rev (mem_bytes (of_nat (length (m_content p)) :: u32)) @ m_content p)) \<and>
    decode_meta q ba = Inr (q\<lparr>m_magic := m_magic p, m_version := m_version p, m_type := m_type p,
      m_sequence_id := m_sequence_id p, m_content_length := of_nat (length (m_content p))\<rparr>, ba')"
proof -
  obtain ba where E: "encode p = Inr ba" "at_input ba (frame_head p @ m_content p)"
    "m_position ba = 0" "m_base_size ba = 4096" "m_endian ba = Big"
    using encode_input by blast
  have "to_string ba = Inr (map Some (frame_head p @ m_content p))"
    using to_string_flat [of ba] E(2) by (simp add: at_input_def)
  with E decode_meta_frame [OF E(2-5), of q] show ?thesis
    by (simp add: frame_head_def fix_bytes_def native_def)
qed

text \<open>C3. Every value of a supported type (primitives, tuples of supported types, lists,
  vectors, ordered sets and multisets of primitives) that is written with \<open><<\<close> is read
  back by \<open>>>\<close>, if its bytes fit the first block.\<close>

theorem serializer_roundtrip:
  assumes "strict_weak lt" "has_ty lt t v" "length (venc Big v) < 4096"
  shows "\<exists>ba1 ba2 ba3. put byte_array_default v = Inr ba1 \<and> set_position ba1 0 = Inr ba2 \<and>
    get lt t (default_val t) ba2 = Inr (v, ba3)"
proof -
  obtain ba1 where 1: "put byte_array_default v = Inr ba1" "wrote byte_array_default (venc Big v) ba1"
    using put_puts [OF default_inv(1), of v] default_inv(2) by (auto simp: puts_def)
  obtain ba2 where 2: "set_position ba1 0 = Inr ba2" "at_input ba2 (venc Big v)"
    "m_position ba2 = 0" "m_base_size ba2 = 4096" "m_endian ba2 = Big"
    using wrote_default [OF 1(2)] by blast
  with readableD [OF has_ty_readable [OF assms(1,2)], of ba2 "[]"] assms(3) 1(1)
  show ?thesis by simp
qed

theorem serializer_roundtrip_witness:
  "\<exists>ba1 ba2 ba3. put byte_array_default (Tuple [I32 (- 1), Vector [Str [1], Str []]]) = Inr ba1 \<and>
    set_position ba1 0 = Inr ba2 \<and>
    get (\<lambda>_ _. False) (TTuple [TI32, TVector TString]) (default_val (TTuple [TI32, TVector TString]))
      ba2 = Inr (Tuple [I32 (- 1), Vector [Str [1], Str []]], ba3)"
proof (rule serializer_roundtrip)
  show "strict_weak (\<lambda>_ _. False)" by unfold_locales (auto simp: equiv_key_def)
  show "has_ty (\<lambda>_ _. False) (TTuple [TI32, TVector TString]) (Tuple [I32 (- 1), Vector [Str [1], Str []]])"
    by (intro has_ty.tuple list_all2_Cons [THEN iffD2] conjI has_ty.vector)
       (auto intro: has_ty.prim simp: prim_ty_def)
  show "length (venc Big (Tuple [I32 (- 1), Vector [Str [1], Str []]])) < 4096"
    using length_var_bytes32 [of "encode_zigzag32 (- 1)"] length_var_bytes64 [of 2]
      length_var_bytes64 [of 1] length_var_bytes64 [of 0]
    by (simp add: size_bytes_def)
qed

text \<open>Reading a vector whose elements are containers takes its size off the input and
  yields that many empty elements: \<open>read\<close> does nothing for a container, so the bytes of
  the elements are left in the input.\<close>

theorem nested_vector_lost:
  assumes "is_container t" "n < 2 ^ 64" "at_input ba (size_bytes n @ rest)"
    "m_position ba + length (size_bytes n) < m_base_size ba"
  shows "\<exists>ba'. get lt (TVector t) (Vector []) ba = Inr (Vector (replicate n (default_val t)), ba') \<and>
    at_input ba' rest"
proof -
  have "read_var_uint64 ba = Inr (of_nat n, consumed ba (length (size_bytes n)))"
    unfolding size_bytes_def
    by (rule read_var_uint64_input) (use assms(3,4) in \<open>simp_all add: size_bytes_def\<close>)
  moreover have "unat (of_nat n :: u64) = n"
    using assms(2) by (simp add: unat_of_nat take_bit_nat_eq_self)
  ultimately show ?thesis
    using at_input_consumed [OF assms(3)]
    by (simp add: read_container_def read_each_container [OF assms(1)])
qed

theorem nested_vector_lost_witness:
  "\<exists>ba1 ba2 ba3. put byte_array_default (Vector [Vector [U8 7]]) = Inr ba1 \<and>
    set_position ba1 0 = Inr ba2 \<and>
    get (\<lambda>_ _. False) (TVector (TVector TU8)) (Vector []) ba2 = Inr (Vector [Vector []], ba3) \<and>
    at_input ba3 (size_bytes 1 @ [7])"
proof -
  let ?v = "Vector [Vector [U8 7]]"
  obtain ba1 where 1: "put byte_array_default ?v = Inr ba1" "wrote byte_array_default (venc Big ?v) ba1"
    using put_puts [OF default_inv(1), of ?v] default_inv(2) by (auto simp: puts_def)
  obtain ba2 where 2: "set_position ba1 0 = Inr ba2" "at_input ba2 (size_bytes 1 @ size_bytes 1 @ [7])"
    "m_position ba2 = 0" "m_base_size ba2 = 4096"
    using wrote_default [OF 1(2)] by auto
  have "length (size_bytes 1) < 4096"
    using length_var_bytes64 [of 1] by (simp add: size_bytes_def)
  with nested_vector_lost [OF _ _ 2(2), of "TVector TU8" "\<lambda>_ _. False"] 1(1) 2
  show ?thesis by (simp add: is_container_def)
qed

text \<open>A call result that is serialised into a message content and deserialised by the
  receiver is the same result when its code is \<open>RPC_SUCCESS\<close>; otherwise code and message
  arrive and the receiver keeps the value it had.\<close>

theorem rpc_result_roundtrip:
  assumes "strict_weak lt" "has_ty lt t (r_value r)" "length (r_message r) < 2 ^ 64"
    and "length (result_bytes Big r) < 4096" "starts t old"
  shows "\<exists>cs ba ba'. pack_result r = Inr cs \<and> serializer_of cs = Inr ba \<and>
    get_result lt t (result_new old) ba =
      Inr (if r_code r = 0 then r
           else (result_new old)\<lparr>r_code := r_code r, r_message := r_message r\<rparr>, ba')"
proof -
  have np: "r_value r \<noteq> Pair a b" for a b
    using assms(2) by (auto elim: has_ty.cases simp: prim_ty_def)
  obtain ba where ba: "serializer_of (result_bytes Big r) = Inr ba" "at_input ba (result_bytes Big r)"
    "m_position ba = 0" "m_base_size ba = 4096" "m_endian ba = Big"
    using serializer_of_input [of "result_bytes Big r"] assms(4) by auto
  note G = get_result_reads [OF assms(1-3), of ba "[]" old]
  show ?thesis
    using G ba assms(4,5) by (auto simp: pack_result_bytes [OF np])
qed

theorem rpc_result_roundtrip_witness:
  "\<exists>cs ba ba'. pack_result ((result_new (Str []))\<lparr>r_value := Str [104, 105]\<rparr>) = Inr cs \<and>
    serializer_of cs = Inr ba \<and> get_result (\<lambda>_ _. False) TString (result_new (Str [])) ba =
      Inr ((result_new (Str []))\<lparr>r_value := Str [104, 105]\<rparr>, ba')"
proof -
  let ?r = "(result_new (Str []))\<lparr>r_value := Str [104, 105]\<rparr>"
  have 1: "strict_weak (\<lambda>_ _. False)" by unfold_locales (auto simp: equiv_key_def)
  have 2: "has_ty (\<lambda>_ _. False) TString (r_value ?r)" by (auto intro: has_ty.prim simp: prim_ty_def)
  have 3: "length (result_bytes Big ?r) < 4096"
    using length_var_bytes64 [of 0] length_var_bytes64 [of 2] by (simp add: result_bytes_def result_new_def)
  show ?thesis
    using rpc_result_roundtrip [OF 1 2 _ 3, of "Str []"] by (auto simp: starts_def result_new_def)
qed

text \<open>Sending a frame whose content fits the first block is undefined behaviour: its
  scatter/gather view is empty and the session takes the address of its first element.\<close>

theorem send_small_frame:
  assumes "op_connected ops s" "length (m_content p) \<le> 4085"
  shows "send_protocol (Suc fuel) ops s p = Some (Inl Undefined)"
  by (rule send_small_undefined [OF assms])

theorem send_small_frame_witness:
  "send_protocol 1 \<lparr>op_connected = \<lambda>_. True, op_recv = \<lambda>s n. (0, [], s),
     op_recvv = \<lambda>s ns. (0, [], s), op_send = \<lambda>s bs. (0, s), op_sendv = \<lambda>s ps. (0, s)\<rparr> () heartbeat
   = Some (Inl Undefined)"
  by (simp only: One_nat_def, rule send_small_frame)
     (simp_all add: heartbeat_def create_def set_message_type_def protocol_default_def Let_def)

text \<open>C39. A connected session neither receives a frame nor sends one that fits a block: the piece
  that completes a scatter/gather view is never added to it, so that the view of the 11
  bytes of a head is empty, and the session takes the address of its first element.\<close>

theorem session_transfers_nothing:
  assumes "op_connected ops s"
  shows "recv_protocol (Suc fuel) ops s = Some (Inl Undefined) \<and>
    (length (m_content p) \<le> 4085 \<longrightarrow> send_protocol (Suc fuel) ops s p = Some (Inl Undefined))"
  using recv_undefined [OF assms] send_small_undefined [OF assms] by simp

theorem session_transfers_nothing_witness:
  "recv_protocol 1 \<lparr>op_connected = \<lambda>_. True, op_recv = \<lambda>s n. (0, [], s),
     op_recvv = \<lambda>s ns. (0, [], s), op_send = \<lambda>s bs. (0, s), op_sendv = \<lambda>s ps. (0, s)\<rparr> ()
   = Some (Inl Undefined)"
  using session_transfers_nothing [of "\<lparr>op_connected = \<lambda>_. True, op_recv = \<lambda>s n. (0, [], s),
     op_recvv = \<lambda>s ns. (0, [], s), op_send = \<lambda>s bs. (0, s), op_sendv = \<lambda>s ps. (0, s)\<rparr>" "()" 0 heartbeat]
  by simp

section \<open>Streams\<close>

text \<open>C32. Against a source that delivers at least one byte per call, \<open>read_fix_size\<close> returns
  after at most one call per byte, with exactly the next \<open>n\<close> bytes of the source in the
  buffer and the source advanced by \<open>n\<close>.\<close>

theorem read_fix_size_exact:
  assumes "reader_ok rd src" "unat n \<le> length (src s)" "length buf = unat n"
  shows "\<exists>s'. read_fix_size (Suc (unat n)) rd s buf n =
      Some (Inr (n, map Some (take (unat n) (src s)), s')) \<and> src s' = drop (unat n) (src s)"
  using read_fix_loop_ok [OF assms(1,2), of "Suc (unat n)" 0 buf n] assms(3) unat_less [of n]
  by (simp add: read_fix_size_def)

theorem read_fix_size_exact_witness:
  "\<exists>s'. read_fix_size 3 (\<lambda>s n. (1, take 1 s, drop 1 s)) [7, 8, 9 :: u8] [None, None] 2 =
      Some (Inr (2, [Some 7, Some 8], s')) \<and> s' = [9]"
proof -
  have "reader_ok (\<lambda>s n. (1, take 1 s, drop 1 s)) (\<lambda>s :: bytes. s)"
    by (auto simp: reader_ok_def word_less_nat_alt word_le_nat_alt)
  from read_fix_size_exact [OF this, of 2 "[7, 8, 9]" "[None, None]"] show ?thesis
    by (simp add: numeral_3_eq_3)
qed

text \<open>A virtual \<open>read\<close> that fails with -1 is not noticed: the test \<open>len <= 0\<close> is on a
  \<open>size_t\<close>. The loop goes round for as long as the counter of 64 bits lasts.\<close>

theorem read_fix_size_hangs:
  assumes "\<And>k. rd s k = (- 1, [], s)" "0 < n" "fuel + unat n \<le> 2 ^ 64"
  shows "read_fix_size fuel rd s buf n = None"
  unfolding read_fix_size_def by (rule read_fix_loop_error) (use assms in auto)

theorem read_fix_size_hangs_witness:
  "read_fix_size 1000000 (\<lambda>s k. (- 1, [], s)) () [None] 1 = None"
  by (rule read_fix_size_hangs) simp_all

section \<open>Timers\<close>

text \<open>C16. While the clock does not run backwards, \<open>list_expired_callback\<close> yields the callbacks
  of exactly the timers that are due, in the order of their expiry; the recurring ones stay
  in the set with their next expiry one period from now, the others leave it and lose their
  callback, and the order of the set is kept.\<close>

theorem expired_exactly_due:
  assumes "timer_inv m" "na \<notin> set (tm_timers m)" "tm_previous_time m \<le> now"
  defines "due \<equiv> filter (\<lambda>a. t_next (tm_heap m a) \<le> now) (tm_timers m)"
    and "m' \<equiv> snd (list_expired_callback m now na)"
  shows "fst (list_expired_callback m now na) = map (\<lambda>a. t_callback (tm_heap m a)) due \<and>
    timer_inv m' \<and>
    set (tm_timers m') = {a \<in> set (tm_timers m). a \<notin> set due \<or> t_recurring (tm_heap m a)} \<and>
    tm_heap m' = (\<lambda>b. if b \<in> set due then fired now (tm_heap m b) else tm_heap m b)"
proof -
  have "\<not> fst (detect_clock_rollover m now)" using leD [OF assms(3)] by (simp add: detect_clock_rollover_def)
  with list_expired_spec [OF assms(1,2), of now] show ?thesis
    unfolding due_def m'_def by simp
qed

theorem expired_exactly_due_witness:
  "\<exists>m. list_expired_callback (snd (add_timer (timer_manager_new (\<lambda>_. new_timer_at 0) 1000) 1000 1 500
      (Some (Plain (7::nat))) True)) 1500 0 = ([Some (Plain 7)], m) \<and> set (tm_timers m) = {1} \<and>
    t_next (tm_heap m 1) = 2000"
proof -
  let ?n = "timer_manager_new (\<lambda>_. new_timer_at 0) 1000 :: nat timer_manager"
  let ?m = "snd (add_timer ?n 1000 1 500 (Some (Plain 7)) True)"
  have i: "timer_inv ?n"
    using timer_manager_new_inv [of "\<lambda>_. new_timer_at 0 :: nat timer" 1000] by (simp add: new_timer_at_def)
  have s: "tm_timers ?m = [1]" "tm_heap ?m 1 = new_timer 1000 500 (Some (Plain 7)) True" "tm_previous_time ?m = 1000"
    by (simp_all add: add_timer_def insert_timer_def timer_manager_new_def Let_def)
  have "timer_inv ?m" by (rule add_timer_inv(1) [OF i]) (simp add: timer_manager_new_def)
  from expired_exactly_due [OF this, of 0 1500] s show ?thesis
    by (cases "list_expired_callback ?m 1500 0") (simp add: new_timer_def fired_def)
qed

text \<open>Within the first hour of the clock the test for a rollover wraps around: if the
  clock is read as any earlier time, every timer fires at once, due or not.\<close>

theorem rollover_fires_all:
  assumes "timer_inv m" "na \<notin> set (tm_timers m)" "now < tm_previous_time m"
    and "tm_previous_time m < 3600000"
  shows "fst (list_expired_callback m now na) = map (\<lambda>a. t_callback (tm_heap m a)) (tm_timers m)"
proof -
  have "now < tm_previous_time m - 3600000"
    using assms(3,4) by (simp add: word_less_nat_alt unat_sub_if_size word_size)
  then have "fst (detect_clock_rollover m now)" using assms(3) by (simp add: detect_clock_rollover_def)
  with list_expired_spec(1) [OF assms(1,2), of now] show ?thesis by simp
qed

theorem rollover_fires_all_witness:
  "fst (list_expired_callback
     (snd (add_timer (timer_manager_new (\<lambda>_. new_timer_at 0) 1000) 1000 1 30000 (Some (Plain (7::nat))) False))
     999 0) = [Some (Plain 7)]"
proof -
  let ?m = "timer_manager_new (\<lambda>_. new_timer_at 0) 1000 :: nat timer_manager"
  have i: "timer_inv ?m"
    using timer_manager_new_inv [of "\<lambda>_. new_timer_at 0 :: nat timer" 1000] by (simp add: new_timer_at_def)
  have s: "tm_timers (snd (add_timer ?m 1000 1 30000 (Some (Plain 7)) False)) = [1]"
    "tm_heap (snd (add_timer ?m 1000 1 30000 (Some (Plain 7)) False)) 1 = new_timer 1000 30000 (Some (Plain 7)) False"
    "tm_previous_time (snd (add_timer ?m 1000 1 30000 (Some (Plain 7)) False)) = 1000"
    by (simp_all add: add_timer_def insert_timer_def timer_manager_new_def Let_def)
  have "timer_inv (snd (add_timer ?m 1000 1 30000 (Some (Plain 7)) False))"
    by (rule add_timer_inv(1) [OF i]) (simp add: timer_manager_new_def)
  from rollover_fires_all [OF this, of 0 999] s show ?thesis by (simp add: new_timer_def)
qed

text \<open>C17. Every operation keeps the set of timers ordered by expiry and every armed timer in it:
  a timer with a fresh address that is added is added to the set; \<open>refresh\<close> and \<open>reset\<close> move
  timers within it; \<open>cancel\<close> is never undefined, answers whether the timer was armed, and takes
  just an armed one out; asking for the next timer changes no timer; and
  \<open>list_expired_callback\<close>, whatever the clock says, takes timers out and adds none.\<close>

theorem timer_operations_inv:
  assumes "timer_inv m"
  shows "(a \<notin> set (tm_timers m) \<longrightarrow> timer_inv (snd (add_timer m now a ms cb rec)) \<and>
       set (tm_timers (snd (add_timer m now a ms cb rec))) = insert a (set (tm_timers m))) \<and>
    timer_inv (snd (refresh m now a)) \<and> set (tm_timers (snd (refresh m now a))) = set (tm_timers m) \<and>
    timer_inv (snd (snd (reset m now a ms from_now))) \<and>
    set (tm_timers (snd (snd (reset m now a ms from_now)))) = set (tm_timers m) \<and>
    (\<exists>m'. Timer.cancel m a = Inr (t_callback (tm_heap m a) \<noteq> None, m') \<and> timer_inv m' \<and>
       set (tm_timers m') =
         (if t_callback (tm_heap m a) \<noteq> None then set (tm_timers m) - {a} else set (tm_timers m))) \<and>
    timer_inv (snd (get_next_timer m now)) \<and> tm_timers (snd (get_next_timer m now)) = tm_timers m \<and>
    (na \<notin> set (tm_timers m) \<longrightarrow> timer_inv (snd (list_expired_callback m now na)) \<and>
       set (tm_timers (snd (list_expired_callback m now na))) \<subseteq> set (tm_timers m))"
proof (intro conjI impI)
  show "\<exists>m'. Timer.cancel m a = Inr (t_callback (tm_heap m a) \<noteq> None, m') \<and> timer_inv m' \<and>
       set (tm_timers m') =
         (if t_callback (tm_heap m a) \<noteq> None then set (tm_timers m) - {a} else set (tm_timers m))"
    using cancel_spec [OF assms, of a] cancel_inv(1) [OF assms, of a] assms by (cases "t_callback (tm_heap m a)") auto
qed (use add_timer_inv [OF assms] refresh_inv [OF assms] reset_inv [OF assms] rearmed_set [OF assms]
    list_expired_spec(2,3) [OF assms] assms in \<open>auto simp: get_next_timer_def Let_def split: list.splits\<close>)

theorem timer_operations_inv_witness:
  "\<exists>m'. Timer.cancel (snd (add_timer (timer_manager_new (\<lambda>_. new_timer_at 0) 5) 5 3 10 (Some (Plain (1::nat))) True)) 3 =
      Inr (True, m') \<and> timer_inv m' \<and> tm_timers m' = []"
proof -
  let ?empty = "timer_manager_new (\<lambda>_. new_timer_at 0) 5 :: nat timer_manager"
  let ?m = "snd (add_timer ?empty 5 3 10 (Some (Plain 1)) True)"
  have 0: "timer_inv ?empty"
    using timer_manager_new_inv [of "\<lambda>_. new_timer_at 0 :: nat timer" 5] by (simp add: new_timer_at_def)
  have f: "3 \<notin> set (tm_timers ?empty)" "set (tm_timers ?empty) = {}" by (simp_all add: timer_manager_new_def)
  have 1: "timer_inv ?m" "set (tm_timers ?m) = {3}"
    using add_timer_inv [OF 0 f(1), of 5 10 "Some (Plain 1)" True] unfolding f(2) by blast+
  have "t_callback (tm_heap ?m 3) \<noteq> None" by (simp add: add_timer_def insert_timer_def new_timer_def Let_def)
  with timer_operations_inv [OF 1(1), of 3] 1(2) show ?thesis by auto
qed

text \<open>Cancelling is never undefined: it succeeds exactly for an armed timer, which is then
  no longer in the set and has no callback.\<close>

theorem cancel_removes:
  assumes "timer_inv m"
  shows "\<exists>m'. Timer.cancel m a = Inr (t_callback (tm_heap m a) \<noteq> None, m') \<and> timer_inv m' \<and>
    t_callback (tm_heap m' a) = None \<and> a \<notin> {b \<in> set (tm_timers m'). t_callback (tm_heap m b) \<noteq> None}"
proof (cases "t_callback (tm_heap m a) = None")
  case True
  then show ?thesis using cancel_spec [OF assms, of a] assms by simp
next
  case False
  obtain m' where m': "Timer.cancel m a = Inr (True, m')" "t_callback (tm_heap m' a) = None"
    using cancel_spec [OF assms, of a] False by auto
  from cancel_inv [OF assms m'(1)] m' False show ?thesis by auto
qed

theorem cancel_removes_witness:
  "\<exists>m'. Timer.cancel (timer_manager_new (\<lambda>_. new_timer_at 0) 5 :: nat timer_manager) 3 = Inr (False, m')"
  using cancel_removes [of "timer_manager_new (\<lambda>_. new_timer_at 0) 5 :: nat timer_manager" 3]
    timer_manager_new_inv [of "\<lambda>_. new_timer_at 0 :: nat timer" 5]
  by (auto simp: timer_manager_new_def new_timer_at_def)

section \<open>Coroutine synchronisation\<close>

text \<open>C4. Mutual exclusion: however the fibers interleave, two fibers are never both inside
  a scope of the mutex, provided no fiber calls \<open>lock\<close> again while it is inside one
  (\<open>reachable_once\<close>; \<open>mutex_locked_again\<close> shows that the proviso is needed) and no fiber has
  the id 0 or the initial value of \<open>m_fiber_id\<close>, which the class does not initialise.\<close>

theorem mutual_exclusion:
  assumes "reachable_once F v s" "0 \<notin> F" "v \<notin> F" "ms_pc s f = Critical" "ms_pc s g = Critical"
  shows "f = g"
  using holder_unique [OF reachable_inv [OF assms(1-3)], of f]
    holder_unique [OF reachable_inv [OF assms(1-3)], of g] assms(4,5) by simp

theorem mutual_exclusion_witness:
  "\<exists>s. CoMutex.run (map (Product_Type.Pair Call_lock) [1, 1, 1, 2, 2]) (mutex_new 0) = Some s \<and>
     ms_pc s 1 = Critical \<and> ms_pc s 2 = Take_guard \<and> (1::nat) = 1"
proof -
  let ?r = "map (Product_Type.Pair Call_lock) [1, 1, 1, 2, 2]"
  obtain s where s: "CoMutex.run ?r (mutex_new 0) = Some s" "ms_pc s 1 = Critical" "ms_pc s 2 = Take_guard"
    "keeps_once ?r (mutex_new 0)"
    by (simp add: steps_simps locks_again_def)
  have "reachable_once {1, 2} 0 s" by (rule run_once [OF s(1,4) _ reachable_once.init]) simp
  from mutual_exclusion [OF this _ _ s(2) s(2)] s show ?thesis by auto
qed

text \<open>C26. A scope inside a scope frees the mutex: \<open>lock\<close> returns at once when the caller has
  the mutex, but the inner \<open>unlock\<close> releases it. For any two fibers there is a run in which
  one is still inside its outer scope when the other enters: both are critical. The
  registry does this: \<open>handle_unregister_service\<close> holds \<open>m_mutex\<close> around \<open>publish\<close>, which
  locks and unlocks it again.\<close>

theorem mutex_locked_again:
  assumes "f \<noteq> g" "v \<noteq> f" "v \<noteq> g" "f \<noteq> 0" "g \<noteq> 0"
  shows "\<exists>s. reachable {f, g} v s \<and> ms_pc s f = Critical \<and> ms_depth s f = 1 \<and>
    ms_pc s g = Critical \<and> ms_depth s g = 1"
proof -
  let ?r = "[(Call_lock, f), (Call_lock, f), (Call_lock, f), (Call_lock, f), (Call_unlock, f),
    (Call_unlock, f), (Call_unlock, f), (Call_unlock, f), (Call_unlock, f),
    (Call_lock, g), (Call_lock, g), (Call_lock, g)]"
  obtain s where s: "CoMutex.run ?r (mutex_new v) = Some s" "ms_pc s f = Critical" "ms_depth s f = 1"
    "ms_pc s g = Critical" "ms_depth s g = 1"
    using assms by (simp add: steps_simps)
  have "reachable {f, g} v s" by (rule run_reachable [OF s(1) _ reachable.init]) simp
  with s show ?thesis by blast
qed

theorem mutex_locked_again_witness:
  "\<exists>s. reachable {1, 2} 0 s \<and> ms_pc s 1 = Critical \<and> ms_depth s 1 = 1 \<and>
    ms_pc s 2 = Critical \<and> ms_depth s 2 = 1"
  by (rule mutex_locked_again) simp_all

text \<open>C18. The interleaved mutex implements the abstract one, for fibers that do not lock again
  inside a scope: a step leaves the set of holders alone, takes a free mutex, or gives it
  back. A step that locks again is outside this contract; \<open>mutex_locked_again\<close> says what
  comes of it.\<close>

theorem mutex_refinement:
  assumes "reachable_once F v s" "0 \<notin> F" "v \<notin> F" "f \<in> F" "\<not> locks_again c f s"
    "mutex_step c f s = Some s'"
  shows "spec_step f (holders s) (holders s')"
  by (rule mutex_step_refines [OF reachable_inv [OF assms(1-3)] assms(4,2,3,5,6)])

theorem mutex_refinement_witness:
  "\<exists>s s'. CoMutex.run (map (Product_Type.Pair Call_lock) [1, 1, 1]) (mutex_new 0) = Some s \<and>
     mutex_step Call_unlock 1 s = Some s' \<and> spec_step 1 (holders s) (holders s')"
proof -
  let ?r = "map (Product_Type.Pair Call_lock) [1, 1, 1]"
  obtain s where s: "CoMutex.run ?r (mutex_new 0) = Some s" "keeps_once ?r (mutex_new 0)"
    "ms_pc s 1 = Critical"
    by (simp add: steps_simps locks_again_def)
  have R: "reachable_once {1} 0 s" by (rule run_once [OF s(1,2) _ reachable_once.init]) simp
  obtain s' where s': "mutex_step Call_unlock 1 s = Some s'" using s(3) by (simp add: mutex_step_def)
  from mutex_refinement [OF R _ _ _ _ s'] s(1) s' show ?thesis by (auto simp: locks_again_def)
qed

text \<open>No waiter is forgotten: a fiber that has yielded in \<open>lock\<close> is in the wait queue, on
  its way out of it in the hands of an unlocking fiber, or already scheduled. This holds in
  every run, also when fibers lock again inside a scope.\<close>

theorem mutex_waiters_kept:
  assumes "reachable F v s" "ms_pc s f = Parked"
  shows "f \<in> set (ms_wait_queue s) \<union> set (ms_woken s) \<union> (\<Union>g. set (handed (ms_pc s g)))"
  using reachable_waiters [OF assms(1)] assms(2) by (simp add: waiters_inv_def waiting_def)

theorem mutex_waiters_kept_witness:
  "\<exists>s. CoMutex.run (map (Product_Type.Pair Call_lock) [1, 1, 1, 2, 2, 2, 2, 2, 2]) (mutex_new 0) = Some s \<and>
     2 \<in> set (ms_wait_queue s) \<union> set (ms_woken s) \<union> (\<Union>g. set (handed (ms_pc s g)))"
proof -
  obtain s where s: "CoMutex.run (map (Product_Type.Pair Call_lock) [1, 1, 1, 2, 2, 2, 2, 2, 2]) (mutex_new 0) = Some s"
    "ms_pc s 2 = Parked"
    by (simp add: steps_simps)
  have "reachable {1, 2} 0 s" by (rule run_reachable [OF s(1) _ reachable.init]) auto
  from mutex_waiters_kept [OF this s(2)] s(1) show ?thesis by blast
qed

text \<open>C37. A wakeup can be lost: a fiber \<open>g\<close> enqueues itself between the look of \<open>f\<close> at the wait
  queue and the release of the lock. Then the mutex is free, \<open>f\<close> has returned from \<open>unlock\<close>,
  and \<open>g\<close> is asleep; and however any fibers go on from there, locking and waiting, \<open>g\<close> is
  still asleep and has no step as long as none of them makes another call of \<open>unlock\<close>.\<close>

theorem mutex_lost_wakeup:
  assumes "f \<noteq> g" "v \<noteq> f" "v \<noteq> g" "f \<noteq> 0" "g \<noteq> 0"
  shows "\<exists>s. reachable_once {f, g} v s \<and> \<not> ms_locked s \<and> ms_pc s f = Idle \<and>
    ms_wait_queue s = [g] \<and>
    (\<forall>s' c. without_unlock s s' \<longrightarrow> ms_pc s' g = Parked \<and> mutex_step c g s' = None)"
proof -
  let ?r = "map (Product_Type.Pair Call_lock) [f, f, f] @ map (Product_Type.Pair Call_unlock) [f, f, f] @
    map (Product_Type.Pair Call_lock) [g, g, g, g, g, g] @ map (Product_Type.Pair Call_unlock) [f, f]"
  obtain s where s: "CoMutex.run ?r (mutex_new v) = Some s" "keeps_once ?r (mutex_new v)"
    "\<not> ms_locked s" "ms_pc s f = Idle" "ms_wait_queue s = [g]" "stranded g s"
    using assms by (simp add: steps_simps locks_again_def stranded_def)
  have R: "reachable_once {f, g} v s" by (rule run_once [OF s(1,2) _ reachable_once.init]) auto
  have "ms_pc s' g = Parked \<and> mutex_step c g s' = None" if "without_unlock s s'" for s' c
    using stranded_without_unlock [OF that s(6)] by (simp add: stranded_def mutex_step_def)
  with R s show ?thesis by blast
qed

theorem mutex_lost_wakeup_witness:
  "\<exists>s. reachable_once {1, 2} 9 s \<and> \<not> ms_locked s \<and> ms_pc s 1 = Idle \<and> ms_wait_queue s = [2] \<and>
    (\<forall>s' c. without_unlock s s' \<longrightarrow> ms_pc s' 2 = Parked \<and> mutex_step c 2 s' = None)"
  by (rule mutex_lost_wakeup) simp_all

text \<open>Outside any fiber \<open>get_fiber_id\<close> is 0, which is also what \<open>unlock\<close> writes into
  \<open>m_fiber_id\<close>: after an unlock a thread without a fiber is taken for the owner and walks
  into the mutex while a fiber holds it.\<close>

theorem mutex_id_zero:
  "\<exists>s. CoMutex.run (map (Product_Type.Pair Call_lock) [1, 1, 1] @ map (Product_Type.Pair Call_unlock) [1, 1, 1, 1, 1] @
     map (Product_Type.Pair Call_lock) [2, 2, 0, 2]) (mutex_new 9) = Some s \<and>
     ms_pc s 0 = Critical \<and> ms_pc s 2 = Critical"
  by (simp add: steps_simps)

text \<open>The semaphore never gives out more permits than it has, and while a fiber sleeps on
  it every free permit has a woken fiber on its way to take it.\<close>

theorem semaphore_safe:
  assumes "sem_reachable n s"
  shows "s_used s \<le> n \<and>
    (cc_queue (s_cond s) \<noteq> [] \<longrightarrow> unat n - unat (s_used s) \<le> length (s_woken s))"
  using sem_reachable_inv [OF assms] by (simp add: sem_inv_def)

theorem semaphore_safe_witness: "s_used (snd (sem_wait 1 (semaphore_new 1))) \<le> 1"
  using semaphore_safe [OF sem_reachable.wait [OF sem_reachable.init [of 1], of 1]] by simp

text \<open>The latch releases nobody early and keeps nobody late: fibers are woken only when
  the count is zero, none is queued then, and the count stays between zero and its start.\<close>

theorem latch_safe:
  assumes "latch_reachable n l" "0 \<le> n"
  shows "(l_woken l \<noteq> [] \<longrightarrow> l_count l = 0) \<and> (l_count l = 0 \<longrightarrow> cc_queue (l_cond l) = []) \<and>
    0 \<le> l_count l \<and> l_count l \<le> n"
  using latch_reachable_inv [OF assms(1)] assms(2) by blast

theorem latch_safe_witness: "l_count (snd (latch_wait 1 (latch_new 2))) \<le> 2"
  using latch_safe [OF latch_reachable.wait [OF latch_reachable.init [of 2], of 1]] by simp

text \<open>C12. A channel is a bounded queue: what has been handed out and what is still queued is
  what was accepted, in order, never more than the capacity is queued, and as long as it is
  open no fiber sleeps on an item or a free place that no woken fiber is coming for.\<close>

theorem channel_fifo:
  assumes "chan_run cap c ins outs"
  shows "length (ch_queue c) \<le> cap \<and>
    (if ch_is_close c then \<exists>lost. ins = outs @ lost
     else ins = outs @ ch_queue c \<and>
       (cc_queue (ch_pop_cond c) \<noteq> [] \<longrightarrow> length (ch_queue c) \<le> length (ch_pop_woken c)) \<and>
       (cc_queue (ch_push_cond c) \<noteq> [] \<longrightarrow> cap - length (ch_queue c) \<le> length (ch_push_woken c)))"
  using chan_run_inv [OF assms] by (auto simp: chan_inv_def)

theorem channel_fifo_witness:
  "length (ch_queue (snd (Channel.push 1 (7::nat) (channel_new 1 (\<lambda>_. 0))))) \<le> 1"
  using channel_fifo [OF chan_run.push [OF chan_run.init [of 1 "\<lambda>_. 0 :: nat"], of 1 7]] by simp

section \<open>HTTP\<close>

text \<open>The headers of a request are a case-insensitive map: setting a header is seen under
  every spelling of its name and under no other name, and deleting it removes it.\<close>

theorem header_map_laws:
  assumes "headers_ok (rq_headers r)"
  shows "get_header (Http.set_header r k v) k' d = (if ci_key k = ci_key k' then v else get_header r k' d) \<and>
    get_header (del_header r k) k' d = (if ci_key k = ci_key k' then d else get_header r k' d) \<and>
    has_header (Http.set_header r k v) k \<and>
    headers_ok (rq_headers (Http.set_header r k v)) \<and> headers_ok (rq_headers (del_header r k))"
  using get_set_entry [OF assms] get_del_entry entries_ok [OF assms] has_set_entry [OF assms]
  by (simp add: get_header_def Http.set_header_def del_header_def has_header_def)

theorem header_map_laws_witness:
  "get_header (Http.set_header http_request_default ''Host'' ''a'') ''HOST'' [] = ''a''"
  using header_map_laws [of http_request_default "''Host''" "''a''" "''HOST''" "[]"]
  by (simp add: http_request_default_def http_request_new_def ci_key_def c_str_def to_lower_def)

text \<open>Every method name is parsed back to its method; the name of \<open>M-SEARCH\<close> is spelled
  with blanks, so that the method that clients send is unknown.\<close>

theorem method_roundtrip:
  "string_to_method (http_method_to_string m) = m \<and> string_to_method ''M-SEARCH'' = INVALID_METHOD \<and>
   string_to_content_type (http_context_type_to_string TEXT_HTML) = TEXT_HTML"
  by (cases m) (simp_all add: string_to_method_def http_method_to_string_def method_table_def
      string_to_content_type_def http_context_type_to_string_def content_type_table_def c_str_def)

text \<open>When a name occurs several times among the parsed header fields, the request has the
  last value, under any spelling of the name.\<close>

theorem parsed_headers:
  assumes "headers_ok (rq_headers (qp_data p))"
  shows "get_header (qp_data (snd (deliver (on_request lib) i (header_events hs) p))) k d =
    last_value hs k (get_header (qp_data p) k d)"
  using deliver_headers [OF assms] by blast

theorem parsed_headers_witness:
  "\<exists>lib :: unit hp_lib. get_header (qp_data (snd (deliver (on_request lib) 0
     (header_events [(''Host'', ''a''), (''HOST'', ''b'')]) (request_parser_new lib)))) ''host'' [] = ''b''"
  using parsed_headers [of "request_parser_new lib" lib 0 "[(''Host'', ''a''), (''HOST'', ''b'')]" "''host''" "[]"
      for lib :: "unit hp_lib"]
  by (simp add: request_parser_new_def http_request_default_def http_request_new_def last_value_def
      ci_key_def c_str_def to_lower_def)

text \<open>The server answers at most one request per connection, whatever the configuration and
  the request say: the parser never clears the close flag of the request it builds.\<close>

theorem one_request_per_connection:
  "\<exists>rss s'. handle_client (Suc n) (session_recv fuel lib rd buf) send fnm hs s = Some (rss, s') \<and>
    length rss \<le> 1"
  using session_recv_close by (rule handle_client_once)

text \<open>A read error, -1, is taken for a length: \<open>recv_request\<close> parses beyond its buffer.\<close>

theorem recv_request_read_error:
  assumes "\<And>n. rd s n = (- 1, [], s)"
  shows "recv_request (Suc fuel) lib rd s buf = Some (Inl Heap_overflow)"
  by (rule recv_request_error) (rule assms)

theorem recv_request_read_error_witness:
  "recv_request 1 \<lparr>lib_init = (), lib_events = \<lambda>_ _. [], lib_end = \<lambda>_ _ _. ((), 0, 0, False), lib_url = \<lambda>_. None\<rparr>
     (\<lambda>s n. (- 1, [], s)) () [] = Some (Inl Heap_overflow)"
  by (simp only: One_nat_def, rule recv_request_read_error) simp

text \<open>C25. A servlet added under a pattern replaces the one that pattern had and no other; an
  exact path takes precedence over every pattern.\<close>

theorem servlet_table:
  assumes "globs_ok d"
  shows "globs_ok (add_glob_servlet d uri sv) \<and>
    get_glob_servlet (add_glob_servlet d uri sv) uri' = (if uri = uri' then Some sv else get_glob_servlet d uri') \<and>
    get_glob_servlet (del_glob_servlet d uri) uri' = (if uri = uri' then None else get_glob_servlet d uri') \<and>
    get_matched_servlet fnm (add_servlet d uri sv) uri = sv"
proof -
  have "get_glob_servlet (add_glob_servlet d uri sv) uri' = get_glob_servlet d uri' \<and>
      get_glob_servlet (del_glob_servlet d uri) uri' = get_glob_servlet d uri'" if "uri \<noteq> uri'"
    using find_erase_other [OF that, of "sd_globs d"] that
    by (simp add: get_glob_servlet_def add_glob_servlet_def del_glob_servlet_def find_append
        split: option.split)
  with get_add_glob [OF assms] globs_ok_ops(3) [OF assms] show ?thesis
    by (auto simp: get_matched_servlet_def add_servlet_def)
qed

theorem servlet_table_witness:
  "get_glob_servlet (add_glob_servlet (dispatch_new :: unit dispatch) ''/a*'' (Not_found_servlet ''x'')) ''/a*'' =
     Some (Not_found_servlet ''x'')"
proof -
  have "globs_ok (dispatch_new :: unit dispatch)" by (rule globs_ok_ops(1))
  from servlet_table [OF this, of "''/a*''" "Not_found_servlet ''x''" "''/a*''" "\<lambda>_ _. False"]
  show ?thesis by simp
qed

text \<open>A number that was stored in a header is read back from it under every spelling of the name;
  the variant that reports success has no return statement where it succeeds. The content
  type of a response is read back.\<close>

theorem typed_headers:
  assumes "headers_ok (rq_headers r)" "headers_ok (rs_headers rs)" "ci_key k = ci_key k'" "t \<noteq> INVALID_TYPE"
  shows "get_header_as (res_option \<circ> convert_ulong) (Http.set_header r k (to_string_unsigned x)) k' def = x \<and>
    check_and_get_header_as (res_option \<circ> convert_ulong) (Http.set_header r k (to_string_unsigned x)) k' def =
      Inl Undefined \<and>
    response_content_type (response_set_content_type rs t) = t"
  using ulong_text.header_value [OF assms(1,3)] content_type_read_back [OF assms(2,4)] by blast

section \<open>Addresses and routing\<close>

text \<open>For prefix lengths 2 to 32 the broadcast address has all host bits set and the subnet
  mask exactly the network bits; the network address, however, keeps the host bits and
  clears the network bits.\<close>

theorem ipv4_masks:
  assumes "2 \<le> n" "n \<le> 32"
  shows "\<exists>b w m. broadcast_address a n = Inr (Some b) \<and> network_address a n = Inr (Some w) \<and>
    subnet_mask a n = Inr (Some m) \<and>
    swap (sin_addr b) = swap (sin_addr a) OR mask (32 - n) \<and>
    swap (sin_addr w) = swap (sin_addr a) AND mask (32 - n) \<and>
    swap (sin_addr m) = NOT (mask (32 - n))"
  using assms
  by (simp add: broadcast_address_def network_address_def subnet_mask_def create_mask_eq to_network
      swap_or swap_and)

theorem ipv4_masks_witness:
  "\<exists>w. network_address (ipv4_new\<lparr>sin_addr := swap 0xC0A80117\<rparr>) 24 = Inr (Some w) \<and>
     swap (sin_addr w) = 0x17"
  using ipv4_masks [of 24 "ipv4_new\<lparr>sin_addr := swap 0xC0A80117\<rparr>"]
  by (auto simp: mask_eq_exp_minus_1)

text \<open>\<open>operator<\<close> and \<open>operator==\<close> of addresses are the lexicographic order and the equality
  of the address bytes that count, so that \<open><\<close> is a strict order and \<open>==\<close> its equivalence.\<close>

theorem address_order:
  assumes "address_ok a" "address_ok b"
  shows "address_less a b = (addr_bytes a < addr_bytes b) \<and>
    address_eq a b = (addr_bytes a = addr_bytes b)"
  using address_less_lex [OF assms] address_eq_bytes [OF assms] by simp

theorem address_order_witness:
  "address_less (Unknown (0 # replicate 15 0)) (Unknown (1 # replicate 15 1)) \<and>
   \<not> address_eq (Unknown (0 # replicate 15 0)) (Unknown (1 # replicate 15 1))"
  using address_order [of "Unknown (0 # replicate 15 0)" "Unknown (1 # replicate 15 1)"]
  by (simp add: address_ok_def addr_bytes_def get_addr_len_def addr_memory_def)

text \<open>\<open>look_up\<close> splits \<open>host:port\<close> and \<open>[host]:port\<close> into node and service.\<close>

theorem host_split:
  assumes "h \<noteq> []" "CHR 0x00 \<notin> set h \<union> set p" "CHR '']'' \<notin> set h"
  shows "split_host (''['' @ h @ '']:'' @ p) = (h, Some p) \<and>
    (hd h \<noteq> CHR ''['' \<and> CHR '':'' \<notin> set h \<union> set p \<longrightarrow> split_host (h @ '':'' @ p) = (h, Some p))"
  using split_bracketed [OF assms(1,3,2)] split_host_port [OF assms(1) _ _ _ assms(2)] by simp

theorem host_split_witness: "split_host ''[::1]:80'' = (''::1'', Some ''80'')"
  using host_split [of "''::1''" "''80''"] by simp

text \<open>Polling routes go round the list: starting fresh, the \<open>k\<close>-th selection is element
  \<open>k mod n\<close>.\<close>

theorem polling_fair:
  assumes "xs \<noteq> []" "length xs < 2 ^ 31"
  shows "fst (selects rs (query_strategy POLLING) xs) =
    map (\<lambda>k. Inr (xs ! (k mod length xs))) [0..<length rs]"
  using polling_round_robin [OF assms, of 0 rs] by (simp add: query_strategy_def)

theorem polling_fair_witness:
  "fst (selects [5, 5, 5] (query_strategy POLLING) [10, 20 :: nat]) = [Inr 10, Inr 20, Inr 10]"
  using polling_fair [of "[10, 20 :: nat]" "[5, 5, 5]"] by (simp add: upt_rec numeral_3_eq_3)

section \<open>Service registry\<close>

text \<open>C10. Registering appends the provider's address to the addresses of the service, leaves
  the other services alone, answers with the name, and keeps the index consistent.\<close>

theorem registry_register:
  assumes "registry_inv rg" "address_to_string a = Inr s"
  shows "\<exists>out rg'. handle_register_service live rg p (Some a) = Inr (register_response (m_content p), out, rg') \<and>
    registry_inv rg' \<and>
    services_of rg' = (services_of rg)(m_content p := services_of rg (m_content p) @ [to_bytes s])"
  using register_spec [OF assms(2), of live rg p] registered_inv [OF assms(1)] by auto

theorem registry_register_witness:
  "\<exists>out rg'. handle_register_service (\<lambda>_. True) (registry_new 40000) (create RPC_SERVICE_REGISTER [97] 0)
      (Some (Unknown (0 # replicate 15 0))) = Inr (register_response [97], out, rg') \<and>
    registry_inv rg'"
  using registry_register [OF registry_new_inv, of "Unknown (0 # replicate 15 0)" _ "\<lambda>_. True" 40000
      "create RPC_SERVICE_REGISTER [97] 0"]
  by (auto simp: address_to_string_def create_def set_message_type_def protocol_default_def Let_def)

text \<open>C11. When a provider is unregistered its address disappears from every service and no
  other address does, in a run in which no other fiber comes between the rounds of the loop.\<close>

theorem registry_unregister:
  assumes "registry_inv rg" "address_to_string a = Inr s"
  shows "\<exists>out rg'. handle_unregister_service live rg a = Inr (out, rg') \<and> registry_inv rg' \<and>
    services_of rg' = (\<lambda>n. filter (\<lambda>x. x \<noteq> to_bytes s) (services_of rg n))"
  by (rule unregister_spec [OF assms])

theorem registry_unregister_witness:
  "\<exists>s rg out rg'. address_to_string (Unknown (0 # replicate 15 0)) = Inr s \<and>
     services_of rg [97] = [to_bytes s, [98]] \<and>
     handle_unregister_service (\<lambda>_. True) rg (Unknown (0 # replicate 15 0)) = Inr (out, rg') \<and>
     services_of rg' [97] = [[98]]"
proof -
  obtain s where s: "address_to_string (Unknown (0 # replicate 15 0)) = Inr s" "to_bytes s \<noteq> [98]"
    by (simp add: address_to_string_def to_bytes_def)
  let ?rg = "registered (registered (registry_new 40000) [97] (to_bytes s)) [97] [98]"
  have rg: "registry_inv ?rg" "services_of ?rg [97] = [to_bytes s, [98]]"
    using registered_inv [OF registry_new_inv] registered_inv [OF registered_inv(1) [OF registry_new_inv]]
    by (auto simp: services_of_def registry_new_def)
  from registry_unregister [OF rg(1) s(1)] rg(2) s show ?thesis by fastforce
qed

text \<open>A lost connection takes the registry down: after the provider's services have been
  removed the loop goes on and dereferences the null request.\<close>

theorem registry_disconnect:
  assumes "registry_inv rg" "\<And>p. cn_provider_address cn = Some p \<Longrightarrow> is_ok (address_to_string p)"
  shows "client_round live v0 cb now a None (rg, m, cn) = Inl Null_deref"
proof (cases "cn_provider_address cn")
  case None
  then show ?thesis by (simp add: client_round_def)
next
  case (Some p)
  obtain s where "address_to_string p = Inr s"
    using assms(2) [OF Some] by (cases "address_to_string p") simp_all
  from unregister_spec [OF assms(1) this, of live] Some show ?thesis
    by (auto simp: client_round_def)
qed

theorem registry_disconnect_witness:
  "client_round (\<lambda>_. True) 0 (1::nat) 5 3 None
     (registry_new 40000, timer_manager_new (\<lambda>_. new_timer_at 0) 5, client_conn_new 1 None) = Inl Null_deref"
  by (rule registry_disconnect [OF registry_new_inv]) (simp add: client_conn_new_def)

text \<open>The messages of a client do not keep its connection alive: the timer armed at the
  start, which closes the connection, is never reset, whatever the client sends.\<close>

theorem registry_heartbeat_ignored:
  assumes "registry_handle_client live v0 cb now a es session remote rg m = Inr (rs, out, rg', m', cn')"
    and "timer_inv m" "distinct (a # map (fst \<circ> snd) es)"
    and "(insert a ((fst \<circ> snd) ` set es)) \<inter> set (tm_timers m) = {}"
  shows "a \<in> set (tm_timers m') \<and> t_next (tm_heap m' a) = now + rg_alive_time rg \<and>
    t_callback (tm_heap m' a) = Some (Plain cb)"
  using registry_heart [OF assms] by (simp add: new_timer_def)

theorem registry_heartbeat_ignored_witness:
  "\<exists>rs out rg' m' cn'. registry_handle_client (\<lambda>_. True) 0 (7::nat) 10 1 [(20, 2, Some heartbeat)] 1 None
      (registry_new 40000) (timer_manager_new (\<lambda>_. new_timer_at 0) 10) = Inr (rs, out, rg', m', cn') \<and>
    t_next (tm_heap m' 1) = 40010"
proof -
  let ?m = "timer_manager_new (\<lambda>_. new_timer_at 0) 10 :: nat timer_manager"
  have i: "timer_inv ?m"
    using timer_manager_new_inv [of "\<lambda>_. new_timer_at 0 :: nat timer" 10] by (simp add: new_timer_at_def)
  obtain rs out rg' m' cn' where R: "registry_handle_client (\<lambda>_. True) 0 7 10 1 [(20, 2, Some heartbeat)] 1 None
      (registry_new 40000) ?m = Inr (rs, out, rg', m', cn')"
    by (simp add: registry_handle_client_def client_conn_new_def client_round_def dispatch_request_def
        heartbeat_def create_def set_message_type_def protocol_default_def Let_def)
  from registry_heartbeat_ignored [OF R i] R show ?thesis
    by (simp add: timer_manager_new_def registry_new_def)
qed

section \<open>Calls, publications and discovery\<close>

text \<open>C5. A call, with an ideal connection between the peers: for a connected client whose
  sending channel has room and whose sequence number is free, the request is queued for
  sending; the frame sent for it is received as the same request; the server, if it has
  the method with these argument types, runs it once and answers; the answer is received as
  it was sent; and when the receiving fiber has handled it before the timeout, the caller
  gets \<open>RPC_SUCCESS\<close> with the value the method returned, and the entry of the call is gone.
  The content of the request and the serialised result must each be shorter than the first
  block of a byte array (4096 bytes), since reading goes wrong behind it. \<open>over_wire\<close> stands
  for encoding, a stream that delivers every byte, and decoding; the session of the code
  does not get so far, see \<open>session_transfers_nothing\<close>.\<close>

theorem rpc_call:
  assumes "call_ready cl" "serves lt sv name vs s t rt s'" "starts t v0"
    and "length (venc Big (Str name) @ venc Big (Tuple vs)) < 4096"
    and "length (result_bytes Big ((result_new v1)\<lparr>r_code := 0, r_value := rt\<rparr>)) < 4096"
  shows "\<exists>cs request response r cl1 cl2 cl3. call_content name vs = Inr cs \<and>
    begin_call v0 f c cs cl = Inr (cl_sequence_id cl, c, Some True, cl1) \<and>
    ch_queue (cl_channel cl1) = ch_queue (cl_channel cl) @ [Some request] \<and>
    over_wire request = Inr (Some request) \<and>
    handle_request lt lc v1 u sv peer request s = Inr (Some response, sv, s') \<and>
    over_wire response = Inr (Some response) \<and>
    recv_round g (Some response) cl1 w = Inr (True, cl2, w) \<and>
    finish_call lt t v0 f c (cl_sequence_id cl) c False cl2 = Some (Inr (r, cl3)) \<and>
    r_code r = 0 \<and> r_value r = rt \<and> map_find (<) (cl_sequence_id cl) (cl_response_handle cl3) = None"
proof -
  obtain m where m: "strict_weak lt" "has_ty lt t rt" "map_find (<) name (sv_handlers sv) = Some m"
    "list_all2 (has_ty lt) (md_args m) vs" "md_return m = Some t" "md_fun m vs s = (rt, s')"
    using assms(2) by (auto simp: serves_def)
  show ?thesis
    by (rule rpc_call_returns [OF _ _ _ _ _ _ m(3-6,2,1) assms(4,5,3)])
       (use assms(1) in \<open>simp_all add: call_ready_def\<close>)
qed

theorem rpc_call_witness:
  "\<exists>sv :: unit rpc_server. \<exists>cl :: unit rpc_client. \<exists>response cs request cl1 cl2 cl3 r.
    begin_call (U8 0) 1 1 cs cl = Inr (0, 1, Some True, cl1) \<and>
    over_wire request = Inr (Some request) \<and>
    handle_request (\<lambda>_ _. False) 0 (U8 0) 0 sv 3 request () = Inr (Some response, sv, ()) \<and>
    recv_round 2 (Some response) cl1 () = Inr (True, cl2, ()) \<and>
    finish_call (\<lambda>_ _. False) TU8 (U8 0) 1 1 0 1 False cl2 = Some (Inr (r, cl3)) \<and> r_value r = U8 6"
proof -
  let ?cl = "snd (client_connect True True 10 (rpc_client_new False (- 1) 10)) :: unit rpc_client"
  let ?m = "\<lparr>md_args = [TU8], md_return = Some TU8, md_fun = \<lambda>vs s. (U8 6, s)\<rparr> :: unit rpc_method"
  let ?sv = "register_method (rpc_server_new 0 0) [97] ?m"
  have 1: "call_ready ?cl"
    by (simp add: call_ready_def client_connect_def rpc_client_new_def channel_new_def map_find_def)
  have w: "strict_weak (\<lambda>_ _. False)" by (rule strict_weak_none)
  have t: "has_ty (\<lambda>_ _. False) TU8 (U8 w)" for w by (auto intro: has_ty.prim simp: prim_ty_def)
  have 2: "serves (\<lambda>_ _. False) ?sv [97] [U8 5] () TU8 (U8 6) ()"
    using w t by (simp add: serves_def find_registered rpc_server_new_def)
  have 3: "length (venc Big (Str [97]) @ venc Big (Tuple [U8 5])) < 4096"
    using length_var_bytes64 [of 1] by simp
  have 4: "length (result_bytes Big ((result_new (U8 0))\<lparr>r_code := 0, r_value := U8 6\<rparr>)) < 4096"
    using length_var_bytes64 [of 0] by (simp add: result_bytes_def result_new_def)
  have z: "cl_sequence_id ?cl = 0" by (simp add: client_connect_def rpc_client_new_def)
  from rpc_call [OF 1 2 _ 3 4, of "U8 0" 1 1 0 0 3 2 "()"] z show ?thesis
    by (simp add: starts_def) blast
qed

text \<open>A call of a method the server does not have is answered, and the caller gets
  \<open>RPC_NO_METHOD\<close>; the server's state does not change.\<close>

theorem rpc_unknown_method:
  assumes "call_content name vs = Inr cs" "length cs < 4096"
    and "map_find (<) name (sv_handlers sv) = None"
  shows "\<exists>response. handle_method_call lt lc v1 sv (create RPC_METHOD_REQUEST cs n) s = Inr (response, s) \<and>
    m_sequence_id response = n \<and>
    call_result lt t v0 False (Some response) = Inr (failed v0 RPC_NO_METHOD no_method_text)"
proof -
  have "cs = venc Big (Str name) @ venc Big (Tuple vs)"
    using assms(1) by (simp add: call_content_bytes)
  moreover have "m_sequence_id (create ty cs' n) = n" for ty cs'
    by (simp add: create_def set_message_type_def Let_def)
  ultimately show ?thesis
    using unknown_method [of "create RPC_METHOD_REQUEST cs n" name "venc Big (Tuple vs)" sv lt lc v1 s] assms(2,3)
    by (simp add: published_content call_result_def)
qed

theorem rpc_unknown_method_witness:
  "\<exists>cs response. handle_method_call (\<lambda>_ _. False) 0 (U8 0) (rpc_server_new 0 0 :: unit rpc_server)
      (create RPC_METHOD_REQUEST cs 7) () = Inr (response, ()) \<and>
    call_result (\<lambda>_ _. False) TU8 (U8 1) False (Some response) =
      Inr (failed (U8 1) RPC_NO_METHOD no_method_text)"
proof -
  have 1: "call_content [97] [] = Inr (venc Big (Str [97]) @ venc Big (Tuple []))"
    by (rule call_content_bytes)
  have 2: "length (venc Big (Str [97]) @ venc Big (Tuple [])) < 4096"
    using length_var_bytes64 [of 1] by simp
  have 3: "map_find (<) [97] (sv_handlers (rpc_server_new 0 0 :: unit rpc_server)) = None"
    by (simp add: rpc_server_new_def map_find_def)
  from rpc_unknown_method [OF 1 2 3, where lt = "\<lambda>_ _. False"] show ?thesis by blast
qed

text \<open>C30. Closing a client ends every call that has been sent and not answered: \<open>close\<close> returns
  with no entry left and the connection closed; a fiber that is already waiting on its
  response channel is woken, and its call, when it runs, returns \<open>RPC_CLOSED\<close>; so does a call
  that has not come to wait yet. The condition is that no registered channel still holds
  an unread response (\<open>takes_null\<close>); \<open>close_waits_for_reader\<close> is about the other case.\<close>

theorem close_wakes_calls:
  assumes "\<not> cl_is_close cl" "distinct (map snd (cl_response_handle cl))" "(n, c) \<in> set (cl_response_handle cl)"
    and "\<And>n c. (n, c) \<in> set (cl_response_handle cl) \<Longrightarrow> takes_null (cl_channels cl c)"
  shows "\<exists>cl1. client_close g cl = (None, cl1) \<and> cl_response_handle cl1 = [] \<and> is_close cl1 \<and>
    (cl_channels cl c = snd (Channel.pop f response_channel_new) \<longrightarrow>
      f \<in> set (ch_pop_woken (cl_channels cl1 c)) \<and>
      (\<exists>cl2. resume_call lt t v0 f c n it False cl1 = Some (Inr (failed v0 RPC_CLOSED closed_text, cl2)))) \<and>
    (cl_channels cl c = response_channel_new \<longrightarrow>
      (\<exists>cl2. finish_call lt t v0 f c n it False cl1 = Some (Inr (failed v0 RPC_CLOSED closed_text, cl2))))"
  by (rule close_ends_call [OF assms])

theorem close_wakes_calls_witness:
  "\<exists>cl cl1 cl2 :: unit rpc_client. cl_response_handle cl = [(0, 1)] \<and>
    finish_call (\<lambda>_ _. False) TU8 (U8 0) 7 1 0 1 False cl = None \<and>
    client_close 2 (await_call 7 1 cl) = (None, cl1) \<and> 7 \<in> set (ch_pop_woken (cl_channels cl1 1)) \<and>
    resume_call (\<lambda>_ _. False) TU8 (U8 0) 7 1 0 1 False cl1 = Some (Inr (failed (U8 0) RPC_CLOSED closed_text, cl2))"
proof -
  let ?cl = "snd (client_connect True True 10 (rpc_client_new False (- 1) 10))
      \<lparr>cl_response_handle := [(0, 1)]\<rparr> :: unit rpc_client"
  let ?w = "await_call 7 1 ?cl"
  have c: "cl_response_handle ?cl = [(0, 1)]" "cl_channels ?cl 1 = response_channel_new"
    by (simp_all add: client_connect_def rpc_client_new_def)
  have n: "finish_call (\<lambda>_ _. False) TU8 (U8 0) 7 1 0 1 False ?cl = None"
    unfolding finish_call_def c(2) by (simp add: response_channel_new_def channel_new_def pop_def pop_round_def)
  have w: "\<not> cl_is_close ?w" "cl_response_handle ?w = [(0, 1)]" "cl_channels ?w 1 = snd (Channel.pop 7 response_channel_new)"
    by (simp_all add: await_call_def client_connect_def rpc_client_new_def)
  have t: "takes_null (cl_channels ?w 1)"
    unfolding w(3) by (simp add: takes_null_def response_channel_new_def channel_new_def pop_def pop_round_def)
  obtain cl1 where cl1: "client_close 2 ?w = (None, cl1)" "7 \<in> set (ch_pop_woken (cl_channels cl1 1))"
    "\<exists>cl2. resume_call (\<lambda>_ _. False) TU8 (U8 0) 7 1 0 1 False cl1 = Some (Inr (failed (U8 0) RPC_CLOSED closed_text, cl2))"
    using close_wakes_calls [OF w(1), of 0 1 2 7 "\<lambda>_ _. False" TU8 "U8 0" 1] w(2,3) t by auto
  then show ?thesis using c(1) n by blast
qed

text \<open>When a registered channel still holds the response that its call has not read, \<open>close\<close>
  waits in the push of the null pointer, with the lock of the client held and the later
  entries still to be told.\<close>

theorem close_waits_for_reader:
  assumes "\<not> cl_is_close cl" "cl_response_handle cl = es @ (n, c) # es'"
    and "distinct (map snd (es @ (n, c) # es'))" "\<not> takes_null (cl_channels cl c)"
    and "\<And>n c. (n, c) \<in> set es \<Longrightarrow> takes_null (cl_channels cl c)"
  shows "fst (client_close g cl) = Some (c, es')"
proof -
  have "fst (RpcClient.close_loop g (es @ (n, c) # es') (cl_channels cl)) = Some (c, es')"
    by (rule close_loop_waits [where chans = "cl_channels cl" and c = c and n = n and es = es and es' = es'])
      (use assms(3-5) in blast)+
  then show ?thesis
    using assms(1,2) by (cases "RpcClient.close_loop g (es @ (n, c) # es') (cl_channels cl)")
      (simp add: client_close_def close_end_def Let_def)
qed

theorem close_waits_for_reader_witness:
  "fst (client_close 2 (handle_method_response 3 (create RPC_METHOD_RESPONSE [] 0)
      (snd (client_connect True True 10 (rpc_client_new False (- 1) 10))\<lparr>cl_response_handle := [(0, 1)]\<rparr>
        :: unit rpc_client))) = Some (1, [])"
proof -
  let ?cl = "snd (client_connect True True 10 (rpc_client_new False (- 1) 10))\<lparr>cl_response_handle := [(0, 1)]\<rparr>
      :: unit rpc_client"
  let ?r = "handle_method_response 3 (create RPC_METHOD_RESPONSE [] 0) ?cl"
  have r: "?r = ?cl\<lparr>cl_channels := push_to 3 (Some (create RPC_METHOD_RESPONSE [] 0)) 1 (cl_channels ?cl)\<rparr>"
    by (simp add: handle_method_response_def map_find_def equiv_key_def create_def set_message_type_def Let_def)
  have 1: "\<not> cl_is_close ?r" "cl_response_handle ?r = [] @ (0, 1) # []"
    unfolding r by (simp_all add: client_connect_def)
  have 2: "\<not> takes_null (cl_channels ?r 1)"
    unfolding r by (simp add: takes_null_def push_to_def push_def push_round_def client_connect_def rpc_client_new_def
        response_channel_new_def channel_new_def Let_def case_prod_unfold)
  show ?thesis by (rule close_waits_for_reader [OF 1 _ 2]) simp_all
qed

text \<open>A server that publishes a key which somebody has subscribed never returns from the
  loop over the subscriptions, however long it runs.\<close>

theorem server_publish_hangs:
  assumes "key \<in> fst ` set (sv_subscribes sv)"
  shows "server_publish fuel live sv key data = None"
proof -
  have "map snd (filter (\<lambda>e. fst e = key) (sv_subscribes sv)) \<noteq> []"
    using assms by (auto simp: filter_empty_conv)
  from publish_loop_hangs [OF this] assms show ?thesis
    by (auto simp: server_publish_def pack_bytes)
qed

theorem server_publish_hangs_witness:
  "server_publish 5 (\<lambda>_. True) ((rpc_server_new 0 0)\<lparr>sv_subscribes := [([97], 1)]\<rparr>) [97] (Bool True) = None"
  by (rule server_publish_hangs) simp

text \<open>The answer to a subscription carries none of the result it should: it is what
  remains of the request behind the eleven bytes that were written over its start.\<close>

theorem subscribe_answer_lost:
  assumes "m_content p = venc Big (Str key)" "length (m_content p) < 4096"
  shows "\<exists>sv'. server_handle_subscribe v0 sv p client =
      Inr (create RPC_SUBSCRIBE_RESPONSE (drop 11 (m_content p)) 0, sv') \<and>
    sv_subscribes sv' = sv_subscribes sv @ [(key, client)]"
  by (rule subscribe_answer [OF assms])

theorem subscribe_answer_lost_witness:
  "\<exists>sv' :: unit rpc_server. server_handle_subscribe 0 (rpc_server_new 0 0)
      (create RPC_SUBSCRIBE_REQUEST (venc Big (Str [97])) 0) 3 =
    Inr (create RPC_SUBSCRIBE_RESPONSE [] 0, sv')"
proof -
  have "var_bytes (1 :: u64) = [1]" by (simp add: var_bytes.simps)
  then have l: "length (venc Big (Str [97])) < 11" by simp
  from subscribe_answer_lost [of "create RPC_SUBSCRIBE_REQUEST (venc Big (Str [97])) 0" "[97]" 0 "rpc_server_new 0 0" 3] l
  show ?thesis by (auto simp: published_content)
qed

text \<open>C20. Discovery: from the content of the registry's answer the pool reads exactly the
  addresses that are registered for the service, in their order, or that there is none,
  provided the answer is shorter than the first block of a byte array (4096 bytes); a longer
  one, of some two hundred providers, is read across a block boundary, where
  \<open>ByteArray::read\<close> goes wrong (\<open>read_second_block\<close>). The number of addresses and their lengths
  fit their integer types. The frame itself goes from one to the other as in \<open>rpc_call\<close>.\<close>

theorem discovery:
  assumes "length (services_of rg n) < 2 ^ 32" "\<forall>a \<in> set (services_of rg n). length a < 2 ^ 64"
    and "length (discover_bytes n (discover_results rg n)) < 4096"
  shows "\<exists>response. handle_discover_service rg (create RPC_SERVICE_DISCOVER n 0) = Inr response \<and>
    parse_discover (m_content response) =
      Inr (if services_of rg n = [] then None else Some (services_of rg n))"
  by (rule discovered_addresses [OF assms])

theorem discovery_witness:
  "\<exists>response. handle_discover_service (registered (registry_new 0) [97] [98]) (create RPC_SERVICE_DISCOVER [97] 0) =
      Inr response \<and> parse_discover (m_content response) = Inr (Some [[98]])"
proof -
  let ?rg = "registered (registry_new 0) [97] [98]"
  have s: "services_of ?rg [97] = [[98]]"
    using registered_inv(2) [OF registry_new_inv, of 0 "[97]" "[98]"]
    by (simp add: services_of_def registry_new_def)
  have "length (discover_bytes [97] (discover_results ?rg [97])) < 4096"
    using length_var_bytes64 [of 1] length_var_bytes64 [of 0] length_var_bytes32 [of 1]
    by (simp add: discover_results_eq s discover_bytes_def result_bytes_def address_result_def result_new_def)
  from discovery [OF _ _ this] show ?thesis by (simp add: s)
qed

lemma show_family_zero: "show_nat (unat (sa_family (0 # replicate 15 0))) = ''0''"
  by code_simp



text \<open>What it publishes when a provider goes away reaches no pool: the key of the message
  is made of the address, and the pool's cache keeps the address.\<close>

theorem pool_misses_unregistration:
  assumes "handle_unregister_service live rg a = Inr (out, rg')" "(i, q) \<in> set out"
    and "address_to_string a = Inr addr" "length (m_content q) < 4096"
    and "map_find (<) (RPC_SERVICE_SUBSCRIBE @ to_bytes addr) (pl_sub_handle pl) = None"
  shows "pool_handle_publish q pl s = Inr (pl, s)"
  by (rule unregistration_misses_pool [OF assms])

theorem pool_misses_unregistration_witness:
  "\<exists>addr out rg'. \<exists>q. \<exists>pl :: (unit, unit) pool. address_to_string (Unknown (0 # replicate 15 0)) = Inr addr \<and>
    handle_unregister_service (\<lambda>_. True) ((registered (registry_new 0) [97] (to_bytes addr))
      \<lparr>rg_subscribes := [(RPC_SERVICE_SUBSCRIBE @ to_bytes addr, 5)]\<rparr>) (Unknown (0 # replicate 15 0)) = Inr (out, rg') \<and>
    (5, q) \<in> set out \<and> cache_of pl [97] = [to_bytes addr] \<and> pool_handle_publish q pl () = Inr (pl, ())"
proof -
  obtain addr where a: "address_to_string (Unknown (0 # replicate 15 0)) = Inr addr" "length addr < 100"
    using show_family_zero by (simp add: address_to_string_def)
  let ?rg = "(registered (registry_new 0) [97] (to_bytes addr))
      \<lparr>rg_subscribes := [(RPC_SERVICE_SUBSCRIBE @ to_bytes addr, 5)]\<rparr>"
  let ?pl = "(pool_new 10)\<lparr>pl_service_cache := [([97], [to_bytes addr])]\<rparr> :: (unit, unit) pool"
  let ?q = "create RPC_PUBLISH_REQUEST (venc Big (Str (RPC_SERVICE_SUBSCRIBE @ to_bytes addr)) @
      venc Big (service_data False (to_bytes addr))) 0"
  obtain out rg' where r: "handle_unregister_service (\<lambda>_. True) ?rg (Unknown (0 # replicate 15 0)) = Inr (out, rg')"
      "(5, ?q) \<in> set out"
    using a(1) by (simp add: handle_unregister_service_def Let_def publish_def pack_bytes registered_def
        registry_new_def nodes_at_def)
  have l: "length (m_content ?q) < 4096"
    using a(2) length_var_bytes64 [of "of_nat (length (RPC_SERVICE_SUBSCRIBE @ to_bytes addr))"]
      length_var_bytes64 [of "of_nat (length addr)"]
    by (simp add: published_content service_data_def to_bytes_def RPC_SERVICE_SUBSCRIBE_def)
  have "pool_handle_publish ?q ?pl () = Inr (?pl, ())"
    by (rule pool_misses_unregistration [OF r a(1) l]) (simp add: pool_new_def map_find_def)
  moreover have "cache_of ?pl [97] = [to_bytes addr]"
    by (simp add: cache_of_def pool_new_def map_find_def equiv_key_def)
  ultimately show ?thesis using a(1) r by blast
qed

text \<open>A discovery of a service that another fiber is already discovering is never
  answered: its channel is not the one that is registered.\<close>

theorem second_discovery_hangs:
  assumes "map_find (<) name (pl_discover_handle pl) = Some d" "d \<noteq> c" "pl_registry pl"
    and "sorted_wrt (\<lambda>a b. fst a < fst b) (pl_discover_handle pl)"
    and "begin_discover f c name pl = Some (it, pl1)"
    and "handle_service_discover g p pl1 = Inr pl2" "m_content p = venc Big (Str name) @ rest"
    and "length (m_content p) < 4096"
  shows "finish_discover h c it name pl2 = None"
  by (rule second_discovery_waits [OF assms])

theorem second_discovery_hangs_witness:
  "\<exists>pl1 pl2 :: (unit, unit) pool. \<exists>p. begin_discover 1 2 [97]
      ((pool_new 10)\<lparr>pl_registry := True, pl_discover_handle := [([97], 1)]\<rparr>) = Some (1, pl1) \<and>
    handle_service_discover 3 p pl1 = Inr pl2 \<and> finish_discover 1 2 1 [97] pl2 = None"
proof -
  let ?pl = "(pool_new 10)\<lparr>pl_registry := True, pl_discover_handle := [([97], 1)]\<rparr> :: (unit, unit) pool"
  let ?p = "create RPC_SERVICE_DISCOVER_RESPONSE (venc Big (Str [97])) 0"
  have f: "map_find (<) [97] (pl_discover_handle ?pl) = Some 1"
    by (simp add: map_find_def equiv_key_def)
  obtain pl1 where b: "begin_discover 1 2 [97] ?pl = Some (1, pl1)"
    by (simp add: begin_discover_def Let_def map_find_def equiv_key_def map_emplace_def)
  have l: "length (m_content ?p) < 4096"
    using length_var_bytes64 [of 1] by (simp add: published_content)
  obtain ba where i: "serializer_of (m_content ?p) = Inr ba" "at_input ba (venc Big (Str [97]) @ [])"
    "m_position ba = 0" "m_base_size ba = 4096" "m_endian ba = Big"
    using serializer_of_input [of "m_content ?p"] l by (auto simp: published_content)
  have "read_string_vint ba = Inr ([97], consumed ba (length (venc Big (Str [97]))))"
    using str_vint.reads [where x = "[97]" and ba = ba and rest = "[]"] i l by (simp add: published_content)
  then obtain pl2 where h: "handle_service_discover 3 ?p pl1 = Inr pl2"
    using i(1) by (cases "map_find (<) [97] (pl_discover_handle pl1)")
      (auto simp: handle_service_discover_def published_content)
  have "finish_discover 1 2 1 [97] pl2 = None"
    by (rule second_discovery_hangs [OF f _ _ _ b h _ l, of "[]"]) (simp_all add: published_content)
  with b h show ?thesis by blast
qed

text \<open>C21. When the connection that the pool keeps for a service turns out to be closed, the pool
  forgets it and its address and connects to another provider of the service that it
  knows; the result is that of the call there, or a failure when it cannot connect.\<close>

theorem call_fails_over:
  assumes "map_find (<) name (pl_connections pl) = Some conn" "std_less.map_ordered (pl_service_cache pl)"
    and "po_call ops conn s = (r, s')" "r_code r = state_code RPC_CLOSED"
    and "filter (\<lambda>a. a \<noteq> po_remote ops conn) (cache_of pl name) \<noteq> []" "length (cache_of pl name) < 2 ^ 31"
  shows "\<exists>ip \<in> set (cache_of pl name) - {po_remote ops conn}. \<exists>pl'.
    pool_call ops rnd v0 name pl s = call_at ops v0 name pl' ip s' \<and>
    cache_of pl' name = filter (\<lambda>a. a \<noteq> po_remote ops conn) (cache_of pl name) \<and>
    map_find (<) name (pl_connections pl') = None"
  by (rule closed_connection_replaced [OF assms])

text \<open>Connection 1, to the address 65, is closed; 66 is another provider.\<close>

definition test_pool :: "(unit, nat) pool" where
  "test_pool = (pool_new 4)\<lparr>pl_connections := [([110], 1)], pl_service_cache := [([110], [[65], [66]])]\<rparr>"

definition test_pool_ops :: "(unit, nat) pool_ops" where
  "test_pool_ops = \<lparr>po_call = \<lambda>c s. (if c = 1 then failed (U8 0) RPC_CLOSED closed_text else result_success (U8 7), s),
     po_remote = \<lambda>c. [65], po_connect = \<lambda>ip s. (Some 2, s), po_discover = \<lambda>name pl s. ([], pl, s)\<rparr>"

theorem call_fails_over_witness:
  "\<exists>pl'. pool_call test_pool_ops 0 (U8 0) [110] test_pool () = Inr (result_success (U8 7), pl', ())"
proof -
  have c: "cache_of test_pool [110] = [[65], [66]]"
    by (simp add: test_pool_def cache_of_def map_find_def equiv_key_def)
  have m: "map_find (<) [110] (pl_connections test_pool) = Some 1" "std_less.map_ordered (pl_service_cache test_pool)"
    by (simp_all add: test_pool_def map_find_def equiv_key_def)
  have r: "po_call test_pool_ops 1 () = (failed (U8 0) RPC_CLOSED closed_text, ())" "po_remote test_pool_ops 1 = [65]"
    by (simp_all add: test_pool_ops_def)
  have "r_code (failed (U8 0) RPC_CLOSED closed_text) = state_code RPC_CLOSED" by (simp add: failed_def result_new_def)
  from call_fails_over [OF m r(1) this, of 0 "U8 0"] r(2) c show ?thesis
    by (auto simp: call_at_def test_pool_ops_def)
qed

text \<open>The channel that an asynchronous call hands out yields the result of the call, whether its
  reader comes before or after the fiber that makes the call has finished.\<close>

theorem async_call_delivers:
  assumes "finish_call lt t v0 f c n it timeout cl = Some (Inr (r, cl'))"
  shows "(\<exists>ch'. async_finish lt t v0 f c n it timeout cl (async_channel item) = Some (Inr (Some True, ch', cl')) \<and>
      fst (pop g ch') = Some (Some r)) \<and>
    (\<exists>ch'. fst (pop g (async_channel item)) = None \<and>
      async_finish lt t v0 f c n it timeout cl (snd (pop g (async_channel item))) = Some (Inr (Some True, ch', cl')) \<and>
      g \<in> set (ch_pop_woken ch') \<and> fst (pop_resume g ch') = Some (Some r))"
  using async_delivers [OF assms, where item = item and g = g] by blast

theorem pool_async_call_delivers:
  assumes "pool_call ops rnd v0 name pl s = Inr (r, pl', s')"
  shows "(\<exists>ch'. pool_async ops rnd v0 name f pl s (async_channel item) = Inr (Some True, ch', pl', s') \<and>
      fst (pop g ch') = Some (Some r)) \<and>
    (\<exists>ch'. pool_async ops rnd v0 name f pl s (snd (pop g (async_channel item))) = Inr (Some True, ch', pl', s') \<and>
      g \<in> set (ch_pop_woken ch') \<and> fst (pop_resume g ch') = Some (Some r))"
  using pool_async_delivers [OF assms, where item = item and g = g] by blast

text \<open>The destructors of the RPC server and of the registry wait for a firing of their cleaning
  timer: whatever firings came before, the first one after the flag was set wakes them and
  they go on.\<close>

theorem teardown_completes:
  assumes "\<not> sv_stop_clean sv" "\<not> rg_stop_clean rg"
  shows "(\<exists>sv1 ch1 ch2.
      server_destroy d (fold (\<lambda>(live, f). server_tick live f) ts (sv, channel_new 1 item)) = (None, sv1, ch1) \<and>
      server_tick live f (sv1, ch1) = (sv1, ch2) \<and> d \<in> set (ch_pop_woken ch2) \<and> fst (pop_resume d ch2) = Some (Some True)) \<and>
    (\<exists>rg1 ch1 ch2.
      registry_destroy d (fold (\<lambda>(live, f). registry_tick live f) ts (rg, channel_new 1 item)) = (None, rg1, ch1) \<and>
      registry_tick live f (rg1, ch1) = (rg1, ch2) \<and> d \<in> set (ch_pop_woken ch2) \<and> fst (pop_resume d ch2) = Some (Some True))"
  using server_end.destructor_waits_for_tick [OF assms(1)] registry_end.destructor_waits_for_tick [OF assms(2)] by simp

text \<open>The port that a server tells the registry is the one it was asked to bind, 0 included.\<close>

theorem server_port_requested:
  assumes "rpc_server_bind os K E addr ssl a sv st = Inr (r, sv')"
  shows "\<exists>sa. addr = IPv4 sa \<and> ipv4_get_port sa = Inr (sv_port sv')"
  by (rule bind_keeps_requested_port [OF assms])

section \<open>Fibers and scheduling\<close>

text \<open>C27. \<open>resume\<close> and \<open>yield\<close> are a round trip of control: the thread goes to the fiber and
  comes back to the fiber it was on, the fiber is \<open>RUNNING\<close> in between and rests
  afterwards, so that it can be resumed again, and no other fiber is touched.\<close>

theorem resume_yield:
  assumes "rests a s" "home t a s = Some h" "fs_cur s t = h" "a \<noteq> h"
  shows "\<exists>s1 s2. resume t a s = Inr s1 \<and> fs_cur s1 t = a \<and> fb_state (fs_heap s1 a) = RUNNING \<and>
    tl_fiber (fs_tls s1 t) = Some a \<and>
    yield t a s1 = Inr s2 \<and> fs_cur s2 t = h \<and> rests a s2 \<and> (\<forall>b. b \<noteq> a \<longrightarrow> fs_heap s2 b = fs_heap s b)"
proof -
  obtain s1 where 1: "resume t a s = Inr s1" "fs_cur s1 t = a" "fb_state (fs_heap s1 a) = RUNNING"
    "tl_fiber (fs_tls s1 t) = Some a" "fs_ctx s1 h = h" "home t a s1 = Some h"
    "\<forall>b. b \<noteq> a \<longrightarrow> fs_heap s1 b = fs_heap s b"
    using resume_spec [OF assms] by blast
  from yield_spec [OF 1(2,6,5) assms(4) 1(3)] 1 show ?thesis by auto
qed

theorem resume_yield_witness:
  "\<exists>s1 s2. resume 1 2 ((fiber_new 128 2 () 0 False (main_fiber_new 1 1
      \<lparr>fs_heap = (\<lambda>_. undefined), fs_ctx = id, fs_cur = id, fs_tls = (\<lambda>_. \<lparr>tl_fiber = None,
       tl_main_fiber = Some 1, tl_scheduler_fiber = None\<rparr>), fs_fiber_id = 0, fs_fiber_count = 0\<rparr>))) = Inr s1 \<and>
    yield 1 2 s1 = Inr s2 \<and> fs_cur s2 1 = 1"
proof -
  let ?s = "fiber_new 128 2 () 0 False (main_fiber_new 1 1
      \<lparr>fs_heap = (\<lambda>_. undefined), fs_ctx = id, fs_cur = id, fs_tls = (\<lambda>_. \<lparr>tl_fiber = None,
       tl_main_fiber = Some 1, tl_scheduler_fiber = None\<rparr>), fs_fiber_id = 0, fs_fiber_count = 0\<rparr>)"
  have "rests 2 ?s" "home 1 2 ?s = Some 1" "fs_cur ?s 1 = 1"
    by (simp_all add: rests_def home_def fiber_new_def main_fiber_new_def set_this_def)
  from resume_yield [OF this] show ?thesis by auto
qed

text \<open>A worker takes the first task that is not bound to another thread and whose fiber is
  not running, and leaves the rest of the list in order; it notifies another thread when
  it passed over a task bound to one or left tasks behind. When there is no such task the
  list is unchanged.\<close>

theorem scan_takes_first:
  assumes "list_all has_work xs"
  shows "scan_loop st me xs =
    (case dropWhile (\<lambda>x. \<not> eligible st me x) xs of
       [] \<Rightarrow> Inr (list_ex (foreign me) xs, None, xs)
     | x # vs \<Rightarrow> let us = takeWhile (\<lambda>x. \<not> eligible st me x) xs
         in Inr (list_ex (foreign me) us \<or> vs \<noteq> [], Some x, us @ vs))"
proof (rule scan_cases [OF assms, of st me])
  assume "\<forall>x \<in> set xs. \<not> eligible st me x" "scan_loop st me xs = Inr (list_ex (foreign me) xs, None, xs)"
  moreover from this(1) have "dropWhile (\<lambda>x. \<not> eligible st me x) xs = []" by (simp add: dropWhile_eq_Nil_conv)
  ultimately show ?thesis by (simp only: list.case)
next
  fix us x vs
  assume a: "xs = us @ x # vs" "\<forall>u \<in> set us. \<not> eligible st me u" "eligible st me x"
    "scan_loop st me xs = Inr (list_ex (foreign me) us \<or> vs \<noteq> [], Some x, us @ vs)"
  then have "dropWhile (\<lambda>x. \<not> eligible st me x) xs = x # vs" "takeWhile (\<lambda>x. \<not> eligible st me x) xs = us"
    by (simp_all add: dropWhile_append takeWhile_tail dropWhile_eq_Nil_conv)
  with a(4) show ?thesis by simp
qed

theorem scan_takes_first_witness:
  "scan_loop (\<lambda>f. if f = 1 then RUNNING else READY) 7 [callback_task () 8, fiber_task 1 7, fiber_task 2 (- 1)] =
    Inr (True, Some (fiber_task 2 (- 1)), [callback_task () 8, fiber_task 1 7])"
  by (subst scan_takes_first)
     (simp_all add: has_work_def eligible_def foreign_def fiber_task_def callback_task_def)

text \<open>C9. However the threads interleave, the counters of active and idle threads count the
  threads that are on a task and on the idle fiber, a thread only ever works on a task
  that is not bound to another one, and when \<open>stopping\<close> answers yes no task is left, in the
  list or on a thread.\<close>

theorem scheduler_counts:
  assumes "scheduler_new n use_caller caller = Inr (k, s0)" "start_threads ids s0 = Inr s1" "finite ids"
    and "sched_run ends may s1 s"
  shows "sc_active_thread_count s = card (busy_threads s) \<and> sc_idle_thread_count s = card (idle_threads s) \<and>
    (\<forall>t \<in> sc_threads s. \<forall>x. task_of (sc_pc s t) = Some x \<longrightarrow> tk_thread x = -1 \<or> tk_thread x = t) \<and>
    (sched_stopping s \<longrightarrow> sc_tasklist s = [] \<and> (\<forall>t \<in> sc_threads s. task_of (sc_pc s t) = None))"
proof -
  have inv: "sched_inv s" by (rule sched_inv_run [OF assms(4) start_inv [OF assms(1-3)]])
  have "task_of (sc_pc s t) = None" if "sched_stopping s" "t \<in> sc_threads s" for t
    using stopping_quiet [OF inv that] by (cases "sc_pc s t") simp_all
  moreover have "sched_stopping s \<Longrightarrow> sc_tasklist s = []" by (simp add: sched_stopping_def)
  ultimately show ?thesis using inv by (auto simp: sched_inv_def foreign_def)
qed

theorem scheduler_counts_witness:
  "\<exists>s0 s1. scheduler_new 2 False 0 = Inr (2, s0) \<and> start_threads {1, 2} s0 = Inr s1 \<and>
    (\<forall>s :: unit scheduler. sched_run base_idle_ends (\<lambda>_ _. True) s1 s \<longrightarrow>
      sc_active_thread_count s = card (busy_threads s))"
proof -
  let ?s0 = "\<lparr>sc_tasklist = [], sc_active_thread_count = 0, sc_idle_thread_count = 0, sc_stopping = False,
    sc_threads = {}, sc_fiber_state = (\<lambda>_. READY), sc_next_fiber = 0, sc_pc = (\<lambda>_. Exited),
    sc_idle_term = (\<lambda>_. False)\<rparr> :: unit scheduler"
  have n: "scheduler_new 2 False 0 = Inr (2, ?s0)" by (simp add: scheduler_new_def)
  obtain s1 where s: "start_threads {1, 2} ?s0 = Inr s1" by (simp add: start_threads_def)
  have "finite {1, 2 :: int}" by simp
  from scheduler_counts [OF n s this] n s show ?thesis by blast
qed

text \<open>C8. When a fiber is scheduled only while it is neither queued nor on a thread, no fiber
  is ever on two threads, and every task that is taken can be resumed unless its fiber has
  ended: the assertion of \<open>resume\<close> holds.\<close>

theorem one_thread_per_fiber:
  assumes "sched_run ends task_at_rest s0 s" "sched_inv s0" "excl_inv s0" "running_inv s0"
  shows "(\<forall>t \<in> sc_threads s. \<forall>u \<in> sc_threads s. \<forall>f. on_fiber (sc_pc s t) = Some f \<longrightarrow>
      on_fiber (sc_pc s u) = Some f \<longrightarrow> t = u) \<and>
    (\<forall>t \<in> sc_threads s. \<forall>x. sc_pc s t = Picked x \<longrightarrow>
      (\<forall>f. tk_fiber x = Some f \<longrightarrow> sc_fiber_state s f \<noteq> TERM_STATE) \<longrightarrow> (\<exists>s'. enter t x s = Inr s'))"
proof -
  have inv: "excl_inv s" "running_inv s"
    using excl_run [OF assms(1-3)] running_run [OF assms(1,4)] by simp_all
  have "t = u" if "t \<in> sc_threads s" "u \<in> sc_threads s" "on_fiber (sc_pc s t) = Some f"
    "on_fiber (sc_pc s u) = Some f" for t u f
    using inv(1) that by (auto simp: excl_inv_def)
  moreover have "\<exists>s'. enter t x s = Inr s'" if "t \<in> sc_threads s" "sc_pc s t = Picked x"
    "\<forall>f. tk_fiber x = Some f \<longrightarrow> sc_fiber_state s f \<noteq> TERM_STATE" for t x
    using resume_ok [OF inv that(1,2)] that(3) by blast
  ultimately show ?thesis by blast
qed

theorem one_thread_per_fiber_witness:
  "\<exists>s :: unit scheduler. \<exists>s'. sched_run base_idle_ends task_at_rest two_threads s \<and>
    sc_pc s 1 = Picked (fiber_task 0 (- 1)) \<and> enter 1 (fiber_task 0 (- 1)) s = Inr s'"
proof -
  let ?x = "fiber_task 0 (- 1) :: unit schedule_task"
  let ?s1 = "two_threads\<lparr>sc_tasklist := snd (schedule_without_lock ?x (sc_tasklist two_threads))\<rparr>"
  let ?s2 = "at 1 (Picked ?x) (?s1\<lparr>sc_tasklist := [], sc_active_thread_count := sc_active_thread_count ?s1 + 1\<rparr>)"
  have "sched_step base_idle_ends task_at_rest two_threads ?s1"
    by (rule sched_step.schedule) (simp add: task_at_rest_def two_threads_def fiber_task_def)
  moreover have "sched_step base_idle_ends task_at_rest ?s1 ?s2"
    by (rule sched_step.pick [where tickle = False])
       (simp_all add: two_threads_def schedule_without_lock_def has_work_def fiber_task_def)
  ultimately have r: "sched_run base_idle_ends task_at_rest two_threads ?s2"
    by (blast intro: sched_run.intros)
  have "sched_inv two_threads" "excl_inv two_threads" "running_inv two_threads"
    by (simp_all add: sched_inv_def excl_inv_def running_inv_def two_threads_def busy_threads_def idle_threads_def)
  from one_thread_per_fiber [OF r this] obtain s' where "enter 1 ?x ?s2 = Inr s'"
    by (fastforce simp: two_threads_def)
  with r show ?thesis by (intro exI [of _ ?s2] exI [of _ s']) simp
qed

text \<open>C38. The code schedules a fiber as soon as the event it waits for is registered, while it
  is still running: \<open>yield\<close> makes it \<open>READY\<close> before its context is saved, so another thread
  can take it and run it while the first is still leaving it.\<close>

theorem fiber_on_two_threads:
  "\<exists>s :: 'cb scheduler. sched_run ends task_not_queued two_threads s \<and> raced s"
  by (rule woken_while_running)

text \<open>\<open>Scheduler::idle\<close> loops while the scheduler is stopping instead of while it is not: a
  worker of a plain scheduler that finds no task leaves for good though nobody asked it to
  stop, and once it is asked to, a worker whose idle fiber has not ended never leaves.\<close>

theorem plain_scheduler_inverted:
  assumes "t \<in> sc_threads s" "sc_pc s t = Scanning" "\<not> sc_idle_term s t" "sc_tasklist s = []"
  shows "(\<not> sc_stopping s \<longrightarrow> (\<exists>s'. sched_run base_idle_ends may s s' \<and> \<not> sc_stopping s' \<and>
      sc_pc s' t = Exited \<and> (\<forall>s''. sched_run base_idle_ends may s' s'' \<longrightarrow> sc_pc s'' t = Exited))) \<and>
    (\<forall>s'. sc_stopping s \<longrightarrow> sched_run base_idle_ends may s s' \<longrightarrow> sc_pc s' t \<noteq> Exited)"
proof (intro conjI impI allI)
  assume "\<not> sc_stopping s"
  from base_worker_quits [OF this assms(4,1,2)] show "\<exists>s'. sched_run base_idle_ends may s s' \<and>
      \<not> sc_stopping s' \<and> sc_pc s' t = Exited \<and> (\<forall>s''. sched_run base_idle_ends may s' s'' \<longrightarrow> sc_pc s'' t = Exited)"
    using exited_stays by blast
next
  fix s' assume "sc_stopping s" "sched_run base_idle_ends may s s'"
  with base_stop_hangs [of may s s' t] assms show "sc_pc s' t \<noteq> Exited" by simp
qed

theorem plain_scheduler_inverted_witness:
  "\<exists>s' :: unit scheduler. sched_run base_idle_ends (\<lambda>_ _. False) two_threads s' \<and> \<not> sc_stopping s' \<and>
    sc_pc s' 1 = Exited"
  using plain_scheduler_inverted [of 1 "two_threads :: unit scheduler"] by (force simp: two_threads_def)

section \<open>Input and output events\<close>

text \<open>C7. Over any history of adding, deleting, cancelling and reporting events, whatever
  \<open>epoll_ctl\<close> answers and whatever is reported, as long as no assertion fails:
  \<open>m_pending_event_count\<close> is the number of registered events, each of them has exactly one
  fiber or callback to schedule and no other context has one, and the calls of \<open>epoll_ctl\<close> add
  only unknown and modify or delete only known descriptors, so that the kernel watches
  exactly the registered events. This needs memory to be zero where \<open>new FdContext\<close> leaves
  \<open>events\<close> uninitialised (\<open>junk\<close>; \<open>indeterminate_events\<close> is what happens otherwise) and events
  to be added by threads that have a scheduler (\<open>sched\<close>).\<close>

theorem events_registered:
  assumes "io_run junk sched m" "\<And>i. junk i = 0" "sched"
  shows "im_pending_event_count m = card (registered_events m) \<and> list_all fd_ok (im_fd_contexts m) \<and>
    (\<exists>k. replay (im_log m) = Some k \<and>
      (\<forall>i < length (im_fd_contexts m). watched (k i) = fc_events (im_fd_contexts m ! i)))"
  using io_run_inv [OF assms] unfolding io_inv_def in_step_def by blast

text \<open>A manager with one event, for the witnesses: the fiber 1 waits to read from descriptor 5.\<close>

lemma one_event:
  obtains m :: "unit io_manager" where
    "add_event (\<lambda>_ _ _. True) (\<lambda>_. 0) True 1 5 READ None (io_manager_new (\<lambda>_. 0)) = Inr (0, m)"
    "io_run (\<lambda>_. 0) True m" "registered_events m = {(5, READ)}"
    "fd_context_at 5 m = Inr (Some (with_event READ (new_event True 1 None) (fd_context_new (\<lambda>_. 0) 5)))"
proof -
  let ?m = "io_manager_new (\<lambda>_. 0) :: unit io_manager"
  let ?c = "with_event READ (new_event True 1 None) (fd_context_new (\<lambda>_. 0) 5) :: unit fd_context"
  have at: "fd_context_at 5 ?m = Inr (Some (fd_context_new (\<lambda>_. 0) 5))"
    by (simp add: fd_context_at_def io_manager_new_def context_resize_def del: upt_rec_numeral)
  obtain m where a: "add_event (\<lambda>_ _ _. True) (\<lambda>_. 0) True 1 5 READ None ?m = Inr (0, m)"
    and f: "im_fd_contexts m = (im_fd_contexts ?m)[5 := ?c]"
    by (simp add: add_event_def grow_contexts_def at fd_context_new_def get_event_context_def event_context_new_def
      put_context_def log_ctl_def with_event_def new_event_def)
  have run: "io_run (\<lambda>_. 0) True m" by (rule io_run.add [OF io_run.new _ _ a]) simp_all
  have c: "fd_context_at 5 m = Inr (Some ?c)"
    by (simp add: fd_context_at_def f io_manager_new_def context_resize_def del: upt_rec_numeral)
  have "(nat 5, READ) \<notin> registered_events ?m" unfolding io_new_inv(2) by simp
  from add_event_spec [OF io_new_inv(1) _ _ this, of "\<lambda>_ _ _. True" 1 None] a
  have r: "registered_events m = {(5, READ)}" by (simp add: io_new_inv(2))
  show thesis by (rule that [OF a run r c])
qed

theorem events_registered_witness:
  "\<exists>m :: unit io_manager. add_event (\<lambda>_ _ _. True) (\<lambda>_. 0) True 1 5 READ None (io_manager_new (\<lambda>_. 0)) = Inr (0, m) \<and>
    im_pending_event_count m = 1"
proof -
  obtain m :: "unit io_manager" where m: "add_event (\<lambda>_ _ _. True) (\<lambda>_. 0) True 1 5 READ None (io_manager_new (\<lambda>_. 0)) = Inr (0, m)"
    "io_run (\<lambda>_. 0) True m" "registered_events m = {(5, READ)}"
    by (rule one_event)
  from events_registered [OF m(2)] m(1,3) show ?thesis by auto
qed

text \<open>Adding an event that is not registered adds just that event, with the fiber or
  callback given, or fails with -1 and registers nothing.\<close>

theorem add_event_adds:
  assumes "io_run (\<lambda>_. 0) True m" "0 \<le> fd" "e \<noteq> NONE" "(nat fd, e) \<notin> registered_events m"
  shows "\<exists>r m'. add_event ctl (\<lambda>_. 0) True cur fd e cb m = Inr (r, m') \<and>
    (r = -1 \<and> registered_events m' = registered_events m \<or>
     r = 0 \<and> registered_events m' = insert (nat fd, e) (registered_events m) \<and>
       event_at e (im_fd_contexts m' ! nat fd) = new_event True cur cb)"
  using add_event_spec [OF io_run_inv [OF assms(1) refl TrueI] assms(2-4), of ctl cur cb] by blast

theorem add_event_adds_witness:
  "\<exists>r m'. add_event (\<lambda>_ _ _. True) (\<lambda>_. 0) True 5 40 READ None (io_manager_new (\<lambda>_. 0) :: unit io_manager) = Inr (r, m') \<and>
    (r = -1 \<or> r = 0)"
proof -
  have "(nat 40, READ) \<notin> registered_events (io_manager_new (\<lambda>_. 0) :: unit io_manager)" unfolding io_new_inv(2) by simp
  from add_event_adds [OF io_run.new _ _ this, of "\<lambda>_ _ _. True" 5 None] show ?thesis by auto
qed

text \<open>\<open>cancel_all\<close> schedules the task of every registered event of the descriptor exactly
  once and leaves none registered, or changes nothing; no assertion fails.\<close>

theorem cancel_all_triggers:
  assumes "io_run (\<lambda>_. 0) True m" "0 \<le> fd" "nat fd < length (im_fd_contexts m)"
  shows "\<exists>r ts m'. cancel_all ctl fd m = Inr (r, ts, m') \<and>
    registered_events m' = (if r then {(i, e) \<in> registered_events m. i \<noteq> nat fd} else registered_events m) \<and>
    ts = (if r then concat (map (\<lambda>e. if (nat fd, e) \<in> registered_events m
      then event_task (event_at e (im_fd_contexts m ! nat fd)) else []) [READ, WRITE]) else []) \<and>
    im_pending_event_count m' + length ts = im_pending_event_count m"
proof -
  let ?c = "im_fd_contexts m ! nat fd"
  have inv: "io_inv m" by (rule io_run_inv [OF assms(1)]) simp_all
  have c: "fd_context_at fd m = Inr (Some ?c)" using assms(2,3) by (simp add: fd_context_at_def)
  have "both_tasks (fc_events ?c) ?c = concat (map (\<lambda>e. if (nat fd, e) \<in> registered_events m
      then event_task (event_at e ?c) else []) [READ, WRITE])"
    using registered_at [OF c, of READ] registered_at [OF c, of WRITE] by (simp add: both_tasks_def)
  moreover obtain r ts m' where x: "cancel_all ctl fd m = Inr (r, ts, m')"
    "registered_events m' = (if r then {(i, e) \<in> registered_events m. i \<noteq> nat fd} else registered_events m)"
    "ts = (if r then both_tasks (fc_events ?c) ?c else [])"
    using cancel_all_spec [OF inv assms(2), of ctl] by blast
  moreover note cancel_all_count [OF inv assms(2) x(1) assms(3)]
  ultimately show ?thesis by (intro exI conjI) (assumption, assumption, simp, assumption)
qed

theorem cancel_all_triggers_witness:
  "\<exists>r ts m'. cancel_all (\<lambda>_ _ _. True) 5 (io_manager_new (\<lambda>_. 0) :: unit io_manager) = Inr (r, ts, m') \<and>
    im_pending_event_count m' + length ts = 0"
proof -
  have l: "nat 5 < length (im_fd_contexts (io_manager_new (\<lambda>_. 0) :: unit io_manager))"
    "im_pending_event_count (io_manager_new (\<lambda>_. 0) :: unit io_manager) = 0"
    by (simp_all add: io_manager_new_def context_resize_def)
  from cancel_all_triggers [OF io_run.new _ l(1), of "\<lambda>_ _ _. True"] l(2) show ?thesis by auto
qed

text \<open>C24. A report of \<open>epoll_wait\<close> about registered events, when \<open>epoll_ctl\<close> accepts the events
  that are left, schedules the task of each reported event exactly once and forgets them,
  keeping the others; an error or a hangup counts as every registered event. When
  \<open>epoll_ctl\<close> refuses (\<open>granted\<close> is false), the report is dropped: nobody is scheduled and the
  events stay registered. A report about an event that is not registered is the subject of
  \<open>stale_report_aborts\<close>; as above memory is zero where \<open>events\<close> is uninitialised.\<close>

theorem reported_events:
  fixes ctl :: "ctl_op \<Rightarrow> int \<Rightarrow> u32 \<Rightarrow> bool" and m :: "'cb io_manager"
  assumes "io_run junk sched m" "\<And>i. junk i = 0" "sched" "0 \<le> fd" "nat fd < length (im_fd_contexts m)"
    and "(evs AND 5) AND NOT (fc_events (im_fd_contexts m ! nat fd)) = 0"
  defines "reported \<equiv> \<lambda>e. (nat fd, e) \<in> registered_events m \<and> evs AND (ev_code e OR EPOLLERR OR EPOLLHUP) \<noteq> 0"
    and "granted \<equiv> let events = fc_events (im_fd_contexts m ! nat fd);
        left = events AND NOT (real_events events evs)
      in ctl (if left \<noteq> 0 then CTL_MOD else CTL_DEL) fd (left OR EPOLLET)"
  shows "\<exists>m'. handle_ready ctl fd evs m = Inr (if granted then concat (map (\<lambda>e. if reported e
      then event_task (event_at e (im_fd_contexts m ! nat fd)) else []) [READ, WRITE]) else [], m') \<and>
    registered_events m' =
      (if granted then registered_events m - {(nat fd, e) | e. reported e} else registered_events m)"
proof -
  let ?c = "im_fd_contexts m ! nat fd"
  let ?real = "real_events (fc_events ?c) evs"
  have inv: "io_inv m" by (rule io_run_inv [OF assms(1-3)])
  have c: "fd_context_at fd m = Inr (Some ?c)" using assms(4,5) by (simp add: fd_context_at_def)
  have ok: "fd_ok ?c" by (rule fd_context_ok [OF inv c])
  have real: "?real = (if evs AND (EPOLLERR OR EPOLLHUP) \<noteq> 0 then fc_events ?c else evs AND 5)"
    using real_events_error [OF events_in [OF ok] _ assms(6)] real_events_plain [of evs "fc_events ?c"] by simp
  have sub: "?real AND NOT (fc_events ?c) = 0" using assms(6) by (simp add: real)
  have code: "evs AND (ev_code e OR EPOLLERR OR EPOLLHUP) \<noteq> 0 \<longleftrightarrow>
      evs AND ev_code e \<noteq> 0 \<or> evs AND (EPOLLERR OR EPOLLHUP) \<noteq> 0" for e
    by (simp add: bit.conj_disj_distrib or_eq_0_iff)
  have five: "(evs AND 5) AND ev_code e = evs AND ev_code e" for e
    by (cases e) (simp_all add: and.assoc)
  have rep: "reported e \<longleftrightarrow> ?real AND ev_code e \<noteq> 0" for e
  proof (cases "evs AND (EPOLLERR OR EPOLLHUP) = 0")
    case True
    have "evs AND ev_code e \<noteq> 0 \<Longrightarrow> has_event ?c e"
      using assms(6) and_five [of evs] events_in [OF ok] five [of e]
      by (cases e) (auto elim!: event_sets_cases)
    with True show ?thesis unfolding reported_def real code registered_at [OF c] by (auto simp: five)
  next
    case False
    then show ?thesis unfolding reported_def real code registered_at [OF c] by simp
  qed
  obtain r m' where h: "r = (fc_events ?c AND ?real \<noteq> 0 \<and> granted)"
    "handle_ready ctl fd evs m = Inr (if r then both_tasks ?real ?c else [], m')"
    "registered_events m' = (if r then registered_events m - {(nat fd, e) | e. ?real AND ev_code e \<noteq> 0} else registered_events m)"
    using handle_ready_spec [OF inv assms(4,5) sub, of ctl] unfolding granted_def Let_def by auto
  have "?real = 0" if "fc_events ?c AND ?real = 0"
    using that sub real_events_sets [of "fc_events ?c" evs] events_in [OF ok]
    by (auto elim!: event_sets_cases)
  with h both_tasks_list [of ?real ?c] show ?thesis unfolding rep by auto
qed

theorem reported_events_witness:
  "\<exists>m m' :: unit io_manager. add_event (\<lambda>_ _ _. True) (\<lambda>_. 0) True 1 5 READ None (io_manager_new (\<lambda>_. 0)) = Inr (0, m) \<and>
    handle_ready (\<lambda>_ _ _. True) 5 EPOLLIN m = Inr ([fiber_task 1 (- 1)], m') \<and> registered_events m' = {} \<and>
    handle_ready (\<lambda>_ _ _. False) 5 EPOLLHUP m = Inr ([], m)"
proof -
  obtain m :: "unit io_manager" where m: "add_event (\<lambda>_ _ _. True) (\<lambda>_. 0) True 1 5 READ None (io_manager_new (\<lambda>_. 0)) = Inr (0, m)"
    "io_run (\<lambda>_. 0) True m" "registered_events m = {(5, READ)}"
    "fd_context_at 5 m = Inr (Some (with_event READ (new_event True 1 None) (fd_context_new (\<lambda>_. 0) 5)))"
    by (rule one_event)
  then have l: "nat 5 < length (im_fd_contexts m)"
    and c: "im_fd_contexts m ! nat 5 = with_event READ (new_event True 1 None) (fd_context_new (\<lambda>_. 0) 5)"
    by (auto simp: fd_context_at_def split: if_splits)
  have e: "fc_events (im_fd_contexts m ! nat 5) = 1"
    unfolding c by (simp add: with_event_def set_event_context_def fd_context_new_def)
  have ev: "(EPOLLIN AND 5) AND NOT (fc_events (im_fd_contexts m ! nat 5)) = 0"
    unfolding e by (simp add: EPOLLIN_def)
  have task: "event_task (event_at READ (im_fd_contexts m ! nat 5)) = [fiber_task 1 (- 1)]"
    unfolding c by (simp add: with_event_def set_event_context_def new_event_def event_task_def)
  have "handle_ready (\<lambda>_ _ _. False) 5 EPOLLHUP m = Inr ([], m)"
    using m(4) by (simp add: handle_ready_def Let_def)
  moreover from reported_events [OF m(2) _ _ _ l ev, of "\<lambda>_ _ _. True"] m(3) task
  obtain m' where "handle_ready (\<lambda>_ _ _. True) 5 EPOLLIN m = Inr ([fiber_task 1 (- 1)], m')" "registered_events m' = {}"
    by (auto simp: Let_def EPOLLIN_def EPOLLERR_def EPOLLHUP_def)
  ultimately show ?thesis using m(1) by blast
qed

text \<open>A report about an event that was cancelled in between is not tolerated: when the other
  event of the descriptor is still registered the assertion of \<open>trigger_event\<close> fails.\<close>

theorem stale_report_aborts:
  assumes "io_run (\<lambda>_. 0) True m" "0 \<le> fd" "fd_context_at fd m = Inr (Some c)" "fc_events c = ev_code READ"
    and "\<And>op evs. ctl op fd evs"
  shows "handle_ready ctl fd (EPOLLIN OR EPOLLOUT) m = Inl Assert_failed"
  by (rule stale_report [OF io_run_inv [OF assms(1) refl TrueI] assms(2,3)])
     (simp_all add: assms(4,5) EPOLLIN_def EPOLLOUT_def)

theorem stale_report_aborts_witness:
  "\<exists>m :: unit io_manager. add_event (\<lambda>_ _ _. True) (\<lambda>_. 0) True 1 5 READ None (io_manager_new (\<lambda>_. 0)) = Inr (0, m) \<and>
    handle_ready (\<lambda>_ _ _. True) 5 (EPOLLIN OR EPOLLOUT) m = Inl Assert_failed"
proof -
  obtain m :: "unit io_manager" where m: "add_event (\<lambda>_ _ _. True) (\<lambda>_. 0) True 1 5 READ None (io_manager_new (\<lambda>_. 0)) = Inr (0, m)"
    "io_run (\<lambda>_. 0) True m" "fd_context_at 5 m = Inr (Some (with_event READ (new_event True 1 None) (fd_context_new (\<lambda>_. 0) 5)))"
    by (rule one_event)
  have "handle_ready (\<lambda>_ _ _. True) 5 (EPOLLIN OR EPOLLOUT) m = Inl Assert_failed"
    by (rule stale_report_aborts [OF m(2) _ m(3)])
      (simp_all add: with_event_def set_event_context_def fd_context_new_def)
  with m(1) show ?thesis by blast
qed

text \<open>The table's contexts are created by \<open>new FdContext\<close>, which leaves \<open>events\<close>
  indeterminate: if it happens to hold the bit of an event, adding that event to a fresh
  manager fails an assertion.\<close>

theorem indeterminate_events:
  assumes "0 \<le> fd" "fd < 32" "junk (nat fd) AND ev_code e \<noteq> 0"
  shows "add_event ctl junk True cur fd e cb (io_manager_new junk :: 'cb io_manager) = Inl Assert_failed"
  using assms by (rule uninitialised_events)

theorem indeterminate_events_witness:
  "add_event (\<lambda>_ _ _. True) (\<lambda>_. 255) True 1 3 READ None (io_manager_new (\<lambda>_. 255) :: unit io_manager) = Inl Assert_failed"
  by (rule indeterminate_events) simp_all

text \<open>C35. The time given to \<open>epoll_wait\<close> is the time to the next timer, at most five seconds, and
  five seconds without a timer; but a timer due in 2 ^ 31 milliseconds makes it negative,
  and the wait unbounded.\<close>

theorem epoll_wait_bounds:
  shows "(uint t < 2 ^ 31 \<longrightarrow> epoll_timeout t = min (uint t) 5000) \<and> epoll_timeout (- 1) = 5000 \<and>
    epoll_timeout (2 ^ 31) < 0"
  using epoll_timeout_small epoll_timeout_none epoll_timeout_negative by blast

theorem epoll_wait_bounds_witness: "epoll_timeout 700 = 700"
  using epoll_wait_bounds [of 700] by simp

text \<open>The idle fiber of the manager ends exactly when there is no timer, no registered event
  and nothing left to schedule.\<close>

theorem idle_fiber_ends:
  assumes "io_run (\<lambda>_. 0) True m" "handle_all ctl (wait (epoll_timeout (fst (get_next_timer tm now1)))) m = Inr r"
  shows "idle_round ctl wait now1 now2 na s (m, tm) = Inr None \<longleftrightarrow>
    fst (get_next_timer tm now1) = - 1 \<and> registered_events m = {} \<and> sched_stopping s"
  using io_run_inv [OF assms(1) refl TrueI] assms(2) by (rule idle_ends)

theorem idle_fiber_ends_witness:
  "idle_round (\<lambda>_ _ _. True) (\<lambda>_. []) 0 0 0 (two_threads\<lparr>sc_stopping := True\<rparr> :: unit scheduler)
    (io_manager_new (\<lambda>_. 0) :: unit io_manager, timer_manager_new (\<lambda>_. new_timer_at 0 :: unit timer) 0) = Inr None"
proof -
  have "fst (get_next_timer (timer_manager_new (\<lambda>_. new_timer_at 0 :: unit timer) 0) 0) = - 1"
    by (simp add: get_next_timer_def timer_manager_new_def)
  moreover have "sched_stopping (two_threads\<lparr>sc_stopping := True\<rparr> :: unit scheduler)"
    by (simp add: sched_stopping_def two_threads_def)
  ultimately show ?thesis
    by (subst idle_fiber_ends [OF io_run.new, where r = "([], io_manager_new (\<lambda>_. 0))"]) (simp_all add: io_new_inv(2))
qed

section \<open>Hooked calls and sockets\<close>

text \<open>C6. A hooked call on a blocking socket ends like the call itself, made again while it is
  interrupted and after every wait: if that settles with \<open>n\<close> after \<open>k\<close> waits (\<open>settles\<close>), then
  the fiber is suspended \<open>k\<close> times, each report of its event schedules exactly this fiber, and
  the hooked call returns \<open>n\<close> with that \<open>errno\<close>; events, timers and \<open>timer_info\<close>s are what they
  were before the call. Conditions: the socket is managed, open and not made non-blocking by
  the user; \<open>epoll_ctl\<close> succeeds on the descriptor, the event is not registered yet, the
  \<open>events\<close> member of new contexts happens to be zero (the code leaves it uninitialised), and the
  timer has a fresh address (\<open>can_wait\<close>); and each wait ends with the report of this event, in
  the state the suspension left. \<open>hooked_call_times_out\<close> is about a wait that ends with the
  timeout.\<close>

theorem hooked_call_blocks:
  assumes "blocking_socket fd c s" "can_wait E fd e s" "settles f (hk_kernel s) k n er w"
    and "hk_infos s (he_info E) = None" "\<And>op w. ctl op fd w" "length Es = k"
    and "\<forall>E' \<in> set Es. can_wait E' fd e s \<and> he_fiber E' = he_fiber E"
  shows "\<exists>s2. awaited ctl Es fd f e (get_timeout so c) (he_info E) (do_io E fd f e so s) =
      Some (Inr (replicate k (fiber_task (he_fiber E) (- 1)), Returned n, s2)) \<and>
    (n = - 1 \<longrightarrow> hk_errno s2 = er) \<and> hk_kernel s2 = w \<and>
    registered_events (hk_io s2) = registered_events (hk_io s) \<and>
    set (tm_timers (hk_timers s2)) = set (tm_timers (hk_timers s)) \<and> hk_infos s2 = hk_infos s"
  using assms by (rule blocking_call_event)

text \<open>A socket whose context is fresh, and a \<open>read\<close> that finds data the second time.\<close>

definition test_ctx :: "u64 \<Rightarrow> fd_ctx" where
  "test_ctx timeout = \<lparr>fd_is_init = True, fd_is_socket = True, fd_sys_nonblock = True, fd_user_nonblock = False,
     fd_is_closed = False, fd_fd = 5, fd_recv_timeout = timeout, fd_send_timeout = - 1\<rparr>"

definition test_hook :: "u64 \<Rightarrow> nat hook" where
  "test_hook timeout = \<lparr>hk_enable = True, hk_fds = fd_manager_new[5 := Some (test_ctx timeout)],
     hk_io = io_manager_new (\<lambda>_. 0), hk_timers = timer_manager_new (\<lambda>_. new_timer_at 0) 0,
     hk_infos = (\<lambda>_. None), hk_errno = 0, hk_kernel = 0\<rparr>"

definition test_env :: hook_env where
  "test_env = \<lparr>he_now = 100, he_timer = 1, he_info = 1, he_fiber = 7, he_iom = True, he_junk = (\<lambda>_. 0),
     he_ctl = (\<lambda>_ _ _. True), he_ctl_errno = 12\<rparr>"

definition test_read :: "nat sys_call" where
  "test_read n = (if n = 0 then (- 1, EAGAIN, 1) else (42, 0, n + 1))"

lemma test_blocking: "blocking_socket 5 (test_ctx timeout) (test_hook timeout)"
  by (simp add: blocking_socket_def test_hook_def test_ctx_def fd_manager_new_def fd_entry_def)

lemma test_can_wait: "can_wait test_env 5 READ (test_hook timeout)"
  by (simp add: can_wait_def test_env_def test_hook_def io_new_inv timer_manager_new_inv new_timer_at_def)
     (simp add: timer_manager_new_def)

lemma test_would_block: "would_block test_read (hk_kernel (test_hook timeout))"
  by (simp add: would_block_def test_read_def test_hook_def)

text \<open>A \<open>read\<close> that is interrupted once and finds data after two waits.\<close>

definition test_reads :: "nat sys_call" where
  "test_reads n = (if n = 0 then (- 1, EINTR, 1) else if n < 3 then (- 1, EAGAIN, n + 1) else (42, 0, n + 1))"

lemma test_settles: "settles test_reads 0 2 42 0 4"
proof -
  have "settles test_reads 3 0 42 0 4"
    using settles.final [of test_reads 3] by (simp add: final_def test_reads_def after_def)
  then have "settles test_reads 2 1 42 0 4"
    using settles.blocks [of test_reads 2 0] by (simp add: would_block_def test_reads_def after_def)
  then have "settles test_reads 1 2 42 0 4"
    using settles.blocks [of test_reads 1 1]
    by (simp add: would_block_def test_reads_def after_def numeral_2_eq_2)
  then show ?thesis
    using settles.interrupted [of test_reads 0] by (simp add: interrupted_def test_reads_def after_def)
qed

theorem hooked_call_blocks_witness:
  "\<exists>s2. awaited (\<lambda>_ _ _. True) [test_env, test_env] 5 test_reads READ (- 1) 1
      (do_io test_env 5 test_reads READ SO_RCVTIMEO (test_hook (- 1))) =
    Some (Inr ([fiber_task 7 (- 1), fiber_task 7 (- 1)], Returned 42, s2))"
proof -
  have k: "hk_kernel (test_hook (- 1)) = 0" "hk_infos (test_hook (- 1)) (he_info test_env) = None"
    and v: "get_timeout SO_RCVTIMEO (test_ctx (- 1)) = - 1" "he_info test_env = 1" "he_fiber test_env = 7"
    by (simp_all add: test_hook_def get_timeout_def test_ctx_def test_env_def)
  have E: "\<forall>E' \<in> set [test_env, test_env]. can_wait E' 5 READ (test_hook (- 1)) \<and> he_fiber E' = he_fiber test_env"
    using test_can_wait by simp
  from hooked_call_blocks [where ctl = "\<lambda>_ _ _. True" and so = SO_RCVTIMEO,
      OF test_blocking test_can_wait test_settles [folded k(1)] k(2) TrueI _ E]
  show ?thesis unfolding v by (auto simp: numeral_2_eq_2)
qed

text \<open>C23. When the timeout of the socket comes first, the expired timers contain the one of this
  call, which cancels the event and schedules exactly this fiber; the continued call returns
  -1 with \<open>ETIMEDOUT\<close> without calling the original again, and no event is left. The conditions
  are those of \<open>hooked_call_blocks\<close>: \<open>epoll_ctl\<close> succeeds, the event is not registered yet, the
  \<open>events\<close> member of new contexts happens to be zero (\<open>can_wait\<close>); and no other event of the
  descriptor came in between.\<close>

theorem hooked_call_times_out:
  assumes "blocking_socket fd c s" "can_wait E fd e s" "would_block f (hk_kernel s)"
    and "get_timeout so c \<noteq> - 1" "hk_infos s (he_info E) = None" "\<And>op w. ctl op fd w"
    and "he_now E + get_timeout so c \<le> now" "na \<notin> insert (he_timer E) (set (tm_timers (hk_timers s)))"
  shows "\<exists>a s1 cb s2 s3. do_io E fd f e so s = Some (Inr (Suspended (Some a), s1)) \<and>
    Some (On_timer (he_info E) cb) \<in> set (fst (list_expired_callback (hk_timers s1) now na)) \<and>
    run_hook_cb ctl cb (s1\<lparr>hk_timers := snd (list_expired_callback (hk_timers s1) now na)\<rparr>) =
      Inr ([fiber_task (he_fiber E) (- 1)], s2) \<and>
    resume_io E' fd f e (get_timeout so c) (he_info E) (Some a) s2 = Some (Inr (Returned (- 1), s3)) \<and>
    hk_errno s3 = ETIMEDOUT \<and> hk_kernel s3 = after f (hk_kernel s) \<and>
    registered_events (hk_io s3) = registered_events (hk_io s) \<and> hk_infos s3 = hk_infos s"
  using assms by (rule blocking_call_timeout)

theorem hooked_call_times_out_witness:
  "\<exists>a s1 s2 s3. do_io test_env 5 test_read READ SO_RCVTIMEO (test_hook 30) = Some (Inr (Suspended (Some a), s1)) \<and>
    resume_io test_env 5 test_read READ 30 1 (Some a) s2 = Some (Inr (Returned (- 1), s3)) \<and> hk_errno s3 = ETIMEDOUT"
proof -
  have v: "get_timeout SO_RCVTIMEO (test_ctx 30) = 30" "he_info test_env = 1"
    by (simp_all add: get_timeout_def test_ctx_def test_env_def)
  have h: "get_timeout SO_RCVTIMEO (test_ctx 30) \<noteq> - 1" "hk_infos (test_hook 30) (he_info test_env) = None"
    "he_now test_env + get_timeout SO_RCVTIMEO (test_ctx 30) \<le> 130"
    "9 \<notin> insert (he_timer test_env) (set (tm_timers (hk_timers (test_hook 30))))"
    by (simp_all add: v test_hook_def test_env_def timer_manager_new_def)
  from hooked_call_times_out [where ctl = "\<lambda>_ _ _. True" and E' = test_env,
      OF test_blocking test_can_wait test_would_block h(1,2) TrueI h(3,4)]
  show ?thesis unfolding v by blast
qed

text \<open>C28. The caller of a hooked call on a blocking socket never sees \<open>EINTR\<close> or \<open>EAGAIN\<close>, whether
  the call returns at once or after waiting.\<close>

theorem no_spurious_errors:
  assumes "he_ctl_errno E \<noteq> EAGAIN" "he_ctl_errno E \<noteq> EINTR" "blocking_socket fd c s"
    and "do_io E fd f e so s = Some (Inr (Returned (- 1), s')) \<or>
      (\<exists>i timer. resume_io E fd f e to i timer s = Some (Inr (Returned (- 1), s')) \<and>
        hk_infos s i \<in> {Some 0, Some ETIMEDOUT})"
  shows "hk_errno s' \<noteq> EAGAIN \<and> hk_errno s' \<noteq> EINTR"
  using assms(4)
proof
  assume "do_io E fd f e so s = Some (Inr (Returned (- 1), s'))"
  then show ?thesis
    unfolding do_io_blocking [OF assms(3)] by (rule attempt_errno [OF _ refl assms(1,2)])
next
  assume "\<exists>i timer. resume_io E fd f e to i timer s = Some (Inr (Returned (- 1), s')) \<and>
        hk_infos s i \<in> {Some 0, Some ETIMEDOUT}"
  then obtain i timer where r: "resume_io E fd f e to i timer s = Some (Inr (Returned (- 1), s'))"
    and i: "hk_infos s i \<in> {Some 0, Some ETIMEDOUT}" by blast
  from r obtain s1 where c: "cancel_timer timer s = Inr s1"
    by (cases "cancel_timer timer s") (simp_all add: resume_io_def)
  have "hk_infos s1 i = hk_infos s i" using cancel_timer_keeps [OF c] by simp
  with i consider "hk_infos s1 i = Some 0" | "hk_infos s1 i = Some ETIMEDOUT" by auto
  then show ?thesis
  proof cases
    case 1
    with r c have "attempt_io E fd f e to i s1 = Some (Inr (Returned (- 1), s'))" by (simp add: resume_io_def)
    then show ?thesis by (rule attempt_errno [OF _ refl assms(1,2)])
  next
    case 2
    with r c have "s' = free_info i (s1\<lparr>hk_errno := ETIMEDOUT\<rparr>)"
      by (simp add: resume_io_def ETIMEDOUT_def)
    then show ?thesis by (simp add: free_info_def ETIMEDOUT_def EAGAIN_def EINTR_def)
  qed
qed

theorem no_spurious_errors_witness:
  "\<exists>s'. do_io test_env 5 (\<lambda>n. (- 1, 104, n)) READ SO_RCVTIMEO (test_hook (- 1)) = Some (Inr (Returned (- 1), s')) \<and>
    hk_errno s' \<noteq> EAGAIN"
proof -
  let ?f = "\<lambda>n :: nat. (- 1 :: int, 104 :: int, n)"
  have "final ?f w" for w by (simp add: final_def EINTR_def EAGAIN_def)
  then have "\<exists>s'. do_io test_env 5 ?f READ SO_RCVTIMEO (test_hook (- 1)) = Some (Inr (Returned (- 1), s'))"
    unfolding do_io_blocking [OF test_blocking] by (simp add: attempt_final)
  moreover have "he_ctl_errno test_env \<noteq> EAGAIN" "he_ctl_errno test_env \<noteq> EINTR"
    by (simp_all add: test_env_def EAGAIN_def EINTR_def)
  ultimately show ?thesis using no_spurious_errors [OF _ _ test_blocking] by blast
qed

text \<open>The status flags the user sees are the user's: after \<open>fcntl(F_SETFL)\<close>, \<open>fcntl(F_GETFL)\<close>
  shows \<open>O_NONBLOCK\<close> exactly when the user has set it, while the descriptor itself stays
  non-blocking; the kernel is only assumed to keep the bit it was given.\<close>

theorem fcntl_user_view:
  assumes "managed_socket fd c s" "fd_sys_nonblock c"
    and "\<And>v w. nonblocking (word_of_int (fst (fcntl_f fd F_GETFL (after (fcntl_f fd (F_SETFL v)) w)))) = nonblocking v"
  shows "\<exists>r s1 n s2. hk_fcntl fcntl_f fd (F_SETFL arg) s = Inr (r, s1) \<and>
    hk_fcntl fcntl_f fd F_GETFL s1 = Inr (n, s2) \<and> nonblocking (word_of_int n) = nonblocking arg \<and>
    nonblocking (word_of_int (fst (fcntl_f fd F_GETFL (hk_kernel s1))))"
  using assms by (rule fcntl_flags)

theorem fcntl_user_view_witness:
  "\<exists>r s1 n s2. hk_fcntl (\<lambda>fd cmd w. case cmd of F_SETFL v \<Rightarrow> (0, 0, unat v) | _ \<Rightarrow> (int w, 0, w)) 5 (F_SETFL 2) (test_hook 0) =
      Inr (r, s1) \<and>
    hk_fcntl (\<lambda>fd cmd w. case cmd of F_SETFL v \<Rightarrow> (0, 0, unat v) | _ \<Rightarrow> (int w, 0, w)) 5 F_GETFL s1 = Inr (n, s2) \<and>
    \<not> nonblocking (word_of_int n)"
proof -
  let ?f = "\<lambda>(fd :: int) cmd (w :: nat). case cmd of F_SETFL v \<Rightarrow> (0 :: int, 0 :: int, unat v) | _ \<Rightarrow> (int w, 0, w)"
  have m: "managed_socket 5 (test_ctx 0) (test_hook 0)" "fd_sys_nonblock (test_ctx 0)"
    using test_blocking [of 0] by (simp_all add: managed_socket_def blocking_socket_def test_ctx_def)
  have "(word_of_int (int (unat v)) :: u32) = v" for v by simp
  then have "nonblocking (word_of_int (fst (?f 5 F_GETFL (after (?f 5 (F_SETFL v)) w)))) = nonblocking v" for v w
    by (simp add: after_def)
  moreover have "\<not> nonblocking 2" by (simp add: O_NONBLOCK_def)
  ultimately show ?thesis using fcntl_user_view [OF m, of ?f 2] by blast
qed

text \<open>\<open>ioctl\<close> ends in a call of itself: it never returns, for any request but \<open>FIONBIO\<close>, and for
  that one when the descriptor is a managed socket.\<close>

theorem ioctl_never_returns:
  assumes "request \<noteq> FIONBIO \<or> (\<exists>c. managed_socket fd c s)"
  shows "hk_ioctl ioctl_f fd request arg s = None"
  using assms by (rule ioctl_hangs)

theorem ioctl_never_returns_witness:
  "hk_ioctl (\<lambda>_ _ _ w. (0, 0, w)) 5 FIONBIO 1 (test_hook 0) = None"
proof -
  have "managed_socket 5 (test_ctx 0) (test_hook 0)"
    using test_blocking [of 0] by (simp add: managed_socket_def blocking_socket_def)
  then show ?thesis by (intro ioctl_never_returns) blast
qed

text \<open>Closing a managed descriptor forgets its context and its events and schedules every
  fiber that waits for one of them.\<close>

theorem close_wakes_waiters:
  assumes "hk_enable s" "he_iom E" "0 \<le> fd" "fd_entry (hk_fds s) fd = Some c" "table_ok (hk_fds s)" "io_inv (hk_io s)"
    and "he_ctl E CTL_DEL fd 0"
  shows "\<exists>n ts s'. hk_close E fd f s = Inr (n, ts, s') \<and> n = fst (f (hk_kernel s)) \<and>
    fd_entry (hk_fds s') = (fd_entry (hk_fds s))(fd := None) \<and> table_ok (hk_fds s') \<and> io_inv (hk_io s') \<and>
    registered_events (hk_io s') = {(i, e) \<in> registered_events (hk_io s). i \<noteq> nat fd} \<and>
    (\<forall>e. (nat fd, e) \<in> registered_events (hk_io s) \<longrightarrow>
      set (event_task (event_at e (im_fd_contexts (hk_io s) ! nat fd))) \<subseteq> set ts)"
  using assms by (rule close_forgets)

theorem close_wakes_waiters_witness:
  "\<exists>n ts s'. hk_close test_env 5 (\<lambda>w. (0, 0, w)) (test_hook 0) = Inr (n, ts, s') \<and> fd_entry (hk_fds s') 5 = None"
proof -
  have "hk_enable (test_hook 0)" "he_iom test_env" "0 \<le> (5 :: int)" "fd_entry (hk_fds (test_hook 0)) 5 = Some (test_ctx 0)"
    "table_ok (hk_fds (test_hook 0))" "io_inv (hk_io (test_hook 0))" "he_ctl test_env CTL_DEL 5 0"
    using test_blocking [of 0] io_new_inv
    by (simp_all add: blocking_socket_def test_hook_def test_env_def table_ok_def fd_manager_new_def)
  from close_wakes_waiters [OF this, of "\<lambda>w. (0, 0, w)"] show ?thesis by auto
qed

text \<open>A sleeping fiber is woken by a timer that is due after the seconds asked for, as long as
  their number of milliseconds fits 32 bits; beyond, it is due that number modulo
  \<open>2 ^ 32\<close> earlier.\<close>

theorem sleep_deadline:
  assumes "hk_enable s" "he_iom E" "timer_inv (hk_timers s)" "he_timer E \<notin> set (tm_timers (hk_timers s))"
  shows "\<exists>s'. hk_sleep sleep_f E seconds s = Inr (Suspended None, s') \<and> timer_inv (hk_timers s') \<and>
    set (tm_timers (hk_timers s')) = insert (he_timer E) (set (tm_timers (hk_timers s))) \<and>
    tm_heap (hk_timers s') (he_timer E) = new_timer (he_now E)
      (word_of_int (uint seconds * 1000 mod 2 ^ 32)) (Some (Plain (Wake (he_fiber E)))) False"
  using assms by (rule sleep_timer)

theorem sleep_deadline_witness:
  "\<exists>s'. hk_sleep (\<lambda>_ w. (0, 0, w)) test_env 4294968 (test_hook 0) = Inr (Suspended None, s') \<and>
    t_ms (tm_heap (hk_timers s') 1) = 704"
proof -
  have "hk_enable (test_hook 0)" "he_iom test_env" "timer_inv (hk_timers (test_hook 0))"
    "he_timer test_env \<notin> set (tm_timers (hk_timers (test_hook 0)))"
    using test_can_wait [of 0] by (simp_all add: can_wait_def test_hook_def)
  from sleep_deadline [OF this, of "\<lambda>_ w. (0, 0, w)" 4294968] show ?thesis
    by (auto simp: new_timer_def test_env_def)
qed

text \<open>The timeout set on a socket, in milliseconds, is the timeout its calls use, and the other
  direction keeps its own.\<close>

theorem socket_timeouts:
  assumes "hk_enable s" "0 \<le> sk_fd sk" "fd_entry (hk_fds s) (sk_fd sk) = Some c" "0 \<le> ms"
  shows "(\<exists>s'. set_recv_timeout os sk ms s = Inr s' \<and> get_recv_timeout sk s' = Inr (word_of_int ms) \<and>
      get_send_timeout sk s' = get_send_timeout sk s) \<and>
    (\<exists>s'. set_send_timeout os sk ms s = Inr s' \<and> get_send_timeout sk s' = Inr (word_of_int ms) \<and>
      get_recv_timeout sk s' = get_recv_timeout sk s)"
  using recv_timeout_back [OF assms] send_timeout_back [OF assms] by blast

definition test_os :: "nat os" where
  "test_os = \<lparr>os_fstat = (\<lambda>_ _. Some True), os_fcntl = (\<lambda>_ _ w. (0, 0, w)), os_socket = (\<lambda>_ _ _ w. (5, 0, w)),
     os_bind = (\<lambda>_ _ w. (0, 0, w)), os_listen = (\<lambda>_ _ w. (0, 0, w)), os_close = (\<lambda>_ w. (0, 0, w)),
     os_setsockopt = (\<lambda>_ _ _ _ w. (0, 0, w)), os_getsockopt = (\<lambda>_ _ _ w. (0, 0, 0, w)),
     os_getpeername = (\<lambda>_ w. (None, 107, w)), os_getsockname = (\<lambda>_ w. (None, 107, w))\<rparr>"

theorem socket_timeouts_witness:
  "\<exists>s'. set_recv_timeout test_os ((create_tcp AF_INET)\<lparr>sk_fd := 5\<rparr>) 2500 (test_hook (- 1)) = Inr s' \<and>
    get_recv_timeout ((create_tcp AF_INET)\<lparr>sk_fd := 5\<rparr>) s' = Inr 2500"
proof -
  let ?sk = "(create_tcp AF_INET)\<lparr>sk_fd := 5\<rparr>"
  have "hk_enable (test_hook (- 1))" "0 \<le> sk_fd ?sk" "fd_entry (hk_fds (test_hook (- 1))) (sk_fd ?sk) = Some (test_ctx (- 1))"
    using test_blocking [of "- 1"] by (simp_all add: blocking_socket_def)
  from socket_timeouts [OF this, of 2500] show ?thesis by auto
qed

text \<open>After \<open>connect\<close> a socket is connected to the address it was given, with a descriptor, or
  it is not connected at all.\<close>

theorem connect_result_state:
  assumes "connect os K E sk addr timeout s = Inr (ok, ts, sk', s')" "\<not> sk_connected sk"
  shows "sk_connected sk' = ok \<and> sk_remote sk' = Some addr \<and> (ok \<longrightarrow> is_valid sk')"
  using assms by (rule connect_connects)

theorem connect_result_state_witness:
  "\<exists>ts sk' s'. connect test_os \<lparr>call_connect = (\<lambda>_ _ _ s. Inr (- 1, s)), call_accept = (\<lambda>_ s. Inr (- 1, s))\<rparr> test_env
      ((create_tcp AF_INET)\<lparr>sk_fd := 5\<rparr>) (IPv6 ipv6_new) (- 1) (test_hook 0) = Inr (False, ts, sk', s') \<and> \<not> sk_connected sk'"
proof -
  let ?K = "\<lparr>call_connect = (\<lambda>_ _ _ s. Inr (- 1, s)), call_accept = (\<lambda>_ s. Inr (- 1, s))\<rparr> :: nat calls"
  let ?sk = "(create_tcp AF_INET)\<lparr>sk_fd := 5\<rparr>"
  have "get_family (IPv6 ipv6_new) \<noteq> AF_INET" by code_simp
  then have c: "connect test_os ?K test_env ?sk (IPv6 ipv6_new) (- 1) (test_hook 0) =
      Inr (False, [], ?sk\<lparr>sk_remote := Some (IPv6 ipv6_new)\<rparr>, test_hook 0)"
    by (simp add: connect_def opened_def is_valid_def create_tcp_def socket_new_def)
  from connect_result_state [OF this] c show ?thesis by (simp add: create_tcp_def socket_new_def)
qed

text \<open>A socket never binds to a path: the code connects to it first, which crashes when it
  succeeds and otherwise calls functions without a return statement.\<close>

theorem unix_socket_never_binds:
  assumes "bind os K E sk (Unix u) s = Inr (ok, sk', s')"
  shows "\<not> ok"
  using assms by (rule unix_never_binds)

theorem unix_socket_never_binds_witness:
  "\<exists>sk' s'. bind test_os \<lparr>call_connect = (\<lambda>_ _ _ s. Inr (- 1, s)), call_accept = (\<lambda>_ s. Inr (- 1, s))\<rparr> test_env
      ((create_tcp AF_INET)\<lparr>sk_fd := 5\<rparr>) (Unix unix_default) (test_hook 0) = Inr (False, sk', s')"
proof -
  let ?K = "\<lparr>call_connect = (\<lambda>_ _ _ s. Inr (- 1, s)), call_accept = (\<lambda>_ s. Inr (- 1, s))\<rparr> :: nat calls"
  let ?sk = "(create_tcp AF_INET)\<lparr>sk_fd := 5\<rparr>"
  have "get_family (Unix unix_default) \<noteq> AF_INET" by code_simp
  then obtain ok sk' s' where "bind test_os ?K test_env ?sk (Unix unix_default) (test_hook 0) = Inr (ok, sk', s')"
    by (simp add: bind_def opened_def is_valid_def create_tcp_def socket_new_def)
  with unix_socket_never_binds [OF this] show ?thesis by auto
qed

text \<open>A TCP server that binds to several addresses has one listening socket for each, in order,
  or, when any of them fails, none, and reports which failed.\<close>

theorem server_binds_all:
  assumes "bind_all os K E addrs [] ssl a (t, h, s) = Inr (ok, fails, t', h', s')" "ts_sockets t = []"
  shows "(ok \<longleftrightarrow> fails = []) \<and> ts_sockets t' = (if ok then [a..<a + length addrs] else []) \<and> set fails \<subseteq> set addrs"
  using bind_all_or_nothing [OF assms] by blast

theorem server_binds_all_witness:
  "\<exists>t' h' s'. bind_all test_os \<lparr>call_connect = (\<lambda>_ _ _ s. Inr (- 1, s)), call_accept = (\<lambda>_ s. Inr (- 1, s))\<rparr> test_env
      [] [] False 0 (tcp_server_new ''rpc'', \<lambda>_. create_tcp AF_INET, test_hook 0) = Inr (True, [], t', h', s') \<and> ts_sockets t' = []"
  using server_binds_all [of test_os "\<lparr>call_connect = (\<lambda>_ _ _ s. Inr (- 1, s)), call_accept = (\<lambda>_ s. Inr (- 1, s))\<rparr>"
      test_env "[]" False 0 "tcp_server_new ''rpc''" "\<lambda>_. create_tcp AF_INET" "test_hook 0"]
  by (auto simp: bind_all_def tcp_server_new_def)

text \<open>After the task that \<open>stop\<close> schedules every socket of the server is closed, so that no
  accept loop goes on.\<close>

theorem server_stops:
  assumes "close_sockets os E (t, h, s) = Inr (ts, t', h', s')" "distinct (ts_sockets t)"
  shows "ts_sockets t' = [] \<and> (\<forall>a \<in> set (ts_sockets t). sk_fd (h' a) = - 1 \<and> \<not> sk_connected (h' a)) \<and>
    (\<forall>a. a \<notin> set (ts_sockets t) \<longrightarrow> h' a = h a) \<and>
    accept_round os K a c (snd (tcp_stop t')) st = Inr None"
proof -
  from assms(1) obtain h1 s1 where l: "close_loop os E (ts_sockets t) (h, s) = Inr (ts, h1, s1)"
    "t' = t\<lparr>ts_sockets := []\<rparr>" "h' = h1"
    by (auto simp: close_sockets_def bindR_Inr_iff)
  from close_loop_closes [OF l(1) assms(2)] l(2,3) show ?thesis
    by (simp add: accept_round_def tcp_stop_def split: prod.split)
qed

theorem server_stops_witness:
  "\<exists>ts t' h' s'. close_sockets test_os test_env
      (tcp_server_new ''rpc''\<lparr>ts_sockets := [3]\<rparr>, (\<lambda>_. (create_tcp AF_INET)\<lparr>sk_fd := 5\<rparr>), test_hook 0) = Inr (ts, t', h', s') \<and>
    ts_sockets t' = [] \<and> sk_fd (h' 3) = - 1"
proof -
  let ?t = "tcp_server_new ''rpc''\<lparr>ts_sockets := [3]\<rparr>"
  let ?sk = "(create_tcp AF_INET)\<lparr>sk_fd := 5\<rparr>"
  let ?h = "\<lambda>_ :: nat. ?sk"
  obtain b ts io where c: "cancel_all (he_ctl test_env) 5 (hk_io (test_hook 0)) = Inr (b, ts, io)" "io_inv io"
    using cancel_all_spec [of "hk_io (test_hook 0)" 5 "he_ctl test_env"] test_can_wait [of 0]
    by (auto simp: can_wait_def test_hook_def)
  then have s: "socket_cancel_all test_env ?sk (test_hook 0) = Inr (b, ts, (test_hook 0)\<lparr>hk_io := io\<rparr>)"
    by (simp add: socket_cancel_all_def test_env_def)
  have e: "hk_enable (test_hook 0)" "he_iom test_env" "0 \<le> (5 :: int)" "fd_entry (hk_fds (test_hook 0)) 5 = Some (test_ctx 0)"
    "table_ok (hk_fds (test_hook 0))" "he_ctl test_env CTL_DEL 5 0"
    using test_blocking [of 0] by (simp_all add: blocking_socket_def test_hook_def test_env_def table_ok_def fd_manager_new_def)
  obtain n ts' s' where "hk_close test_env 5 (os_close test_os 5) ((test_hook 0)\<lparr>hk_io := io\<rparr>) = Inr (n, ts', s')"
    using close_forgets [of "(test_hook 0)\<lparr>hk_io := io\<rparr>" test_env 5 "test_ctx 0" "os_close test_os 5"] e c(2) by auto
  then obtain ts2 t' h' s2 where k: "close_sockets test_os test_env (?t, ?h, test_hook 0) = Inr (ts2, t', h', s2)"
    using s by (simp add: close_sockets_def socket_close_def)
  from server_stops [OF k] k show ?thesis by auto
qed

text \<open>A server made by the default constructor is not marked as stopped, so \<open>start\<close> answers yes
  and starts nothing.\<close>

theorem default_server_never_starts:
  "tcp_start (tcp_server_default\<lparr>ts_sockets := socks\<rparr>) = (True, [], tcp_server_default\<lparr>ts_sockets := socks\<rparr>)"
  by (simp add: tcp_start_def tcp_server_default_def)

text \<open>A stream that owns its socket leaves it closed when it is destroyed; one that does not leaves
  it alone.\<close>

theorem stream_owns_socket:
  assumes "stream_destroy os E ss s = Inr (ts, ss', s')"
  shows "if ss_owner ss then \<not> stream_is_connected ss' \<and> (\<forall>sk. ss_socket ss' = Some sk \<longrightarrow> \<not> is_valid sk)
    else ss' = ss \<and> s' = s \<and> ts = []"
  using destroy_owned [OF assms] destroy_borrowed [of ss os E s] assms by auto

text \<open>A mask of events is read back from what is printed of it, up to bits without a name.\<close>

theorem event_masks_read_back: "read_flags epoll_names (epoll_events_text e) = e AND all_flags epoll_names"
  by (rule events_read_back)

section \<open>Locks and threads\<close>

text \<open>Whatever a scope does with a scoped lock over a mutex or a spinlock, the end of the scope
  leaves the mutex as the scope found it, and no call on the way is undefined.\<close>

theorem scope_restores_mutex:
  assumes "guard_new mutex_lock m = Some g"
    and "guard_calls mutex_lock mutex_try_lock mutex_unlock calls g = Some r"
  shows "\<exists>g'. r = Inr g' \<and> guard_destroy mutex_unlock g' = Inr m"
  by (rule mtx.scope_calls_restore [OF assms])

theorem scope_restores_mutex_witness:
  "\<exists>g'. guard_calls mutex_lock mutex_try_lock mutex_unlock [Unlock, Try_lock, Lock] (True, True) = Some (Inr g') \<and>
    guard_destroy mutex_unlock g' = Inr False"
proof -
  have n: "guard_new mutex_lock False = Some (True, True)"
    by (simp add: guard_new_def guard_lock_def mutex_lock_def)
  have c: "guard_calls mutex_lock mutex_try_lock mutex_unlock [Unlock, Try_lock, Lock] (True, True) =
      Some (Inr (True, True))"
    by (simp add: guard_lock_def guard_try_lock_def guard_unlock_def mutex_try_lock_def mutex_unlock_def Let_def)
  from scope_restores_mutex [OF n c] show ?thesis unfolding c by simp
qed

text \<open>Threads that use read and write locks over one \<open>RWMutex\<close>: the mutex counts the read locks,
  and a write lock excludes all others.\<close>

theorem readers_and_writers:
  assumes "rtranclp rw_step rw_world_new w"
  shows "rw_readers (ww_mutex w) = length (ww_read w) \<and> length (ww_write w) \<le> 1 \<and>
    (ww_write w \<noteq> [] \<longrightarrow> ww_read w = [])"
proof -
  have "rw_inv w" using assms by (induction rule: rtranclp_induct) (auto intro: rw_world_inv rw_step_inv)
  then show ?thesis by (cases "rw_writer (ww_mutex w)") (auto simp: rw_inv_def)
qed

theorem readers_and_writers_witness:
  "\<exists>w. rw_step rw_world_new w \<and> rw_readers (ww_mutex w) = 1 \<and> length (ww_read w) = 1"
proof -
  have g: "read_guard_lock (5 \<in> set (ww_read rw_world_new), ww_mutex rw_world_new) = Some (True, \<lparr>rw_readers = 1, rw_writer = False\<rparr>)"
    by (simp add: read_guard_lock_def guard_lock_def rw_world_new_def rw_rdlock_def rw_new_def)
  then have s: "rw_step rw_world_new (rw_world_new\<lparr>ww_mutex := \<lparr>rw_readers = 1, rw_writer = False\<rparr>,
      ww_read := (if 5 \<in> set (ww_read rw_world_new) then ww_read rw_world_new else 5 # ww_read rw_world_new)\<rparr>)" (is "rw_step _ ?w")
    by (rule rw_step.read_lock)
  have "rw_readers (ww_mutex ?w) = length (ww_read ?w)" using readers_and_writers [of ?w] s by blast
  moreover have "length (ww_read ?w) = 1" by (simp add: rw_world_new_def)
  ultimately show ?thesis using s by (intro exI [of _ ?w]) simp
qed

text \<open>C29. When the constructor of \<open>Thread\<close> has returned, the thread runs: its kernel id is in the
  object, its name is set, the callback has left the object and is, or has been, called
  exactly once.\<close>

theorem thread_started:
  assumes "thread_reach cb name tid w" "tw_ctor w = Returned_ctor"
  shows "th_id (tw_thread w) = Some tid \<and> th_name (tw_thread w) = thread_named name \<and> tw_os_name w = take 15 (thread_named name) \<and>
    th_callback (tw_thread w) = None \<and> th_handle (tw_thread w) \<noteq> None \<and>
    (tw_called w = [cb] \<or> tw_called w = [] \<and> run_step tid w \<noteq> None)"
proof -
  have i: "thread_inv cb name tid w" by (rule thread_reach_inv [OF assms(1)])
  then have n: "notified (tw_run w)" using assms(2) by (simp add: thread_inv_def Let_def)
  then consider "tw_run w = Call_back" | "tw_run w = Ended" by (auto simp: notified_def)
  then show ?thesis
  proof cases
    case 1
    with i run_goes_on [OF i] show ?thesis by (simp add: thread_defs)
  next
    case 2
    with i show ?thesis by (simp add: thread_defs)
  qed
qed

theorem thread_started_witness:
  "\<exists>w. thread_reach 3 ''worker'' 77 w \<and> tw_ctor w = Returned_ctor \<and> th_id (tw_thread w) = Some 77"
proof -
  let ?w0 = "thread_start 3 ''worker''"
  obtain w1 where w1: "ctor_step True False ?w0 = Some w1" by (simp add: ctor_step_def thread_start_def)
  obtain w2 where w2: "run_step 77 w1 = Some w2" using w1
    by (auto simp: ctor_step_def thread_start_def run_step_def)
  obtain w3 where w3: "run_step 77 w2 = Some w3" using w1 w2
    by (auto simp: ctor_step_def thread_start_def run_step_def)
  obtain w4 where w4: "run_step 77 w3 = Some w4" using w1 w2 w3
    by (auto simp: ctor_step_def thread_start_def run_step_def)
  obtain w5 where w5: "run_step 77 w4 = Some w5" using w1 w2 w3 w4
    by (auto simp: ctor_step_def thread_start_def run_step_def)
  obtain w6 where w6: "run_step 77 w5 = Some w6" using w1 w2 w3 w4 w5
    by (auto simp: ctor_step_def thread_start_def run_step_def posix_sem_notify_def SEM_VALUE_MAX_def)
  obtain w7 where w7: "ctor_step True False w6 = Some w7" "tw_ctor w7 = Returned_ctor" using w1 w2 w3 w4 w5 w6
    by (auto simp: ctor_step_def thread_start_def run_step_def posix_sem_notify_def posix_sem_wait_def SEM_VALUE_MAX_def)
  have "thread_reach 3 ''worker'' 77 w7"
    by (intro thread_reach.ctor [OF thread_reach.run [OF thread_reach.run [OF thread_reach.run [OF thread_reach.run
        [OF thread_reach.run [OF thread_reach.ctor [OF thread_reach.start w1] w2] w3] w4] w5] w6] w7(1)])
  with thread_started [OF this w7(2)] w7(2) show ?thesis by blast
qed

text \<open>A thread that has been joined is detached by its destructor, which is undefined: \<open>join\<close>
  leaves the handle in the object.\<close>

theorem join_detaches_again:
  assumes "th_handle th = Some Joinable"
  shows "bindR (thread_join th) thread_destroy = Inl Undefined"
  using assms by (rule join_then_destroy)

theorem join_detaches_again_witness:
  "bindR (thread_join \<lparr>th_id = Some 1, th_name = ''t'', th_handle = Some Joinable, th_callback = None, th_sem = 0\<rparr>)
    thread_destroy = Inl Undefined"
  by (rule join_detaches_again) simp

section \<open>Logging\<close>

text \<open>C22. A pattern in the documented syntax is parsed into its items, literals, conversions and
  dates in order, unless it ends with a \<open>%d\<close> without braces: then the constructor raises
  \<open>std::out_of_range\<close>, though the documentation has the braces optional. All dates of the
  pattern share one format, which is all of theirs in a row, since the parser never clears
  it.\<close>

theorem pattern_parsed:
  assumes "documented segs"
  shows "formatter_new (pattern_text segs) =
    (if ends_bare segs then Inl Out_of_range
     else Inr \<lparr>fm_pattern = pattern_text segs, fm_items = map (seg_item (date_of segs)) segs, fm_is_error = False\<rparr>)"
  by (rule documented_parses [OF assms])

theorem pattern_parsed_witness:
  "formatter_new ''%d{%Y} [%p]%T%m%n'' =
    Inr \<lparr>fm_pattern = ''%d{%Y} [%p]%T%m%n'', fm_items = [Date_time_item ''%Y'', String_item '' ['', Level_item,
      String_item '']'', Tab_item, Message_item, New_line_item], fm_is_error = False\<rparr> \<and>
   formatter_new ''%m %d'' = Inl Out_of_range"
  using pattern_parsed [of "[Date ''%Y'', Lit '' ['', Item (CHR ''p''), Lit '']'', Item (CHR ''T''), Item (CHR ''m''),
      Item (CHR ''n'')]"] pattern_parsed [of "[Item (CHR ''m''), Lit '' '', Bare_date]"]
  by (simp add: format_items_def ends_bare_def)

text \<open>A date whose brace is not closed, or a date at the very end, raises \<open>std::out_of_range\<close>
  from the constructor; the branch that reports the error is never taken.\<close>

theorem open_date_raises:
  assumes "documented segs" "CHR ''}'' \<notin> set f" "rest = ''%d'' \<or> rest = ''%d{'' @ f"
  shows "formatter_new (pattern_text segs @ rest) = Inl Out_of_range"
  by (rule pattern_open_date [OF assms])

theorem open_date_raises_witness: "formatter_new ''%m %d{%H:%M'' = Inl Out_of_range"
  using open_date_raises [of "[Item (CHR ''m''), Lit '' '']" "''%H:%M''" "''%d{%H:%M''"] by (simp add: format_items_def)

text \<open>Logging an event through a logger appends, for each of its appenders in order whose level
  lets the event pass, the text of that appender's items, and changes nothing else; an event
  above the level of the logger changes nothing.\<close>

theorem log_reaches_appenders:
  assumes "list_all (dated strf w ev) (lg_appenders (lw_loggers w g))"
  shows "\<exists>w'. logger_log strf g l ev w = Inr w' \<and>
    lw_stdout w' = lw_stdout w @ (if l \<le> lg_level (lw_loggers w g)
      then concat (map (line_of strf w ev) (filter (\<lambda>a. takes w l a \<and> is_stdout w a) (lg_appenders (lw_loggers w g)))) else []) \<and>
    (\<forall>a. lw_lines w' a = lw_lines w a @ (if l \<le> lg_level (lw_loggers w g)
      then map (line_of strf w ev) (filter (\<lambda>b. b = a \<and> takes w l b \<and> \<not> is_stdout w b) (lg_appenders (lw_loggers w g))) else [])) \<and>
    lw_loggers w' = lw_loggers w \<and> lw_appenders w' = lw_appenders w \<and> lw_names w' = lw_names w"
  using log_appenders_spec [OF assms, of l] by (simp add: logger_log_def after_log_output)

theorem log_reaches_appenders_witness:
  "\<exists>w'. logger_log (\<lambda>_ _. None) 0 INFO (event_put ''hello'' (log_event_new ''root'' INFO ''f'' 1 0 0 0 0 ''t''))
      (add_appender 0 7 (manager_new 0
        (\<lambda>_. \<lparr>ap_level = DEBUG, ap_formatter = \<lparr>fm_pattern = ''%p %m'', fm_items = [Level_item, String_item '' '', Message_item],
          fm_is_error = False\<rparr>, ap_sink = To_stdout\<rparr>) (\<lambda>_. logger_named []))) = Inr w' \<and>
    lw_stdout w' = ''INFO hello''"
proof -
  let ?ev = "event_put ''hello'' (log_event_new ''root'' INFO ''f'' 1 0 0 0 0 ''t'')"
  let ?ap = "\<lparr>ap_level = DEBUG, ap_formatter = \<lparr>fm_pattern = ''%p %m'', fm_items = [Level_item, String_item '' '', Message_item],
          fm_is_error = False\<rparr>, ap_sink = To_stdout\<rparr>"
  let ?w = "add_appender 0 7 (manager_new 0 (\<lambda>_. ?ap) (\<lambda>_. logger_named []))"
  have l: "lg_appenders (lw_loggers ?w 0) = [7]" "lg_level (lw_loggers ?w 0) = DEBUG" "lw_appenders ?w = (\<lambda>_. ?ap)" "lw_stdout ?w = []"
    by (simp_all add: add_appender_def update_logger_def manager_new_def logger_new_def)
  have "INFO \<le> DEBUG" by (simp add: less_eq_level_def)
  moreover have "takes ?w INFO 7" "is_stdout ?w 7" "dated (\<lambda>_ _. None) ?w ?ev 7" "line_of (\<lambda>_ _. None) ?w ?ev 7 = ''INFO hello''"
    by (simp_all add: takes_def is_stdout_def dated_def line_of_def l less_eq_level_def item_text_def event_put_def log_event_new_def)
  ultimately show ?thesis using log_reaches_appenders [of "\<lambda>_ _. None" ?w ?ev 0 INFO] l by auto
qed

text \<open>\<open>get_logger\<close> always gives the same logger for a name, and different loggers for different
  names; the table keeps the root.\<close>

theorem loggers_by_name:
  assumes "names_ok w" "get_logger name fresh w = (g, w')" "fresh \<notin> snd ` set (lw_names w)"
    and "fresh' \<notin> snd ` set (lw_names w')"
  shows "names_ok w' \<and> get_logger name fresh' w' = (g, w') \<and>
    (\<forall>name'. name' \<noteq> name \<longrightarrow> fst (get_logger name' fresh' w') \<noteq> g)"
  using get_logger_again [OF assms(1,2)] get_logger_other [OF assms] names_get [OF assms(1,3), of name] assms(2) by auto

theorem loggers_by_name_witness:
  "\<exists>g w'. get_logger ''system'' 1 (manager_new 0 (\<lambda>_. undefined) (\<lambda>_. undefined)) = (g, w') \<and>
    get_logger ''system'' 2 w' = (g, w') \<and> fst (get_logger ''http'' 2 w') \<noteq> g"
proof -
  let ?w = "manager_new 0 (\<lambda>_. undefined) (\<lambda>_. undefined)"
  obtain g w' where g: "get_logger ''system'' 1 ?w = (g, w')" by fastforce
  have n: "lw_names ?w = [(''root'', 0)]" by (simp add: manager_new_def map_emplace_def)
  have "map_find (<) ''system'' (lw_names ?w) = None" unfolding n by code_simp
  then have "set (lw_names w') \<subseteq> {(''root'', 0), (''system'', 1)}"
    using g std_less.set_map_emplace [of "''system''" 1 "lw_names ?w"] by (auto simp: get_logger_def n)
  then have f: "2 \<notin> snd ` set (lw_names w')" by auto
  have "1 \<notin> snd ` set (lw_names ?w)" by (simp add: n)
  from loggers_by_name [OF names_new g this f] g show ?thesis by auto
qed

text \<open>C13. The asynchronous logger loses no line of a logging thread and keeps their order: in every
  interleaving with the writing thread, spurious wake-ups included, in which a wait that has
  timed out finds no full buffer (\<open>async_timeout_overtakes\<close> is about the others), \<open>append\<close> is
  always defined, and when the destructor then runs while no thread is in a section under the
  mutex, its accesses end with the file holding all lines that fit a buffer, in the order
  they were logged. The destructor takes no lock, so nothing in the code sees to that last
  condition; \<open>destructor_overlaps\<close> shows what happens inside the loop of the writing thread.\<close>

theorem async_in_order:
  assumes "logged ls s" "al_pending s 0 = None"
  shows "(\<exists>c. accesses (replicate (3 * length (al_flush s) + 3) False) (both_start W_done s) = Some (Inr c) \<and>
      ov_destroyer c = D_done \<and> al_file (ov_logger c) = concat (map kept ls)) \<and>
    (\<exists>s'. async_append pick 0 line s = Inr s')"
  using destroyer_alone [of s W_done] destroy_writes [OF logged_inv [OF assms(1)] assms(2)]
    append_inv [OF logged_inv [OF assms(1)] assms(2), of pick line] by fastforce

theorem async_in_order_witness:
  "\<exists>s. logged [''one'', ''two''] s \<and> al_flusher s = At_top \<and>
    (\<exists>c. accesses (replicate (3 * length (al_flush s) + 3) False) (both_start W_done s) = Some (Inr c) \<and>
      al_file (ov_logger c) = ''onetwo'')"
proof -
  obtain s0 where s0: "async_new True = Inr s0" by (simp add: async_new_def)
  obtain s1 where s1: "async_append 0 0 ''one'' s0 = Inr s1" "al_pending s0 0 = None" "al_flusher s0 = At_top"
    using s0 by (auto simp: async_new_def async_append_def available_def BUFFER_SIZE_def Let_def)
  have p1: "al_pending s1 0 = None" "al_flusher s1 = At_top" "al_data s1 0 = ''one''" "al_cur s1 = 0"
    using s0 s1 by (auto simp: async_new_def async_append_def buffer_append_def available_def BUFFER_SIZE_def Let_def)
  obtain s2 where s2: "async_append 0 0 ''two'' s1 = Inr s2" "al_pending s2 0 = None" "al_flusher s2 = At_top"
    using p1 by (auto simp: async_append_def available_def BUFFER_SIZE_def Let_def)
  have l: "logged ([] @ [''one''] @ [''two'']) s2"
    using logged.append [OF logged.append [OF logged.start [OF s0] s1(2,1)] p1(1) s2(1)] by simp
  have "concat (map kept ([] @ [''one''] @ [''two''])) = ''onetwo''" by (simp add: kept_def BUFFER_SIZE_def)
  with async_in_order [OF l s2(2)] s2(3) l show ?thesis by (intro exI [of _ s2]) auto
qed

text \<open>The destructor can run inside the loop of the writing thread: whenever a full buffer is
  queued there is an interleaving of the two in which both read it at the front of the queue
  and its contents are written twice; and when it was the last one, the thread that pops
  second pops an empty queue.\<close>

theorem destructor_overlaps:
  assumes "al_flush s = b # bs"
  shows "\<exists>c. accesses [True, False, True, False] (both_start W_test s) = Some (Inr c) \<and>
    al_file (ov_logger c) = al_file s @ al_data s b @ al_data s b \<and>
    (bs = [] \<longrightarrow> accesses [True, False] c = Some (Inl Undefined))"
  by (rule destroyer_overlaps [OF assms])

theorem destructor_overlaps_witness:
  "\<exists>s c. logged [long_line, ''b''] s \<and> al_flusher s = Back True \<and> al_run s \<and>
    accesses [True, False, True, False] (both_start W_test s) = Some (Inr c) \<and>
    al_file (ov_logger c) = long_line @ long_line \<and> accesses [True, False] c = Some (Inl Undefined)"
proof -
  obtain s0 where s0: "async_new True = Inr s0" by (simp add: async_new_def)
  obtain s1 where s1: "async_append 0 0 long_line s0 = Inr s1"
    using s0 by (auto simp: async_new_def async_append_def available_def long_line_length BUFFER_SIZE_def Let_def)
  have p: "al_pending s0 0 = None" "al_pending s1 0 = None" "al_flusher s1 = At_top" "al_waiters s1 = []" "al_run s1"
    "al_data s1 = (\<lambda>_. [])(0 := long_line)" "al_cur s1 = 0" "al_free s1 = [0..<4]" "al_flush s1 = []" "al_file s1 = []"
    using s0 s1
    by (auto simp: async_new_def async_append_def buffer_append_def available_def long_line_length BUFFER_SIZE_def
        BUFFER_NUM_def Let_def)
  let ?s2 = "flusher_wait s1"
  obtain s3 where s3: "async_append 0 0 ''b'' ?s2 = Inr s3" "al_flusher s3 = Back True" "al_flush s3 = [0]"
    "al_file s3 = []" "al_data s3 0 = long_line" "al_run s3"
    using p by (simp add: async_append_def append_loop_def append_take_def flusher_wait_def available_def
      buffer_append_def long_line_length BUFFER_SIZE_def cond_signal_def wake_def upt_rec_numeral Let_def)
  have p2: "al_pending ?s2 0 = None" using p(2,5) by (simp add: flusher_wait_def)
  have "logged ([] @ [long_line] @ [''b'']) s3"
    using logged.append [OF logged.enter [OF logged.append [OF logged.start [OF s0] p(1) s1] p(3)] p2 s3(1)] by simp
  with destructor_overlaps [OF s3(3)] s3 show ?thesis by auto
qed

text \<open>A wait that times out while a full buffer is queued writes the current buffer first: the
  second line of this run stands before the first one in the file.\<close>

theorem async_timeout_overtakes:
  "\<exists>s s'. async_new True = Inr s \<and> async_run overtaking_run s = Some (Inr s') \<and>
    al_file (async_destroy s') = ''b'' @ long_line"
  by (rule timeout_overtakes)

text \<open>C36. A thread can wait for ever in \<open>append\<close>: when it fills all buffers before the writing thread
  has come to its wait, its signal is lost; from then on no sequence of steps without another
  \<open>append\<close> wakes it, and another thread's \<open>append\<close> of a line that does not fit is undefined. Only
  a spurious wake-up, which a condition variable may but need not have, could help; it is no
  step of these runs.\<close>

theorem async_hangs:
  "\<exists>s0 s. async_new True = Inr s0 \<and> async_run filling_run s0 = Some (Inr s) \<and> al_pending s 0 \<noteq> None \<and>
    (\<forall>as r. async_run as s = Some r \<and> no_append as \<longrightarrow> (\<exists>s'. r = Inr s' \<and> al_pending s' 0 = al_pending s 0)) \<and>
    async_append 0 1 long_line s = Inl Undefined"
proof -
  obtain s0 s where s: "async_new True = Inr s0" "async_run filling_run s0 = Some (Inr s)" "asleep s"
    "al_data s (al_cur s) = long_line" using filled by blast
  have "async_append 0 1 long_line s = Inl Undefined"
    by (rule second_waiter_undefined [OF s(3)])
       (use s(4) in \<open>simp add: available_def long_line_length BUFFER_SIZE_def\<close>)
  moreover have "\<exists>s'. r = Inr s' \<and> al_pending s' 0 = al_pending s 0" if "async_run as s = Some r" "no_append as" for as r
    using asleep_for_ever [OF s(3) that] by blast
  moreover have "al_pending s 0 \<noteq> None" using s(3) by (simp add: asleep_def)
  ultimately show ?thesis using s(1,2) by blast
qed

theorem async_hangs_witness:
  "\<exists>s0 s. async_new True = Inr s0 \<and> async_run filling_run s0 = Some (Inr s) \<and>
    (\<forall>r. async_run [(0, Enter_wait), (0, Time_out), (0, Leave_wait)] s = Some r \<longrightarrow>
      (\<exists>s'. r = Inr s' \<and> al_pending s' 0 \<noteq> None))"
proof -
  let ?as = "[(0, Enter_wait), (0, Time_out), (0, Leave_wait)]"
  obtain s0 s where s: "async_new True = Inr s0" "async_run filling_run s0 = Some (Inr s)" "al_pending s 0 \<noteq> None"
    and h: "\<forall>as r. async_run as s = Some r \<and> no_append as \<longrightarrow> (\<exists>s'. r = Inr s' \<and> al_pending s' 0 = al_pending s 0)"
    using async_hangs by blast
  have "no_append ?as" by (simp add: no_append_def)
  with h have "\<exists>s'. r = Inr s' \<and> al_pending s' 0 \<noteq> None" if "async_run ?as s = Some r" for r
    using s(3) that by (metis (no_types, lifting))
  with s(1,2) show ?thesis by blast
qed

section \<open>Configuration and process\<close>

text \<open>Integers that are printed are read back, at every width.\<close>

theorem integers_read_back:
  "convert_int (to_string_signed (i :: u32)) = Inr i" "convert_uint (to_string_unsigned (i :: u32)) = Inr i"
  "convert_long (to_string_signed (l :: u64)) = Inr l" "convert_ulong (to_string_unsigned l) = Inr l"
  by (rule int_text.read_back uint_text.read_back long_text.read_back ulong_text.read_back)+

text \<open>\<open>lexical_cast<unsigned int>\<close> takes any number of 64 bits and cuts it off.\<close>

theorem unsigned_int_cut_off: "convert_uint (show_nat (2 ^ 32 + 1)) = Inr 1"
  using uint_truncates [of "2 ^ 32 + 1" "2 ^ 32 + 1"] by simp

text \<open>C15. Loading a document sets every registered variable, with or without listeners, to the last
  value the document gives it that can be converted, and leaves it alone when there is none;
  every listener, the keys of the listeners being distinct as those of a map are, hears of
  every change on the way, with the old and the new value, and of nothing else; and under a
  key without a listener nothing is called. Listeners that throw or that change variables
  themselves are outside the model.\<close>

theorem load_sets_variables:
  fixes from_str :: "'ty \<Rightarrow> string \<Rightarrow> 'v option" and y :: yaml_lib and root :: yaml
  assumes "config_ok cf" "look_up_base k cf = Some a"
  defines "vs \<equiv> values_for from_str y (cv_type (cf_vars cf a)) k (list_all_members [] root)"
    and "listeners \<equiv> cv_callbacks (cf_vars cf a)"
  shows "cv_val (cf_vars (snd (load_from_yaml from_str y root ([], cf))) a) = last (cv_val (cf_vars cf a) # vs) \<and>
    (distinct (map fst listeners) \<longrightarrow> (\<forall>key. heard a key (fst (load_from_yaml from_str y root ([], cf))) =
      (if key \<in> fst ` set listeners then changes (cv_val (cf_vars cf a)) vs else [])))"
  using load_value [of "([], cf)" k a from_str y root] load_heard [of "([], cf)" k a _ from_str y]
    load_unheard [of "([], cf)" k a _ from_str y] assms
  by (simp add: load_from_yaml_def heard_def [of a _ "[]"])

text \<open>A variable with one listener, of a type whose values are texts that are not empty.\<close>

definition test_var :: "(nat, string) config_var" where
  "test_var = \<lparr>cv_name = ''a.b'', cv_description = [], cv_type = 0, cv_val = ''x'', cv_callbacks = [(1, 9)]\<rparr>"

definition test_config :: "(nat, string) config" where
  "test_config = \<lparr>cf_vars = (\<lambda>_. test_var), cf_datas = [(''a.b'', 5)], cf_mtimes = []\<rparr>"

definition test_yaml :: yaml_lib where
  "test_yaml = \<lparr>y_load = (\<lambda>s. Some (Scalar s)), y_dump = (\<lambda>n. []), y_items = (\<lambda>n. []), y_entries = (\<lambda>n. [])\<rparr>"

definition test_from_str :: "nat \<Rightarrow> string \<Rightarrow> string option" where
  "test_from_str ty s = (if s = [] then None else Some s)"

lemma test_config_ok: "config_ok test_config"
proof -
  have "name_ok ''a.b''" by (simp add: name_ok_def less_eq_char_def)
  then show ?thesis
    by (auto simp: config_ok_def test_config_def test_var_def look_up_base_def map_find_def equiv_key_def split: if_splits)
qed

theorem load_sets_variables_witness:
  "cv_val (cf_vars (snd (load_from_yaml test_from_str test_yaml
      (Mapping [(''a'', Mapping [(''b'', Scalar ''y''), (''c'', Scalar ''q'')])]) ([], test_config))) 5) = ''y''"
proof -
  have k: "look_up_base ''a.b'' test_config = Some 5" by (simp add: test_config_def look_up_base_def map_find_def equiv_key_def)
  have c: "cf_vars test_config 5 = test_var" by (simp add: test_config_def)
  have v: "values_for test_from_str test_yaml (cv_type (cf_vars test_config 5)) ''a.b''
      (list_all_members [] (Mapping [(''a'', Mapping [(''b'', Scalar ''y''), (''c'', Scalar ''q'')])])) = [''y'']"
    unfolding c by code_simp
  from load_sets_variables [OF test_config_ok k, of test_from_str test_yaml
      "Mapping [(''a'', Mapping [(''b'', Scalar ''y''), (''c'', Scalar ''q'')])]"]
  show ?thesis unfolding v by (simp only: last.simps simp_thms list.simps if_False if_True)
qed

text \<open>The names of a document are exactly the dotted paths of its nodes that consist of lower-case
  letters, digits, underscores and dots.\<close>

theorem document_names:
  "set (list_all_members [] root) = {(dotted [] p, n) |p n. yaml_at root p n \<and> name_ok (dotted [] p)}"
  by (rule members_exact)

text \<open>\<open>look_up\<close> with a default finds the variable of that name and type or makes one, and keeps the
  table; a variable of another type is not an error: it is replaced in the table, so that
  its holders hear of no document any more.\<close>

theorem look_up_replaces:
  assumes "config_ok cf" "look_up_base name cf = Some a" "cv_type (cf_vars cf a) \<noteq> ty"
    and "to_str (cv_type (cf_vars cf a)) (cv_val (cf_vars cf a)) \<noteq> None" "\<And>k. look_up_base k cf \<noteq> Some fresh"
  shows "\<exists>cf'. config_look_up to_str ty name v d fresh cf = Inr (fresh, cf') \<and> config_ok cf' \<and>
    look_up_base name cf' = Some fresh \<and> (\<forall>k. look_up_base k cf' \<noteq> Some a)"
proof -
  have n: "name_ok name" using assms(1,2) by (auto simp: config_ok_def)
  have "a \<noteq> fresh" using assms(2,5) by metis
  have l: "config_look_up to_str ty name v d fresh cf = Inr (fresh, replaced ty name v d fresh cf)"
    by (rule look_up_new [OF n]) (use assms in auto)
  with replaced_ok [OF assms(1) n assms(5)] find_replaced [OF assms(1)] \<open>a \<noteq> fresh\<close> config_inj [OF assms(1,2)]
  show ?thesis by auto
qed

theorem look_up_replaces_witness:
  "\<exists>cf'. config_look_up (\<lambda>ty v. Some v) 1 ''a.b'' ''new'' [] 6 test_config = Inr (6, cf') \<and> look_up_base ''a.b'' cf' = Some 6"
proof -
  have "look_up_base ''a.b'' test_config = Some 5" "cv_type (cf_vars test_config 5) \<noteq> 1"
    by (simp_all add: test_config_def test_var_def look_up_base_def map_find_def equiv_key_def)
  moreover have "look_up_base k test_config \<noteq> Some 6" for k
    by (auto simp: test_config_def look_up_base_def map_find_def)
  ultimately show ?thesis
    using look_up_replaces [OF test_config_ok, of "''a.b''" 5 1 "\<lambda>ty v. Some v" 6 "''new''" "[]"] by auto
qed

text \<open>Loading a directory again when no file has changed calls no listener and changes no
  variable.\<close>

theorem reload_changes_nothing:
  assumes "mtimes_ok (snd st)" "st1 = load_from_conf_dir from_str y dirs mtime load_file e path force st"
  shows "fst (load_from_conf_dir from_str y dirs mtime load_file e path False st1) = fst st1 \<and>
    cf_vars (snd (load_from_conf_dir from_str y dirs mtime load_file e path False st1)) = cf_vars (snd st1)"
  by (rule reload_skips [OF assms])

theorem reload_changes_nothing_witness:
  "fst (load_from_conf_dir test_from_str test_yaml (\<lambda>_. Some [(''a.yml'', Regular)]) (\<lambda>_. 3)
      (\<lambda>_. Some (Mapping [(''a'', Mapping [(''b'', Scalar ''y'')])])) (env_new (\<lambda>_. None)) ''/conf'' False
      ([(5, 1, 9, ''x'', ''y'')], test_config\<lparr>cf_mtimes := [(''/conf/a.yml'', 3)]\<rparr>)) = [(5, 1, 9, ''x'', ''y'')]"
proof -
  let ?l = "load_from_conf_dir test_from_str test_yaml (\<lambda>_. Some [(''a.yml'', Regular)]) (\<lambda>_. 3)
      (\<lambda>_. Some (Mapping [(''a'', Mapping [(''b'', Scalar ''y'')])])) (env_new (\<lambda>_. None)) ''/conf''"
  let ?st = "([(5, 1, 9, ''x'', ''y'')], test_config\<lparr>cf_mtimes := [(''/conf/a.yml'', 3)]\<rparr>)"
  have "list_all_file [] ''/conf'' ''.yml'' (Some [(''a.yml'', Regular)]) = [''/conf/a.yml'']" by code_simp
  moreover have "get_absolute_path ''/conf'' (env_new (\<lambda>_. None)) = ''/conf''" by (simp add: get_absolute_path_def)
  ultimately have "?st = ?l False ?st"
    by (simp add: load_from_conf_dir_def load_file_step_def map_find_def map_assign_def equiv_key_def Let_def)
  with reload_changes_nothing [of ?st ?st test_from_str test_yaml] show ?thesis by simp
qed

text \<open>C14. The static copies that the client, the pool, the server and the registry keep of their
  settings follow the variables: whatever files have been initialised, in any order, and
  whatever documents were loaded, after the next document a copy holds the last value that
  the document gives its variable, or the value it had; the client that connects then has
  a channel of the capacity that was configured.\<close>

theorem settings_followed:
  assumes "settings_run st" "cb < 4" "look_up_base (setting_name cb) (st_config st) = Some a"
    and "vs = values_for setting_from_string y (cv_type (cf_vars (st_config st) a)) (setting_name cb)
      (list_all_members [] root)"
  shows "st_copy (load_settings y root st) cb = setting_bits (last (cv_val (cf_vars (st_config st) a) # vs)) \<and>
    (cb = 0 \<longrightarrow> ch_capacity (cl_channel (snd (client_connect True True
        (unat (st_copy (load_settings y root st) 0)) cl))) =
      unat (setting_bits (last (cv_val (cf_vars (st_config st) a) # vs))))"
  using copies_follow [OF assms(1-3), of y root] assms(4) by (auto simp: client_connect_def channel_new_def)

theorem settings_followed_witness:
  "\<exists>st. settings_run st \<and> st_copy (load_settings test_yaml
      (Mapping [(''rpc'', Mapping [(''client'', Mapping [(''channel_capacity'', Scalar ''64'')])])]) st) 0 = 64"
proof -
  let ?n = "''rpc.client.channel_capacity''"
  let ?r = "Mapping [(''rpc'', Mapping [(''client'', Mapping [(''channel_capacity'', Scalar ''64'')])])]"
  define st0 where "st0 = settings_new (\<lambda>_. config_var_new [] T_uint64 (V64 0) []) (\<lambda>_. 0)"
  have l: "look_up_base k (st_config st0) = None" for k
    by (simp add: st0_def settings_new_def config_new_def look_up_base_def map_find_def)
  have h: "\<not> heeds (st_config st0) 0 a" for a by (simp add: heeds_def l)
  have ok: "settings_ok st0" unfolding st0_def by (rule settings_new_ok)
  obtain st where i: "client_static 5 st0 = Inr st" "look_up_base ?n (st_config st) = Some 5"
    "cv_type (cf_vars (st_config st) 5) = T_uint64"
    using client_capacity.init_ok [OF ok, of 5] l h by auto
  have n: "setting_name 0 = ?n" by (simp add: setting_name_def)
  have run: "settings_run st"
    by (rule settings_run.intros(2) [of st0 5]) (use i l n in \<open>auto simp: st0_def unused_def intro: settings_run.intros(1)\<close>)
  have m: "list_all_members [] ?r = [([], ?r), (''rpc'', Mapping [(''client'', Mapping [(''channel_capacity'', Scalar ''64'')])]),
      (''rpc.client'', Mapping [(''channel_capacity'', Scalar ''64'')]), (?n, Scalar ''64'')]" by code_simp
  have "digit 6 = CHR ''6''" "digit 4 = CHR ''4''" by code_simp+
  then have "to_string_unsigned (64 :: u64) = ''64''" by (simp add: to_string_unsigned_def show_base.simps)
  then have "convert_ulong ''64'' = Inr 64" using ulong_text.read_back [of 64] by simp
  moreover have "map lower_char ''rpc'' = ''rpc''" "map lower_char ''rpc.client'' = ''rpc.client''" "map lower_char ?n = ?n"
    by code_simp+
  ultimately have "values_for setting_from_string test_yaml T_uint64 ?n (list_all_members [] ?r) = [V64 64]"
    unfolding m by (simp add: node_text_def)
  with settings_followed [OF run, of 0 5, OF _ _ refl, of test_yaml ?r, THEN conjunct1] i n
  have "st_copy (load_settings test_yaml ?r st) 0 = 64" by (simp add: setting_bits_def)
  with run show ?thesis by blast
qed

text \<open>A variable that is set from its own text stays as it is and calls no listener; a \<open>bool\<close>
  cannot be set from its own text, which is a number.\<close>

theorem own_text_changes_nothing:
  assumes "cv_to_string (\<lambda>ty v. Some (to_string_unsigned v)) cv = Inr s"
  shows "cv_from_string (\<lambda>ty s. res_option (convert_ulong s)) s cv = (True, [], cv) \<and>
    convert_bool (to_string_bool b) = Inl Invalid_argument"
  using ulong_text.own_text [OF assms] bool_not_read_back by blast

text \<open>A server configuration that is written out as a document is read back, when its timeout fits
  an \<open>int\<close>; one of the three workers left out is an exception.\<close>

theorem server_conf_read_back:
  assumes "tc_timeout conf < 2 ^ 31"
  shows "conf_of_node (res_option \<circ> convert_int) (res_option \<circ> convert_ulong) index
      (conf_node conf to_string_signed to_string_unsigned) = Some conf \<and>
    (as_string (map_of es ''io_worker'') = None \<longrightarrow> conf_of_node as_int as_u64 index (Mapping es) = None)"
  using conf_roundtrip [OF _ _ assms, of "res_option \<circ> convert_int" to_string_signed "res_option \<circ> convert_ulong"]
    conf_needs_workers [of es "''io_worker''"]
  by (simp add: int_text.read_back ulong_text.read_back)

text \<open>C34. \<open>list_all_file\<close> appends the regular files below the directory whose names end in the
  suffix, each once, behind what the list held: they stand in the order in which the
  directories show their entries (positions in lexicographic order), each with the path of
  its names; a path that is no directory adds nothing.\<close>

theorem files_listed:
  "\<exists>ps. list_all_file files path subfix (Some es) = files @ map (path_text path \<circ> the \<circ> file_at es) ps \<and>
    sorted_wrt ord_class.lexordp ps \<and>
    set ps = {p. \<exists>names. file_at es p = Some names \<and> suffix subfix (last names)} \<and>
    list_all_file files path subfix None = files"
  using list_all_file_exact [of files path subfix es] by (auto simp: list_all_file_def)

text \<open>The options of the command line are never read: the loop starts at the name of the program,
  which is no option, and gives up there.\<close>

theorem init_reads_nothing:
  assumes "argv \<noteq> []" "hd argv = [] \<or> hd (hd argv) \<noteq> CHR ''-''"
  shows "\<exists>e'. env_init link argv e = Inr (False, e') \<and> env_args e' = env_args e"
  using init_stops [OF assms] by simp

theorem init_reads_nothing_witness:
  "\<exists>e'. env_init ''/bin/acid'' [''acid'', ''-c'', ''conf''] (env_new (\<lambda>_. None)) = Inr (False, e') \<and> env_args e' = []"
  using init_reads_nothing [of "[''acid'', ''-c'', ''conf'']" "''/bin/acid''" "env_new (\<lambda>_. None)"] by (simp add: env_new_def)

text \<open>Where it starts at an option it reads all of them, with and without values.\<close>

theorem options_read:
  assumes "list_all opt_ok opts"
  shows "init_args (concat (map opt_words opts)) None e = (True, fold add_opt opts e)"
  using init_args_opts [OF assms, of None e] by (simp add: flush_key_def)

theorem options_read_witness:
  "init_args [''-c'', ''conf'', ''-d''] None (env_new (\<lambda>_. None)) =
    (True, env_add ''d'' [] (env_add ''c'' ''conf'' (env_new (\<lambda>_. None))))"
  using options_read [of "[(''c'', Some ''conf''), (''d'', None)]" "env_new (\<lambda>_. None)"]
  by (simp add: opt_ok_def opt_words_def add_opt_def)

text \<open>C33. The daemon ends exactly when some child does not crash; \<open>n\<close> crashes before are \<open>n\<close> restarts,
  each after the interval that the configuration gives by then.\<close>

theorem daemon_restarts_until_done:
  "((\<exists>r. real_daemon forks pid now interval p = Some r) \<longleftrightarrow> (\<exists>j. \<not> crashed (forks j))) \<and>
   ((\<forall>j < n. crashed (forks j)) \<and> forks n = In_parent 0 \<longrightarrow>
    real_daemon forks pid now interval p =
      Some (Returns 0, restarted n (p\<lparr>pi_parent_id := pid, pi_parent_start_time := now\<rparr>), map interval [0..<n]))"
proof (intro conjI impI)
  show "(\<exists>r. real_daemon forks pid now interval p = Some r) \<longleftrightarrow> (\<exists>j. \<not> crashed (forks j))"
    unfolding real_daemon_def by (rule daemon_terminates)
next
  assume "(\<forall>j < n. crashed (forks j)) \<and> forks n = In_parent 0"
  then show "real_daemon forks pid now interval p =
      Some (Returns 0, restarted n (p\<lparr>pi_parent_id := pid, pi_parent_start_time := now\<rparr>), map interval [0..<n])"
    using daemon_restarts [of n forks 0 interval "p\<lparr>pi_parent_id := pid, pi_parent_start_time := now\<rparr>" "[]"]
    by (auto simp: real_daemon_def daemon_loop.simps [of forks interval n])
qed

theorem daemon_restarts_until_done_witness:
  "real_daemon (\<lambda>i. In_parent (if i < 2 then 1 else 0)) 10 0 (\<lambda>i. 5 + of_nat i) process_info_new =
    Some (Returns 0, restarted 2 (process_info_new\<lparr>pi_parent_id := 10, pi_parent_start_time := 0\<rparr>), [5, 6])"
  using daemon_restarts_until_done [of "\<lambda>i. In_parent (if i < 2 then 1 else 0)" 10 0 "\<lambda>i. 5 + of_nat i" process_info_new 2]
  by (simp add: crashed_def numeral_2_eq_2)

end
